(* ===== verification/Prelude.thy ===== *)
theory Prelude
  imports Main "HOL-Library.AList"
begin

text \<open>
  Shared vocabulary of the development: Go error values with their wrapping chains, the outcome of
  a Go call that may panic, and the lemma collections the component theories extend.

  A Go error is a value of \<open>go_error\<close>. \<open>errors.New(s)\<close> is \<open>ErrNew s\<close>,
  \<open>fmt.Errorf("msg: %w", e)\<close> is \<open>ErrWrap msg e\<close>, \<open>fmt.Errorf("%wtail", e)\<close> is
  \<open>ErrSuffix e tail\<close>, \<open>errors.Join\<close> is \<open>ErrJoin\<close>, the
  sentinels of the \<open>errdefs\<close> package are \<open>Errdef\<close> and other package level error values
  (\<open>io.EOF\<close>, \<open>unix.ESRCH\<close>) are \<open>Sentinel\<close>. A nil error is \<open>None\<close> of \<open>go_error option\<close>.
  The conversion \<open>errgrpc.ToGRPC\<close> at the RPC boundary keeps message and class and is left out:
  a handler of the model returns the error it converts.
\<close>

section \<open>Errors\<close>

datatype errdef =
    ErrNotFound
  | ErrAlreadyExists
  | ErrInvalidArgument
  | ErrFailedPrecondition
  | ErrNotImplemented
  | ErrUnavailable

datatype go_error =
    Errdef errdef
  | Sentinel string
  | ErrNew string
  | ErrWrap string go_error
  | ErrSuffix go_error string
  | ErrJoin "go_error list"

type_synonym 'a result = "go_error + 'a"

fun errdef_msg :: "errdef \<Rightarrow> string" where
  "errdef_msg ErrNotFound = ''not found''"
| "errdef_msg ErrAlreadyExists = ''already exists''"
| "errdef_msg ErrInvalidArgument = ''invalid argument''"
| "errdef_msg ErrFailedPrecondition = ''failed precondition''"
| "errdef_msg ErrNotImplemented = ''not implemented''"
| "errdef_msg ErrUnavailable = ''unavailable''"

fun join_with :: "'a list \<Rightarrow> 'a list list \<Rightarrow> 'a list" where
  "join_with sep [] = []"
| "join_with sep [x] = x"
| "join_with sep (x # y # zs) = x @ sep @ join_with sep (y # zs)"

text \<open>The text of an error, \<open>err.Error()\<close>.\<close>

fun err_msg :: "go_error \<Rightarrow> string" where
  "err_msg (Errdef d) = errdef_msg d"
| "err_msg (Sentinel s) = s"
| "err_msg (ErrNew s) = s"
| "err_msg (ErrWrap s e) = s @ '': '' @ err_msg e"
| "err_msg (ErrSuffix e s) = err_msg e @ s"
| "err_msg (ErrJoin es) = join_with [CHR 0x0A] (map err_msg es)"

text \<open>\<open>errors.Is(err, errdefs.X)\<close>: a search of the wrapping chain.\<close>

fun is_errdef :: "errdef \<Rightarrow> go_error \<Rightarrow> bool" where
  "is_errdef d (Errdef d') = (d = d')"
| "is_errdef d (Sentinel s) = False"
| "is_errdef d (ErrNew s) = False"
| "is_errdef d (ErrWrap s e) = is_errdef d e"
| "is_errdef d (ErrSuffix e s) = is_errdef d e"
| "is_errdef d (ErrJoin es) = list_ex (is_errdef d) es"

text \<open>Errors of the operating system that the code tests for.\<close>

definition enoent :: go_error where
  "enoent = Sentinel ''no such file or directory''"

definition eexist :: go_error where
  "eexist = Sentinel ''file exists''"

text \<open>\<open>errors.Join\<close> of a list of non-nil errors: nil when the list is empty.\<close>

definition join_errors :: "go_error list \<Rightarrow> go_error option" where
  "join_errors es = (if es = [] then None else Some (ErrJoin es))"

lemma join_errors_None [simp]: "join_errors es = None \<longleftrightarrow> es = []"
  by (simp add: join_errors_def)

section \<open>Calls that may panic\<close>

datatype 'a outcome = Ret 'a | Panic string

fun obind :: "'a outcome \<Rightarrow> ('a \<Rightarrow> 'b outcome) \<Rightarrow> 'b outcome" where
  "obind (Ret x) f = f x"
| "obind (Panic m) f = Panic m"

definition panics :: "'a outcome \<Rightarrow> bool" where
  "panics m \<longleftrightarrow> (case m of Ret _ \<Rightarrow> False | Panic _ \<Rightarrow> True)"

lemma panics_simps [simp]: "panics (Panic m)" "\<not> panics (Ret x)"
  by (simp_all add: panics_def)

lemma obind_Ret_iff [simp]: "obind m f = Ret y \<longleftrightarrow> (\<exists>x. m = Ret x \<and> f x = Ret y)"
  by (cases m) auto

lemma not_panics_iff: "\<not> panics m \<longleftrightarrow> (\<exists>x. m = Ret x)"
  by (cases m) auto

section \<open>Lemma collections\<close>

named_theorems ops \<open>definitions of the operations of a component\<close>
named_theorems keeps \<open>preservation of the invariants by single operations\<close>

section \<open>Lists and maps\<close>

text \<open>\<open>slices.IndexFunc\<close>: the first index whose element satisfies the predicate.\<close>

fun index_func :: "('a \<Rightarrow> bool) \<Rightarrow> 'a list \<Rightarrow> nat option" where
  "index_func p [] = None"
| "index_func p (x # xs) = (if p x then Some 0 else map_option Suc (index_func p xs))"

text \<open>\<open>slices.Delete(xs, i, i+1)\<close>.\<close>

definition delete_at :: "nat \<Rightarrow> 'a list \<Rightarrow> 'a list" where
  "delete_at i xs = take i xs @ drop (Suc i) xs"

lemma index_func_None [simp]: "index_func p xs = None \<longleftrightarrow> (\<forall>x\<in>set xs. \<not> p x)"
  by (induction xs) auto

lemma index_func_Some:
  "index_func p xs = Some i \<Longrightarrow> i < length xs \<and> p (xs ! i) \<and> (\<forall>j<i. \<not> p (xs ! j))"
proof (induction xs arbitrary: i)
  case Nil
  then show ?case by simp
next
  case (Cons x xs)
  then show ?case
    by (auto split: if_splits simp: nth_Cons less_Suc_eq_0_disj split: nat.splits)
qed

lemma delete_at_0 [simp]: "delete_at 0 (x # xs) = xs"
  by (simp add: delete_at_def)

lemma delete_at_Suc [simp]: "delete_at (Suc i) (x # xs) = x # delete_at i xs"
  by (simp add: delete_at_def)

lemma set_delete_at_subset: "set (delete_at i xs) \<subseteq> set xs"
  by (auto simp: delete_at_def dest: in_set_takeD in_set_dropD)

lemma delete_at_append_last: "delete_at (length xs) (xs @ [x]) = xs"
  by (simp add: delete_at_def)

lemma map_delete_at: "map f (delete_at i xs) = delete_at i (map f xs)"
  by (simp add: delete_at_def take_map drop_map)

lemma distinct_delete_at: "distinct xs \<Longrightarrow> distinct (delete_at i xs)"
  unfolding delete_at_def distinct_append
  by (metis Suc_n_not_le_n distinct_drop distinct_take nat_le_linear
      set_take_disj_set_drop_if_distinct)

lemma delete_at_notin:
  "distinct xs \<Longrightarrow> i < length xs \<Longrightarrow> xs ! i \<notin> set (delete_at i xs)"
  by (auto simp: delete_at_def in_set_conv_nth distinct_conv_nth)

section \<open>Go maps\<close>

text \<open>
  A Go map is an association list with distinct keys: a finite map that can be iterated. The order
  of the list stands for the order of an iteration, which Go leaves open; statements about the
  order of an iteration are made for every list.
\<close>

type_synonym ('k, 'v) gomap = "('k \<times> 'v) list"

abbreviation gm_get :: "('k, 'v) gomap \<Rightarrow> 'k \<Rightarrow> 'v option" where
  "gm_get m k \<equiv> map_of m k"

abbreviation gm_put :: "'k \<Rightarrow> 'v \<Rightarrow> ('k, 'v) gomap \<Rightarrow> ('k, 'v) gomap" where
  "gm_put k v m \<equiv> AList.update k v m"

abbreviation gm_del :: "'k \<Rightarrow> ('k, 'v) gomap \<Rightarrow> ('k, 'v) gomap" where
  "gm_del k m \<equiv> AList.delete k m"

definition gm_wf :: "('k, 'v) gomap \<Rightarrow> bool" where
  "gm_wf m \<longleftrightarrow> distinct (map fst m)"

lemma gm_get_put [simp]: "gm_get (gm_put k v m) k' = (if k' = k then Some v else gm_get m k')"
  by (simp add: update_conv')

lemma gm_get_del [simp]: "gm_get (gm_del k m) k' = (if k' = k then None else gm_get m k')"
  by (simp add: delete_conv')

lemma gm_wf_Nil [simp]: "gm_wf []"
  by (simp add: gm_wf_def)

lemma gm_wf_put [simp, intro]: "gm_wf m \<Longrightarrow> gm_wf (gm_put k v m)"
  by (simp add: gm_wf_def distinct_update)

lemma gm_wf_del [simp, intro]: "gm_wf m \<Longrightarrow> gm_wf (gm_del k m)"
  by (simp add: gm_wf_def distinct_delete)

lemma gm_keys_del [simp]: "fst ` set (gm_del k m) = fst ` set m - {k}"
  by (metis delete_keys set_map set_removeAll)

lemma gm_get_in: "gm_wf m \<Longrightarrow> (k, v) \<in> set m \<longleftrightarrow> gm_get m k = Some v"
  by (simp add: gm_wf_def)

text \<open>A map field of integers read with Go's zero default.\<close>

definition gm_int :: "('k, int) gomap \<Rightarrow> 'k \<Rightarrow> int" where
  "gm_int m k = (case gm_get m k of None \<Rightarrow> 0 | Some n \<Rightarrow> n)"

lemma gm_int_put [simp]: "gm_int (gm_put k v m) k' = (if k' = k then v else gm_int m k')"
  by (simp add: gm_int_def)

lemma gm_int_del [simp]: "gm_int (gm_del k m) k' = (if k' = k then 0 else gm_int m k')"
  by (simp add: gm_int_def)

text \<open>A map field of slices read with Go's nil default.\<close>

definition gm_list :: "('k, 'v list) gomap \<Rightarrow> 'k \<Rightarrow> 'v list" where
  "gm_list m k = (case gm_get m k of None \<Rightarrow> [] | Some xs \<Rightarrow> xs)"

lemma gm_list_put [simp]: "gm_list (gm_put k v m) k' = (if k' = k then v else gm_list m k')"
  by (simp add: gm_list_def)

lemma gm_list_del [simp]: "gm_list (gm_del k m) k' = (if k' = k then [] else gm_list m k')"
  by (simp add: gm_list_def)

lemma find_map: "find P (map f xs) = map_option f (find (P \<circ> f) xs)"
  by (induction xs) auto

lemma find_append: "find P (xs @ ys) = (case find P xs of None \<Rightarrow> find P ys | Some x \<Rightarrow> Some x)"
  by (induction xs) auto

end
