(* ===== verification/Go_Strings.thy ===== *)
theory Go_Strings
  imports Prelude "HOL-Library.Sublist"
begin

text \<open>
  The part of Go's standard library the repository's own code leans on for text: \<open>strings\<close>,
  \<open>strconv\<close>, \<open>fmt\<close> verbs, \<open>path\<close> and \<open>path/filepath\<close> (Unix flavour). A Go string is a byte
  sequence, here a \<open>string\<close>; the space and case functions cover ASCII.
\<close>

section \<open>Package strings\<close>

definition has_prefix :: "string \<Rightarrow> string \<Rightarrow> bool" where
  "has_prefix s p \<longleftrightarrow> prefix p s"

text \<open>\<open>strings.CutPrefix\<close>: \<open>Some\<close> of the rest when the prefix is found.\<close>

definition cut_prefix :: "string \<Rightarrow> string \<Rightarrow> string option" where
  "cut_prefix s p = (if prefix p s then Some (drop (length p) s) else None)"

definition trim_prefix :: "string \<Rightarrow> string \<Rightarrow> string" where
  "trim_prefix s p = (if prefix p s then drop (length p) s else s)"

fun contains :: "string \<Rightarrow> string \<Rightarrow> bool" where
  "contains [] t = (t = [])"
| "contains (c # s) t = (prefix t (c # s) \<or> contains s t)"

text \<open>\<open>strings.Split(s, sep)\<close> for a one byte separator: never empty.\<close>

fun split_on :: "char \<Rightarrow> string \<Rightarrow> string list" where
  "split_on c [] = [[]]"
| "split_on c (x # xs) =
     (if x = c then [] # split_on c xs
      else case split_on c xs of [] \<Rightarrow> [[x]] | w # ws \<Rightarrow> (x # w) # ws)"

text \<open>\<open>strings.Cut\<close>: before, after and whether the separator was found.\<close>

fun cut_at :: "char \<Rightarrow> string \<Rightarrow> string \<times> string \<times> bool" where
  "cut_at c [] = ([], [], False)"
| "cut_at c (x # xs) =
     (if x = c then ([], xs, True) else case cut_at c xs of (b, a, f) \<Rightarrow> (x # b, a, f))"

text \<open>\<open>strings.SplitN(s, sep, 2)\<close>: two parts when the separator occurs, else one.\<close>

definition split2 :: "char \<Rightarrow> string \<Rightarrow> string list" where
  "split2 c s = (case cut_at c s of (b, a, f) \<Rightarrow> if f then [b, a] else [s])"

definition is_space :: "char \<Rightarrow> bool" where
  "is_space c \<longleftrightarrow> c \<in> {CHR 0x09, CHR 0x0A, CHR 0x0B, CHR 0x0C, CHR 0x0D, CHR 0x20}"

definition trim_space :: "string \<Rightarrow> string" where
  "trim_space s = rev (dropWhile is_space (rev (dropWhile is_space s)))"

definition lower_char :: "char \<Rightarrow> char" where
  "lower_char c =
     (if 65 \<le> (of_char c :: nat) \<and> (of_char c :: nat) \<le> 90 then char_of (of_char c + 32 :: nat) else c)"

definition to_lower :: "string \<Rightarrow> string" where
  "to_lower s = map lower_char s"

section \<open>Numbers as text\<close>

definition digit :: "nat \<Rightarrow> char" where
  "digit d = (if d < 10 then char_of (48 + d) else char_of (87 + d))"

definition digit_val :: "char \<Rightarrow> nat option" where
  "digit_val c =
     (let n = of_char c :: nat in if 48 \<le> n \<and> n \<le> 57 then Some (n - 48) else None)"

text \<open>The verb \<open>%d\<close> on an unsigned value.\<close>

fun show_nat :: "nat \<Rightarrow> string" where
  "show_nat n = (if n < 10 then [digit n] else show_nat (n div 10) @ [digit (n mod 10)])"

declare show_nat.simps [simp del]

definition show_int :: "int \<Rightarrow> string" where
  "show_int i = (if i < 0 then CHR ''-'' # show_nat (nat (- i)) else show_nat (nat i))"

fun read_digits :: "nat \<Rightarrow> string \<Rightarrow> nat option" where
  "read_digits acc [] = Some acc"
| "read_digits acc (c # cs) =
     (case digit_val c of None \<Rightarrow> None | Some d \<Rightarrow> read_digits (10 * acc + d) cs)"

text \<open>\<open>strconv.ParseUint(s, 10, bits)\<close>: a syntax error or a range error.\<close>

definition parse_uint :: "string \<Rightarrow> nat \<Rightarrow> nat result" where
  "parse_uint s bits =
     (if s = [] then Inl (ErrNew ''invalid syntax'')
      else case read_digits 0 s of
        None \<Rightarrow> Inl (ErrNew ''invalid syntax'')
      | Some n \<Rightarrow> if n < 2 ^ bits then Inr n else Inl (ErrNew ''value out of range''))"

text \<open>\<open>strconv.ParseBool\<close>.\<close>

definition parse_bool :: "string \<Rightarrow> bool result" where
  "parse_bool s =
     (if s \<in> {''1'', ''t'', ''T'', ''true'', ''TRUE'', ''True''} then Inr True
      else if s \<in> {''0'', ''f'', ''F'', ''false'', ''FALSE'', ''False''} then Inr False
      else Inl (ErrNew ''invalid syntax''))"

text \<open>The verb \<open>%x\<close> on bytes (each given by its value) and \<open>%08x\<close> on a 32 bit value.\<close>

definition show_hex_byte :: "nat \<Rightarrow> string" where
  "show_hex_byte b = [digit (b div 16 mod 16), digit (b mod 16)]"

definition show_hex_bytes :: "nat list \<Rightarrow> string" where
  "show_hex_bytes bs = concat (map show_hex_byte bs)"

definition show_hex08 :: "nat \<Rightarrow> string" where
  "show_hex08 n =
     show_hex_bytes [n div 2 ^ 24 mod 256, n div 2 ^ 16 mod 256, n div 2 ^ 8 mod 256, n mod 256]"

section \<open>Packages path and path/filepath\<close>

text \<open>
  \<open>path.Clean\<close> as its documentation states it: drop empty and \<open>.\<close> elements, let every \<open>..\<close>
  eat the element before it, drop \<open>..\<close> at the root of a rooted path. The stack is kept reversed.
\<close>

fun clean_step :: "bool \<Rightarrow> string list \<Rightarrow> string \<Rightarrow> string list" where
  "clean_step rooted st e =
     (if e = [] \<or> e = ''.'' then st
      else if e = ''..'' then
        (case st of
           [] \<Rightarrow> if rooted then [] else [''..'']
         | t # ts \<Rightarrow> if t = ''..'' then ''..'' # st else ts)
      else e # st)"

fun clean_elems :: "bool \<Rightarrow> string list \<Rightarrow> string list \<Rightarrow> string list" where
  "clean_elems rooted st [] = rev st"
| "clean_elems rooted st (e # es) = clean_elems rooted (clean_step rooted st e) es"

definition path_clean :: "string \<Rightarrow> string" where
  "path_clean p =
     (if p = [] then ''.''
      else let rooted = (hd p = CHR ''/'');
               es = clean_elems rooted [] (split_on (CHR ''/'') p)
           in if rooted then CHR ''/'' # join_with ''/'' es
              else if es = [] then ''.'' else join_with ''/'' es)"

definition path_join :: "string list \<Rightarrow> string" where
  "path_join ps =
     (let qs = filter (\<lambda>p. p \<noteq> []) ps
      in if qs = [] then [] else path_clean (join_with ''/'' qs))"

text \<open>\<open>Dir\<close>: everything up to and including the last slash, cleaned.\<close>

definition upto_last_slash :: "string \<Rightarrow> string" where
  "upto_last_slash p = rev (dropWhile (\<lambda>c. c \<noteq> CHR ''/'') (rev p))"

definition path_dir :: "string \<Rightarrow> string" where
  "path_dir p = path_clean (upto_last_slash p)"

definition path_base :: "string \<Rightarrow> string" where
  "path_base p =
     (if p = [] then ''.''
      else let q = rev (dropWhile (\<lambda>c. c = CHR ''/'') (rev p));
               b = rev (takeWhile (\<lambda>c. c \<noteq> CHR ''/'') (rev q))
           in if b = [] then ''/'' else b)"

definition path_is_abs :: "string \<Rightarrow> bool" where
  "path_is_abs p \<longleftrightarrow> has_prefix p ''/''"

section \<open>Splitting and joining\<close>

lemma split_on_nonempty [simp]: "split_on c s \<noteq> []"
  by (induction s) (auto split: list.splits)

lemma join_split_on [simp]: "join_with [c] (split_on c s) = s"
proof (induction s)
  case Nil
  then show ?case by simp
next
  case (Cons x xs)
  obtain w ws where w: "split_on c xs = w # ws"
    by (cases "split_on c xs") auto
  with Cons show ?case by (cases ws) auto
qed

lemma split_on_parts: "w \<in> set (split_on c s) \<Longrightarrow> c \<notin> set w"
proof (induction s arbitrary: w)
  case Nil
  then show ?case by simp
next
  case (Cons x xs)
  then show ?case by (cases "split_on c xs") (auto split: if_splits)
qed

lemma split_on_no_sep: "c \<notin> set s \<Longrightarrow> split_on c s = [s]"
  by (induction s) auto

lemma split_on_append: "c \<notin> set w \<Longrightarrow> split_on c (w @ c # s) = w # split_on c s"
  by (induction w) auto

lemma split_on_join:
  "ws \<noteq> [] \<Longrightarrow> \<forall>w\<in>set ws. c \<notin> set w \<Longrightarrow> split_on c (join_with [c] ws) = ws"
proof (induction ws rule: induct_list012)
  case (3 x y zs)
  then show ?case by (simp add: split_on_append)
qed (simp_all add: split_on_no_sep)

lemma cut_at_found: "c \<notin> set k \<Longrightarrow> cut_at c (k @ c # v) = (k, v, True)"
  by (induction k) auto

lemma cut_at_absent: "c \<notin> set s \<Longrightarrow> cut_at c s = (s, [], False)"
  by (induction s) auto

lemma cut_at_parts:
  "cut_at c s = (k, v, f) \<Longrightarrow> c \<notin> set k \<and> s = k @ (if f then c # v else [])"
  by (induction s arbitrary: k v f) (auto split: if_splits prod.splits)

lemma split2_found: "c \<notin> set k \<Longrightarrow> split2 c (k @ c # v) = [k, v]"
  by (simp add: split2_def cut_at_found)

lemma split2_absent: "c \<notin> set s \<Longrightarrow> split2 c s = [s]"
  by (simp add: split2_def cut_at_absent)

section \<open>Decimal and hexadecimal text\<close>

lemma of_char_char_of_nat: "n < 256 \<Longrightarrow> of_char (char_of n) = (n::nat)"
  by simp

lemma digit_val_digit [simp]: "d < 10 \<Longrightarrow> digit_val (digit d) = Some d"
  by (simp add: digit_def digit_val_def)

definition hex_val :: "char \<Rightarrow> nat" where
  "hex_val c = (let n = of_char c in if n < 58 then n - 48 else n - 87)"

lemma hex_val_digit: "d < 16 \<Longrightarrow> hex_val (digit d) = d"
  by (simp add: hex_val_def digit_def Let_def of_char_char_of_nat)

lemma digit_inj: "a < 16 \<Longrightarrow> b < 16 \<Longrightarrow> digit a = digit b \<Longrightarrow> a = b"
  by (metis hex_val_digit)

lemma read_digits_append:
  "read_digits acc (s @ t) = (case read_digits acc s of None \<Rightarrow> None | Some a \<Rightarrow> read_digits a t)"
  by (induction s arbitrary: acc) (auto split: option.splits)

lemma read_show_nat [simp]: "read_digits 0 (show_nat n) = Some n"
proof (induction n rule: less_induct)
  case (less n)
  show ?case
  proof (cases "n < 10")
    case True
    then show ?thesis by (simp add: show_nat.simps [of n])
  next
    case False
    then have "read_digits 0 (show_nat (n div 10)) = Some (n div 10)"
      by (intro less.IH) simp
    with False show ?thesis
      by (simp add: show_nat.simps [of n] read_digits_append)
  qed
qed

lemma show_nat_nonempty [simp]: "show_nat n \<noteq> []"
  by (subst show_nat.simps) simp

lemma show_nat_inj [simp]: "show_nat m = show_nat n \<longleftrightarrow> m = n"
  by (metis option.inject read_show_nat)

lemma parse_show_nat: "n < 2 ^ bits \<Longrightarrow> parse_uint (show_nat n) bits = Inr n"
  by (simp add: parse_uint_def)

lemma parse_uint_bound: "parse_uint s bits = Inr n \<Longrightarrow> n < 2 ^ bits"
  by (auto simp: parse_uint_def split: if_splits option.splits)

lemma digit_is_digit: "d < 10 \<Longrightarrow> digit d \<noteq> CHR ''-''"
proof
  assume "d < 10" and "digit d = CHR ''-''"
  then have "digit_val (CHR ''-'') = Some d"
    using digit_val_digit by metis
  then show False by (simp add: digit_val_def)
qed

lemma show_nat_no_dash: "CHR ''-'' \<notin> set (show_nat n)"
proof (induction n rule: less_induct)
  case (less n)
  show ?case
  proof (cases "n < 10")
    case True
    then show ?thesis by (simp add: show_nat.simps [of n] digit_is_digit [symmetric])
  next
    case False
    then have "CHR ''-'' \<notin> set (show_nat (n div 10))"
      by (intro less.IH) simp
    with False show ?thesis
      by (simp add: show_nat.simps [of n] digit_is_digit [symmetric])
  qed
qed

lemma show_hex_byte_inj:
  "a < 256 \<Longrightarrow> b < 256 \<Longrightarrow> show_hex_byte a = show_hex_byte b \<Longrightarrow> a = b"
proof -
  assume ab: "a < 256" "b < 256" and eq: "show_hex_byte a = show_hex_byte b"
  have "a div 16 mod 16 = b div 16 mod 16" "a mod 16 = b mod 16"
    using eq by (auto simp: show_hex_byte_def intro!: digit_inj)
  then have "a div 16 = b div 16" "a mod 16 = b mod 16"
    using ab by (simp_all add: div_less_iff_less_mult)
  then show "a = b" by (metis div_mult_mod_eq)
qed

lemma show_hex_bytes_simps [simp]:
  "show_hex_bytes [] = []"
  "show_hex_bytes (b # bs) = show_hex_byte b @ show_hex_bytes bs"
  by (simp_all add: show_hex_bytes_def)

lemma length_show_hex_bytes [simp]: "length (show_hex_bytes bs) = 2 * length bs"
  by (induction bs) (auto simp: show_hex_byte_def)

lemma show_hex_bytes_inj:
  "\<forall>b\<in>set bs. b < 256 \<Longrightarrow> \<forall>c\<in>set cs. c < 256 \<Longrightarrow> show_hex_bytes bs = show_hex_bytes cs \<Longrightarrow> bs = cs"
proof (induction bs arbitrary: cs)
  case Nil
  then have "length (show_hex_bytes cs) = 0" by simp
  then show ?case by simp
next
  case (Cons b bs)
  from Cons.prems(3) have "length (show_hex_bytes (b # bs)) = length (show_hex_bytes cs)"
    by metis
  then have "length cs = Suc (length bs)" by (simp add: show_hex_byte_def)
  then obtain d ds where cs: "cs = d # ds" by (cases cs) auto
  from Cons.prems(3) have "show_hex_byte b = show_hex_byte d"
    and "show_hex_bytes bs = show_hex_bytes ds"
    by (simp_all add: cs show_hex_byte_def)
  with Cons cs show ?case by (auto intro: show_hex_byte_inj)
qed

section \<open>Cleaned paths\<close>

text \<open>An element a cleaned rooted path may contain.\<close>

definition proper_elem :: "string \<Rightarrow> bool" where
  "proper_elem e \<longleftrightarrow> e \<noteq> [] \<and> e \<noteq> ''.'' \<and> e \<noteq> ''..'' \<and> CHR ''/'' \<notin> set e"

lemma clean_step_proper:
  assumes "CHR ''/'' \<notin> set e" and "\<forall>x\<in>set st. proper_elem x"
  shows "\<forall>x\<in>set (clean_step True st e). proper_elem x"
proof (cases "e = [] \<or> e = ''.'' \<or> e = ''..''")
  case True
  with assms(2) show ?thesis by (cases st) auto
next
  case False
  with assms(1) have "proper_elem e" by (simp add: proper_elem_def)
  with False assms(2) show ?thesis by simp
qed

declare clean_step.simps [simp del]

lemma clean_elems_proper:
  "\<forall>e\<in>set es. CHR ''/'' \<notin> set e \<Longrightarrow> \<forall>e\<in>set st. proper_elem e \<Longrightarrow>
     \<forall>e\<in>set (clean_elems True st es). proper_elem e"
proof (induction es arbitrary: st)
  case Nil
  then show ?case by simp
next
  case (Cons e es)
  have "\<forall>x\<in>set (clean_step True st e). proper_elem x"
    using Cons.prems by (intro clean_step_proper) simp_all
  with Cons.prems Cons.IH show ?case by simp
qed

lemma clean_elems_fixed:
  "\<forall>e\<in>set es. proper_elem e \<Longrightarrow> clean_elems r st es = rev st @ es"
proof (induction es arbitrary: st)
  case Nil
  then show ?case by simp
next
  case (Cons e es)
  then have "clean_step r st e = e # st"
    by (simp add: proper_elem_def clean_step.simps)
  with Cons show ?case by simp
qed

text \<open>Every cleaned rooted path is the slash followed by proper elements.\<close>

lemma path_clean_rooted:
  "\<exists>es. path_clean (CHR ''/'' # p) = CHR ''/'' # join_with ''/'' es \<and> (\<forall>e\<in>set es. proper_elem e)"
proof -
  let ?es = "clean_elems True [] (split_on (CHR ''/'') (CHR ''/'' # p))"
  have "\<forall>e\<in>set (split_on (CHR ''/'') (CHR ''/'' # p)). CHR ''/'' \<notin> set e"
    using split_on_parts by blast
  then have "\<forall>e\<in>set ?es. proper_elem e"
    by (rule clean_elems_proper) simp
  then show ?thesis by (intro exI [of _ ?es]) (simp add: path_clean_def)
qed

lemma join_proper_no_root:
  assumes "\<forall>e\<in>set es. proper_elem e"
  shows "\<not> prefix ''/'' (join_with ''/'' es)"
proof (cases es)
  case Nil
  then show ?thesis by simp
next
  case (Cons e es')
  with assms obtain c e' where "e = c # e'" "c \<noteq> CHR ''/''"
    by (cases e) (auto simp: proper_elem_def)
  with Cons show ?thesis by (cases es') auto
qed

lemma split_join_proper:
  "es \<noteq> [] \<Longrightarrow> \<forall>e\<in>set es. proper_elem e \<Longrightarrow> split_on (CHR ''/'') (join_with ''/'' es) = es"
  by (rule split_on_join) (auto simp: proper_elem_def)

text \<open>Elements of any cleaned path, which may be \<open>..\<close>.\<close>

lemma path_is_abs_hd: "path_is_abs p \<longleftrightarrow> p \<noteq> [] \<and> hd p = CHR ''/''"
  by (cases p) (auto simp: path_is_abs_def has_prefix_def)

definition plain_elem :: "string \<Rightarrow> bool" where
  "plain_elem x \<longleftrightarrow> x \<noteq> [] \<and> CHR ''/'' \<notin> set x"

lemma clean_step_plain:
  "\<forall>x\<in>set st. plain_elem x \<Longrightarrow> CHR ''/'' \<notin> set e \<Longrightarrow> \<forall>x\<in>set (clean_step r st e). plain_elem x"
  by (auto simp: clean_step.simps plain_elem_def split: list.splits if_splits)

lemma clean_elems_plain:
  "\<forall>x\<in>set st. plain_elem x \<Longrightarrow> \<forall>e\<in>set es. CHR ''/'' \<notin> set e \<Longrightarrow> \<forall>x\<in>set (clean_elems r st es). plain_elem x"
proof (induction es arbitrary: st)
  case (Cons e es)
  have "\<forall>x\<in>set (clean_step r st e). plain_elem x"
    using Cons.prems by (intro clean_step_plain) simp_all
  with Cons.prems Cons.IH show ?case by simp
qed simp

lemma plain_elem_hd: "plain_elem x \<Longrightarrow> x \<noteq> [] \<and> hd x \<noteq> CHR ''/''"
  by (cases x) (auto simp: plain_elem_def)

lemma join_plain:
  "\<forall>x\<in>set xs. plain_elem x \<Longrightarrow> \<not> path_is_abs (join_with ''/'' xs) \<and> (xs \<noteq> [] \<longrightarrow> join_with ''/'' xs \<noteq> [])"
  by (induction xs rule: induct_list012) (auto simp: path_is_abs_hd dest: plain_elem_hd)

lemma path_clean_elems: "\<forall>x\<in>set (clean_elems r [] (split_on (CHR ''/'') p)). plain_elem x"
  by (rule clean_elems_plain) (auto dest: split_on_parts)

lemma path_clean_nonempty: "path_clean p \<noteq> []"
  using join_plain [OF path_clean_elems [of False p]] by (auto simp: path_clean_def Let_def)

lemma path_clean_abs: "path_is_abs (path_clean p) \<longleftrightarrow> path_is_abs p"
  using join_plain [OF path_clean_elems [of False p]] by (auto simp: path_clean_def path_is_abs_hd Let_def)

lemma path_join_nonempty: "path_join [d, n] \<noteq> []" if "d \<noteq> []"
  using that path_clean_nonempty by (simp add: path_join_def)

end
