(* ===== verification/Streaming.thy ===== *)
theory Streaming
  imports Go_Strings "HOL-Library.Word"
begin

text \<open>
  The vsock streams between the shim and the VM: the registry of named connections that
  \<open>plugins/vminit/streaming\<close> keeps, the handshake with which \<open>vmInstance.StartStream\<close> opens one,
  and the length-prefixed frames that \<open>vsockStream\<close> (VM side) and the bridges of
  \<open>plugins/shim/streaming\<close> (host side) exchange.

  A connection is a record of its unread input, the bytes written so far, how many more bytes the
  peer takes and whether it is open; connections are addressed by number because the registry and
  the accept loop share them. Protobuf encoding is a parameter.
\<close>

section \<open>Connections\<close>

record conn =
  c_in :: string
  c_out :: string
  c_wcap :: "nat option"
  c_open :: bool

definition err_closed :: go_error where
  "err_closed = Sentinel ''use of closed network connection''"

definition err_eof :: go_error where
  "err_eof = Sentinel ''EOF''"

definition err_unexpected_eof :: go_error where
  "err_unexpected_eof = Sentinel ''unexpected EOF''"

text \<open>\<open>conn.Write\<close>: fails on a closed connection and when the peer takes no more bytes.\<close>

definition conn_write :: "conn \<Rightarrow> string \<Rightarrow> go_error option \<times> conn" where
  "conn_write c bs =
     (if \<not> c_open c then (Some err_closed, c)
      else case c_wcap c of
        None \<Rightarrow> (None, c\<lparr>c_out := c_out c @ bs\<rparr>)
      | Some n \<Rightarrow>
          if length bs \<le> n then (None, c\<lparr>c_out := c_out c @ bs, c_wcap := Some (n - length bs)\<rparr>)
          else (Some (Sentinel ''broken pipe''),
                c\<lparr>c_out := c_out c @ take n bs, c_wcap := Some 0\<rparr>))"

text \<open>\<open>io.ReadFull(conn, buf)\<close> with a buffer of \<open>n\<close> bytes.\<close>

definition conn_read_full :: "conn \<Rightarrow> nat \<Rightarrow> string result \<times> conn" where
  "conn_read_full c n =
     (if n = 0 then (Inr [], c)
      else if \<not> c_open c then (Inl err_closed, c)
      else if n \<le> length (c_in c) then (Inr (take n (c_in c)), c\<lparr>c_in := drop n (c_in c)\<rparr>)
      else if c_in c = [] then (Inl err_eof, c)
      else (Inl err_unexpected_eof, c\<lparr>c_in := []\<rparr>))"

definition conn_close :: "conn \<Rightarrow> go_error option \<times> conn" where
  "conn_close c = (if c_open c then (None, c\<lparr>c_open := False\<rparr>) else (Some err_closed, c))"

section \<open>Big-endian length prefixes\<close>

definition be32 :: "32 word \<Rightarrow> string" where
  "be32 w =
     (let n = unat w
      in [char_of (n div 2 ^ 24 mod 256), char_of (n div 2 ^ 16 mod 256),
          char_of (n div 2 ^ 8 mod 256), char_of (n mod 256)])"

fun unbe32 :: "string \<Rightarrow> 32 word" where
  "unbe32 [a, b, c, d] =
     of_nat (((of_char a * 256 + of_char b) * 256 + of_char c) * 256 + of_char d)"
| "unbe32 _ = 0"

definition write_u32 :: "conn \<Rightarrow> 32 word \<Rightarrow> go_error option \<times> conn" where
  "write_u32 c w = conn_write c (be32 w)"

definition read_u32 :: "conn \<Rightarrow> (32 word) result \<times> conn" where
  "read_u32 c = (case conn_read_full c 4 of (Inl e, c') \<Rightarrow> (Inl e, c') | (Inr bs, c') \<Rightarrow> (Inr (unbe32 bs), c'))"

text \<open>\<open>uint32(len(b))\<close> drops the high bits of the length.\<close>

definition len32 :: "string \<Rightarrow> 32 word" where
  "len32 bs = of_nat (length bs)"

definition writeString :: "conn \<Rightarrow> string \<Rightarrow> go_error option \<times> conn" where
  "writeString c s =
     (case write_u32 c (len32 s) of
        (Some e, c') \<Rightarrow> (Some e, c')
      | (None, c') \<Rightarrow> conn_write c' s)"

section \<open>The stream registry of the VM\<close>

record stream_service =
  ss_streams :: "(string, nat) gomap"
  ss_conns :: "nat \<Rightarrow> conn"
  ss_listening :: bool

text \<open>
  \<open>strconv.Quote\<close> (verb \<open>%q\<close>) for ASCII strings, which the names it is applied to are. It works byte by
  byte and shows every byte outside ASCII in hexadecimal, as Go does only for bytes that are not the text of
  a printable character; the result appears in messages of errors only.
\<close>

definition quote_char :: "char \<Rightarrow> string" where
  "quote_char c =
     (let n = of_char c :: nat
      in if c = CHR 0x22 then [CHR 0x5C, CHR 0x22]
         else if c = CHR 0x5C then [CHR 0x5C, CHR 0x5C]
         else if n = 7 then CHR 0x5C # ''a'' else if n = 8 then CHR 0x5C # ''b''
         else if n = 12 then CHR 0x5C # ''f'' else if n = 10 then CHR 0x5C # ''n''
         else if n = 13 then CHR 0x5C # ''r'' else if n = 9 then CHR 0x5C # ''t''
         else if n = 11 then CHR 0x5C # ''v''
         else if n < 32 \<or> 127 \<le> n then CHR 0x5C # CHR ''x'' # show_hex_byte n
         else [c])"

definition quote :: "string \<Rightarrow> string" where
  "quote s = [CHR 0x22] @ concat (map quote_char s) @ [CHR 0x22]"

definition dup_msg :: "string \<Rightarrow> string" where
  "dup_msg sid = ''stream '' @ quote sid @ '' already exists''"

definition set_conn :: "nat \<Rightarrow> conn \<Rightarrow> stream_service \<Rightarrow> stream_service" where
  "set_conn i c s = s\<lparr>ss_conns := (ss_conns s)(i := c)\<rparr>"

definition removeStream :: "string \<Rightarrow> stream_service \<Rightarrow> stream_service" where
  "removeStream sid s = s\<lparr>ss_streams := gm_del sid (ss_streams s)\<rparr>"

text \<open>The part of \<open>Run\<close> that reads the length-prefixed stream ID of a fresh connection.\<close>

definition read_stream_id :: "conn \<Rightarrow> string result \<times> conn" where
  "read_stream_id c =
     (case read_u32 c of
        (Inl e, c') \<Rightarrow> (Inl e, c')
      | (Inr n, c') \<Rightarrow> conn_read_full c' (unat n))"

text \<open>One turn of the loop of \<open>Run\<close>, for the accepted connection number \<open>i\<close>.\<close>

definition run_accept :: "nat \<Rightarrow> stream_service \<Rightarrow> stream_service" where
  "run_accept i s =
     (case read_stream_id (ss_conns s i) of
        (Inl e, c) \<Rightarrow> set_conn i (snd (conn_close c)) s
      | (Inr sid, c) \<Rightarrow>
          if gm_get (ss_streams s) sid \<noteq> None then
            set_conn i (snd (conn_close (snd (writeString c (dup_msg sid))))) s
          else
            let s1 = s\<lparr>ss_streams := gm_put sid i (ss_streams s)\<rparr>
            in case writeString c sid of
                 (None, c') \<Rightarrow> set_conn i c' s1
               | (Some e, c') \<Rightarrow> set_conn i (snd (conn_close c')) (removeStream sid s1))"

text \<open>\<open>service.Get\<close> and \<open>streamGetter.Get\<close> hand a connection over and forget it.\<close>

definition stream_Get :: "string \<Rightarrow> stream_service \<Rightarrow> nat result \<times> stream_service" where
  "stream_Get sid s =
     (case gm_get (ss_streams s) sid of
        None \<Rightarrow> (Inl (ErrWrap (''stream '' @ quote sid @ '' not found'') (Errdef ErrNotFound)), s)
      | Some i \<Rightarrow> (Inr i, s\<lparr>ss_streams := gm_del sid (ss_streams s)\<rparr>))"

definition streamGetter_Get :: "string \<Rightarrow> stream_service \<Rightarrow> nat result \<times> stream_service" where
  "streamGetter_Get name s =
     (case gm_get (ss_streams s) name of
        None \<Rightarrow> (Inl (ErrWrap (''stream '' @ quote name @ '' not found'') (Errdef ErrNotFound)), s)
      | Some i \<Rightarrow> (Inr i, s\<lparr>ss_streams := gm_del name (ss_streams s)\<rparr>))"

text \<open>\<open>Shutdown\<close>: close every registered connection, then the listener, and join the errors.\<close>

fun close_conns :: "nat list \<Rightarrow> (nat \<Rightarrow> conn) \<Rightarrow> go_error list \<times> (nat \<Rightarrow> conn)" where
  "close_conns [] cs = ([], cs)"
| "close_conns (i # is) cs =
     (case conn_close (cs i) of
        (r, c) \<Rightarrow> case close_conns is (cs(i := c)) of
          (es, cs') \<Rightarrow> (case r of None \<Rightarrow> es
                               | Some e \<Rightarrow> ErrWrap ''failed to close connection'' e # es, cs'))"

definition stream_Shutdown :: "go_error option \<Rightarrow> stream_service \<Rightarrow> go_error option \<times> stream_service" where
  "stream_Shutdown lerr s =
     (case close_conns (map snd (ss_streams s)) (ss_conns s) of
        (es, cs) \<Rightarrow>
          (join_errors (es @ (case lerr of None \<Rightarrow> []
                                         | Some e \<Rightarrow> [ErrWrap ''failed to close listener'' e])),
           s\<lparr>ss_conns := cs, ss_listening := False\<rparr>))"

section \<open>Frames\<close>

definition maxFrameSize :: nat where
  "maxFrameSize = 10 * 2 ^ 20"

text \<open>
  The reading half both sides share: a length, the zero length as end marker, the size limit and
  the payload. \<open>Inr None\<close> is the end marker; \<open>msg\<close> is the text wrapped around a short read.
\<close>

definition read_frame :: "string \<Rightarrow> conn \<Rightarrow> string option result \<times> conn" where
  "read_frame msg c =
     (case read_u32 c of
        (Inl e, c') \<Rightarrow> (Inl e, c')
      | (Inr n, c') \<Rightarrow>
          if n = 0 then (Inr None, c')
          else if maxFrameSize < unat n then
            (Inl (ErrNew (''frame size '' @ show_nat (unat n) @ '' exceeds maximum '' @ show_nat maxFrameSize)), c')
          else case conn_read_full c' (unat n) of
                 (Inl e, c'') \<Rightarrow> (Inl (ErrWrap msg e), c'')
               | (Inr bs, c'') \<Rightarrow> (Inr (Some bs), c''))"

text \<open>\<open>vsockStream\<close>: the connection and the \<open>sync.Once\<close> of \<open>Close\<close>.\<close>

record vsock_stream =
  vs_conn :: conn
  vs_once :: bool

definition stream_Send :: "('m \<Rightarrow> string result) \<Rightarrow> 'm \<Rightarrow> vsock_stream \<Rightarrow> go_error option \<times> vsock_stream" where
  "stream_Send marshal a s =
     (case marshal a of
        Inl e \<Rightarrow> (Some (ErrWrap ''failed to marshal stream message'' e), s)
      | Inr bs \<Rightarrow>
          (case write_u32 (vs_conn s) (len32 bs) of
             (Some e, c) \<Rightarrow> (Some (ErrWrap ''failed to write frame length'' e), s\<lparr>vs_conn := c\<rparr>)
           | (None, c) \<Rightarrow>
               (case conn_write c bs of
                  (Some e, c') \<Rightarrow> (Some (ErrWrap ''failed to write frame data'' e), s\<lparr>vs_conn := c'\<rparr>)
                | (None, c') \<Rightarrow> (None, s\<lparr>vs_conn := c'\<rparr>))))"

definition stream_Recv :: "(string \<Rightarrow> 'm result) \<Rightarrow> vsock_stream \<Rightarrow> 'm result \<times> vsock_stream" where
  "stream_Recv unmarshal s =
     (case read_frame ''failed to read frame data'' (vs_conn s) of
        (Inl e, c) \<Rightarrow> (Inl e, s\<lparr>vs_conn := c\<rparr>)
      | (Inr None, c) \<Rightarrow> (Inl err_eof, s\<lparr>vs_conn := c\<rparr>)
      | (Inr (Some bs), c) \<Rightarrow>
          (case unmarshal bs of
             Inl e \<Rightarrow> (Inl (ErrWrap ''failed to unmarshal stream message'' e), s\<lparr>vs_conn := c\<rparr>)
           | Inr a \<Rightarrow> (Inr a, s\<lparr>vs_conn := c\<rparr>)))"

definition stream_Close :: "vsock_stream \<Rightarrow> go_error option \<times> vsock_stream" where
  "stream_Close s =
     (if vs_once s then (None, s)
      else case write_u32 (vs_conn s) 0 of
             (r, c) \<Rightarrow> (r, s\<lparr>vs_conn := c, vs_once := True\<rparr>))"

section \<open>The bridges of the shim\<close>

text \<open>
  \<open>bridgeTTRPCToVM\<close>: \<open>ms\<close> are the messages \<open>srv.Recv\<close> yields before it fails with \<open>rerr\<close>, so the
  loop makes one turn per message.
\<close>

fun bridgeTTRPCToVM ::
  "('m \<Rightarrow> string result) \<Rightarrow> 'm list \<Rightarrow> go_error \<Rightarrow> conn \<Rightarrow> go_error \<times> conn" where
  "bridgeTTRPCToVM marshal [] rerr c = (rerr, c)"
| "bridgeTTRPCToVM marshal (a # ms) rerr c =
     (case marshal a of
        Inl e \<Rightarrow> (ErrWrap ''failed to marshal for vm'' e, c)
      | Inr bs \<Rightarrow>
          (case write_u32 c (len32 bs) of
             (Some e, c') \<Rightarrow> (ErrWrap ''failed to write frame length to vm'' e, c')
           | (None, c') \<Rightarrow>
               (case conn_write c' bs of
                  (Some e, c'') \<Rightarrow> (ErrWrap ''failed to write frame data to vm'' e, c'')
                | (None, c'') \<Rightarrow> bridgeTTRPCToVM marshal ms rerr c'')))"

text \<open>The goroutine of \<open>Stream\<close> around it, which ends the direction with the end marker.\<close>

definition client_to_server ::
  "('m \<Rightarrow> string result) \<Rightarrow> 'm list \<Rightarrow> go_error \<Rightarrow> conn \<Rightarrow> go_error \<times> conn" where
  "client_to_server marshal ms rerr c =
     (case bridgeTTRPCToVM marshal ms rerr c of (e, c') \<Rightarrow> (e, snd (write_u32 c' 0)))"

lemma read_full_shrinks:
  "conn_read_full c n = (Inr bs, c') \<Longrightarrow>
     length (c_in c) = n + length (c_in c') \<and> length bs = n"
  by (auto simp: conn_read_full_def split: if_splits)

lemma read_u32_shrinks: "read_u32 c = (Inr n, c') \<Longrightarrow> length (c_in c) = 4 + length (c_in c')"
  by (auto simp: read_u32_def split: prod.splits sum.splits dest: read_full_shrinks)

lemma read_frame_shrinks:
  "read_frame msg c = (Inr (Some bs), c') \<Longrightarrow> length (c_in c') < length (c_in c)"
  by (auto simp: read_frame_def split: prod.splits sum.splits if_splits
      dest!: read_u32_shrinks read_full_shrinks)

text \<open>
  \<open>bridgeVMToTTRPC\<close>: \<open>send\<close> is the outcome of \<open>srv.Send\<close> for the message at a position; the result
  holds the error returned and the messages sent. Every turn takes bytes off the connection.
\<close>

function (sequential) bridgeVMToTTRPC ::
  "(string \<Rightarrow> 'm result) \<Rightarrow> (nat \<Rightarrow> go_error option) \<Rightarrow> 'm list \<Rightarrow> conn \<Rightarrow> go_error option \<times> 'm list \<times> conn" where
  "bridgeVMToTTRPC unmarshal send sent c =
     (case read_frame ''failed to read frame data from vm'' c of
        (Inl e, c') \<Rightarrow> (Some e, sent, c')
      | (Inr None, c') \<Rightarrow> (None, sent, c')
      | (Inr (Some bs), c') \<Rightarrow>
          (case unmarshal bs of
             Inl e \<Rightarrow> (Some (ErrWrap ''failed to unmarshal from vm'' e), sent, c')
           | Inr a \<Rightarrow>
               (case send (length sent) of
                  Some e \<Rightarrow> (Some e, sent, c')
                | None \<Rightarrow> bridgeVMToTTRPC unmarshal send (sent @ [a]) c')))"
  by pat_completeness auto
termination
  by (relation "measure (\<lambda>(_, _, _, c). length (c_in c))")
     (auto dest: read_frame_shrinks [OF sym])

declare bridgeVMToTTRPC.simps [simp del]

section \<open>Opening a stream from the host\<close>

text \<open>
  \<open>vmInstance.StartStream\<close>. The loop makes at most 99 turns (10 ms to 990 ms in steps of 10 ms);
  at turn \<open>k\<close> the context may be done, the socket may exist and a dial may succeed with a
  connection whose input is what the peer will answer.
\<close>

record stream_env =
  se_ctx_done :: "nat \<Rightarrow> go_error option"
  se_stat_ok :: "nat \<Rightarrow> bool"
  se_dial :: "nat \<Rightarrow> conn result"

definition stream_handshake :: "string \<Rightarrow> conn \<Rightarrow> conn result \<times> conn" where
  "stream_handshake sid c0 =
     (case write_u32 c0 (len32 sid) of
        (Some e, c) \<Rightarrow> (Inl (ErrWrap ''failed to write stream id length'' e), snd (conn_close c))
      | (None, c) \<Rightarrow>
     (case conn_write c sid of
        (Some e, c) \<Rightarrow> (Inl (ErrWrap ''failed to write stream id'' e), snd (conn_close c))
      | (None, c) \<Rightarrow>
     (case read_u32 c of
        (Inl e, c) \<Rightarrow> (Inl (ErrWrap ''failed to read ack length'' e), snd (conn_close c))
      | (Inr n, c) \<Rightarrow>
     (case conn_read_full c (unat n) of
        (Inl e, c) \<Rightarrow> (Inl (ErrWrap ''failed to read ack'' e), snd (conn_close c))
      | (Inr ack, c) \<Rightarrow>
          if ack \<noteq> sid then
            (Inl (ErrNew (''stream '' @ quote sid @ '' rejected by server: '' @ ack)), snd (conn_close c))
          else (Inr c, c)))))"

fun start_stream_from :: "stream_env \<Rightarrow> string \<Rightarrow> nat \<Rightarrow> nat list \<Rightarrow> conn result" where
  "start_stream_from env sid k [] =
     Inl (ErrWrap ''timeout waiting for stream server'' (Errdef ErrUnavailable))"
| "start_stream_from env sid k (d # ds) =
     (case se_ctx_done env k of
        Some e \<Rightarrow> Inl e
      | None \<Rightarrow>
          if se_stat_ok env k then
            (case se_dial env k of
               Inl e \<Rightarrow> Inl (ErrWrap ''failed to connect to stream server'' e)
             | Inr c \<Rightarrow> fst (stream_handshake sid c))
          else start_stream_from env sid (Suc k) ds)"

definition StartStream :: "stream_env \<Rightarrow> string \<Rightarrow> conn result" where
  "StartStream env sid = start_stream_from env sid 0 (map ((*) 10) [1..<100])"

section \<open>Lemmas on connections and prefixes\<close>

lemma length_be32 [simp]: "length (be32 w) = 4"
  by (simp add: be32_def Let_def)

lemma base256_digits:
  "(n::nat) < 2 ^ 32 \<Longrightarrow>
     ((n div 2 ^ 24 mod 256 * 256 + n div 2 ^ 16 mod 256) * 256 + n div 2 ^ 8 mod 256) * 256 + n mod 256 = n"
proof -
  assume n: "n < 2 ^ 32"
  have "n div 2 ^ 24 < 256" using n by (simp add: div_less_iff_less_mult)
  then have "n div 2 ^ 24 mod 256 = n div 2 ^ 24" by simp
  moreover have "n div 2 ^ 16 = n div 2 ^ 24 * 256 + n div 2 ^ 16 mod 256"
    using div_mult_mod_eq [of "n div 2 ^ 16" 256] by (simp add: div_mult2_eq [symmetric])
  moreover have "n div 2 ^ 8 = n div 2 ^ 16 * 256 + n div 2 ^ 8 mod 256"
    using div_mult_mod_eq [of "n div 2 ^ 8" 256] by (simp add: div_mult2_eq [symmetric])
  moreover have "n = n div 2 ^ 8 * 256 + n mod 256"
    using div_mult_mod_eq [of n 256] by simp
  ultimately show ?thesis by metis
qed

lemma unbe32_be32 [simp]: "unbe32 (be32 w) = w"
proof -
  have "unat w < 2 ^ 32" using unsigned_less [of w] by simp
  then show ?thesis
    using base256_digits [of "unat w"] by (simp add: be32_def Let_def)
qed

lemma read_u32_be32:
  "c_open c \<Longrightarrow> c_in c = be32 w @ rest \<Longrightarrow> read_u32 c = (Inr w, c\<lparr>c_in := rest\<rparr>)"
  by (simp add: read_u32_def conn_read_full_def)

lemma read_full_append:
  "c_open c \<Longrightarrow> c_in c = bs @ rest \<Longrightarrow> length bs = n \<Longrightarrow>
     conn_read_full c n = (Inr bs, c\<lparr>c_in := rest\<rparr>)"
  by (cases "n = 0") (auto simp: conn_read_full_def)

lemma unat_len32: "length bs < 2 ^ 32 \<Longrightarrow> unat (len32 bs) = length bs"
  by (simp add: len32_def unat_of_nat)

lemma conn_write_open:
  "c_open c \<Longrightarrow> c_wcap c = None \<Longrightarrow> conn_write c bs = (None, c\<lparr>c_out := c_out c @ bs\<rparr>)"
  by (simp add: conn_write_def)

lemma conn_write_keeps_input: "c_in (snd (conn_write c bs)) = c_in c"
  by (auto simp: conn_write_def split: option.splits)

lemma writeString_open:
  "c_open c \<Longrightarrow> c_wcap c = None \<Longrightarrow>
     writeString c s = (None, c\<lparr>c_out := c_out c @ be32 (len32 s) @ s\<rparr>)"
  by (simp add: writeString_def write_u32_def conn_write_open)

definition frame :: "string \<Rightarrow> string" where
  "frame bs = be32 (len32 bs) @ bs"

definition fits_frame :: "string \<Rightarrow> bool" where
  "fits_frame bs \<longleftrightarrow> 0 < length bs \<and> length bs \<le> maxFrameSize"

lemma fits_frame_len: "fits_frame bs \<Longrightarrow> unat (len32 bs) = length bs"
  by (intro unat_len32) (auto simp: fits_frame_def maxFrameSize_def)

lemma read_frame_frame:
  assumes "fits_frame bs" and "c_open c" and "c_in c = frame bs @ rest"
  shows "read_frame msg c = (Inr (Some bs), c\<lparr>c_in := rest\<rparr>)"
proof -
  have n: "unat (len32 bs) = length bs" using assms(1) by (rule fits_frame_len)
  then have "len32 bs \<noteq> 0" using assms(1) by (auto simp: fits_frame_def)
  with n assms show ?thesis
    by (simp add: read_frame_def frame_def read_u32_be32 read_full_append fits_frame_def)
qed

lemma read_frame_end:
  "c_open c \<Longrightarrow> c_in c = be32 0 @ rest \<Longrightarrow> read_frame msg c = (Inr None, c\<lparr>c_in := rest\<rparr>)"
  by (simp add: read_frame_def read_u32_be32)

lemma read_frame_size:
  "read_frame msg c = (Inr (Some bs), c') \<Longrightarrow> fits_frame bs"
  by (auto simp: read_frame_def fits_frame_def split: prod.splits sum.splits if_splits
      dest!: read_full_shrinks simp: unsigned_eq_0_iff)

section \<open>Interface: a byte stream of framed payloads\<close>

text \<open>
  What a reader of frames relies on: \<open>step\<close> takes one payload or the end marker off the front of
  the input. The client lemma is that a reader which stops at the marker sees exactly the payloads
  written before it.
\<close>

locale frame_reader =
  fixes enc :: "string \<Rightarrow> string"
    and fin :: string
    and fits :: "string \<Rightarrow> bool"
    and step :: "conn \<Rightarrow> string option result \<times> conn"
  assumes step_enc: "fits bs \<Longrightarrow> c_open c \<Longrightarrow> c_in c = enc bs @ rest \<Longrightarrow>
            step c = (Inr (Some bs), c\<lparr>c_in := rest\<rparr>)"
    and step_fin: "c_open c \<Longrightarrow> c_in c = fin @ rest \<Longrightarrow> step c = (Inr None, c\<lparr>c_in := rest\<rparr>)"
begin

primrec read_payloads :: "nat \<Rightarrow> conn \<Rightarrow> string list \<times> conn" where
  "read_payloads 0 c = ([], c)"
| "read_payloads (Suc n) c =
     (case step c of
        (Inr (Some bs), c') \<Rightarrow> (case read_payloads n c' of (bss, c'') \<Rightarrow> (bs # bss, c''))
      | (_, c') \<Rightarrow> ([], c'))"

lemma read_payloads_enc:
  assumes "\<forall>bs\<in>set bss. fits bs" and "c_open c"
    and "c_in c = concat (map enc bss) @ fin @ rest"
  shows "read_payloads (Suc (length bss)) c = (bss, c\<lparr>c_in := rest\<rparr>)"
  using assms
proof (induction bss arbitrary: c)
  case Nil
  then show ?case by (simp add: step_fin)
next
  case (Cons bs bss)
  let ?c = "c\<lparr>c_in := concat (map enc bss) @ fin @ rest\<rparr>"
  have "step c = (Inr (Some bs), ?c)"
    using Cons.prems by (intro step_enc) auto
  moreover have "read_payloads (Suc (length bss)) ?c = (bss, ?c\<lparr>c_in := rest\<rparr>)"
    using Cons.prems by (intro Cons.IH) auto
  ultimately show ?case by simp
qed

end

interpretation vm_frames: frame_reader frame "be32 0" fits_frame "read_frame ''failed to read frame data''"
  by unfold_locales (simp_all add: read_frame_frame read_frame_end)

interpretation shim_frames: frame_reader frame "be32 0" fits_frame
  "read_frame ''failed to read frame data from vm''"
  by unfold_locales (simp_all add: read_frame_frame read_frame_end)

section \<open>Interface: a registry of streams claimed by name\<close>

text \<open>
  \<open>stream.Manager\<close> of \<open>internal/vminit/stream\<close> and \<open>streaming.StreamGetter\<close>: what the clients
  that claim a stream (process I/O, socket forwarding, transfer) rely on.
\<close>

locale stream_manager =
  fixes Get :: "string \<Rightarrow> 's \<Rightarrow> 'c result \<times> 's"
    and holds :: "'s \<Rightarrow> string \<Rightarrow> 'c option"
  assumes get_miss: "holds s k = None \<Longrightarrow> \<exists>e. Get k s = (Inl e, s)"
    and get_hit: "holds s k = Some c \<Longrightarrow> \<exists>s'. Get k s = (Inr c, s') \<and> holds s' = (holds s)(k := None)"
begin

lemma get_result: "Get k s = (Inr c, s') \<Longrightarrow> holds s k = Some c \<and> holds s' = (holds s)(k := None)"
  by (cases "holds s k") (auto dest: get_miss get_hit)

lemma get_error: "Get k s = (Inl e, s') \<Longrightarrow> holds s k = None \<and> s' = s"
  by (cases "holds s k") (auto dest: get_miss get_hit)

lemma get_once: "Get k s = (Inr c, s') \<Longrightarrow> \<exists>e. Get k s' = (Inl e, s')"
  by (drule get_result) (simp add: get_miss)

lemma get_distinct:
  assumes "inj_on (holds s) (dom (holds s))" "k \<noteq> k'"
    and "Get k s = (Inr c, s')" "Get k' s' = (Inr c', s'')"
  shows "c \<noteq> c'"
proof -
  have "holds s k = Some c" "holds s k' = Some c'"
    using assms get_result by (auto split: if_splits dest!: get_result)
  with assms(1,2) show ?thesis by (auto simp: inj_on_def dom_def)
qed

end

interpretation streams: stream_manager stream_Get "\<lambda>s. gm_get (ss_streams s)"
  by unfold_locales (auto simp: stream_Get_def delete_conv')

interpretation getter: stream_manager streamGetter_Get "\<lambda>s. gm_get (ss_streams s)"
  by unfold_locales (auto simp: streamGetter_Get_def delete_conv')

section \<open>What one side sends is what the other receives\<close>

lemma bridge_output:
  assumes "\<forall>a\<in>set ms. \<exists>bs. marshal a = Inr bs" and "c_open c" and "c_wcap c = None"
  shows "bridgeTTRPCToVM marshal ms rerr c =
           (rerr, c\<lparr>c_out := c_out c @ concat (map (\<lambda>a. frame (projr (marshal a))) ms)\<rparr>)"
  using assms
proof (induction ms arbitrary: c)
  case Nil
  then show ?case by simp
next
  case (Cons a ms)
  then obtain bs where "marshal a = Inr bs" by auto
  with Cons show ?case
    by (simp add: write_u32_def conn_write_open frame_def)
qed

lemma send_output:
  "marshal a = Inr bs \<Longrightarrow> c_open (vs_conn s) \<Longrightarrow> c_wcap (vs_conn s) = None \<Longrightarrow>
     stream_Send marshal a s =
       (None, s\<lparr>vs_conn := (vs_conn s)\<lparr>c_out := c_out (vs_conn s) @ frame bs\<rparr>\<rparr>)"
  by (simp add: stream_Send_def write_u32_def conn_write_open frame_def)

text \<open>A receiver that calls \<open>Recv\<close> until it fails, at most \<open>n\<close> times; a sender of a list.\<close>

fun recv_until :: "(string \<Rightarrow> 'm result) \<Rightarrow> nat \<Rightarrow> vsock_stream \<Rightarrow> 'm list \<times> go_error option" where
  "recv_until unmarshal 0 s = ([], None)"
| "recv_until unmarshal (Suc n) s =
     (case stream_Recv unmarshal s of
        (Inl e, s') \<Rightarrow> ([], Some e)
      | (Inr a, s') \<Rightarrow> (case recv_until unmarshal n s' of (as, r) \<Rightarrow> (a # as, r)))"

fun send_all :: "('m \<Rightarrow> string result) \<Rightarrow> 'm list \<Rightarrow> vsock_stream \<Rightarrow> vsock_stream" where
  "send_all marshal [] s = s"
| "send_all marshal (a # as) s = send_all marshal as (snd (stream_Send marshal a s))"

text \<open>A message the codec carries: it encodes, the encoding fits a frame and decodes back.\<close>

definition carries :: "('m \<Rightarrow> string result) \<Rightarrow> (string \<Rightarrow> 'm result) \<Rightarrow> 'm \<Rightarrow> bool" where
  "carries marshal unmarshal a \<longleftrightarrow>
     (case marshal a of Inl _ \<Rightarrow> False | Inr bs \<Rightarrow> fits_frame bs \<and> unmarshal bs = Inr a)"

lemma carries_bs:
  "carries marshal unmarshal a \<Longrightarrow>
     \<exists>bs. marshal a = Inr bs \<and> fits_frame bs \<and> unmarshal bs = Inr a"
  by (auto simp: carries_def split: sum.splits)

lemma recv_until_frames:
  assumes "\<forall>a\<in>set ms. carries marshal unmarshal a" and "c_open (vs_conn s)"
    and "c_in (vs_conn s) = concat (map (\<lambda>a. frame (projr (marshal a))) ms) @ be32 0 @ rest"
    and "length ms < n"
  shows "recv_until unmarshal n s = (ms, Some err_eof)"
  using assms
proof (induction ms arbitrary: s n)
  case Nil
  then show ?case
    by (cases n) (simp_all add: stream_Recv_def read_frame_end)
next
  case (Cons a ms)
  then obtain bs where bs: "marshal a = Inr bs" "fits_frame bs" "unmarshal bs = Inr a"
    using carries_bs by fastforce
  obtain m where n: "n = Suc m" using Cons.prems(4) by (cases n) auto
  let ?rest = "concat (map (\<lambda>a. frame (projr (marshal a))) ms) @ be32 0 @ rest"
  have "stream_Recv unmarshal s = (Inr a, s\<lparr>vs_conn := (vs_conn s)\<lparr>c_in := ?rest\<rparr>\<rparr>)"
    using Cons.prems bs by (simp add: stream_Recv_def read_frame_frame)
  moreover have "recv_until unmarshal m (s\<lparr>vs_conn := (vs_conn s)\<lparr>c_in := ?rest\<rparr>\<rparr>) = (ms, Some err_eof)"
    using Cons.prems n by (intro Cons.IH) auto
  ultimately show ?case by (simp add: n)
qed

lemma send_all_output:
  assumes "\<forall>a\<in>set ms. \<exists>bs. marshal a = Inr bs"
    and "c_open (vs_conn s)" and "c_wcap (vs_conn s) = None"
  shows "send_all marshal ms s =
     s\<lparr>vs_conn := (vs_conn s)\<lparr>c_out := c_out (vs_conn s) @ concat (map (\<lambda>a. frame (projr (marshal a))) ms)\<rparr>\<rparr>"
  using assms
proof (induction ms arbitrary: s)
  case Nil
  then show ?case by simp
next
  case (Cons a ms)
  then obtain bs where "marshal a = Inr bs" by auto
  with Cons show ?case by (simp add: send_output)
qed

lemma bridge_frames:
  assumes "\<forall>a\<in>set ms. carries marshal unmarshal a" and "c_open c"
    and "c_in c = concat (map (\<lambda>a. frame (projr (marshal a))) ms) @ be32 0 @ rest"
  shows "bridgeVMToTTRPC unmarshal (\<lambda>_. None) sent c = (None, sent @ ms, c\<lparr>c_in := rest\<rparr>)"
  using assms
proof (induction ms arbitrary: sent c)
  case Nil
  then show ?case by (subst bridgeVMToTTRPC.simps) (simp add: read_frame_end)
next
  case (Cons a ms)
  then obtain bs where bs: "marshal a = Inr bs" "fits_frame bs" "unmarshal bs = Inr a"
    using carries_bs by fastforce
  with Cons show ?case
    by (subst bridgeVMToTTRPC.simps) (simp add: read_frame_frame)
qed

text \<open>
  C11. Host to VM: whatever list of messages the client sends through the shim's bridge, the stream
  in the VM receives the same messages in the same order and then \<open>io.EOF\<close>, provided every
  message encodes to between one byte and ten MiB and decodes back: an empty encoding is taken for the
  end (\<open>empty_message_is_eof\<close>), and larger frames are refused.
\<close>

theorem host_to_vm_roundtrip:
  assumes "\<forall>a\<in>set ms. carries marshal unmarshal a"
    and "c_open c" and "c_wcap c = None" and "c_out c = []"
    and "c_open (vs_conn s)"
    and "c_in (vs_conn s) = c_out (snd (client_to_server marshal ms rerr c))"
    and "length ms < n"
  shows "recv_until unmarshal n s = (ms, Some err_eof)"
proof -
  have "\<forall>a\<in>set ms. \<exists>bs. marshal a = Inr bs" using assms(1) carries_bs by fastforce
  then have "c_out (snd (client_to_server marshal ms rerr c)) =
      concat (map (\<lambda>a. frame (projr (marshal a))) ms) @ be32 0 @ []"
    using assms(2-4) by (simp add: client_to_server_def bridge_output write_u32_def conn_write_open)
  with assms show ?thesis by (intro recv_until_frames) auto
qed

text \<open>
  C12. VM to host: the messages a VM side sender writes before it closes its stream are exactly the
  messages the shim's bridge hands to the client, and the bridge then returns without an error, provided
  every message encodes to between one byte and ten MiB and decodes back: an empty encoding is taken for
  the end (\<open>empty_message_is_eof\<close>), and the bridge refuses larger frames.
\<close>

theorem vm_to_host_roundtrip:
  assumes "\<forall>a\<in>set ms. carries marshal unmarshal a"
    and "c_open (vs_conn s)" and "c_wcap (vs_conn s) = None" and "c_out (vs_conn s) = []"
    and "\<not> vs_once s"
    and "c_open c" and "c_in c = c_out (vs_conn (snd (stream_Close (send_all marshal ms s))))"
  shows "bridgeVMToTTRPC unmarshal (\<lambda>_. None) [] c = (None, ms, c\<lparr>c_in := []\<rparr>)"
proof -
  have "\<forall>a\<in>set ms. \<exists>bs. marshal a = Inr bs" using assms(1) carries_bs by fastforce
  then have "c_in c = concat (map (\<lambda>a. frame (projr (marshal a))) ms) @ be32 0 @ []"
    using assms(2-5,7)
    by (simp add: stream_Close_def send_all_output write_u32_def conn_write_open)
  with assms(1,6) bridge_frames [of ms marshal unmarshal c "[]" "[]"] show ?thesis by simp
qed

text \<open>
  A receiver never allocates more than ten MiB for a frame and never returns an empty one: the
  length is checked before the payload is read, whatever bytes the peer sent.
\<close>

theorem frame_size_bounded:
  assumes "stream_Recv Inr s = (Inr bs, s')"
  shows "0 < length bs \<and> length bs \<le> 10485760"
proof -
  have "fits_frame bs"
    using assms by (auto simp: stream_Recv_def split: prod.splits sum.splits option.splits
        dest!: read_frame_size)
  then show ?thesis by (simp add: fits_frame_def maxFrameSize_def)
qed

text \<open>
  The end marker and the empty message are the same bytes: a message whose encoding is empty is
  sent without an error and read as \<open>io.EOF\<close>, so what follows it is lost to a reader that stops
  there.
\<close>

theorem empty_message_is_eof:
  assumes "marshal a = Inr []"
    and "c_open (vs_conn s)" and "c_wcap (vs_conn s) = None" and "c_out (vs_conn s) = []"
    and "c_open (vs_conn r)" and "c_in (vs_conn r) = c_out (vs_conn (snd (stream_Send marshal a s))) @ rest"
  shows "fst (stream_Send marshal a s) = None \<and> fst (stream_Recv unmarshal r) = Inl err_eof"
  using assms by (simp add: send_output stream_Recv_def frame_def len32_def read_frame_end)

section \<open>The handshake that registers a stream\<close>

lemma length_quote_char: "1 \<le> length (quote_char c) \<and> length (quote_char c) \<le> 4"
  by (simp add: quote_char_def Let_def show_hex_byte_def)

lemma length_quote: "length s + 2 \<le> length (quote s) \<and> length (quote s) \<le> 4 * length s + 2"
proof (induction s)
  case Nil
  then show ?case by (simp add: quote_def)
next
  case (Cons c s)
  then show ?case using length_quote_char [of c] by (simp add: quote_def)
qed

lemma length_dup_msg: "length sid < length (dup_msg sid) \<and> length (dup_msg sid) \<le> 4 * length sid + 32"
  using length_quote [of sid] by (simp add: dup_msg_def)

lemma dup_msg_neq [simp]: "dup_msg sid \<noteq> sid"
  using length_dup_msg [of sid] by auto

lemma read_stream_id_sent:
  "c_open c \<Longrightarrow> c_in c = frame sid @ rest \<Longrightarrow> length sid < 2 ^ 32 \<Longrightarrow>
     read_stream_id c = (Inr sid, c\<lparr>c_in := rest\<rparr>)"
  by (simp add: read_stream_id_def frame_def read_u32_be32 read_full_append unat_len32)

lemma handshake_reply:
  assumes "c_open c" "c_wcap c = None" "c_in c = frame ack" "length ack < 2 ^ 32"
  shows "fst (stream_handshake sid c) =
           (if ack = sid then Inr (c\<lparr>c_in := [], c_out := c_out c @ frame sid\<rparr>)
            else Inl (ErrNew (''stream '' @ quote sid @ '' rejected by server: '' @ ack)))"
proof -
  let ?c = "c\<lparr>c_out := c_out c @ frame sid\<rparr>"
  have "read_u32 ?c = (Inr (len32 ack), ?c\<lparr>c_in := ack\<rparr>)"
    using assms by (intro read_u32_be32) (simp_all add: frame_def)
  moreover have "conn_read_full (?c\<lparr>c_in := ack\<rparr>) (unat (len32 ack)) = (Inr ack, ?c\<lparr>c_in := []\<rparr>)"
    using assms by (subst read_full_append [of _ ack "[]"]) (simp_all add: unat_len32)
  ultimately show ?thesis
    using assms by (simp add: stream_handshake_def write_u32_def conn_write_open frame_def)
qed

lemma read_keeps_out: "c_out (snd (conn_read_full c n)) = c_out c" "c_out (snd (read_u32 c)) = c_out c"
  "c_out (snd (conn_close c)) = c_out c"
  by (simp_all add: conn_read_full_def read_u32_def conn_close_def split: sum.splits prod.splits)

text \<open>Whatever the answer, the host has sent its stream ID with the length before it.\<close>

lemma handshake_sends:
  assumes "c_open c" and "c_wcap c = None"
  shows "c_out (snd (stream_handshake sid c)) = c_out c @ frame sid"
proof -
  let ?c = "c\<lparr>c_out := c_out c @ frame sid\<rparr>"
  obtain x c1 where u: "read_u32 ?c = (x, c1)" by fastforce
  then have c1: "c_out c1 = c_out c @ frame sid" using read_keeps_out(2) [of ?c] by simp
  have r: "c_out c2 = c_out c1" if "conn_read_full c1 n = (y, c2)" for n y c2
    using read_keeps_out(1) [of c1 n] that by simp
  show ?thesis
    using assms c1 u
    by (auto simp: stream_handshake_def write_u32_def conn_write_open frame_def read_keeps_out r split: sum.splits prod.splits)
qed

lemma run_accept_fresh:
  assumes "c_open (ss_conns s i)" "c_wcap (ss_conns s i) = None"
    and "c_in (ss_conns s i) = frame sid" "length sid < 2 ^ 32"
    and "gm_get (ss_streams s) sid = None"
  shows "run_accept i s =
     set_conn i ((ss_conns s i)\<lparr>c_in := [], c_out := c_out (ss_conns s i) @ frame sid\<rparr>)
       (s\<lparr>ss_streams := gm_put sid i (ss_streams s)\<rparr>)"
  using assms read_stream_id_sent [of "ss_conns s i" sid "[]"]
  by (simp add: run_accept_def writeString_open frame_def)

lemma run_accept_dup:
  assumes "c_open (ss_conns s i)" "c_wcap (ss_conns s i) = None"
    and "c_in (ss_conns s i) = frame sid" "length sid < 2 ^ 32"
    and "gm_get (ss_streams s) sid \<noteq> None"
  shows "run_accept i s =
     set_conn i ((ss_conns s i)\<lparr>c_in := [], c_out := c_out (ss_conns s i) @ frame (dup_msg sid),
                                c_open := False\<rparr>) s"
  using assms read_stream_id_sent [of "ss_conns s i" sid "[]"]
  by (simp add: run_accept_def writeString_open frame_def conn_close_def)

text \<open>
  C23. The handshake agrees on both ends. When the VM reads on the connection what the host's handshake
  writes, and the host reads what the VM's \<open>handleConn\<close> writes, the host's \<open>StartStream\<close> succeeds exactly
  when the ID was free; the VM then holds this connection under the ID, and a rejected connection is
  closed and leaves the registry as it was. The ID is shorter than 512 MiB.
\<close>

theorem handshake_agrees:
  assumes "length sid < 2 ^ 29"
    and "c_open (ss_conns s i)" and "c_wcap (ss_conns s i) = None"
    and "c_in (ss_conns s i) = c_out (snd (stream_handshake sid c))" and "c_out (ss_conns s i) = []"
    and "c_open c" and "c_wcap c = None" and "c_out c = []" and "c_in c = c_out (ss_conns (run_accept i s) i)"
  shows "if gm_get (ss_streams s) sid = None
     then (\<exists>c'. fst (stream_handshake sid c) = Inr c')
        \<and> gm_get (ss_streams (run_accept i s)) sid = Some i \<and> c_open (ss_conns (run_accept i s) i)
     else (\<exists>e. fst (stream_handshake sid c) = Inl e)
        \<and> ss_streams (run_accept i s) = ss_streams s \<and> \<not> c_open (ss_conns (run_accept i s) i)"
proof -
  have len: "length sid < 2 ^ 32" "length (dup_msg sid) < 2 ^ 32"
    using assms(1) length_dup_msg [of sid] by simp_all
  have sent: "c_in (ss_conns s i) = frame sid" using handshake_sends [OF assms(6,7), of sid] assms(4,8) by simp
  note fresh = run_accept_fresh [OF assms(2,3) sent len(1)]
  note dup = run_accept_dup [OF assms(2,3) sent len(1)]
  show ?thesis
  proof (cases "gm_get (ss_streams s) sid = None")
    case True
    then have "c_in c = frame sid" using assms(5,9) by (simp add: fresh set_conn_def)
    with handshake_reply [OF assms(6,7) this len(1), of sid] True assms(2) show ?thesis
      by (simp add: fresh set_conn_def)
  next
    case False
    then have "c_in c = frame (dup_msg sid)" using assms(5,9) by (simp add: dup set_conn_def)
    with handshake_reply [OF assms(6,7) this len(2), of sid] False show ?thesis
      by (simp add: dup set_conn_def)
  qed
qed

text \<open>
  A registered stream is claimed once: whoever claims it first owns the connection, and every
  later claim of the same ID fails with "not found" and changes nothing, through either getter.
\<close>

theorem stream_claimed_once:
  assumes "stream_Get sid s = (Inr i, s')"
  shows "(\<exists>e. stream_Get sid s' = (Inl e, s') \<and> is_errdef ErrNotFound e)
       \<and> (\<exists>e. streamGetter_Get sid s' = (Inl e, s') \<and> is_errdef ErrNotFound e)
       \<and> (\<forall>k. k \<noteq> sid \<longrightarrow> gm_get (ss_streams s') k = gm_get (ss_streams s) k)"
  using streams.get_result [OF assms] by (simp add: stream_Get_def streamGetter_Get_def)

section \<open>Witnesses\<close>

definition idle_conn :: "string \<Rightarrow> conn" where
  "idle_conn inp = \<lparr>c_in = inp, c_out = [], c_wcap = None, c_open = True\<rparr>"

lemma carries_small:
  "carries Inr Inr bs \<longleftrightarrow> fits_frame bs"
  by (simp add: carries_def)

theorem host_to_vm_roundtrip_witness:
  "recv_until Inr 3
     \<lparr>vs_conn = idle_conn (c_out (snd (client_to_server Inr [''ab'', ''c''] err_eof (idle_conn [])))),
      vs_once = False\<rparr> = ([''ab'', ''c''], Some err_eof)"
  by (rule host_to_vm_roundtrip [where marshal = Inr and c = "idle_conn []" and rerr = err_eof])
     (simp_all add: carries_small fits_frame_def maxFrameSize_def idle_conn_def)

theorem vm_to_host_roundtrip_witness:
  "bridgeVMToTTRPC Inr (\<lambda>_. None) []
     (idle_conn (c_out (vs_conn (snd (stream_Close
        (send_all Inr [''ab'', ''c''] \<lparr>vs_conn = idle_conn [], vs_once = False\<rparr>))))))
   = (None, [''ab'', ''c''], idle_conn [])"
  using vm_to_host_roundtrip [where marshal = Inr and unmarshal = Inr and ms = "[''ab'', ''c'']"
      and s = "\<lparr>vs_conn = idle_conn [], vs_once = False\<rparr>"
      and c = "idle_conn (c_out (vs_conn (snd (stream_Close
        (send_all Inr [''ab'', ''c''] \<lparr>vs_conn = idle_conn [], vs_once = False\<rparr>)))))"]
  by (simp add: carries_small fits_frame_def maxFrameSize_def idle_conn_def)

theorem frame_size_bounded_witness:
  "stream_Recv Inr \<lparr>vs_conn = idle_conn (frame ''ab''), vs_once = False\<rparr> =
     (Inr ''ab'', \<lparr>vs_conn = idle_conn [], vs_once = False\<rparr>)
   \<and> 0 < length ''ab'' \<and> length ''ab'' \<le> 10485760"
proof -
  have "stream_Recv Inr \<lparr>vs_conn = idle_conn (frame ''ab''), vs_once = False\<rparr> =
     (Inr ''ab'', \<lparr>vs_conn = idle_conn [], vs_once = False\<rparr>)"
    by (simp add: stream_Recv_def idle_conn_def read_frame_frame [of "''ab''" _ "[]"] fits_frame_def
        maxFrameSize_def)
  with frame_size_bounded [OF this] show ?thesis by blast
qed

theorem empty_message_is_eof_witness:
  "fst (stream_Send Inr [] \<lparr>vs_conn = idle_conn [], vs_once = False\<rparr>) = None
   \<and> fst (stream_Recv Inr \<lparr>vs_conn = idle_conn (c_out (vs_conn (snd (stream_Send Inr []
        \<lparr>vs_conn = idle_conn [], vs_once = False\<rparr>))) @ frame ''ab''), vs_once = False\<rparr>) = Inl err_eof"
  by (rule empty_message_is_eof [where rest = "frame ''ab''"]) (simp_all add: idle_conn_def)

definition one_conn :: stream_service where
  "one_conn = \<lparr>ss_streams = [], ss_conns = (\<lambda>_. idle_conn (frame ''x'')), ss_listening = True\<rparr>"

theorem handshake_agrees_witness:
  "(\<exists>c'. fst (stream_handshake ''x''
       (idle_conn (c_out (ss_conns (run_accept 0 one_conn) 0)))) = Inr c')
   \<and> gm_get (ss_streams (run_accept 0 one_conn)) ''x'' = Some 0"
proof -
  let ?c = "idle_conn (c_out (ss_conns (run_accept 0 one_conn) 0))"
  have c: "c_open ?c" "c_wcap ?c = None" "c_out ?c = []" by (simp_all add: idle_conn_def)
  have "c_in (ss_conns one_conn 0) = c_out (snd (stream_handshake ''x'' ?c))"
    using handshake_sends [OF c(1,2)] c(3) by (simp add: one_conn_def idle_conn_def)
  with handshake_agrees [where sid = "''x''" and s = one_conn and i = 0 and c = ?c] c show ?thesis
    by (simp add: one_conn_def idle_conn_def)
qed

theorem stream_claimed_once_witness:
  "\<exists>e. stream_Get ''x'' (snd (stream_Get ''x'' (one_conn\<lparr>ss_streams := [(''x'', 7)]\<rparr>))) =
     (Inl e, one_conn) \<and> is_errdef ErrNotFound e"
proof -
  have "stream_Get ''x'' (one_conn\<lparr>ss_streams := [(''x'', 7)]\<rparr>) = (Inr 7, one_conn)"
    by (simp add: stream_Get_def one_conn_def)
  with stream_claimed_once [OF this] show ?thesis by simp
qed

end
