(* ===== verification/Process_IO.thy ===== *)
theory Process_IO
  imports Streaming
begin

text \<open>
  Process I/O of \<open>internal/vminit/process\<close>: \<open>io.go\<close>, the stream helpers of \<open>utils.go\<close> and
  \<open>io_util.go\<close>. Pipes, FIFOs, files, URL parsing and child processes are the operating system's:
  their outcomes are the fields of \<open>io_env\<close>. The stream manager is the interface
  \<open>stream.Manager\<close>, a parameter \<open>get\<close> of the functions that use it, with \<open>cls\<close> for \<open>Close\<close> of a
  claimed stream.
\<close>

section \<open>Stdio and environment\<close>

record stdio =
  Stdin :: string
  Stdout :: string
  Stderr :: string
  Terminal :: bool

text \<open>\<open>Stdio.IsNull\<close> of containerd's \<open>pkg/stdio\<close>.\<close>

definition stdio_IsNull :: "stdio \<Rightarrow> bool" where
  "stdio_IsNull s \<longleftrightarrow> Stdin s = [] \<and> Stdout s = [] \<and> Stderr s = []"

datatype fifo_mode = O_RDONLY | O_WRONLY | O_RDONLY_NONBLOCK | O_WRONLY_NONBLOCK

section \<open>Logging binaries\<close>

text \<open>
  \<open>NewBinaryIO\<close>: the outcomes of its system calls, and of closing each thing it created. The
  result is the error and the closers the deferred cleanup ran.
\<close>

datatype bin_res = OutPipe | ErrPipe | ReadEnd | WriteEnd | LogCmd

record bin_env =
  be_namespace :: "go_error option"
  be_out_pipe :: "go_error option"
  be_err_pipe :: "go_error option"
  be_pipe :: "go_error option"
  be_start :: "go_error option"
  be_wclose :: "go_error option"
  be_read :: "go_error option"
  be_close :: "bin_res \<Rightarrow> go_error option"

definition bin_fail :: "bin_env \<Rightarrow> go_error \<Rightarrow> bin_res list \<Rightarrow> go_error option \<times> bin_res list" where
  "bin_fail env e closers = (Some (ErrJoin (e # List.map_filter (be_close env) closers)), closers)"

definition NewBinaryIO :: "bin_env \<Rightarrow> go_error option \<times> bin_res list" where
  "NewBinaryIO env =
     (case be_namespace env of Some e \<Rightarrow> (Some e, []) | None \<Rightarrow>
     (case be_out_pipe env of
        Some e \<Rightarrow> bin_fail env (ErrWrap ''failed to create stdout pipes'' e) []
      | None \<Rightarrow>
     (case be_err_pipe env of
        Some e \<Rightarrow> bin_fail env (ErrWrap ''failed to create stderr pipes'' e) [OutPipe]
      | None \<Rightarrow>
     (case be_pipe env of
        Some e \<Rightarrow> bin_fail env e [OutPipe, ErrPipe]
      | None \<Rightarrow>
     (case be_start env of
        Some e \<Rightarrow> bin_fail env (ErrWrap ''failed to start binary process'' e) [OutPipe, ErrPipe, ReadEnd, WriteEnd]
      | None \<Rightarrow>
     (case be_wclose env of
        Some e \<Rightarrow> bin_fail env (ErrWrap ''failed to close write pipe after start'' e)
                    [OutPipe, ErrPipe, ReadEnd, WriteEnd, LogCmd]
      | None \<Rightarrow>
     (case be_read env of
        Some e \<Rightarrow> if e = err_eof then (None, [])
                  else bin_fail env (ErrWrap ''failed to read from logging binary'' e)
                         [OutPipe, ErrPipe, ReadEnd, WriteEnd, LogCmd]
      | None \<Rightarrow> (None, []))))))))"

text \<open>\<open>pipe.Close\<close>, \<open>binaryIO.cancel\<close> and \<open>binaryIO.Close\<close>.\<close>

record pipe_env =
  pe_wclose :: "go_error option"
  pe_rclose :: "go_error option"

definition pipe_Close :: "pipe_env \<Rightarrow> go_error option" where
  "pipe_Close p =
     join_errors
       ((case pe_wclose p of None \<Rightarrow> [] | Some e \<Rightarrow> [ErrWrap ''pipe: failed to close write pipe'' e])
        @ (case pe_rclose p of None \<Rightarrow> [] | Some e \<Rightarrow> [ErrWrap ''pipe: failed to close read pipe'' e]))"

datatype wait_result = Exited "go_error option" | KilledBySIGTERM | WaitTimeout

datatype log_signal = SIGTERM | SIGKILL

record cancel_env =
  ce_running :: bool
  ce_term :: "go_error option"
  ce_kill :: "go_error option"
  ce_wait :: wait_result

definition binaryIO_cancel :: "cancel_env \<Rightarrow> go_error option \<times> log_signal list" where
  "binaryIO_cancel env =
     (if \<not> ce_running env then (None, [])
      else case ce_term env of
        Some e \<Rightarrow>
          (join_errors (ErrWrap ''failed to send SIGTERM'' e #
             (case ce_kill env of None \<Rightarrow> []
              | Some e' \<Rightarrow> [ErrWrap ''failed to kill process after faulty SIGTERM'' e'])),
           [SIGTERM, SIGKILL])
      | None \<Rightarrow>
          (case ce_wait env of
             KilledBySIGTERM \<Rightarrow> (None, [SIGTERM])
           | Exited r \<Rightarrow> (r, [SIGTERM])
           | WaitTimeout \<Rightarrow>
               (map_option (ErrWrap ''failed to kill shim logger process'') (ce_kill env),
                [SIGTERM, SIGKILL])))"

definition binaryIO_Close :: "pipe_env option \<Rightarrow> pipe_env option \<Rightarrow> cancel_env \<Rightarrow> go_error option" where
  "binaryIO_Close out err env =
     join_errors
       (List.map_filter (\<lambda>v. Option.bind v pipe_Close) [out, err]
        @ (case fst (binaryIO_cancel env) of None \<Rightarrow> [] | Some e \<Rightarrow> [e]))"

definition binaryIO_CloseAfterStart :: "pipe_env option \<Rightarrow> pipe_env option \<Rightarrow> go_error option" where
  "binaryIO_CloseAfterStart out err =
     join_errors (List.map_filter (\<lambda>v. Option.bind v pe_rclose) [out, err])"

record io_env =
  ie_null_io :: "go_error option"
  ie_pipe_io :: "go_error option"
  ie_binary_io :: bin_env
  ie_url_parse :: "string \<Rightarrow> (string \<times> string) result"
  ie_mkdir_all :: "string \<Rightarrow> go_error option"
  ie_open_file :: "string \<Rightarrow> go_error option"
  ie_is_fifo :: "string \<Rightarrow> bool result"
  ie_open_fifo :: "string \<Rightarrow> fifo_mode \<Rightarrow> go_error option"

section \<open>Claiming the streams of a process\<close>

type_synonym 'c triple = "'c option \<times> 'c option \<times> 'c option"

definition getStream :: "(string \<Rightarrow> 's \<Rightarrow> 'c result \<times> 's) \<Rightarrow> string \<Rightarrow> 's \<Rightarrow> 'c result \<times> 's" where
  "getStream get uri sm =
     (if \<not> has_prefix uri ''stream://'' then
        (Inl (ErrNew (''not a stream: '' @ errdef_msg ErrInvalidArgument)), sm)
      else let sid = drop 9 uri
           in case get sid sm of
                (Inl e, sm') \<Rightarrow> (Inl (ErrWrap (''unable to get stream '' @ quote sid) (Errdef ErrNotFound)), sm')
              | (Inr c, sm') \<Rightarrow> (Inr c, sm'))"

definition close_opt :: "('c \<Rightarrow> 's \<Rightarrow> 's) \<Rightarrow> 'c option \<Rightarrow> 's \<Rightarrow> 's" where
  "close_opt cls c sm = (case c of None \<Rightarrow> sm | Some x \<Rightarrow> cls x sm)"

definition claim :: "(string \<Rightarrow> 's \<Rightarrow> 'c result \<times> 's) \<Rightarrow> string \<Rightarrow> 's \<Rightarrow> 'c option result \<times> 's" where
  "claim get uri sm =
     (if uri = [] then (Inr None, sm)
      else case getStream get uri sm of (Inl e, sm') \<Rightarrow> (Inl e, sm') | (Inr c, sm') \<Rightarrow> (Inr (Some c), sm'))"

definition getStreams ::
  "(string \<Rightarrow> 's \<Rightarrow> 'c result \<times> 's) \<Rightarrow> ('c \<Rightarrow> 's \<Rightarrow> 's) \<Rightarrow> stdio \<Rightarrow> 's \<Rightarrow> 'c triple result \<times> 's" where
  "getStreams get cls io sm =
     (case claim get (Stdin io) sm of
        (Inl e, sm) \<Rightarrow> (Inl (ErrWrap ''failed to get stdin stream'' e), sm)
      | (Inr s0, sm) \<Rightarrow>
     (case claim get (Stdout io) sm of
        (Inl e, sm) \<Rightarrow> (Inl (ErrWrap ''failed to get stdout stream'' e), close_opt cls s0 sm)
      | (Inr s1, sm) \<Rightarrow>
     (case claim get (Stderr io) sm of
        (Inl e, sm) \<Rightarrow> (Inl (ErrWrap ''failed to get stderr stream'' e), close_opt cls s1 (close_opt cls s0 sm))
      | (Inr s2, sm) \<Rightarrow> (Inr (s0, s1, s2), sm))))"

section \<open>processIO\<close>

text \<open>The kinds of \<open>runc.IO\<close> the code creates; a pipe I/O records which ends are open.\<close>

datatype runc_io = NullIO | PipeIO bool bool bool | BinaryIO

record 'c process_io =
  pio_io :: "runc_io option"
  pio_uri :: "(string \<times> string) option"
  pio_copy :: bool
  pio_stdio :: stdio
  pio_streams :: "'c triple"

definition withConditionalIO :: "stdio \<Rightarrow> runc_io" where
  "withConditionalIO c = PipeIO (Stdin c \<noteq> []) (Stdout c \<noteq> []) (Stderr c \<noteq> [])"

definition pipe_io :: "io_env \<Rightarrow> stdio \<Rightarrow> 'c process_io \<Rightarrow> 'c process_io result" where
  "pipe_io env io pio =
     (case ie_pipe_io env of
        Some e \<Rightarrow> Inl e
      | None \<Rightarrow> Inr (pio\<lparr>pio_copy := True, pio_io := Some (withConditionalIO io)\<rparr>))"

definition createIO ::
  "io_env \<Rightarrow> (string \<Rightarrow> 's \<Rightarrow> 'c result \<times> 's) \<Rightarrow> ('c \<Rightarrow> 's \<Rightarrow> 's) \<Rightarrow> stdio \<Rightarrow> 's \<Rightarrow>
     'c process_io result \<times> 's" where
  "createIO env get cls io sm =
     (let pio = \<lparr>pio_io = None, pio_uri = None, pio_copy = False, pio_stdio = io,
                 pio_streams = (None, None, None)\<rparr>
      in if stdio_IsNull io then
           (case ie_null_io env of
              Some e \<Rightarrow> (Inl e, sm)
            | None \<Rightarrow> (Inr (pio\<lparr>pio_io := Some NullIO\<rparr>), sm))
         else case ie_url_parse env (Stdout io) of
           Inl e \<Rightarrow> (Inl (ErrWrap ''unable to parse stdout uri'' e), sm)
         | Inr (scheme0, path) \<Rightarrow>
             let scheme = (if scheme0 = [] then ''fifo'' else scheme0);
                 pio = pio\<lparr>pio_uri := Some (scheme, path)\<rparr>
             in if scheme = ''stream'' then
                  (case getStreams get cls io sm of
                     (Inl e, sm) \<Rightarrow> (Inl e, sm)
                   | (Inr ss, sm) \<Rightarrow> (pipe_io env io (pio\<lparr>pio_streams := ss\<rparr>), sm))
                else if scheme = ''fifo'' then (pipe_io env io pio, sm)
                else if scheme = ''binary'' then
                  (case fst (NewBinaryIO (ie_binary_io env)) of
                     Some e \<Rightarrow> (Inl e, sm)
                   | None \<Rightarrow> (Inr (pio\<lparr>pio_io := Some BinaryIO\<rparr>), sm))
                else if scheme = ''file'' then
                  (case ie_mkdir_all env (path_dir path) of
                     Some e \<Rightarrow> (Inl e, sm)
                   | None \<Rightarrow>
                       (case ie_open_file env path of
                          Some e \<Rightarrow> (Inl e, sm)
                        | None \<Rightarrow>
                            (pipe_io env io (pio\<lparr>pio_stdio := io\<lparr>Stdout := path, Stderr := path\<rparr>\<rparr>), sm)))
                else (Inl (ErrWrap (''unsupported STDIO scheme '' @ scheme) (Errdef ErrNotImplemented)), sm))"

text \<open>\<open>processIO.Close\<close>: which objects it closes. The streams are only its own without a runc I/O.\<close>

datatype 'c io_closed = CloseRuncIO runc_io | CloseStream 'c

definition processIO_Close :: "'c process_io \<Rightarrow> 'c io_closed list" where
  "processIO_Close p =
     (case pio_io p of
        Some r \<Rightarrow> [CloseRuncIO r]
      | None \<Rightarrow>
          (case pio_streams p of (s0, s1, s2) \<Rightarrow>
             (case s0 of None \<Rightarrow> [] | Some c \<Rightarrow> [CloseStream c])
             @ (case s1 of None \<Rightarrow> [] | Some c \<Rightarrow> [CloseStream c])
             @ (case s2 of None \<Rightarrow> [] | Some c \<Rightarrow> if s2 = s1 then [] else [CloseStream c])))"

section \<open>Copying\<close>

text \<open>\<open>countingWriteCloser\<close>: closes the wrapped writer when the count falls to zero.\<close>

record counting =
  cw_count :: int
  cw_closed :: nat

definition newCountingWriteCloser :: "int \<Rightarrow> counting" where
  "newCountingWriteCloser n = \<lparr>cw_count = n, cw_closed = 0\<rparr>"

definition bumpCount :: "int \<Rightarrow> counting \<Rightarrow> counting" where
  "bumpCount d c = c\<lparr>cw_count := cw_count c + d\<rparr>"

definition counting_Close :: "counting \<Rightarrow> counting" where
  "counting_Close c =
     (let c' = bumpCount (-1) c
      in if cw_count c' > 0 then c' else c'\<lparr>cw_closed := Suc (cw_closed c')\<rparr>)"

datatype 'c closer = StreamCloser 'c | FifoCloser string | ConsoleCloser nat

datatype 'c dest = ToStream 'c | ToFifo string | ToFile string | ToShared string

text \<open>
  State of the loop of \<open>copyPipes\<close>: the copies started so far (stream index and destination) and
  the shared file writer with its count.
\<close>

record 'c copy_state =
  cs_copies :: "(nat \<times> 'c dest) list"
  cs_same :: "(string \<times> counting) option"

definition copy_output ::
  "io_env \<Rightarrow> bool \<Rightarrow> nat \<Rightarrow> string \<Rightarrow> 'c option \<Rightarrow> 'c copy_state \<Rightarrow> go_error option \<times> 'c copy_state" where
  "copy_output env same_names idx name st cs =
     (if name = [] then (None, cs)
      else case st of
        Some c \<Rightarrow> (None, cs\<lparr>cs_copies := cs_copies cs @ [(idx, ToStream c)]\<rparr>)
      | None \<Rightarrow>
          (case ie_is_fifo env name of
             Inl e \<Rightarrow> (Some e, cs)
           | Inr True \<Rightarrow>
               (case ie_open_fifo env name O_WRONLY of
                  Some e \<Rightarrow> (Some (ErrWrap (''containerd-shim: opening w/o fifo '' @ quote name @ '' failed'') e), cs)
                | None \<Rightarrow>
                    (case ie_open_fifo env name O_RDONLY of
                       Some e \<Rightarrow> (Some (ErrWrap (''containerd-shim: opening r/o fifo '' @ quote name @ '' failed'') e), cs)
                     | None \<Rightarrow> (None, cs\<lparr>cs_copies := cs_copies cs @ [(idx, ToFifo name)]\<rparr>)))
           | Inr False \<Rightarrow>
               (case cs_same cs of
                  Some (f, cw) \<Rightarrow>
                    (None, cs\<lparr>cs_same := Some (f, bumpCount 1 cw),
                              cs_copies := cs_copies cs @ [(idx, ToShared f)]\<rparr>)
                | None \<Rightarrow>
                    (case ie_open_file env name of
                       Some e \<Rightarrow> (Some (ErrWrap (''containerd-shim: opening file '' @ quote name @ '' failed'') e), cs)
                     | None \<Rightarrow>
                         (None, cs\<lparr>cs_same := (if same_names then Some (name, newCountingWriteCloser 1) else None),
                                   cs_copies := cs_copies cs @ [(idx, ToFile name)]\<rparr>)))))"

definition copyPipes ::
  "io_env \<Rightarrow> string \<Rightarrow> string \<Rightarrow> string \<Rightarrow> 'c triple \<Rightarrow> 'c closer option result \<times> 'c copy_state" where
  "copyPipes env stdin stdout stderr streams =
     (case streams of (s0, s1, s2) \<Rightarrow>
      let cs0 = \<lparr>cs_copies = [], cs_same = None\<rparr>; same = (stdout = stderr)
      in case copy_output env same 1 stdout s1 cs0 of
           (Some e, cs) \<Rightarrow> (Inl e, cs)
         | (None, cs) \<Rightarrow>
             (case copy_output env same 2 stderr s2 cs of
                (Some e, cs) \<Rightarrow> (Inl e, cs)
              | (None, cs) \<Rightarrow>
                  if stdin = [] then (Inr None, cs)
                  else case s0 of
                    Some c \<Rightarrow> (Inr (Some (StreamCloser c)), cs)
                  | None \<Rightarrow>
                      (case ie_open_fifo env stdin O_RDONLY_NONBLOCK of
                         Some e \<Rightarrow> (Inl (ErrNew (''containerd-shim: opening '' @ stdin @ '' failed: '' @ err_msg e)), cs)
                       | None \<Rightarrow> (Inr (Some (FifoCloser stdin)), cs))))"

definition processIO_Copy ::
  "io_env \<Rightarrow> 'c process_io \<Rightarrow> 'c closer option result \<times> 'c copy_state" where
  "processIO_Copy env p =
     (let none = \<lparr>cs_copies = [], cs_same = None\<rparr>; io = pio_stdio p
      in if \<not> pio_copy p then
           (if Stdin io = [] then (Inr None, none)
            else case ie_open_fifo env (Stdin io) O_WRONLY_NONBLOCK of
                   Some e \<Rightarrow> (Inl (ErrWrap (''failed to open stdin fifo '' @ Stdin io) e), none)
                 | None \<Rightarrow> (Inr (Some (FifoCloser (Stdin io))), none))
         else case copyPipes env (Stdin io) (Stdout io) (Stderr io) (pio_streams p) of
                (Inl e, cs) \<Rightarrow> (Inl (ErrWrap ''unable to copy pipes'' e), cs)
              | (Inr c, cs) \<Rightarrow> (Inr c, cs))"

section \<open>Interface: a manager whose streams can be closed\<close>

locale closing_manager = stream_manager Get holds
  for Get :: "string \<Rightarrow> 's \<Rightarrow> 'c result \<times> 's" and holds :: "'s \<Rightarrow> string \<Rightarrow> 'c option" +
  fixes cls :: "'c \<Rightarrow> 's \<Rightarrow> 's"
    and is_open :: "'s \<Rightarrow> 'c \<Rightarrow> bool"
  assumes close_holds: "holds (cls c s) = holds s"
    and close_open: "is_open (cls c s) c' = (c' \<noteq> c \<and> is_open s c')"
    and get_open: "is_open (snd (Get k s)) = is_open s"
begin

lemma getStream_cases:
  "(\<exists>e. getStream Get uri s = (Inl e, s) \<and> (\<not> has_prefix uri ''stream://'' \<or> holds s (drop 9 uri) = None))
   \<or> (\<exists>c s'. getStream Get uri s = (Inr c, s') \<and> has_prefix uri ''stream://''
        \<and> holds s (drop 9 uri) = Some c \<and> holds s' = (holds s)(drop 9 uri := None) \<and> is_open s' = is_open s)"
proof (cases "has_prefix uri ''stream://''")
  case False
  then show ?thesis by (simp add: getStream_def)
next
  case True
  show ?thesis
  proof (cases "holds s (drop 9 uri)")
    case None
    then obtain e where "Get (drop 9 uri) s = (Inl e, s)" using get_miss by blast
    with None True show ?thesis by (simp add: getStream_def)
  next
    case (Some c)
    then obtain s' where "Get (drop 9 uri) s = (Inr c, s')" "holds s' = (holds s)(drop 9 uri := None)"
      using get_hit by blast
    moreover have "is_open s' = is_open s" using get_open [of "drop 9 uri" s] calculation(1) by simp
    ultimately show ?thesis using Some True by (simp add: getStream_def)
  qed
qed

lemma claim_error: "claim Get uri s = (Inl e, s') \<Longrightarrow> s' = s"
  using getStream_cases [of uri s] by (auto simp: claim_def split: if_splits)

lemma claim_ok:
  "claim Get uri s = (Inr r, s') \<Longrightarrow>
     (if uri = [] then r = None \<and> s' = s
      else has_prefix uri ''stream://'' \<and> holds s (drop 9 uri) = r \<and> r \<noteq> None
         \<and> holds s' = (holds s)(drop 9 uri := None) \<and> is_open s' = is_open s)"
  using getStream_cases [of uri s] by (auto simp: claim_def split: if_splits)

text \<open>The streams of a failed claim that the manager no longer holds are closed.\<close>

lemma getStreams_failure_closes:
  assumes fail: "getStreams Get cls io s = (Inl e, s')"
    and lost: "holds s k = Some c" "holds s' k = None"
  shows "\<not> is_open s' c"
proof -
  show ?thesis
  proof (cases "claim Get (Stdin io) s")
    case (Pair r0 s0)
    show ?thesis
    proof (cases r0)
      case (Inl e0)
      with Pair fail have "s' = s0" by (simp add: getStreams_def)
      moreover have "s0 = s" using claim_error [of "Stdin io" s e0 s0] Pair Inl by simp
      ultimately show ?thesis using lost by simp
    next
      case (Inr c0)
      note c0 = claim_ok [OF Pair [unfolded Inr]]
      show ?thesis
      proof (cases "claim Get (Stdout io) s0")
        case P1: (Pair r1 s1)
        show ?thesis
        proof (cases r1)
          case L1: (Inl e1)
          have "s1 = s0" using claim_error [of "Stdout io" s0 e1 s1] P1 L1 by simp
          then have s': "s' = close_opt cls c0 s0"
            using Pair Inr P1 L1 fail by (simp add: getStreams_def)
          then show ?thesis
            using c0 lost by (cases c0) (auto simp: close_opt_def close_holds close_open split: if_splits)
        next
          case R1: (Inr c1)
          note c1 = claim_ok [OF P1 [unfolded R1]]
          obtain e2 where "claim Get (Stderr io) s1 = (Inl e2, s1)"
            and s': "s' = close_opt cls c1 (close_opt cls c0 s1)"
            using Pair Inr P1 R1 fail claim_error
            by (fastforce simp: getStreams_def split: prod.splits sum.splits)
          then show ?thesis
            using c0 c1 lost
            by (cases c0; cases c1) (auto simp: close_opt_def close_holds close_open split: if_splits)
        qed
      qed
    qed
  qed
qed

end

definition close_stream :: "nat \<Rightarrow> stream_service \<Rightarrow> stream_service" where
  "close_stream i s = set_conn i (snd (conn_close (ss_conns s i))) s"

interpretation proc_streams: closing_manager stream_Get "\<lambda>s. gm_get (ss_streams s)" close_stream
  "\<lambda>s i. c_open (ss_conns s i)"
  by unfold_locales
     (auto simp: close_stream_def set_conn_def conn_close_def stream_Get_def split: option.splits)

section \<open>Properties\<close>

text \<open>
  A failed \<open>getStreams\<close> leaks nothing: every stream it took out of the VM's registry before it
  failed has been closed.
\<close>

theorem getStreams_no_leak:
  assumes "getStreams stream_Get close_stream io s = (Inl e, s')"
    and "gm_get (ss_streams s) sid = Some i" and "gm_get (ss_streams s') sid = None"
  shows "\<not> c_open (ss_conns s' i)"
  using assms by (rule proc_streams.getStreams_failure_closes)

text \<open>
  \<open>createIO\<close> does leak: with stream I/O, when the runc pipes cannot be created after the streams
  were claimed, the call fails, the registry no longer holds the streams and their connections
  stay open.
\<close>

theorem createIO_leaks_streams:
  assumes "ie_pipe_io env = Some e" and "ie_url_parse env (''stream://'' @ sid) = Inr (''stream'', path)"
    and "gm_get (ss_streams s) sid = Some i" and "c_open (ss_conns s i)"
  shows "\<exists>s'. createIO env stream_Get close_stream
                \<lparr>Stdin = [], Stdout = ''stream://'' @ sid, Stderr = [], Terminal = False\<rparr> s = (Inl e, s')
            \<and> gm_get (ss_streams s') sid = None \<and> c_open (ss_conns s' i)"
  using assms
  by (simp add: createIO_def stdio_IsNull_def getStreams_def claim_def getStream_def has_prefix_def
      stream_Get_def pipe_io_def)

text \<open>
  With one log file for both outputs the sharing goes wrong: the copy of stdout gets the bare
  file, so its end closes the file under the copy of stderr, and the counting writer that stderr
  uses is never brought to zero by the one close it receives.
\<close>

theorem same_file_not_counted:
  assumes "ie_is_fifo env f = Inr False" and "ie_open_file env f = None" and "f \<noteq> []"
  shows "\<exists>cw. copyPipes env [] f f (None, None, None) =
               (Inr None, \<lparr>cs_copies = [(1, ToFile f), (2, ToShared f)], cs_same = Some (f, cw)\<rparr>)
            \<and> cw_count cw = 2 \<and> cw_closed (counting_Close cw) = 0"
  using assms
  by (simp add: copyPipes_def copy_output_def newCountingWriteCloser_def bumpCount_def counting_Close_def
      Let_def)

text \<open>
  The cleanup of a failed \<open>NewBinaryIO\<close> runs for every pipe created before the failure, and
  kills the logging process exactly when it was started; a success runs none of it.
\<close>

theorem NewBinaryIO_cleanup:
  "case NewBinaryIO env of (r, closed) \<Rightarrow>
     (r = None \<longrightarrow> closed = [])
   \<and> (r \<noteq> None \<and> be_namespace env = None \<longrightarrow>
        (OutPipe \<in> set closed \<longleftrightarrow> be_out_pipe env = None)
      \<and> (ErrPipe \<in> set closed \<longleftrightarrow> be_out_pipe env = None \<and> be_err_pipe env = None)
      \<and> (ReadEnd \<in> set closed \<longleftrightarrow> be_out_pipe env = None \<and> be_err_pipe env = None \<and> be_pipe env = None)
      \<and> (LogCmd \<in> set closed \<longleftrightarrow> be_out_pipe env = None \<and> be_err_pipe env = None \<and> be_pipe env = None
                                \<and> be_start env = None)
      \<and> distinct closed)"
  by (simp add: NewBinaryIO_def bin_fail_def split: option.splits)

section \<open>Witnesses\<close>

text \<open>An operating system in which everything succeeds and every path is a plain file.\<close>

definition calm_bin :: bin_env where
  "calm_bin = \<lparr>be_namespace = None, be_out_pipe = None, be_err_pipe = None, be_pipe = None,
     be_start = None, be_wclose = None, be_read = None, be_close = (\<lambda>_. None)\<rparr>"

definition calm_io :: io_env where
  "calm_io = \<lparr>ie_null_io = None, ie_pipe_io = None, ie_binary_io = calm_bin,
     ie_url_parse = (\<lambda>u. if has_prefix u ''stream://'' then Inr (''stream'', drop 9 u) else Inr ([], u)),
     ie_mkdir_all = (\<lambda>_. None), ie_open_file = (\<lambda>_. None), ie_is_fifo = (\<lambda>_. Inr False),
     ie_open_fifo = (\<lambda>_ _. None)\<rparr>"

definition one_stream :: stream_service where
  "one_stream = one_conn\<lparr>ss_streams := [(''x'', 7)]\<rparr>"

theorem getStreams_no_leak_witness:
  "\<not> c_open (ss_conns (close_stream 7 one_conn) 7)"
proof (rule getStreams_no_leak [where s = one_stream and sid = "''x''" and i = 7
      and io = "\<lparr>Stdin = ''stream://x'', Stdout = ''stream://y'', Stderr = [], Terminal = False\<rparr>"])
  show "getStreams stream_Get close_stream
      \<lparr>Stdin = ''stream://x'', Stdout = ''stream://y'', Stderr = [], Terminal = False\<rparr> one_stream =
    (Inl (ErrWrap ''failed to get stdout stream''
       (ErrWrap (''unable to get stream '' @ quote ''y'') (Errdef ErrNotFound))), close_stream 7 one_conn)"
    by (simp add: getStreams_def claim_def getStream_def has_prefix_def stream_Get_def one_stream_def
        one_conn_def close_opt_def)
qed (simp_all add: one_stream_def one_conn_def close_stream_def set_conn_def)

theorem createIO_leaks_streams_witness:
  "\<exists>s'. createIO (calm_io\<lparr>ie_pipe_io := Some (ErrNew ''EMFILE'')\<rparr>) stream_Get close_stream
          \<lparr>Stdin = [], Stdout = ''stream://'' @ ''x'', Stderr = [], Terminal = False\<rparr> one_stream
        = (Inl (ErrNew ''EMFILE''), s')
      \<and> gm_get (ss_streams s') ''x'' = None \<and> c_open (ss_conns s' 7)"
  by (rule createIO_leaks_streams [where path = "''x''"])
     (simp_all add: calm_io_def has_prefix_def one_stream_def one_conn_def idle_conn_def)

theorem same_file_not_counted_witness:
  "\<exists>cw. copyPipes calm_io [] ''/log'' ''/log'' (None :: nat option, None, None) =
          (Inr None, \<lparr>cs_copies = [(1, ToFile ''/log''), (2, ToShared ''/log'')], cs_same = Some (''/log'', cw)\<rparr>)
      \<and> cw_count cw = 2 \<and> cw_closed (counting_Close cw) = 0"
  by (rule same_file_not_counted) (simp_all add: calm_io_def)

theorem NewBinaryIO_cleanup_witness:
  "fst (NewBinaryIO (calm_bin\<lparr>be_wclose := Some (ErrNew ''EBADF'')\<rparr>)) \<noteq> None
   \<and> LogCmd \<in> set (snd (NewBinaryIO (calm_bin\<lparr>be_wclose := Some (ErrNew ''EBADF'')\<rparr>)))"
  using NewBinaryIO_cleanup [of "calm_bin\<lparr>be_wclose := Some (ErrNew ''EBADF'')\<rparr>"]
  by (simp add: NewBinaryIO_def bin_fail_def calm_bin_def)

end
