(* ===== verification/Process.thy ===== *)
theory Process
  imports Process_IO
begin

text \<open>
  The processes of a container, package \<open>internal/vminit/process\<close>: the init process
  (\<open>init.go\<close>, \<open>init_state.go\<close>), processes added by exec (\<open>exec.go\<close>, \<open>exec_state.go\<close>), their
  common end state (\<open>deleted_state.go\<close>) and the helpers of \<open>utils.go\<close>.

  Each method runs under the process's mutex and is one function here: from the outcomes of its
  external calls (\<open>proc_env\<close>) and the process it returns the error and the process after it. The
  calls it makes on the OCI runtime, the console, closers and mounts are appended, in order, to the
  field \<open>ip_calls\<close> or \<open>ep_calls\<close>; these fields only record. Closing a closed channel is a panic.
\<close>

section \<open>Data\<close>

type_synonym time = nat

record runc =
  rc_Command :: string
  rc_Log :: string
  rc_Root :: string
  rc_SystemdCgroup :: bool

datatype init_state =
    CreatedState
  | CreatedCheckpointState string
  | RunningState
  | PausedState
  | StoppedState
  | DeletedState

datatype exec_state = ExecCreated | ExecRunning | ExecStopped | ExecDeleted

record Mount =
  m_Type :: string
  m_Source :: string
  m_Target :: string
  m_Options :: "string list"

record CreateConfig =
  cc_ID :: string
  cc_Bundle :: string
  cc_Runtime :: string
  cc_Rootfs :: "Mount list"
  cc_Terminal :: bool
  cc_Stdin :: string
  cc_Stdout :: string
  cc_Stderr :: string
  cc_Checkpoint :: string
  cc_ParentCheckpoint :: string
  cc_Options :: string

record ExecConfig =
  ec_ID :: string
  ec_Terminal :: bool
  ec_Stdin :: string
  ec_Stdout :: string
  ec_Stderr :: string
  ec_Spec :: "string option"

record CheckpointConfig =
  kc_WorkDir :: string
  kc_Path :: string
  kc_Exit :: bool
  kc_AllowOpenTCP :: bool
  kc_AllowExternalUnixSockets :: bool
  kc_AllowTerminal :: bool
  kc_FileLocks :: bool
  kc_EmptyNamespaces :: "string list"

datatype call =
    RtCreate string | RtStart string | RtDelete string | RtPause string | RtResume string
  | RtUpdate string | RtRestore string | RtExec string
  | RtCheckpoint string CheckpointConfig string bool
  | RtKill string int bool
  | ShutdownConsole | IOClosed | CloserClosed "nat closer" | Unmounted string
  | RemovedFile string | RemovedAll string | CopiedFile string string | OsKill int nat

record init_proc =
  ip_state :: init_state
  ip_wait_closed :: bool
  ip_WorkDir :: string
  ip_id :: string
  ip_Bundle :: string
  ip_console :: "nat option"
  ip_io :: "nat process_io option"
  ip_runtime :: runc
  ip_pausing :: bool
  ip_status :: int
  ip_exited :: time
  ip_pid :: int
  ip_closers :: "nat closer list"
  ip_stdin :: "nat closer option"
  ip_stdio :: stdio
  ip_Rootfs :: string
  ip_IoUID :: int
  ip_IoGID :: int
  ip_NoPivotRoot :: bool
  ip_NoNewKeyring :: bool
  ip_CriuWorkPath :: string
  ip_calls :: "call list"

record exec_proc =
  ep_state :: exec_state
  ep_wait_closed :: bool
  ep_id :: string
  ep_console :: "nat option"
  ep_io :: "nat process_io option"
  ep_status :: int
  ep_exited :: time
  ep_pid :: int
  ep_closers :: "nat closer list"
  ep_stdin :: "nat closer option"
  ep_stdio :: stdio
  ep_path :: string
  ep_spec :: nat
  ep_spec_terminal :: bool
  ep_calls :: "call list"

text \<open>
  An entry of the runtime's JSON log. A field the entry does not have keeps, in the decoded struct,
  the value of the entry before it.
\<close>

record log_entry =
  le_level :: "string option"
  le_msg :: "string option"

text \<open>Outcomes of the external calls of one method call.\<close>

record proc_env =
  x_io :: io_env
  x_console_socket :: "go_error option"
  x_receive_master :: "nat result"
  x_copy_console :: "nat \<Rightarrow> nat result"
  x_stdin_closer :: "nat \<Rightarrow> nat closer option"
  x_resize :: "go_error option"
  x_rt_create :: "go_error option"
  x_rt_start :: "go_error option"
  x_rt_delete :: "go_error option"
  x_rt_pause :: "go_error option"
  x_rt_resume :: "go_error option"
  x_rt_update :: "go_error option"
  x_rt_checkpoint :: "go_error option"
  x_rt_restore :: "go_error option"
  x_rt_exec :: "go_error option"
  x_rt_kill :: "go_error option"
  x_unix_kill :: "go_error option"
  x_read_pid :: "string \<Rightarrow> int result"
  x_log :: "(log_entry list \<times> go_error option) result"
  x_unmount :: "go_error option"
  x_spec :: "string \<Rightarrow> nat result"
  x_resources :: "string \<Rightarrow> go_error option"
  x_now :: time

section \<open>utils.go\<close>

definition RuncRoot :: string where
  "RuncRoot = ''/run/runc''"

definition InitPidFile :: string where
  "InitPidFile = ''init.pid''"

definition newPidFile :: "string \<Rightarrow> string" where
  "newPidFile bundle = path_join [bundle, InitPidFile]"

definition newExecPidFile :: "string \<Rightarrow> string \<Rightarrow> string" where
  "newExecPidFile bundle eid = path_join [bundle, eid @ ''.pid'']"

text \<open>
  The decode loop of \<open>getLastRuntimeError\<close>: the struct \<open>(level, msg)\<close> is reused, and looked at
  again after the decoder reported the end of the file.
\<close>

fun last_error_loop :: "string \<Rightarrow> string \<Rightarrow> string \<Rightarrow> log_entry list \<Rightarrow> go_error option \<Rightarrow> string result" where
  "last_error_loop level msg acc [] (Some e) = Inl e"
| "last_error_loop level msg acc [] None =
     Inr (if level = ''error'' then trim_space msg else acc)"
| "last_error_loop level msg acc (le # les) r =
     (let level' = (case le_level le of None \<Rightarrow> level | Some l \<Rightarrow> l);
          msg' = (case le_msg le of None \<Rightarrow> msg | Some m \<Rightarrow> m)
      in last_error_loop level' msg' (if level' = ''error'' then trim_space msg' else acc) les r)"

definition getLastRuntimeError :: "proc_env \<Rightarrow> runc \<Rightarrow> string result" where
  "getLastRuntimeError env r =
     (if rc_Log r = [] then Inr []
      else case x_log env of
        Inl e \<Rightarrow> Inl e
      | Inr (les, derr) \<Rightarrow> last_error_loop [] [] [] les derr)"

definition runtimeError :: "proc_env \<Rightarrow> runc \<Rightarrow> go_error option \<Rightarrow> string \<Rightarrow> go_error option" where
  "runtimeError env r rErr msg =
     (case rErr of
        None \<Rightarrow> None
      | Some e \<Rightarrow>
          (case getLastRuntimeError env r of
             Inl err \<Rightarrow>
               Some (ErrWrap (msg @ '': unable to retrieve OCI runtime error ('' @ err_msg err @ '')'') e)
           | Inr rMsg \<Rightarrow>
               if rMsg = [] then Some (ErrWrap msg e) else Some (ErrNew (msg @ '': '' @ rMsg))))"

definition criuError :: "go_error \<Rightarrow> string" where
  "criuError e = hd (split_on (CHR 0x0A) (err_msg e))"

definition err_esrch :: go_error where
  "err_esrch = Sentinel ''no such process''"

definition checkKillError :: "go_error option \<Rightarrow> go_error option" where
  "checkKillError r =
     (case r of
        None \<Rightarrow> None
      | Some e \<Rightarrow>
          if contains (err_msg e) ''os: process already finished''
             \<or> contains (err_msg e) ''container not running''
             \<or> contains (to_lower (err_msg e)) ''no such process''
             \<or> e = err_esrch
          then Some (ErrWrap ''process already finished'' (Errdef ErrNotFound))
          else if contains (err_msg e) ''does not exist''
          then Some (ErrWrap ''no such container'' (Errdef ErrNotFound))
          else Some (ErrWrap ''unknown error after kill'' e))"

datatype any_state = InitSt init_state | ExecSt exec_state

fun stateName :: "any_state \<Rightarrow> string outcome" where
  "stateName (InitSt RunningState) = Ret ''running''"
| "stateName (ExecSt ExecRunning) = Ret ''running''"
| "stateName (InitSt CreatedState) = Ret ''created''"
| "stateName (ExecSt ExecCreated) = Ret ''created''"
| "stateName (InitSt (CreatedCheckpointState _)) = Ret ''created''"
| "stateName (InitSt PausedState) = Ret ''paused''"
| "stateName (InitSt DeletedState) = Ret ''deleted''"
| "stateName (ExecSt ExecDeleted) = Ret ''deleted''"
| "stateName (InitSt StoppedState) = Ret ''stopped''"
| "stateName (ExecSt ExecStopped) = Panic ''invalid state''"

definition invalid_transition :: "any_state \<Rightarrow> string \<Rightarrow> 'a result outcome" where
  "invalid_transition s name =
     obind (stateName s)
       (\<lambda>n. Ret (Inl (ErrNew (''invalid state transition '' @ quote n @ '' to '' @ quote name))))"

section \<open>Transitions of the states\<close>

text \<open>The deleted state has no \<open>transition\<close> method; its equations only make the functions total.\<close>

fun init_transition :: "init_state \<Rightarrow> string \<Rightarrow> init_state result outcome" where
  "init_transition CreatedState name =
     (if name = ''running'' then Ret (Inr RunningState)
      else if name = ''stopped'' then Ret (Inr StoppedState)
      else if name = ''deleted'' then Ret (Inr DeletedState)
      else invalid_transition (InitSt CreatedState) name)"
| "init_transition (CreatedCheckpointState opts) name =
     (if name = ''running'' then Ret (Inr RunningState)
      else if name = ''stopped'' then Ret (Inr StoppedState)
      else if name = ''deleted'' then Ret (Inr DeletedState)
      else invalid_transition (InitSt (CreatedCheckpointState opts)) name)"
| "init_transition RunningState name =
     (if name = ''stopped'' then Ret (Inr StoppedState)
      else if name = ''paused'' then Ret (Inr PausedState)
      else invalid_transition (InitSt RunningState) name)"
| "init_transition PausedState name =
     (if name = ''running'' then Ret (Inr RunningState)
      else if name = ''stopped'' then Ret (Inr StoppedState)
      else invalid_transition (InitSt PausedState) name)"
| "init_transition StoppedState name =
     (if name = ''deleted'' then Ret (Inr DeletedState)
      else invalid_transition (InitSt StoppedState) name)"
| "init_transition DeletedState name = invalid_transition (InitSt DeletedState) name"

fun exec_transition :: "exec_state \<Rightarrow> string \<Rightarrow> exec_state result outcome" where
  "exec_transition ExecCreated name =
     (if name = ''running'' then Ret (Inr ExecRunning)
      else if name = ''stopped'' then Ret (Inr ExecStopped)
      else if name = ''deleted'' then Ret (Inr ExecDeleted)
      else invalid_transition (ExecSt ExecCreated) name)"
| "exec_transition ExecRunning name =
     (if name = ''stopped'' then Ret (Inr ExecStopped)
      else invalid_transition (ExecSt ExecRunning) name)"
| "exec_transition ExecStopped name =
     (if name = ''deleted'' then Ret (Inr ExecDeleted)
      else invalid_transition (ExecSt ExecStopped) name)"
| "exec_transition ExecDeleted name = invalid_transition (ExecSt ExecDeleted) name"

text \<open>A method's result: the error it returns and the process after it.\<close>

type_synonym 'p step = "(go_error option \<times> 'p) outcome"

definition init_goto :: "string \<Rightarrow> init_proc \<Rightarrow> init_proc step" where
  "init_goto name p =
     obind (init_transition (ip_state p) name)
       (\<lambda>r. case r of Inl e \<Rightarrow> Ret (Some e, p) | Inr st \<Rightarrow> Ret (None, p\<lparr>ip_state := st\<rparr>))"

definition exec_goto :: "string \<Rightarrow> exec_proc \<Rightarrow> exec_proc step" where
  "exec_goto name e =
     obind (exec_transition (ep_state e) name)
       (\<lambda>r. case r of Inl x \<Rightarrow> Ret (Some x, e) | Inr st \<Rightarrow> Ret (None, e\<lparr>ep_state := st\<rparr>))"

definition icall :: "call \<Rightarrow> init_proc \<Rightarrow> init_proc" where
  "icall c p = p\<lparr>ip_calls := ip_calls p @ [c]\<rparr>"

definition ecall :: "call \<Rightarrow> exec_proc \<Rightarrow> exec_proc" where
  "ecall c e = e\<lparr>ep_calls := ep_calls e @ [c]\<rparr>"

definition close_of_closed :: string where
  "close_of_closed = ''close of closed channel''"

section \<open>The init process: helpers of the states\<close>

definition NewRunc :: "string \<Rightarrow> string \<Rightarrow> string \<Rightarrow> bool \<Rightarrow> runc" where
  "NewRunc root path runtime systemd =
     \<lparr>rc_Command = runtime, rc_Log = path_join [path, ''log.json''],
      rc_Root = (if root = [] then RuncRoot else root), rc_SystemdCgroup = systemd\<rparr>"

text \<open>\<open>New\<close>: every other field has Go's zero value.\<close>

definition process_New :: "string \<Rightarrow> runc \<Rightarrow> stdio \<Rightarrow> init_proc" where
  "process_New pid runtime sio =
     \<lparr>ip_state = CreatedState, ip_wait_closed = False, ip_WorkDir = [], ip_id = pid, ip_Bundle = [],
      ip_console = None, ip_io = None, ip_runtime = runtime, ip_pausing = False, ip_status = 0,
      ip_exited = 0, ip_pid = 0, ip_closers = [], ip_stdin = None, ip_stdio = sio, ip_Rootfs = [],
      ip_IoUID = 0, ip_IoGID = 0, ip_NoPivotRoot = False, ip_NoNewKeyring = False,
      ip_CriuWorkPath = [], ip_calls = []\<rparr>"

definition init_start :: "proc_env \<Rightarrow> init_proc \<Rightarrow> go_error option \<times> init_proc" where
  "init_start env p =
     (runtimeError env (ip_runtime p) (x_rt_start env) ''OCI runtime start failed'',
      icall (RtStart (ip_id p)) p)"

definition init_setExited :: "proc_env \<Rightarrow> int \<Rightarrow> init_proc \<Rightarrow> init_proc outcome" where
  "init_setExited env st p =
     (let p' = icall ShutdownConsole (p\<lparr>ip_exited := x_now env, ip_status := st\<rparr>)
      in if ip_wait_closed p then Panic close_of_closed else Ret (p'\<lparr>ip_wait_closed := True\<rparr>))"

definition init_delete :: "proc_env \<Rightarrow> init_proc \<Rightarrow> go_error option \<times> init_proc" where
  "init_delete env p =
     (let p1 = icall (RtDelete (ip_id p)) p;
          err = (case x_rt_delete env of
                   None \<Rightarrow> None
                 | Some e \<Rightarrow> if contains (err_msg e) ''does not exist'' then None
                            else runtimeError env (ip_runtime p) (Some e) ''failed to delete task'');
          p2 = (if ip_io p \<noteq> None
                then p1\<lparr>ip_calls := ip_calls p1 @ map CloserClosed (ip_closers p) @ [IOClosed]\<rparr>
                else p1);
          p3 = icall (Unmounted (ip_Rootfs p)) p2
      in (case x_unmount env of
            None \<Rightarrow> (err, p3)
          | Some e2 \<Rightarrow> (if err = None then Some (ErrWrap ''failed rootfs umount'' e2) else err, p3)))"

definition init_kill :: "proc_env \<Rightarrow> nat \<Rightarrow> bool \<Rightarrow> init_proc \<Rightarrow> go_error option \<times> init_proc" where
  "init_kill env sig all p =
     (checkKillError (x_rt_kill env), icall (RtKill (ip_id p) (int sig) all) p)"

text \<open>\<open>update\<close>: the request's resources are a pointer that may be nil.\<close>

definition init_update :: "proc_env \<Rightarrow> string option \<Rightarrow> init_proc \<Rightarrow> init_proc step" where
  "init_update env r p =
     (case r of
        None \<Rightarrow> Panic ''invalid memory address or nil pointer dereference''
      | Some v \<Rightarrow>
          (case x_resources env v of
             Some e \<Rightarrow> Ret (Some e, p)
           | None \<Rightarrow> Ret (x_rt_update env, icall (RtUpdate (ip_id p)) p)))"

definition init_checkpoint :: "proc_env \<Rightarrow> CheckpointConfig \<Rightarrow> init_proc \<Rightarrow> go_error option \<times> init_proc" where
  "init_checkpoint env r p =
     (let work = (if kc_WorkDir r = [] then path_join [ip_WorkDir p, ''criu-work''] else kc_WorkDir r);
          p1 = icall (RtCheckpoint (ip_id p) r work (\<not> kc_Exit r)) p;
          dumpLog = path_join [ip_Bundle p, ''criu-dump.log''];
          fin = (\<lambda>q. if kc_WorkDir r = [] then icall (RemovedAll work) q else q)
      in case x_rt_checkpoint env of
           None \<Rightarrow> (None, fin p1)
         | Some e \<Rightarrow>
             (Some (ErrNew (criuError e @ '' path= '' @ dumpLog)),
              fin (icall (CopiedFile dumpLog (path_join [work, ''dump.log''])) p1)))"

text \<open>\<open>exec\<close>: a new process in its created state, its spec, which may be nil, decoded from the request.\<close>

definition init_exec :: "proc_env \<Rightarrow> string \<Rightarrow> ExecConfig \<Rightarrow> init_proc \<Rightarrow> exec_proc result outcome" where
  "init_exec env path r p =
     (case ec_Spec r of
        None \<Rightarrow> Panic ''invalid memory address or nil pointer dereference''
      | Some v \<Rightarrow>
          (case x_spec env v of
             Inl e \<Rightarrow> Ret (Inl e)
           | Inr spec \<Rightarrow>
               Ret (Inr \<lparr>ep_state = ExecCreated, ep_wait_closed = False, ep_id = ec_ID r, ep_console = None,
                         ep_io = None, ep_status = 0, ep_exited = 0, ep_pid = 0, ep_closers = [], ep_stdin = None,
                         ep_stdio = \<lparr>Stdin = ec_Stdin r, Stdout = ec_Stdout r, Stderr = ec_Stderr r,
                                     Terminal = ec_Terminal r\<rparr>,
                         ep_path = path, ep_spec = spec, ep_spec_terminal = ec_Terminal r, ep_calls = []\<rparr>)))"

text \<open>Shared tail of \<open>Create\<close> and of a restore: connect the console, or start the pipe copies.\<close>

definition init_console :: "proc_env \<Rightarrow> init_proc \<Rightarrow> go_error option \<times> init_proc" where
  "init_console env p =
     (case x_receive_master env of
        Inl e \<Rightarrow> (Some (ErrWrap ''failed to retrieve console master'' e), p)
      | Inr cons0 \<Rightarrow>
          (case x_copy_console env cons0 of
             Inl e \<Rightarrow> (Some (ErrWrap ''failed to start console copy'' e), p)
           | Inr cons \<Rightarrow>
               let p1 = p\<lparr>ip_console := Some cons\<rparr>
               in (None,
                   case x_stdin_closer env cons of
                     None \<Rightarrow> p1
                   | Some c \<Rightarrow> p1\<lparr>ip_stdin := Some c, ip_closers := ip_closers p1 @ [c]\<rparr>)))"

definition init_pipes :: "proc_env \<Rightarrow> nat process_io \<Rightarrow> init_proc \<Rightarrow> go_error option \<times> init_proc" where
  "init_pipes env pio p =
     (case fst (processIO_Copy (x_io env) pio) of
        Inl e \<Rightarrow> (Some (ErrWrap ''failed to start io pipe copy'' e), p)
      | Inr None \<Rightarrow> (None, p)
      | Inr (Some c) \<Rightarrow> (None, p\<lparr>ip_stdin := Some c, ip_closers := ip_closers p @ [c]\<rparr>))"

definition init_pid :: "proc_env \<Rightarrow> string \<Rightarrow> init_proc \<Rightarrow> go_error option \<times> init_proc" where
  "init_pid env file p =
     (case x_read_pid env file of
        Inl e \<Rightarrow> (Some (ErrWrap ''failed to retrieve OCI runtime container pid'' e), p)
      | Inr n \<Rightarrow> (None, p\<lparr>ip_pid := n\<rparr>))"

text \<open>Sequencing of steps that return an error and the process.\<close>

definition then_step :: "go_error option \<times> 'p \<Rightarrow> ('p \<Rightarrow> go_error option \<times> 'p) \<Rightarrow> go_error option \<times> 'p" where
  "then_step r f = (case r of (Some e, p) \<Rightarrow> (Some e, p) | (None, p) \<Rightarrow> f p)"

text \<open>\<open>Init.Create\<close>; on an error the deferred function closes the I/O it created.\<close>

definition init_Create ::
  "proc_env \<Rightarrow> CreateConfig \<Rightarrow> init_proc \<Rightarrow> stream_service \<Rightarrow> (go_error option \<times> init_proc) \<times> stream_service" where
  "init_Create env r p sm =
     (let run = (\<lambda>p. (runtimeError env (ip_runtime p) (x_rt_create env) ''OCI runtime create failed'',
                     icall (RtCreate (cc_ID r)) p));
          pid = init_pid env (newPidFile (ip_Bundle p))
      in if cc_Terminal r then
           (case x_console_socket env of
              Some e \<Rightarrow> ((Some (ErrWrap ''failed to create OCI runtime console socket'' e), p), sm)
            | None \<Rightarrow> (then_step (then_step (run p) (init_console env)) pid, sm))
         else
           (case createIO (x_io env) stream_Get close_stream (ip_stdio p) sm of
              (Inl e, sm) \<Rightarrow> ((Some (ErrWrap ''failed to create init process I/O'' e), p), sm)
            | (Inr pio, sm) \<Rightarrow>
                (case then_step (then_step (run (p\<lparr>ip_io := Some pio\<rparr>)) (init_pipes env pio)) pid of
                   (None, p') \<Rightarrow> ((None, p'), sm)
                 | (Some e, p') \<Rightarrow> ((Some e, icall IOClosed p'), sm))))"

section \<open>The init process: methods dispatched on the state\<close>

definition lift_step :: "go_error option \<times> 'p \<Rightarrow> ('p \<Rightarrow> 'p step) \<Rightarrow> 'p step" where
  "lift_step r f = (case r of (Some e, p) \<Rightarrow> Ret (Some e, p) | (None, p) \<Rightarrow> f p)"

definition refuse :: "string \<Rightarrow> 'p \<Rightarrow> 'p step" where
  "refuse msg p = Ret (Some (ErrNew msg), p)"

text \<open>\<open>createdCheckpointState.Start\<close>: the restore of a checkpoint.\<close>

definition checkpoint_Start :: "proc_env \<Rightarrow> string \<Rightarrow> init_proc \<Rightarrow> init_proc step" where
  "checkpoint_Start env pidfile p =
     (let run = (\<lambda>p. (runtimeError env (ip_runtime p) (x_rt_restore env) ''OCI runtime restore failed'',
                     icall (RtRestore (ip_id p)) p));
          pid = init_pid env pidfile
      in if Terminal (ip_stdio p) then
           (case x_console_socket env of
              Some e \<Rightarrow> Ret (Some (ErrWrap ''failed to create OCI runtime console socket'' e), p)
            | None \<Rightarrow> lift_step (then_step (then_step (run p) (init_console env)) pid) (init_goto ''running''))
         else
           lift_step (run p)
             (\<lambda>p. case ip_io p of
                    None \<Rightarrow> Panic ''invalid memory address or nil pointer dereference''
                  | Some pio \<Rightarrow> lift_step (then_step (init_pipes env pio p) pid) (init_goto ''running'')))"

fun init_Start :: "proc_env \<Rightarrow> init_state \<Rightarrow> init_proc \<Rightarrow> init_proc step" where
  "init_Start env CreatedState p = lift_step (init_start env p) (init_goto ''running'')"
| "init_Start env (CreatedCheckpointState pidfile) p = checkpoint_Start env pidfile p"
| "init_Start env RunningState p = refuse ''cannot start a running process'' p"
| "init_Start env PausedState p = refuse ''cannot start a paused process'' p"
| "init_Start env StoppedState p = refuse ''cannot start a stopped process'' p"
| "init_Start env DeletedState p = refuse ''cannot start a deleted process'' p"

definition Init_Start :: "proc_env \<Rightarrow> init_proc \<Rightarrow> init_proc step" where
  "Init_Start env p = init_Start env (ip_state p) p"

fun init_Delete :: "proc_env \<Rightarrow> init_state \<Rightarrow> init_proc \<Rightarrow> init_proc step" where
  "init_Delete env CreatedState p = lift_step (init_delete env p) (init_goto ''deleted'')"
| "init_Delete env (CreatedCheckpointState _) p = lift_step (init_delete env p) (init_goto ''deleted'')"
| "init_Delete env RunningState p = refuse ''cannot delete a running process'' p"
| "init_Delete env PausedState p = refuse ''cannot delete a paused process'' p"
| "init_Delete env StoppedState p = lift_step (init_delete env p) (init_goto ''deleted'')"
| "init_Delete env DeletedState p =
     Ret (Some (ErrWrap ''cannot delete a deleted process'' (Errdef ErrNotFound)), p)"

definition Init_Delete :: "proc_env \<Rightarrow> init_proc \<Rightarrow> init_proc step" where
  "Init_Delete env p = init_Delete env (ip_state p) p"

text \<open>
  \<open>runningState.Pause\<close> raises the flag \<open>pausing\<close> before it calls the runtime and lowers it on
  every return; \<open>pause_begin\<close> is what a concurrent \<open>Status\<close> sees in between.
\<close>

definition pause_begin :: "init_proc \<Rightarrow> init_proc" where
  "pause_begin p = p\<lparr>ip_pausing := True\<rparr>"

definition running_Pause :: "proc_env \<Rightarrow> init_proc \<Rightarrow> init_proc step" where
  "running_Pause env p =
     (let p1 = icall (RtPause (ip_id p)) (pause_begin p)
      in case runtimeError env (ip_runtime p) (x_rt_pause env) ''OCI runtime pause failed'' of
           Some e \<Rightarrow> Ret (Some e, p1\<lparr>ip_pausing := False\<rparr>)
         | None \<Rightarrow> obind (init_goto ''paused'' p1) (\<lambda>(r, q). Ret (r, q\<lparr>ip_pausing := False\<rparr>)))"

fun init_Pause :: "proc_env \<Rightarrow> init_state \<Rightarrow> init_proc \<Rightarrow> init_proc step" where
  "init_Pause env CreatedState p = refuse ''cannot pause task in created state'' p"
| "init_Pause env (CreatedCheckpointState _) p = refuse ''cannot pause task in created state'' p"
| "init_Pause env RunningState p = running_Pause env p"
| "init_Pause env PausedState p = refuse ''cannot pause a paused container'' p"
| "init_Pause env StoppedState p = refuse ''cannot pause a stopped container'' p"
| "init_Pause env DeletedState p = refuse ''cannot pause a deleted process'' p"

definition Init_Pause :: "proc_env \<Rightarrow> init_proc \<Rightarrow> init_proc step" where
  "Init_Pause env p = init_Pause env (ip_state p) p"

fun init_Resume :: "proc_env \<Rightarrow> init_state \<Rightarrow> init_proc \<Rightarrow> init_proc step" where
  "init_Resume env CreatedState p = refuse ''cannot resume task in created state'' p"
| "init_Resume env (CreatedCheckpointState _) p = refuse ''cannot resume task in created state'' p"
| "init_Resume env RunningState p = refuse ''cannot resume a running process'' p"
| "init_Resume env PausedState p =
     lift_step (runtimeError env (ip_runtime p) (x_rt_resume env) ''OCI runtime resume failed'',
                icall (RtResume (ip_id p)) p)
       (init_goto ''running'')"
| "init_Resume env StoppedState p = refuse ''cannot resume a stopped container'' p"
| "init_Resume env DeletedState p = refuse ''cannot resume a deleted process'' p"

definition Init_Resume :: "proc_env \<Rightarrow> init_proc \<Rightarrow> init_proc step" where
  "Init_Resume env p = init_Resume env (ip_state p) p"

fun init_Update :: "proc_env \<Rightarrow> string option \<Rightarrow> init_state \<Rightarrow> init_proc \<Rightarrow> init_proc step" where
  "init_Update env r StoppedState p = refuse ''cannot update a stopped container'' p"
| "init_Update env r DeletedState p = refuse ''cannot update a deleted process'' p"
| "init_Update env r _ p = init_update env r p"

definition Init_Update :: "proc_env \<Rightarrow> string option \<Rightarrow> init_proc \<Rightarrow> init_proc step" where
  "Init_Update env r p = init_Update env r (ip_state p) p"

fun init_Checkpoint :: "proc_env \<Rightarrow> CheckpointConfig \<Rightarrow> init_state \<Rightarrow> init_proc \<Rightarrow> init_proc step" where
  "init_Checkpoint env r CreatedState p = refuse ''cannot checkpoint a task in created state'' p"
| "init_Checkpoint env r (CreatedCheckpointState _) p = refuse ''cannot checkpoint a task in created state'' p"
| "init_Checkpoint env r RunningState p = Ret (init_checkpoint env r p)"
| "init_Checkpoint env r PausedState p = Ret (init_checkpoint env r p)"
| "init_Checkpoint env r StoppedState p = refuse ''cannot checkpoint a stopped container'' p"
| "init_Checkpoint env r DeletedState p = refuse ''cannot checkpoint a deleted process'' p"

definition Init_Checkpoint :: "proc_env \<Rightarrow> CheckpointConfig \<Rightarrow> init_proc \<Rightarrow> init_proc step" where
  "Init_Checkpoint env r p = init_Checkpoint env r (ip_state p) p"

fun init_Exec :: "proc_env \<Rightarrow> string \<Rightarrow> ExecConfig \<Rightarrow> init_state \<Rightarrow> init_proc \<Rightarrow> exec_proc result outcome" where
  "init_Exec env path r CreatedState p = init_exec env path r p"
| "init_Exec env path r (CreatedCheckpointState _) p = Ret (Inl (ErrNew ''cannot exec in a created state''))"
| "init_Exec env path r RunningState p = init_exec env path r p"
| "init_Exec env path r PausedState p = Ret (Inl (ErrNew ''cannot exec in a paused state''))"
| "init_Exec env path r StoppedState p = Ret (Inl (ErrNew ''cannot exec in a stopped state''))"
| "init_Exec env path r DeletedState p = Ret (Inl (ErrNew ''cannot exec in a deleted state''))"

definition Init_Exec :: "proc_env \<Rightarrow> string \<Rightarrow> ExecConfig \<Rightarrow> init_proc \<Rightarrow> exec_proc result outcome" where
  "Init_Exec env path r p = init_Exec env path r (ip_state p) p"

fun init_Kill :: "proc_env \<Rightarrow> nat \<Rightarrow> bool \<Rightarrow> init_state \<Rightarrow> init_proc \<Rightarrow> init_proc step" where
  "init_Kill env sig all DeletedState p =
     Ret (Some (ErrWrap ''cannot kill a deleted process'' (Errdef ErrNotFound)), p)"
| "init_Kill env sig all _ p = Ret (init_kill env sig all p)"

definition Init_Kill :: "proc_env \<Rightarrow> nat \<Rightarrow> bool \<Rightarrow> init_proc \<Rightarrow> init_proc step" where
  "Init_Kill env sig all p = init_Kill env sig all (ip_state p) p"

definition Init_KillAll :: "proc_env \<Rightarrow> init_proc \<Rightarrow> go_error option \<times> init_proc" where
  "Init_KillAll env p =
     (runtimeError env (ip_runtime p) (x_rt_kill env) ''OCI runtime killall failed'',
      icall (RtKill (ip_id p) 9 True) p)"

text \<open>The transition after \<open>setExited\<close>, whose failure is turned into a panic.\<close>

definition stop_or_panic :: "init_proc \<Rightarrow> init_proc outcome" where
  "stop_or_panic p =
     obind (init_goto ''stopped'' p)
       (\<lambda>(r, q). case r of None \<Rightarrow> Ret q | Some e \<Rightarrow> Panic (err_msg e))"

fun init_SetExited :: "proc_env \<Rightarrow> int \<Rightarrow> init_state \<Rightarrow> init_proc \<Rightarrow> init_proc outcome" where
  "init_SetExited env st StoppedState p = Ret p"
| "init_SetExited env st DeletedState p = Ret p"
| "init_SetExited env st PausedState p =
     obind (init_setExited env st p) (\<lambda>p. stop_or_panic (icall (RtResume (ip_id p)) p))"
| "init_SetExited env st _ p = obind (init_setExited env st p) stop_or_panic"

definition Init_SetExited :: "proc_env \<Rightarrow> int \<Rightarrow> init_proc \<Rightarrow> init_proc outcome" where
  "Init_SetExited env st p = init_SetExited env st (ip_state p) p"

fun init_Status :: "init_state \<Rightarrow> string" where
  "init_Status CreatedState = ''created''"
| "init_Status (CreatedCheckpointState _) = ''created''"
| "init_Status RunningState = ''running''"
| "init_Status PausedState = ''paused''"
| "init_Status StoppedState = ''stopped''"
| "init_Status DeletedState = ''stopped''"

definition Init_Status :: "init_proc \<Rightarrow> string" where
  "Init_Status p = (if ip_pausing p then ''pausing'' else init_Status (ip_state p))"

definition Init_Resize :: "proc_env \<Rightarrow> init_proc \<Rightarrow> go_error option" where
  "Init_Resize env p = (if ip_console p = None then None else x_resize env)"

section \<open>Processes added by exec\<close>

definition exec_setExited :: "proc_env \<Rightarrow> int \<Rightarrow> exec_proc \<Rightarrow> exec_proc outcome" where
  "exec_setExited env st e =
     (let e' = ecall ShutdownConsole (e\<lparr>ep_status := st, ep_exited := x_now env\<rparr>)
      in if ep_wait_closed e then Panic close_of_closed else Ret (e'\<lparr>ep_wait_closed := True\<rparr>))"

definition exec_delete :: "proc_env \<Rightarrow> exec_proc \<Rightarrow> go_error option \<times> exec_proc" where
  "exec_delete env e =
     (let e1 = (if ep_io e \<noteq> None
                then e\<lparr>ep_calls := ep_calls e @ map CloserClosed (ep_closers e) @ [IOClosed]\<rparr>
                else e)
      in (None, ecall (RemovedFile (path_join [ep_path e, ep_id e @ ''.pid''])) e1))"

definition exec_resize :: "proc_env \<Rightarrow> exec_proc \<Rightarrow> go_error option" where
  "exec_resize env e = (if ep_console e = None then None else x_resize env)"

definition exec_kill :: "proc_env \<Rightarrow> nat \<Rightarrow> exec_proc \<Rightarrow> go_error option \<times> exec_proc" where
  "exec_kill env sig e =
     (if ep_pid e = 0 then (Some (ErrWrap ''process not created'' (Errdef ErrFailedPrecondition)), e)
      else if ep_exited e \<noteq> 0 then (Some (ErrWrap ''process already finished'' (Errdef ErrNotFound)), e)
      else (map_option (ErrWrap ''exec kill error'') (checkKillError (x_unix_kill env)),
            ecall (OsKill (ep_pid e) sig) e))"

text \<open>
  The console of an exec. The type assertion for the stdin closer is made on \<open>console\<close>, the value
  \<open>ReceiveMaster\<close> returned, not on the value \<open>CopyConsole\<close> returned and stored in \<open>e.console\<close>.
\<close>

definition exec_console :: "proc_env \<Rightarrow> exec_proc \<Rightarrow> go_error option \<times> exec_proc" where
  "exec_console env e =
     (case x_receive_master env of
        Inl err \<Rightarrow> (Some (ErrWrap ''failed to retrieve console master'' err), e)
      | Inr cons \<Rightarrow>
          (case x_copy_console env cons of
             Inl err \<Rightarrow> (Some (ErrWrap ''failed to start console copy'' err), e)
           | Inr cons' \<Rightarrow>
               let e1 = e\<lparr>ep_console := Some cons'\<rparr>
               in (None,
                   case x_stdin_closer env cons of
                     None \<Rightarrow> e1
                   | Some c \<Rightarrow> e1\<lparr>ep_stdin := Some c, ep_closers := ep_closers e1 @ [c]\<rparr>)))"

definition exec_pipes :: "proc_env \<Rightarrow> nat process_io \<Rightarrow> exec_proc \<Rightarrow> go_error option \<times> exec_proc" where
  "exec_pipes env pio e =
     (case fst (processIO_Copy (x_io env) pio) of
        Inl err \<Rightarrow> (Some (ErrWrap ''failed to start io pipe copy'' err), e)
      | Inr None \<Rightarrow> (None, e)
      | Inr (Some c) \<Rightarrow> (None, e\<lparr>ep_stdin := Some c, ep_closers := ep_closers e @ [c]\<rparr>))"

definition exec_pid :: "proc_env \<Rightarrow> exec_proc \<Rightarrow> go_error option \<times> exec_proc" where
  "exec_pid env e =
     (case x_read_pid env (newExecPidFile (ep_path e) (ep_id e)) of
        Inl err \<Rightarrow> (Some (ErrWrap ''failed to retrieve OCI runtime exec pid'' err), e)
      | Inr n \<Rightarrow> (None, e\<lparr>ep_pid := n\<rparr>))"

text \<open>A failed \<open>runtime.Exec\<close> closes \<open>waitBlock\<close> at once.\<close>

definition exec_run :: "proc_env \<Rightarrow> init_proc \<Rightarrow> exec_proc \<Rightarrow> (go_error option \<times> exec_proc) outcome" where
  "exec_run env parent e =
     (let e1 = ecall (RtExec (ip_id parent)) e
      in case x_rt_exec env of
           None \<Rightarrow> Ret (None, e1)
         | Some err \<Rightarrow>
             if ep_wait_closed e then Panic close_of_closed
             else Ret (runtimeError env (ip_runtime parent) (Some err) ''OCI runtime exec failed'',
                       e1\<lparr>ep_wait_closed := True\<rparr>))"

definition exec_start ::
  "proc_env \<Rightarrow> init_proc \<Rightarrow> exec_proc \<Rightarrow> stream_service \<Rightarrow> ((go_error option \<times> exec_proc) \<times> stream_service) outcome" where
  "exec_start env parent e sm =
     (if Terminal (ep_stdio e) then
        (case x_console_socket env of
           Some err \<Rightarrow> Ret ((Some (ErrWrap ''failed to create runc console socket'' err), e), sm)
         | None \<Rightarrow>
             obind (exec_run env parent e)
               (\<lambda>r. Ret (then_step (then_step r (exec_console env)) (exec_pid env), sm)))
      else
        (case createIO (x_io env) stream_Get close_stream (ep_stdio e) sm of
           (Inl err, sm) \<Rightarrow> Ret ((Some (ErrWrap ''failed to create init process I/O'' err), e), sm)
         | (Inr pio, sm) \<Rightarrow>
             obind (exec_run env parent (e\<lparr>ep_io := Some pio\<rparr>))
               (\<lambda>r. case then_step (then_step r (exec_pipes env pio)) (exec_pid env) of
                      (None, e') \<Rightarrow> Ret ((None, e'), sm)
                    | (Some err, e') \<Rightarrow> Ret ((Some err, ecall IOClosed e'), sm))))"

fun exec_Start ::
  "proc_env \<Rightarrow> init_proc \<Rightarrow> exec_state \<Rightarrow> exec_proc \<Rightarrow> stream_service \<Rightarrow>
     ((go_error option \<times> exec_proc) \<times> stream_service) outcome" where
  "exec_Start env parent ExecCreated e sm =
     obind (exec_start env parent e sm)
       (\<lambda>(r, sm). obind (lift_step r (exec_goto ''running'')) (\<lambda>r. Ret (r, sm)))"
| "exec_Start env parent ExecRunning e sm = Ret ((Some (ErrNew ''cannot start a running process''), e), sm)"
| "exec_Start env parent ExecStopped e sm = Ret ((Some (ErrNew ''cannot start a stopped process''), e), sm)"
| "exec_Start env parent ExecDeleted e sm = Ret ((Some (ErrNew ''cannot start a deleted process''), e), sm)"

definition Exec_Start ::
  "proc_env \<Rightarrow> init_proc \<Rightarrow> exec_proc \<Rightarrow> stream_service \<Rightarrow>
     ((go_error option \<times> exec_proc) \<times> stream_service) outcome" where
  "Exec_Start env parent e sm = exec_Start env parent (ep_state e) e sm"

fun exec_Delete :: "proc_env \<Rightarrow> exec_state \<Rightarrow> exec_proc \<Rightarrow> exec_proc step" where
  "exec_Delete env ExecCreated e = lift_step (exec_delete env e) (exec_goto ''deleted'')"
| "exec_Delete env ExecRunning e = refuse ''cannot delete a running process'' e"
| "exec_Delete env ExecStopped e = lift_step (exec_delete env e) (exec_goto ''deleted'')"
| "exec_Delete env ExecDeleted e =
     Ret (Some (ErrWrap ''cannot delete a deleted process'' (Errdef ErrNotFound)), e)"

definition Exec_Delete :: "proc_env \<Rightarrow> exec_proc \<Rightarrow> exec_proc step" where
  "Exec_Delete env e = exec_Delete env (ep_state e) e"

fun exec_Kill :: "proc_env \<Rightarrow> nat \<Rightarrow> exec_state \<Rightarrow> exec_proc \<Rightarrow> exec_proc step" where
  "exec_Kill env sig ExecDeleted e =
     Ret (Some (ErrWrap ''cannot kill a deleted process'' (Errdef ErrNotFound)), e)"
| "exec_Kill env sig _ e = Ret (exec_kill env sig e)"

definition Exec_Kill :: "proc_env \<Rightarrow> nat \<Rightarrow> exec_proc \<Rightarrow> exec_proc step" where
  "Exec_Kill env sig e = exec_Kill env sig (ep_state e) e"

fun exec_Resize :: "proc_env \<Rightarrow> exec_state \<Rightarrow> exec_proc \<Rightarrow> go_error option" where
  "exec_Resize env ExecStopped e = Some (ErrNew ''cannot resize a stopped container'')"
| "exec_Resize env ExecDeleted e = Some (ErrNew ''cannot resize a deleted process'')"
| "exec_Resize env _ e = exec_resize env e"

definition Exec_Resize :: "proc_env \<Rightarrow> exec_proc \<Rightarrow> go_error option" where
  "Exec_Resize env e = exec_Resize env (ep_state e) e"

definition exec_stop_or_panic :: "exec_proc \<Rightarrow> exec_proc outcome" where
  "exec_stop_or_panic e =
     obind (exec_goto ''stopped'' e)
       (\<lambda>(r, q). case r of None \<Rightarrow> Ret q | Some x \<Rightarrow> Panic (err_msg x))"

fun exec_SetExited :: "proc_env \<Rightarrow> int \<Rightarrow> exec_state \<Rightarrow> exec_proc \<Rightarrow> exec_proc outcome" where
  "exec_SetExited env st ExecStopped e = Ret e"
| "exec_SetExited env st ExecDeleted e = Ret e"
| "exec_SetExited env st _ e = obind (exec_setExited env st e) exec_stop_or_panic"

definition Exec_SetExited :: "proc_env \<Rightarrow> int \<Rightarrow> exec_proc \<Rightarrow> exec_proc outcome" where
  "Exec_SetExited env st e = exec_SetExited env st (ep_state e) e"

fun exec_Status :: "exec_state \<Rightarrow> string" where
  "exec_Status ExecCreated = ''created''"
| "exec_Status ExecRunning = ''running''"
| "exec_Status ExecStopped = ''stopped''"
| "exec_Status ExecDeleted = ''stopped''"

definition Exec_Status :: "init_proc \<Rightarrow> exec_proc \<Rightarrow> string" where
  "Exec_Status parent e =
     (let s = Init_Status parent
      in if s = ''paused'' \<or> s = ''pausing'' then s else exec_Status (ep_state e))"

section \<open>Steps of a process\<close>

inductive init_step :: "init_proc \<Rightarrow> init_proc \<Rightarrow> bool" where
  create: "init_Create env cr p sm = ((r, p'), sm') \<Longrightarrow> init_step p p'"
| start: "Init_Start env p = Ret (r, p') \<Longrightarrow> init_step p p'"
| delete: "Init_Delete env p = Ret (r, p') \<Longrightarrow> init_step p p'"
| pause: "Init_Pause env p = Ret (r, p') \<Longrightarrow> init_step p p'"
| resume: "Init_Resume env p = Ret (r, p') \<Longrightarrow> init_step p p'"
| update: "Init_Update env res p = Ret (r, p') \<Longrightarrow> init_step p p'"
| checkpoint: "Init_Checkpoint env cfg p = Ret (r, p') \<Longrightarrow> init_step p p'"
| kill: "Init_Kill env sig all p = Ret (r, p') \<Longrightarrow> init_step p p'"
| killall: "Init_KillAll env p = (r, p') \<Longrightarrow> init_step p p'"
| setexited: "Init_SetExited env st p = Ret p' \<Longrightarrow> init_step p p'"

inductive exec_step :: "exec_proc \<Rightarrow> exec_proc \<Rightarrow> bool" where
  start: "Exec_Start env parent e sm = Ret ((r, e'), sm') \<Longrightarrow> exec_step e e'"
| delete: "Exec_Delete env e = Ret (r, e') \<Longrightarrow> exec_step e e'"
| kill: "Exec_Kill env sig e = Ret (r, e') \<Longrightarrow> exec_step e e'"
| setexited: "Exec_SetExited env st e = Ret e' \<Longrightarrow> exec_step e e'"

text \<open>
  The life of a process as a relation on states: created to running, running and paused back and
  forth, anything alive to stopped, created or stopped to deleted.
\<close>

inductive init_life :: "init_state \<Rightarrow> init_state \<Rightarrow> bool" where
  "init_life s s"
| "init_life CreatedState RunningState"
| "init_life (CreatedCheckpointState f) RunningState"
| "init_life RunningState PausedState"
| "init_life PausedState RunningState"
| "init_life CreatedState StoppedState"
| "init_life (CreatedCheckpointState f) StoppedState"
| "init_life RunningState StoppedState"
| "init_life PausedState StoppedState"
| "init_life CreatedState DeletedState"
| "init_life (CreatedCheckpointState f) DeletedState"
| "init_life StoppedState DeletedState"

inductive exec_life :: "exec_state \<Rightarrow> exec_state \<Rightarrow> bool" where
  "exec_life s s"
| "exec_life ExecCreated ExecRunning"
| "exec_life ExecCreated ExecStopped"
| "exec_life ExecRunning ExecStopped"
| "exec_life ExecCreated ExecDeleted"
| "exec_life ExecStopped ExecDeleted"

inductive_simps init_life_from_stopped: "init_life StoppedState s"
inductive_simps init_life_from_deleted: "init_life DeletedState s"
inductive_simps exec_life_from_stopped: "exec_life ExecStopped s"
inductive_simps exec_life_from_deleted: "exec_life ExecDeleted s"

section \<open>What single calls change\<close>

lemmas init_life_intros [simp, intro] = init_life.intros
lemmas exec_life_intros [simp, intro] = exec_life.intros

text \<open>The observable record of a process that a method may leave alone.\<close>

definition init_exit_info :: "init_proc \<Rightarrow> int \<times> time" where
  "init_exit_info p = (ip_status p, ip_exited p)"

definition exec_exit_info :: "exec_proc \<Rightarrow> int \<times> time" where
  "exec_exit_info e = (ep_status e, ep_exited e)"

text \<open>A helper keeps the life cycle fields: state, wait channel, exit record and flag.\<close>

definition keeps_life :: "init_proc \<Rightarrow> init_proc \<Rightarrow> bool" where
  "keeps_life p q \<longleftrightarrow> ip_state q = ip_state p \<and> ip_wait_closed q = ip_wait_closed p
     \<and> init_exit_info q = init_exit_info p \<and> ip_pausing q = ip_pausing p"

lemma keeps_life_refl [simp]: "keeps_life p p"
  by (simp add: keeps_life_def)

lemma keeps_life_trans: "keeps_life p q \<Longrightarrow> keeps_life q r \<Longrightarrow> keeps_life p r"
  by (simp add: keeps_life_def)

lemma keeps_life_icall [simp]: "keeps_life p (icall c q) = keeps_life p q"
  by (simp add: keeps_life_def icall_def init_exit_info_def)

lemma keeps_start: "keeps_life p (snd (init_start env p))"
  by (simp add: init_start_def)

lemma keeps_delete: "keeps_life p (snd (init_delete env p))"
  by (auto simp: init_delete_def Let_def keeps_life_def icall_def init_exit_info_def split: option.splits)

lemma keeps_kill: "keeps_life p (snd (init_kill env sig all p))"
  by (simp add: init_kill_def)

lemma keeps_update: "init_update env r p = Ret (x, p') \<Longrightarrow> keeps_life p p'"
  by (auto simp: init_update_def split: option.splits)

lemma keeps_checkpoint: "keeps_life p (snd (init_checkpoint env r p))"
  by (simp add: init_checkpoint_def Let_def split: option.splits)

lemma keeps_console: "keeps_life p (snd (init_console env p))"
  by (auto simp: init_console_def Let_def keeps_life_def init_exit_info_def split: sum.splits option.splits)

lemma keeps_pipes: "keeps_life p (snd (init_pipes env pio p))"
  by (auto simp: init_pipes_def keeps_life_def init_exit_info_def split: sum.splits option.splits)

lemma keeps_pid: "keeps_life p (snd (init_pid env f p))"
  by (auto simp: init_pid_def keeps_life_def init_exit_info_def split: sum.splits)

lemma keeps_then_step:
  "keeps_life p (snd r) \<Longrightarrow> (\<And>q. keeps_life p q \<Longrightarrow> keeps_life p (snd (f q))) \<Longrightarrow> keeps_life p (snd (then_step r f))"
  by (auto simp: then_step_def split: prod.splits option.splits)

lemma lift_step_Ret:
  "lift_step r f = Ret (x, p') \<longleftrightarrow>
     (case r of (Some e, q) \<Rightarrow> x = Some e \<and> p' = q | (None, q) \<Rightarrow> f q = Ret (x, p'))"
  by (auto simp: lift_step_def split: prod.splits option.splits)

text \<open>What a finished call did to the life cycle fields: nothing, or one move along \<open>st\<close>.\<close>

definition moved :: "init_proc \<Rightarrow> init_state \<Rightarrow> init_proc \<Rightarrow> bool" where
  "moved p st q \<longleftrightarrow> ip_state q = st \<and> ip_wait_closed q = ip_wait_closed p
     \<and> init_exit_info q = init_exit_info p \<and> ip_pausing q = ip_pausing p"

lemma init_goto_moved:
  "keeps_life p q \<Longrightarrow> init_transition (ip_state p) name = Ret (Inr st) \<Longrightarrow>
     \<exists>p'. init_goto name q = Ret (None, p') \<and> moved p st p'"
  by (auto simp: init_goto_def keeps_life_def moved_def init_exit_info_def)

lemma lift_goto_moved:
  assumes "keeps_life p (snd r)" and "init_transition (ip_state p) name = Ret (Inr st)"
  shows "\<exists>x p'. lift_step r (init_goto name) = Ret (x, p')
           \<and> (if x = None then moved p st p' else keeps_life p p')"
  using assms init_goto_moved [OF _ assms(2)]
  by (cases r; cases "fst r") (fastforce simp: lift_step_def)+

lemma keeps_run_console_pid:
  "keeps_life p (snd (then_step (then_step (e, icall c p) (init_console env)) (init_pid env f)))"
  by (intro keeps_then_step) (auto intro: keeps_life_trans keeps_console keeps_pid)

lemma keeps_pipes_pid:
  "keeps_life p q \<Longrightarrow> keeps_life p (snd (then_step (init_pipes env pio q) (init_pid env f)))"
  by (intro keeps_then_step) (auto intro: keeps_life_trans keeps_pipes keeps_pid)

lemma checkpoint_Start_result:
  assumes "ip_state p = CreatedCheckpointState f" and "checkpoint_Start env f p = Ret (x, p')"
  shows "if x = None then moved p RunningState p' else keeps_life p p'"
proof (cases "Terminal (ip_stdio p)")
  case True
  show ?thesis
  proof (cases "x_console_socket env")
    case None
    let ?r = "then_step (then_step (runtimeError env (ip_runtime p) (x_rt_restore env)
        ''OCI runtime restore failed'', icall (RtRestore (ip_id p)) p) (init_console env)) (init_pid env f)"
    have "keeps_life p (snd ?r)" by (rule keeps_run_console_pid)
    then obtain y q where "lift_step ?r (init_goto ''running'') = Ret (y, q)"
      "if y = None then moved p RunningState q else keeps_life p q"
      using lift_goto_moved [of p ?r "''running''" RunningState] assms(1) by auto
    with assms(2) True None show ?thesis by (auto simp: checkpoint_Start_def Let_def split: if_splits)
  qed (use True assms in \<open>auto simp: checkpoint_Start_def Let_def\<close>)
next
  case False
  let ?p = "icall (RtRestore (ip_id p)) p"
  have io: "ip_io ?p = ip_io p" by (simp add: icall_def)
  show ?thesis
  proof (cases "runtimeError env (ip_runtime p) (x_rt_restore env) ''OCI runtime restore failed''")
    case (Some e)
    with assms False show ?thesis by (auto simp: checkpoint_Start_def Let_def lift_step_def)
  next
    case None
    then obtain pio where pio: "ip_io p = Some pio"
      using assms False io by (cases "ip_io p") (auto simp: checkpoint_Start_def Let_def lift_step_def)
    let ?r = "then_step (init_pipes env pio ?p) (init_pid env f)"
    have "keeps_life p (snd ?r)" by (rule keeps_pipes_pid) simp
    then obtain y q where "lift_step ?r (init_goto ''running'') = Ret (y, q)"
      "if y = None then moved p RunningState q else keeps_life p q"
      using lift_goto_moved [of p ?r "''running''" RunningState] assms(1) by auto
    with assms(2) False None io pio show ?thesis
      by (auto simp: checkpoint_Start_def Let_def lift_step_def [of "(None, _)"] split: if_splits)
  qed
qed

lemma Init_Start_result:
  assumes "Init_Start env p = Ret (x, p')"
  shows "if x = None then (\<exists>s. init_life s RunningState \<and> s = ip_state p) \<and> moved p RunningState p'
         else keeps_life p p'"
proof (cases "ip_state p")
  case CreatedState
  with lift_goto_moved [OF keeps_start, of p "''running''" RunningState env] assms show ?thesis
    by (auto simp: Init_Start_def)
next
  case (CreatedCheckpointState f)
  with checkpoint_Start_result [OF this] assms show ?thesis by (auto simp: Init_Start_def)
qed (use assms in \<open>auto simp: Init_Start_def refuse_def\<close>)

lemma Init_Delete_result:
  assumes "Init_Delete env p = Ret (x, p')"
  shows "if x = None then init_life (ip_state p) DeletedState \<and> ip_state p \<noteq> DeletedState \<and> moved p DeletedState p'
         else keeps_life p p'"
proof -
  have *: "if x = None then moved p DeletedState p' else keeps_life p p'"
    if "init_transition (ip_state p) ''deleted'' = Ret (Inr DeletedState)"
      and "lift_step (init_delete env p) (init_goto ''deleted'') = Ret (x, p')"
    using lift_goto_moved [OF keeps_delete that(1), of env] that(2) by auto
  show ?thesis
    using assms * by (cases "ip_state p") (auto simp: Init_Delete_def refuse_def)
qed

lemma Init_Pause_result:
  assumes "Init_Pause env p = Ret (x, p')"
  shows "if x = None then ip_state p = RunningState \<and> ip_state p' = PausedState \<and> \<not> ip_pausing p'
             \<and> ip_wait_closed p' = ip_wait_closed p \<and> init_exit_info p' = init_exit_info p
         else ip_state p' = ip_state p \<and> ip_wait_closed p' = ip_wait_closed p
             \<and> init_exit_info p' = init_exit_info p"
  using assms
  by (cases "ip_state p")
     (auto simp: Init_Pause_def refuse_def running_Pause_def pause_begin_def Let_def icall_def
       init_goto_def init_exit_info_def split: option.splits)

lemma Init_Resume_result:
  assumes "Init_Resume env p = Ret (x, p')"
  shows "if x = None then ip_state p = PausedState \<and> moved p RunningState p' else keeps_life p p'"
proof (cases "ip_state p")
  case PausedState
  let ?r = "(runtimeError env (ip_runtime p) (x_rt_resume env) ''OCI runtime resume failed'',
             icall (RtResume (ip_id p)) p)"
  have "keeps_life p (snd ?r)" by simp
  from lift_goto_moved [OF this, of "''running''" RunningState] PausedState assms show ?thesis
    by (auto simp: Init_Resume_def)
qed (use assms in \<open>auto simp: Init_Resume_def refuse_def\<close>)

lemma Init_Update_result: "Init_Update env r p = Ret (x, p') \<Longrightarrow> keeps_life p p'"
  by (cases "ip_state p") (auto simp: Init_Update_def refuse_def dest: keeps_update)

lemma Init_Checkpoint_result: "Init_Checkpoint env r p = Ret (x, p') \<Longrightarrow> keeps_life p p'"
  using keeps_checkpoint [of p env r] by (cases "ip_state p") (auto simp: Init_Checkpoint_def refuse_def)

lemma Init_Kill_result: "Init_Kill env sig all p = Ret (x, p') \<Longrightarrow> keeps_life p p'"
  using keeps_kill [of p env sig all] by (cases "ip_state p") (auto simp: Init_Kill_def)

lemma Init_KillAll_result: "Init_KillAll env p = (x, p') \<Longrightarrow> keeps_life p p'"
  by (auto simp: Init_KillAll_def)

text \<open>The states in which an exit is still to be recorded.\<close>

definition alive :: "init_state \<Rightarrow> bool" where
  "alive s \<longleftrightarrow> s \<noteq> StoppedState \<and> s \<noteq> DeletedState"

lemma Init_SetExited_done: "\<not> alive (ip_state p) \<Longrightarrow> Init_SetExited env st p = Ret p"
  by (auto simp: alive_def Init_SetExited_def)

lemma Init_SetExited_alive:
  assumes "alive (ip_state p)"
  shows "if ip_wait_closed p then panics (Init_SetExited env st p)
         else \<exists>q. Init_SetExited env st p = Ret q \<and> ip_state q = StoppedState \<and> ip_wait_closed q
                \<and> init_exit_info q = (st, x_now env) \<and> ip_pausing q = ip_pausing p"
  using assms
  by (cases "ip_state p")
     (auto simp: alive_def Init_SetExited_def init_setExited_def stop_or_panic_def init_goto_def icall_def
       init_exit_info_def Let_def)


lemma keeps_life_io [simp]: "keeps_life p (p\<lparr>ip_io := i\<rparr>)"
  by (simp add: keeps_life_def init_exit_info_def)

lemma init_Create_keeps: "keeps_life p (snd (fst (init_Create env r p sm)))"
proof -
  have pipes: "keeps_life p (snd (then_step (then_step (e, icall c (p\<lparr>ip_io := i\<rparr>)) (init_pipes env pio)) (init_pid env f)))"
    for e c i pio f
    by (intro keeps_then_step)
       (auto intro: keeps_life_trans keeps_pipes keeps_pid)
  show ?thesis
  proof (cases "cc_Terminal r")
    case True
    then show ?thesis
      by (auto simp: init_Create_def Let_def keeps_run_console_pid split: option.splits)
  next
    case False
    then show ?thesis
      using pipes [of "runtimeError env (ip_runtime p) (x_rt_create env) ''OCI runtime create failed''" "RtCreate (cc_ID r)"]
      by (auto simp: init_Create_def Let_def split: prod.splits sum.splits option.splits)
         (metis snd_conv)+
  qed
qed

lemma init_Create_result: "init_Create env r p sm = ((x, p'), sm') \<Longrightarrow> keeps_life p p'"
  using init_Create_keeps [of p env r sm] by simp

lemma keeps_is_life: "keeps_life p q \<Longrightarrow> init_life (ip_state p) (ip_state q)"
  by (simp add: keeps_life_def)

lemma alive_stops: "alive s \<Longrightarrow> init_life s StoppedState"
  by (cases s) (auto simp: alive_def)

lemma Init_SetExited_result:
  assumes "Init_SetExited env st p = Ret q"
  shows "q = p \<and> \<not> alive (ip_state p)
     \<or> alive (ip_state p) \<and> \<not> ip_wait_closed p \<and> ip_state q = StoppedState \<and> ip_wait_closed q
         \<and> init_exit_info q = (st, x_now env)"
proof (cases "alive (ip_state p)")
  case True
  with Init_SetExited_alive [OF this, of env st] assms show ?thesis
    by (auto simp: panics_def split: if_splits)
qed (use assms Init_SetExited_done in auto)

text \<open>
  What one method call may do: keep the life cycle fields, move to another state with the wait
  channel and the exit record as they are, or record the exit.
\<close>

lemma init_step_cases:
  assumes "init_step p q"
  obtains (keep) "ip_state q = ip_state p" "ip_wait_closed q = ip_wait_closed p"
      "init_exit_info q = init_exit_info p"
  | (move) "init_life (ip_state p) (ip_state q)" "ip_state q \<noteq> StoppedState" "ip_state q \<noteq> ip_state p"
      "ip_wait_closed q = ip_wait_closed p" "init_exit_info q = init_exit_info p"
  | (exit) "alive (ip_state p)" "\<not> ip_wait_closed p" "ip_state q = StoppedState" "ip_wait_closed q"
  using assms
proof cases
  case (create env cr sm r sm')
  then show ?thesis using keep init_Create_result keeps_life_def by metis
next
  case (start env r)
  from Init_Start_result [OF this] show ?thesis
    using keep move by (cases "r = None"; cases "ip_state q = ip_state p") (auto simp: moved_def keeps_life_def)
next
  case (delete env r)
  from Init_Delete_result [OF this] show ?thesis
    using keep move by (cases "r = None"; cases "ip_state q = ip_state p") (auto simp: moved_def keeps_life_def)
next
  case (pause env r)
  from Init_Pause_result [OF this] show ?thesis
    using keep move by (cases "r = None") auto
next
  case (resume env r)
  from Init_Resume_result [OF this] show ?thesis
    using keep move by (cases "r = None") (auto simp: moved_def keeps_life_def)
next
  case (update env res r)
  then show ?thesis using keep Init_Update_result keeps_life_def by metis
next
  case (checkpoint env cfg r)
  then show ?thesis using keep Init_Checkpoint_result keeps_life_def by metis
next
  case (kill env sig all r)
  then show ?thesis using keep Init_Kill_result keeps_life_def by metis
next
  case (killall env r)
  then show ?thesis using keep Init_KillAll_result keeps_life_def by metis
next
  case (setexited env st)
  from Init_SetExited_result [OF this] show ?thesis using keep exit by auto
qed


section \<open>Exit is recorded once\<close>

text \<open>
  The contract behind \<open>Wait\<close>: the wait channel is closed at most once and from then on the exit
  status and time do not change, so that every waiter reads the same record.
\<close>

locale exit_record =
  fixes step :: "'p \<Rightarrow> 'p \<Rightarrow> bool" and waited :: "'p \<Rightarrow> bool" and info :: "'p \<Rightarrow> 'i"
  assumes waited_step: "step p q \<Longrightarrow> waited p \<Longrightarrow> waited q"
    and info_step: "step p q \<Longrightarrow> waited p \<Longrightarrow> info q = info p"
begin

lemma record_final: "step\<^sup>*\<^sup>* p q \<Longrightarrow> waited p \<Longrightarrow> waited q \<and> info q = info p"
  by (induction rule: rtranclp_induct) (auto dest: waited_step info_step)

lemma waiters_agree:
  "step\<^sup>*\<^sup>* p q \<Longrightarrow> step\<^sup>*\<^sup>* q r \<Longrightarrow> waited q \<Longrightarrow> info r = info q \<and> waited r"
  using record_final by blast

end

interpretation init_exit: exit_record init_step ip_wait_closed init_exit_info
  by unfold_locales (erule init_step_cases; simp)+

text \<open>The same facts for an exec process.\<close>

definition ekeeps :: "exec_proc \<Rightarrow> exec_proc \<Rightarrow> bool" where
  "ekeeps e f \<longleftrightarrow> ep_state f = ep_state e \<and> ep_wait_closed f = ep_wait_closed e
     \<and> exec_exit_info f = exec_exit_info e"

lemma ekeeps_refl [simp]: "ekeeps e e"
  by (simp add: ekeeps_def)

lemma ekeeps_trans: "ekeeps e f \<Longrightarrow> ekeeps f g \<Longrightarrow> ekeeps e g"
  by (simp add: ekeeps_def)

lemma ekeeps_ecall [simp]: "ekeeps e (ecall c f) = ekeeps e f"
  by (simp add: ekeeps_def ecall_def exec_exit_info_def)

lemma ekeeps_io [simp]: "ekeeps e (e\<lparr>ep_io := i\<rparr>)"
  by (simp add: ekeeps_def exec_exit_info_def)

lemma ekeeps_console: "ekeeps e (snd (exec_console env e))"
  by (auto simp: exec_console_def Let_def ekeeps_def exec_exit_info_def split: sum.splits option.splits)

lemma ekeeps_pipes: "ekeeps e (snd (exec_pipes env pio e))"
  by (auto simp: exec_pipes_def ekeeps_def exec_exit_info_def split: sum.splits option.splits)

lemma ekeeps_pid: "ekeeps e (snd (exec_pid env e))"
  by (auto simp: exec_pid_def ekeeps_def exec_exit_info_def split: sum.splits)

lemma ekeeps_delete: "ekeeps e (snd (exec_delete env e))"
  by (auto simp: exec_delete_def Let_def) (auto simp: ekeeps_def exec_exit_info_def)

lemma ekeeps_kill: "ekeeps e (snd (exec_kill env sig e))"
  by (simp add: exec_kill_def)

lemma ekeeps_then_step:
  "ekeeps e (snd r) \<Longrightarrow> (\<And>q. ekeeps e q \<Longrightarrow> ekeeps e (snd (f q))) \<Longrightarrow> ekeeps e (snd (then_step r f))"
  by (auto simp: then_step_def split: prod.splits option.splits)

text \<open>A failed run keeps everything but closes the wait channel, which was open.\<close>

definition run_failed :: "exec_proc \<Rightarrow> exec_proc \<Rightarrow> bool" where
  "run_failed e f \<longleftrightarrow> ep_state f = ep_state e \<and> \<not> ep_wait_closed e \<and> ep_wait_closed f
     \<and> exec_exit_info f = exec_exit_info e"

lemma run_failed_ecall [simp]: "run_failed e (ecall c f) = run_failed e f"
  by (simp add: run_failed_def ecall_def exec_exit_info_def)

lemma exec_run_result:
  assumes "exec_run env parent e = Ret (x, f)"
  shows "if x = None then ekeeps e f else run_failed e f"
  using assms
  by (auto simp: exec_run_def Let_def runtimeError_def run_failed_def ekeeps_def ecall_def exec_exit_info_def
      split: option.splits if_splits sum.splits)


lemma exec_tail_result:
  assumes "exec_run env parent e = Ret (x, f)"
    and "\<And>q. ekeeps q (snd (g q))" and "then_step (then_step (x, f) g) (exec_pid env) = (y, h)"
  shows "ekeeps e h \<or> y \<noteq> None \<and> run_failed e h"
proof (cases x)
  case None
  with exec_run_result [OF assms(1)] have "ekeeps e f" by simp
  with assms(2) have "ekeeps e (snd (then_step (then_step (x, f) g) (exec_pid env)))"
    by (intro ekeeps_then_step) (auto intro: ekeeps_trans ekeeps_pid)
  with assms(3) show ?thesis by simp
next
  case (Some err)
  with exec_run_result [OF assms(1)] assms(3) show ?thesis by (auto simp: then_step_def)
qed

lemma exec_start_result:
  assumes "exec_start env parent e sm = Ret ((x, f), sm')"
  shows "ekeeps e f \<or> x \<noteq> None \<and> run_failed e f"
proof (cases "Terminal (ep_stdio e)")
  case True
  show ?thesis
  proof (cases "x_console_socket env")
    case None
    with assms True obtain y g where run: "exec_run env parent e = Ret (y, g)"
      and tail: "then_step (then_step (y, g) (exec_console env)) (exec_pid env) = (x, f)"
      by (auto simp: exec_start_def)
    from exec_tail_result [OF run _ tail] show ?thesis using ekeeps_console by blast
  qed (use assms True in \<open>auto simp: exec_start_def\<close>)
next
  case False
  obtain r sm1 where io: "createIO (x_io env) stream_Get close_stream (ep_stdio e) sm = (r, sm1)"
    by fastforce
  show ?thesis
  proof (cases r)
    case (Inr pio)
    let ?e = "e\<lparr>ep_io := Some pio\<rparr>"
    from assms False io Inr obtain y g where run: "exec_run env parent ?e = Ret (y, g)"
      by (auto simp: exec_start_def)
    obtain z h where tail: "then_step (then_step (y, g) (exec_pipes env pio)) (exec_pid env) = (z, h)"
      by fastforce
    have "ekeeps ?e h \<or> z \<noteq> None \<and> run_failed ?e h"
      by (rule exec_tail_result [OF run _ tail]) (rule ekeeps_pipes)
    moreover have "x = z \<and> (f = h \<or> f = ecall IOClosed h)"
      using assms False io Inr run tail by (auto simp: exec_start_def split: option.splits)
    ultimately show ?thesis
      by (auto simp: ekeeps_def run_failed_def exec_exit_info_def ecall_def)
  qed (use assms False io in \<open>auto simp: exec_start_def\<close>)
qed

lemma Exec_SetExited_result:
  assumes "Exec_SetExited env st e = Ret f"
  shows "f = e \<and> ep_state e \<in> {ExecStopped, ExecDeleted}
     \<or> ep_state e \<in> {ExecCreated, ExecRunning} \<and> \<not> ep_wait_closed e \<and> ep_state f = ExecStopped
         \<and> ep_wait_closed f \<and> exec_exit_info f = (st, x_now env)"
  using assms
  by (cases "ep_state e")
     (auto simp: Exec_SetExited_def exec_setExited_def exec_stop_or_panic_def exec_goto_def Let_def
       ecall_def exec_exit_info_def split: if_splits)

lemma exec_step_cases:
  assumes "exec_step e f"
  obtains (keep) "ekeeps e f"
  | (failed) "ep_state e = ExecCreated" "run_failed e f"
  | (move) "exec_life (ep_state e) (ep_state f)" "ep_state f \<noteq> ExecStopped" "ep_state f \<noteq> ep_state e"
      "ep_wait_closed f = ep_wait_closed e" "exec_exit_info f = exec_exit_info e"
  | (exit) "ep_state e = ExecCreated \<or> ep_state e = ExecRunning" "\<not> ep_wait_closed e"
      "ep_state f = ExecStopped" "ep_wait_closed f"
  using assms
proof cases
  case (start env parent sm r sm')
  show ?thesis
  proof (cases "ep_state e")
    case ExecCreated
    with start obtain y g where st: "exec_start env parent e sm = Ret ((y, g), sm')"
      and l: "lift_step (y, g) (exec_goto ''running'') = Ret (r, f)"
      by (auto simp: Exec_Start_def)
    from exec_start_result [OF st] show ?thesis
      using l ExecCreated keep failed move
      by (cases y) (auto simp: lift_step_def exec_goto_def ekeeps_def exec_exit_info_def)
  qed (use start keep in \<open>auto simp: Exec_Start_def\<close>)
next
  case (delete env r)
  with keep move ekeeps_delete [of e env] show ?thesis
    by (cases "ep_state e")
       (auto simp: Exec_Delete_def lift_step_def exec_goto_def refuse_def ekeeps_def exec_exit_info_def
         split: prod.splits option.splits)
next
  case (kill env sig r)
  with keep ekeeps_kill [of e env sig] show ?thesis
    by (cases "ep_state e") (auto simp: Exec_Kill_def)
next
  case (setexited env st)
  from Exec_SetExited_result [OF this] show ?thesis using keep exit by auto
qed

interpretation exec_exit: exit_record exec_step ep_wait_closed exec_exit_info
  by unfold_locales (erule exec_step_cases; simp add: ekeeps_def run_failed_def)+

section \<open>Invariant of the init process\<close>

text \<open>
  The wait channel is closed only once the process is no longer alive, a stopped process has it
  closed, and no process is in the checkpointed state, which nothing enters.
\<close>

definition init_ok :: "init_proc \<Rightarrow> bool" where
  "init_ok p \<longleftrightarrow> (ip_wait_closed p \<longrightarrow> \<not> alive (ip_state p))
     \<and> (ip_state p = StoppedState \<longrightarrow> ip_wait_closed p)
     \<and> (\<forall>f. ip_state p \<noteq> CreatedCheckpointState f)"

inductive_simps init_life_to_checkpoint: "init_life s (CreatedCheckpointState f)"

lemma init_ok_New [simp]: "init_ok (process_New i r s)"
  by (simp add: init_ok_def process_New_def)

lemma init_life_dead: "init_life s t \<Longrightarrow> \<not> alive s \<Longrightarrow> \<not> alive t"
  by (auto simp: alive_def init_life_from_stopped init_life_from_deleted)

lemma init_ok_step: "init_step p q \<Longrightarrow> init_ok p \<Longrightarrow> init_ok q"
  by (erule init_step_cases)
     (auto simp: init_ok_def alive_def init_life_to_checkpoint dest: init_life_dead)

lemma init_ok_reachable: "init_step\<^sup>*\<^sup>* p q \<Longrightarrow> init_ok p \<Longrightarrow> init_ok q"
  by (induction rule: rtranclp_induct) (auto intro: init_ok_step)

lemma init_ok_no_panic:
  assumes "init_ok p"
  shows "\<not> panics (Init_Start env p)" "\<not> panics (Init_Delete env p)" "\<not> panics (Init_Pause env p)"
    "\<not> panics (Init_Resume env p)" "\<not> panics (Init_SetExited env st p)"
    "\<not> panics (Init_Checkpoint env cfg p)" "\<not> panics (Init_Kill env sig all p)"
proof -
  show "\<not> panics (Init_Checkpoint env cfg p)" "\<not> panics (Init_Kill env sig all p)"
    by (cases "ip_state p"; simp add: Init_Checkpoint_def Init_Kill_def refuse_def)+
  have go: "\<not> panics (lift_step r (init_goto n))"
    if "\<And>q. snd r = q \<Longrightarrow> \<exists>x. init_transition (ip_state q) n = Ret x" for r n
    using that by (cases r) (force simp: lift_step_def init_goto_def split: option.splits sum.splits)
  have st: "ip_state (snd (init_start env p)) = ip_state p" "ip_state (snd (init_delete env p)) = ip_state p"
    using keeps_start [of p env] keeps_delete [of p env] by (simp_all add: keeps_life_def)
  show "\<not> panics (Init_Start env p)"
    using assms st by (cases "ip_state p") (auto simp: Init_Start_def refuse_def init_ok_def intro!: go)
  show "\<not> panics (Init_Delete env p)"
    using st by (cases "ip_state p") (auto simp: Init_Delete_def refuse_def intro!: go)
  show "\<not> panics (Init_Pause env p)"
    by (cases "ip_state p")
       (auto simp: Init_Pause_def refuse_def running_Pause_def pause_begin_def icall_def init_goto_def Let_def
         split: option.splits)
  show "\<not> panics (Init_Resume env p)"
    by (cases "ip_state p") (auto simp: Init_Resume_def refuse_def icall_def intro!: go)
  show "\<not> panics (Init_SetExited env st p)"
    using assms Init_SetExited_done [of p env st] Init_SetExited_alive [of p env st]
    by (cases "alive (ip_state p)") (auto simp: init_ok_def)
qed

text \<open>The two methods that read through a pointer of the request.\<close>

definition updates :: "init_proc \<Rightarrow> bool" where
  "updates p \<longleftrightarrow> ip_state p \<noteq> StoppedState \<and> ip_state p \<noteq> DeletedState"

definition execs :: "init_proc \<Rightarrow> bool" where
  "execs p \<longleftrightarrow> ip_state p = CreatedState \<or> ip_state p = RunningState"

lemma Init_Update_panics: "panics (Init_Update env r p) \<longleftrightarrow> r = None \<and> updates p"
  by (cases "ip_state p")
     (auto simp: Init_Update_def init_update_def refuse_def updates_def split: option.splits)

lemma Init_Exec_panics: "panics (Init_Exec env path r p) \<longleftrightarrow> ec_Spec r = None \<and> execs p"
  by (cases "ip_state p") (auto simp: Init_Exec_def init_exec_def execs_def split: option.splits sum.splits)

section \<open>Properties\<close>

lemma init_step_life: "init_step p q \<Longrightarrow> init_life (ip_state p) (ip_state q)"
  by (erule init_step_cases) (auto intro: alive_stops)

lemma exec_step_life: "exec_step e f \<Longrightarrow> exec_life (ep_state e) (ep_state f)"
  by (erule exec_step_cases) (auto simp: ekeeps_def run_failed_def)

lemma init_dead_stays: "init_step\<^sup>*\<^sup>* p q \<Longrightarrow> \<not> alive (ip_state p) \<Longrightarrow> \<not> alive (ip_state q)"
  by (induction rule: rtranclp_induct) (auto dest: init_step_life init_life_dead)

lemma init_deleted_frozen:
  "init_step\<^sup>*\<^sup>* p q \<Longrightarrow> ip_state p = DeletedState \<Longrightarrow>
     ip_state q = DeletedState \<and> ip_wait_closed q = ip_wait_closed p"
proof (induction rule: rtranclp_induct)
  case (step q r)
  then have "ip_state q = DeletedState" by simp
  with step.hyps(2) step.IH step.prems show ?case
    by (elim init_step_cases) (auto simp: init_life_from_deleted alive_def)
qed simp

text \<open>
  C7. Whatever methods were called on an init process before and however its runtime calls came out,
  its methods Start, Delete, Pause, Resume, Checkpoint, Kill and SetExited do not panic: in particular
  \<open>waitBlock\<close> is never closed twice and no transition after an exit is refused. Update and Exec panic in
  one case each, a request without resources or without a process spec, in a state that does not refuse
  the request.
\<close>

theorem init_never_panics:
  assumes "init_step\<^sup>*\<^sup>* (process_New i r s) p"
  shows "\<not> panics (Init_Start env p) \<and> \<not> panics (Init_Delete env p) \<and> \<not> panics (Init_Pause env p)
       \<and> \<not> panics (Init_Resume env p) \<and> \<not> panics (Init_Checkpoint env cfg p)
       \<and> \<not> panics (Init_Kill env sig all p) \<and> \<not> panics (Init_SetExited env st p)
       \<and> (panics (Init_Update env res p) \<longleftrightarrow> res = None \<and> updates p)
       \<and> (panics (Init_Exec env path ec p) \<longleftrightarrow> ec_Spec ec = None \<and> execs p)"
  using init_ok_no_panic [OF init_ok_reachable [OF assms init_ok_New]] Init_Update_panics Init_Exec_panics by blast

text \<open>
  C19. The exit of an init process is recorded once: from the moment its wait channel is closed, no
  sequence of calls changes its exit status or exit time or reopens the channel, and it never
  becomes alive again.
\<close>

theorem init_exit_recorded_once:
  assumes "init_step\<^sup>*\<^sup>* (process_New i r s) p" and "ip_wait_closed p" and "init_step\<^sup>*\<^sup>* p q"
  shows "ip_wait_closed q \<and> ip_status q = ip_status p \<and> ip_exited q = ip_exited p \<and> \<not> alive (ip_state q)"
proof -
  have "\<not> alive (ip_state p)"
    using init_ok_reachable [OF assms(1) init_ok_New] assms(2) by (simp add: init_ok_def)
  then show ?thesis
    using init_exit.record_final [OF assms(3,2)] init_dead_stays [OF assms(3)]
    by (simp add: init_exit_info_def)
qed

text \<open>
  C20. The same for a process added by exec: after its wait channel is closed its exit status and
  time are final.
\<close>

theorem exec_exit_recorded_once:
  assumes "exec_step\<^sup>*\<^sup>* e f" and "ep_wait_closed e"
  shows "ep_wait_closed f \<and> ep_status f = ep_status e \<and> ep_exited f = ep_exited e"
  using exec_exit.record_final [OF assms] by (simp add: exec_exit_info_def)

text \<open>
  C21. Every call of a method moves an init process along the life cycle of \<open>init_state.go\<close> and no
  other way: created to running, running to paused and back, alive to stopped, created or stopped
  to deleted.
\<close>

theorem init_steps_follow_life:
  assumes "init_step p q"
  shows "init_life (ip_state p) (ip_state q)"
  using assms by (rule init_step_life)

text \<open>
  The same for exec processes and the states of \<open>exec_state.go\<close>.
\<close>

theorem exec_steps_follow_life:
  assumes "exec_step e f"
  shows "exec_life (ep_state e) (ep_state f)"
  using assms by (rule exec_step_life)

text \<open>
  C22. Deleting a created or stopped init process always asks the runtime to delete the container,
  then closes the closers and the I/O, then unmounts the rootfs, whatever fails on the way; it
  moves to the deleted state exactly when it returns no error, that is when the runtime's delete
  succeeded or reported that the container does not exist, and the unmount succeeded.
\<close>

theorem init_delete_cleans_up:
  assumes "ip_state p = CreatedState \<or> ip_state p = StoppedState"
  shows "\<exists>x q. Init_Delete env p = Ret (x, q)
     \<and> ip_calls q = ip_calls p @ RtDelete (ip_id p) #
         (if ip_io p = None then [] else map CloserClosed (ip_closers p) @ [IOClosed])
         @ [Unmounted (ip_Rootfs p)]
     \<and> (x = None \<longleftrightarrow> ip_state q = DeletedState)
     \<and> (x = None \<longleftrightarrow> x_unmount env = None
          \<and> (case x_rt_delete env of None \<Rightarrow> True | Some e \<Rightarrow> contains (err_msg e) ''does not exist''))"
  using assms
  by (auto simp: Init_Delete_def lift_step_def init_delete_def Let_def icall_def init_goto_def runtimeError_def
      split: option.splits sum.splits)

text \<open>
  An init process deleted while it is still in the created state never closes its wait channel:
  the later exit of the process changes nothing and no further call does, so \<open>Wait\<close> on it blocks.
\<close>

theorem deleted_created_never_wakes:
  assumes "init_step\<^sup>*\<^sup>* (process_New i r s) p" and "ip_state p = CreatedState"
    and "Init_Delete env p = Ret (None, q)" and "init_step\<^sup>*\<^sup>* q q'"
  shows "\<not> ip_wait_closed q' \<and> Init_SetExited env' st q' = Ret q'"
proof -
  have "\<not> ip_wait_closed p"
    using init_ok_reachable [OF assms(1) init_ok_New] assms(2) by (auto simp: init_ok_def alive_def)
  moreover have "moved p DeletedState q"
    using Init_Delete_result [OF assms(3)] by simp
  ultimately have "ip_state q = DeletedState" "\<not> ip_wait_closed q" by (simp_all add: moved_def)
  with init_deleted_frozen [OF assms(4)] show ?thesis
    by (simp add: Init_SetExited_done alive_def)
qed

lemma runtimeError_Some: "\<exists>e'. runtimeError env r (Some e) m = Some e'"
  by (simp add: runtimeError_def split: sum.splits)

lemma Exec_Start_failing:
  assumes "ep_state e = ExecCreated" and "\<not> Terminal (ep_stdio e)" and "stdio_IsNull (ep_stdio e)"
    and "ie_null_io (x_io env) = None" and "x_rt_exec env = Some err"
  shows "if ep_wait_closed e then panics (Exec_Start env parent e sm)
         else \<exists>y f. Exec_Start env parent e sm = Ret ((Some y, f), sm) \<and> ep_wait_closed f
                \<and> ep_state f = ExecCreated \<and> ep_stdio f = ep_stdio e"
proof -
  obtain y where y: "runtimeError env (ip_runtime parent) (Some err) ''OCI runtime exec failed'' = Some y"
    using runtimeError_Some by blast
  obtain pio where "createIO (x_io env) stream_Get close_stream (ep_stdio e) sm = (Inr pio, sm)"
    using assms(3,4) by (simp add: createIO_def)
  with assms(1,2,5) y show ?thesis
    by (simp add: Exec_Start_def exec_start_def exec_run_def then_step_def lift_step_def ecall_def)
qed

text \<open>
  A process added by exec whose start failed in the runtime is left in the created state with
  its wait channel closed; the next start that fails the same way, and a recorded exit, panic by
  closing the channel again.
\<close>

theorem exec_failed_start_then_panics:
  assumes "ep_state e = ExecCreated" and "\<not> Terminal (ep_stdio e)" and "stdio_IsNull (ep_stdio e)"
    and "ie_null_io (x_io env) = None" and "x_rt_exec env = Some err"
    and "Exec_Start env parent e sm = Ret ((x, e'), sm')"
  shows "x \<noteq> None \<and> ep_state e' = ExecCreated \<and> ep_wait_closed e'
       \<and> panics (Exec_Start env parent e' sm') \<and> panics (Exec_SetExited env' st e')"
proof -
  from Exec_Start_failing [OF assms(1-5), of parent sm] assms(6)
  have e': "x \<noteq> None" "ep_state e' = ExecCreated" "ep_wait_closed e'" "ep_stdio e' = ep_stdio e"
    by (auto split: if_splits)
  moreover have "panics (Exec_Start env parent e' sm')"
    using Exec_Start_failing [of e' env err parent sm'] e' assms(2-5) by simp
  ultimately show ?thesis
    by (simp add: Exec_SetExited_def exec_setExited_def)
qed

text \<open>
  The error of a failed kill keeps its class for the client: it is a not-found error exactly
  when the runtime says that the process has finished or the container does not exist, or its own
  error is one.
\<close>

theorem checkKillError_not_found:
  "checkKillError (Some e) = Some e' \<Longrightarrow>
     is_errdef ErrNotFound e' \<longleftrightarrow>
       contains (err_msg e) ''os: process already finished'' \<or> contains (err_msg e) ''container not running''
       \<or> contains (to_lower (err_msg e)) ''no such process'' \<or> e = err_esrch
       \<or> contains (err_msg e) ''does not exist'' \<or> is_errdef ErrNotFound e"
  by (auto simp: checkKillError_def split: if_splits)

lemma last_error_loop_filter:
  assumes "\<forall>le \<in> set les. le_level le \<noteq> None \<and> le_msg le \<noteq> None"
    and "level = ''error'' \<longrightarrow> acc = trim_space msg"
  shows "last_error_loop level msg acc les None =
     Inr (case filter (\<lambda>le. le_level le = Some ''error'') les of
            [] \<Rightarrow> acc | xs \<Rightarrow> trim_space (the (le_msg (last xs))))"
  using assms
proof (induction les arbitrary: level msg acc)
  case (Cons le les)
  then obtain l m where "le_level le = Some l" "le_msg le = Some m" by fastforce
  with Cons show ?case by (auto split: list.splits)
qed auto

text \<open>
  \<open>getLastRuntimeError\<close> returns the trimmed message of the last error entry of the runtime's
  log, or nothing when the log has none, for a log whose entries all carry a level and a message.
\<close>

theorem getLastRuntimeError_last:
  assumes "rc_Log r \<noteq> []" and "x_log env = Inr (les, None)"
    and "\<forall>le \<in> set les. le_level le \<noteq> None \<and> le_msg le \<noteq> None"
  shows "getLastRuntimeError env r =
     Inr (case filter (\<lambda>le. le_level le = Some ''error'') les of
            [] \<Rightarrow> [] | xs \<Rightarrow> trim_space (the (le_msg (last xs))))"
  using assms last_error_loop_filter [of les "[]" "[]" "[]"] by (simp add: getLastRuntimeError_def)

section \<open>Witnesses\<close>

definition calm_env :: proc_env where
  "calm_env = \<lparr>x_io = calm_io, x_console_socket = None, x_receive_master = Inr 0,
     x_copy_console = Inr, x_stdin_closer = (\<lambda>_. None), x_resize = None, x_rt_create = None,
     x_rt_start = None, x_rt_delete = None, x_rt_pause = None, x_rt_resume = None, x_rt_update = None,
     x_rt_checkpoint = None, x_rt_restore = None, x_rt_exec = None, x_rt_kill = None, x_unix_kill = None,
     x_read_pid = (\<lambda>_. Inr 42), x_log = Inr ([], None), x_unmount = None, x_spec = (\<lambda>_. Inr 0),
     x_resources = (\<lambda>_. None), x_now = 5\<rparr>"

definition null_stdio :: stdio where
  "null_stdio = \<lparr>Stdin = [], Stdout = [], Stderr = [], Terminal = False\<rparr>"

definition new_init :: init_proc where
  "new_init = process_New ''c1'' (NewRunc [] ''/run'' ''crun'' False) null_stdio"

definition started_init :: init_proc where
  "started_init = new_init\<lparr>ip_state := RunningState, ip_calls := [RtStart ''c1'']\<rparr>"

definition exited_init :: init_proc where
  "exited_init = started_init\<lparr>ip_state := StoppedState, ip_wait_closed := True, ip_status := 137,
     ip_exited := 5, ip_calls := [RtStart ''c1'', ShutdownConsole]\<rparr>"

lemma new_init_starts: "Init_Start calm_env new_init = Ret (None, started_init)"
  by (simp add: Init_Start_def new_init_def started_init_def process_New_def init_start_def lift_step_def
      init_goto_def icall_def runtimeError_def calm_env_def)

lemma started_init_exits: "Init_SetExited calm_env 137 started_init = Ret exited_init"
  by (simp add: Init_SetExited_def started_init_def exited_init_def new_init_def process_New_def
      init_setExited_def stop_or_panic_def init_goto_def icall_def calm_env_def)

lemma exited_init_deleted: "\<exists>q. Init_Delete calm_env exited_init = Ret (None, q)"
  by (simp add: Init_Delete_def exited_init_def started_init_def new_init_def process_New_def
      init_delete_def lift_step_def init_goto_def icall_def calm_env_def)

lemma reach_started: "init_step\<^sup>*\<^sup>* new_init started_init"
  using init_step.start [OF new_init_starts] by blast

lemma reach_exited: "init_step\<^sup>*\<^sup>* new_init exited_init"
  using reach_started init_step.setexited [OF started_init_exits] by (rule rtranclp.rtrancl_into_rtrancl)

theorem init_never_panics_witness:
  "\<not> panics (Init_SetExited calm_env 0 exited_init) \<and> \<not> panics (Init_Delete calm_env exited_init)
     \<and> \<not> panics (Init_Update calm_env None exited_init) \<and> panics (Init_Update calm_env None started_init)"
  using init_never_panics [OF reach_exited [unfolded new_init_def], of calm_env]
    init_never_panics [OF reach_started [unfolded new_init_def], of calm_env]
  by (simp add: updates_def exited_init_def started_init_def)

theorem init_exit_recorded_once_witness:
  "\<exists>q. Init_Delete calm_env exited_init = Ret (None, q) \<and> ip_wait_closed q \<and> ip_status q = 137
     \<and> ip_exited q = 5"
proof -
  obtain q where q: "Init_Delete calm_env exited_init = Ret (None, q)"
    using exited_init_deleted by blast
  then have "init_step\<^sup>*\<^sup>* exited_init q" using init_step.delete by blast
  from init_exit_recorded_once [OF reach_exited [unfolded new_init_def] _ this] q show ?thesis
    by (simp add: exited_init_def)
qed

definition new_exec :: exec_proc where
  "new_exec = \<lparr>ep_state = ExecCreated, ep_wait_closed = False, ep_id = ''e1'', ep_console = None,
     ep_io = None, ep_status = 0, ep_exited = 0, ep_pid = 0, ep_closers = [], ep_stdin = None,
     ep_stdio = null_stdio, ep_path = ''/run'', ep_spec = 0, ep_spec_terminal = False, ep_calls = []\<rparr>"

definition exited_exec :: exec_proc where
  "exited_exec = new_exec\<lparr>ep_state := ExecStopped, ep_wait_closed := True, ep_status := 137,
     ep_exited := 5, ep_calls := [ShutdownConsole]\<rparr>"

lemma new_exec_exits: "Exec_SetExited calm_env 137 new_exec = Ret exited_exec"
  by (simp add: Exec_SetExited_def new_exec_def exited_exec_def exec_setExited_def exec_stop_or_panic_def
      exec_goto_def ecall_def calm_env_def)

theorem exec_exit_recorded_once_witness:
  "\<exists>f. Exec_Delete calm_env exited_exec = Ret (None, f) \<and> ep_wait_closed f \<and> ep_status f = 137"
proof -
  obtain f where f: "Exec_Delete calm_env exited_exec = Ret (None, f)"
    by (simp add: Exec_Delete_def exited_exec_def new_exec_def exec_delete_def lift_step_def exec_goto_def
        ecall_def)
  then have "exec_step\<^sup>*\<^sup>* exited_exec f" using exec_step.delete by blast
  from exec_exit_recorded_once [OF this] f show ?thesis by (simp add: exited_exec_def)
qed

theorem init_steps_follow_life_witness:
  "init_life (ip_state new_init) (ip_state started_init) \<and> ip_state new_init \<noteq> ip_state started_init"
  using init_steps_follow_life [OF init_step.start [OF new_init_starts]]
  by (simp add: new_init_def started_init_def process_New_def)

theorem exec_steps_follow_life_witness:
  "exec_life (ep_state new_exec) (ep_state exited_exec) \<and> ep_state new_exec \<noteq> ep_state exited_exec"
  using exec_steps_follow_life [OF exec_step.setexited [OF new_exec_exits]]
  by (simp add: new_exec_def exited_exec_def)

theorem init_delete_cleans_up_witness:
  "\<exists>x q. Init_Delete (calm_env\<lparr>x_rt_delete := Some (ErrNew ''EIO'')\<rparr>) exited_init = Ret (x, q)
     \<and> ip_calls q = [RtStart ''c1'', ShutdownConsole, RtDelete ''c1'', Unmounted []] \<and> x \<noteq> None"
proof -
  have "ip_state exited_init = CreatedState \<or> ip_state exited_init = StoppedState"
    by (simp add: exited_init_def)
  from init_delete_cleans_up [OF this, of "calm_env\<lparr>x_rt_delete := Some (ErrNew ''EIO'')\<rparr>"] show ?thesis
    by (auto simp: exited_init_def started_init_def new_init_def process_New_def)
qed

theorem deleted_created_never_wakes_witness:
  "\<exists>q. Init_Delete calm_env new_init = Ret (None, q) \<and> \<not> ip_wait_closed q
     \<and> Init_SetExited calm_env 137 q = Ret q"
proof -
  obtain q where q: "Init_Delete calm_env new_init = Ret (None, q)"
    by (simp add: Init_Delete_def new_init_def process_New_def init_delete_def lift_step_def init_goto_def
        icall_def calm_env_def)
  moreover have "init_step\<^sup>*\<^sup>* (process_New ''c1'' (NewRunc [] ''/run'' ''crun'' False) null_stdio) new_init"
    by (simp add: new_init_def)
  moreover have "ip_state new_init = CreatedState" by (simp add: new_init_def process_New_def)
  ultimately show ?thesis
    using deleted_created_never_wakes [of _ _ _ new_init calm_env q q] by blast
qed

theorem exec_failed_start_then_panics_witness:
  "\<exists>x e'. Exec_Start (calm_env\<lparr>x_rt_exec := Some (ErrNew ''EIO'')\<rparr>) new_init new_exec one_conn = Ret ((x, e'), one_conn)
     \<and> panics (Exec_Start (calm_env\<lparr>x_rt_exec := Some (ErrNew ''EIO'')\<rparr>) new_init e' one_conn)"
proof -
  let ?env = "calm_env\<lparr>x_rt_exec := Some (ErrNew ''EIO'')\<rparr>"
  have h: "ep_state new_exec = ExecCreated" "\<not> Terminal (ep_stdio new_exec)" "stdio_IsNull (ep_stdio new_exec)"
    "ie_null_io (x_io ?env) = None" "x_rt_exec ?env = Some (ErrNew ''EIO'')"
    by (simp_all add: new_exec_def null_stdio_def stdio_IsNull_def calm_env_def calm_io_def)
  from Exec_Start_failing [OF h, of new_init one_conn]
  obtain y f where f: "Exec_Start ?env new_init new_exec one_conn = Ret ((Some y, f), one_conn)"
    by (auto simp: new_exec_def)
  from exec_failed_start_then_panics [OF h f, of calm_env 0] f show ?thesis by blast
qed

theorem checkKillError_not_found_witness:
  "\<exists>e'. checkKillError (Some (ErrNew ''container not running'')) = Some e' \<and> is_errdef ErrNotFound e'"
proof -
  obtain e' where e: "checkKillError (Some (ErrNew ''container not running'')) = Some e'"
    by (simp add: checkKillError_def)
  with checkKillError_not_found [OF e] show ?thesis by simp
qed

theorem getLastRuntimeError_last_witness:
  "getLastRuntimeError (calm_env\<lparr>x_log := Inr ([\<lparr>le_level = Some ''error'', le_msg = Some '' boom ''\<rparr>,
        \<lparr>le_level = Some ''info'', le_msg = Some ''bye''\<rparr>], None)\<rparr>)
     (NewRunc [] ''/run'' ''crun'' False) = Inr ''boom''"
proof -
  have "rc_Log (NewRunc [] ''/run'' ''crun'' False) \<noteq> []" by code_simp
  from getLastRuntimeError_last [OF this, of "calm_env\<lparr>x_log := Inr ([\<lparr>le_level = Some ''error'',
        le_msg = Some '' boom ''\<rparr>, \<lparr>le_level = Some ''info'', le_msg = Some ''bye''\<rparr>], None)\<rparr>"]
  show ?thesis by (simp add: trim_space_def is_space_def)
qed

end
