(* ===== verification/VM_Mounts.thy ===== *)
theory VM_Mounts
  imports Process
begin

text \<open>
  Mounts inside the VM: \<open>mountutil.All\<close> (\<open>internal/mountutil/mount.go\<close>), which mounts the rootfs
  components of a container, and the mount service (\<open>plugins/services/mount/service.go\<close>), which
  mounts and unmounts on request of the host and keeps the list of its mounts. The system calls and
  the template engine of the standard library are parameters. Errors are those before
  \<open>errgrpc.ToGRPC\<close> re-encodes them.
\<close>

section \<open>mountutil\<close>

record ActiveMount =
  am_mount :: Mount
  am_point :: string

text \<open>The system calls the function makes, in order.\<close>

datatype mount_op =
    OpMkdirAll string
  | OpMount Mount string
  | OpUnmountAll string

record mountutil_env =
  mu_mkdir :: "string \<Rightarrow> go_error option"
  mu_mount :: "Mount \<Rightarrow> string \<Rightarrow> go_error option"
  mu_template :: "(string \<Rightarrow> int list \<Rightarrow> string result) \<Rightarrow> string \<Rightarrow> string result"

definition out_of_bounds :: "int \<Rightarrow> nat \<Rightarrow> go_error" where
  "out_of_bounds i n =
     ErrNew (''index out of bounds: '' @ show_int i @ '', has '' @ show_nat n @ '' active mounts'')"

definition invalid_range :: "int \<Rightarrow> int \<Rightarrow> nat \<Rightarrow> go_error" where
  "invalid_range s e n =
     ErrNew (''invalid range: '' @ show_int s @ ''-'' @ show_int e @ '', has '' @ show_nat n @ '' active mounts'')"

definition at_index :: "(ActiveMount \<Rightarrow> string) \<Rightarrow> ActiveMount list \<Rightarrow> int \<Rightarrow> string result" where
  "at_index f a i = (if i < 0 \<or> i \<ge> int (length a) then Inl (out_of_bounds i (length a)) else Inr (f (a ! nat i)))"

definition overlay_dirs :: "ActiveMount list \<Rightarrow> int \<Rightarrow> int \<Rightarrow> string result" where
  "overlay_dirs a start fin =
     (if start > fin then
        (if start \<ge> int (length a) \<or> fin < 0 then Inl (invalid_range start fin (length a))
         else Inr (join_with '':'' (map (\<lambda>i. am_point (a ! nat i)) (rev [fin..start]))))
      else
        (if start < 0 \<or> fin \<ge> int (length a) then Inl (invalid_range start fin (length a))
         else Inr (join_with '':'' (map (\<lambda>i. am_point (a ! nat i)) [start..fin]))))"

text \<open>The function map of the templates; other names and arities are errors of the engine.\<close>

definition format_func :: "ActiveMount list \<Rightarrow> string \<Rightarrow> int list \<Rightarrow> string result" where
  "format_func a name args =
     (case args of
        [i] \<Rightarrow>
          if name = ''source'' then at_index (\<lambda>m. m_Source (am_mount m)) a i
          else if name = ''target'' then at_index (\<lambda>m. m_Target (am_mount m)) a i
          else if name = ''mount'' then at_index am_point a i
          else Inl (ErrNew ''function not defined'')
      | [i, j] \<Rightarrow> if name = ''overlay'' then overlay_dirs a i j else Inl (ErrNew ''function not defined'')
      | _ \<Rightarrow> Inl (ErrNew ''wrong number of args''))"

definition formatString :: "mountutil_env \<Rightarrow> ActiveMount list \<Rightarrow> string \<Rightarrow> string result" where
  "formatString env a s =
     (if \<not> contains s ''{{'' then Inr s else mu_template env (format_func a) s)"

fun format_options :: "mountutil_env \<Rightarrow> ActiveMount list \<Rightarrow> string list \<Rightarrow> string list result" where
  "format_options env a [] = Inr []"
| "format_options env a (o1 # os) =
     (case formatString env a o1 of
        Inl e \<Rightarrow> Inl (ErrWrap (''formatting mount option '' @ quote o1) e)
      | Inr s \<Rightarrow> (case format_options env a os of Inl e \<Rightarrow> Inl e | Inr ss \<Rightarrow> Inr (s # ss)))"

definition format_mount :: "mountutil_env \<Rightarrow> ActiveMount list \<Rightarrow> Mount \<Rightarrow> Mount result" where
  "format_mount env a m =
     (case cut_prefix (m_Type m) ''format/'' of
        None \<Rightarrow> Inr m
      | Some t \<Rightarrow>
          (case format_options env a (m_Options m) of
             Inl e \<Rightarrow> Inl e
           | Inr os \<Rightarrow>
          (case formatString env a (m_Source m) of
             Inl e \<Rightarrow> Inl (ErrWrap (''formatting mount source '' @ quote (m_Source m)) e)
           | Inr src \<Rightarrow>
          (case formatString env a (m_Target m) of
             Inl e \<Rightarrow> Inl (ErrWrap (''formatting mount target '' @ quote (m_Target m)) e)
           | Inr tgt \<Rightarrow>
               Inr \<lparr>m_Type = t, m_Source = src, m_Target = tgt, m_Options = os\<rparr>))))"

definition mkdir_option_prefix :: string where
  "mkdir_option_prefix = ''X-containerd.mkdir.path=''"

text \<open>
  The loop over the options of a \<open>mkdir/\<close> mount: the options that are kept, or the error, and the
  directories created. \<open>SplitN\<close> with limit 4 gives one to four parts; only the first is used.
\<close>

fun mkdir_options ::
  "mountutil_env \<Rightarrow> string \<Rightarrow> string list \<Rightarrow> string list result \<times> mount_op list" where
  "mkdir_options env mdir [] = (Inr [], [])"
| "mkdir_options env mdir (o1 # os) =
     (if has_prefix o1 ''X-containerd.mkdir.'' then
        if \<not> has_prefix o1 mkdir_option_prefix then (Inl (ErrNew (''unknown mkdir mount option '' @ quote o1)), [])
        else let dir = hd (split_on (CHR '':'') (drop (length mkdir_option_prefix) o1))
             in if \<not> has_prefix dir mdir then
                  (Inl (ErrNew (''mkdir mount source '' @ quote dir @ '' must be under '' @ quote mdir)), [])
                else case mu_mkdir env dir of
                  Some e \<Rightarrow> (Inl e, [OpMkdirAll dir])
                | None \<Rightarrow>
                    (case mkdir_options env mdir os of (r, ops) \<Rightarrow> (r, OpMkdirAll dir # ops))
      else case mkdir_options env mdir os of
             (Inl e, ops) \<Rightarrow> (Inl e, ops)
           | (Inr kept, ops) \<Rightarrow> (Inr (o1 # kept), ops))"

definition mkdir_mount :: "mountutil_env \<Rightarrow> string \<Rightarrow> Mount \<Rightarrow> Mount result \<times> mount_op list" where
  "mkdir_mount env mdir m =
     (case cut_prefix (m_Type m) ''mkdir/'' of
        None \<Rightarrow> (Inr m, [])
      | Some t \<Rightarrow>
          (case mkdir_options env mdir (m_Options m) of
             (Inl e, ops) \<Rightarrow> (Inl e, ops)
           | (Inr os, ops) \<Rightarrow> (Inr (m\<lparr>m_Type := t, m_Options := os\<rparr>), ops)))"

text \<open>One turn of the loop of \<open>All\<close>, at index \<open>i\<close> of \<open>n\<close> mounts.\<close>

definition mount_target :: "string \<Rightarrow> string \<Rightarrow> nat \<Rightarrow> nat \<Rightarrow> string" where
  "mount_target rootfs mdir n i = (if Suc i < n then path_join [mdir, show_nat i] else rootfs)"

definition mount_one ::
  "mountutil_env \<Rightarrow> string \<Rightarrow> string \<Rightarrow> nat \<Rightarrow> nat \<Rightarrow> ActiveMount list \<Rightarrow> Mount \<Rightarrow> ActiveMount result \<times> mount_op list" where
  "mount_one env rootfs mdir n i active m =
     (let target = mount_target rootfs mdir n i;
          mk = (if Suc i < n then [OpMkdirAll target] else [])
      in case (if Suc i < n then mu_mkdir env target else None) of
           Some e \<Rightarrow> (Inl e, mk)
         | None \<Rightarrow>
             (case format_mount env active m of
                Inl e \<Rightarrow> (Inl e, mk)
              | Inr m1 \<Rightarrow>
                  (case mkdir_mount env mdir m1 of
                     (Inl e, ops) \<Rightarrow> (Inl e, mk @ ops)
                   | (Inr m2, ops) \<Rightarrow>
                       (case mu_mount env m2 target of
                          Some e \<Rightarrow> (Inl e, mk @ ops @ [OpMount m2 target])
                        | None \<Rightarrow> (Inr \<lparr>am_mount = m2, am_point = target\<rparr>, mk @ ops @ [OpMount m2 target])))))"

fun mount_loop ::
  "mountutil_env \<Rightarrow> string \<Rightarrow> string \<Rightarrow> nat \<Rightarrow> nat \<Rightarrow> ActiveMount list \<Rightarrow> Mount list \<Rightarrow>
     go_error option \<times> ActiveMount list \<times> mount_op list" where
  "mount_loop env rootfs mdir n i active [] = (None, active, [])"
| "mount_loop env rootfs mdir n i active (m # ms) =
     (case mount_one env rootfs mdir n i active m of
        (Inl e, ops) \<Rightarrow> (Some e, active, ops)
      | (Inr am, ops) \<Rightarrow>
          (case mount_loop env rootfs mdir n (Suc i) (active @ [am]) ms of
             (r, act, ops') \<Rightarrow> (r, act, ops @ ops')))"

text \<open>
  The deferred cleanup is registered only after the loop: an error inside the loop returns before
  that, and after the loop the function returns nil.
\<close>

definition all_cleanup :: "ActiveMount list \<Rightarrow> go_error option \<Rightarrow> mount_op list" where
  "all_cleanup active retErr =
     (if retErr = None then []
      else map (\<lambda>a. OpUnmountAll (am_point a)) (filter (\<lambda>a. m_Type (am_mount a) \<noteq> ''mkdir'') (rev active)))"

definition mountutil_All ::
  "mountutil_env \<Rightarrow> string \<Rightarrow> string \<Rightarrow> Mount list \<Rightarrow> go_error option \<times> ActiveMount list \<times> mount_op list" where
  "mountutil_All env rootfs mdir mounts =
     (case mount_loop env rootfs mdir (length mounts) 0 [] mounts of
        (Some e, active, ops) \<Rightarrow> (Some e, active, ops)
      | (None, active, ops) \<Rightarrow> (None, active, ops @ all_cleanup active None))"

section \<open>The mount service\<close>

record mount_env =
  me_mkdir :: "string \<Rightarrow> go_error option"
  me_mount :: "Mount \<Rightarrow> go_error option"
  me_unmount :: "string \<Rightarrow> go_error option"

definition mountSpecsEqual :: "Mount \<Rightarrow> Mount \<Rightarrow> bool" where
  "mountSpecsEqual a b \<longleftrightarrow> m_Type a = m_Type b \<and> m_Source a = m_Source b \<and> m_Target a = m_Target b
     \<and> m_Options a = m_Options b"

definition find_target :: "string \<Rightarrow> Mount list \<Rightarrow> nat option" where
  "find_target t ms = index_func (\<lambda>e. m_Target e = t) ms"

fun MountAll :: "mount_env \<Rightarrow> Mount list \<Rightarrow> Mount list \<Rightarrow> go_error option \<times> Mount list" where
  "MountAll env [] mounts = (None, mounts)"
| "MountAll env (m # ms) mounts =
     (case find_target (m_Target m) mounts of
        Some i \<Rightarrow>
          if mountSpecsEqual (mounts ! i) m then MountAll env ms mounts
          else (Some (ErrWrap (''target '' @ m_Target m @ '' already mounted with a different spec'')
                  (Errdef ErrAlreadyExists)), mounts)
      | None \<Rightarrow>
          (case me_mkdir env (m_Target m) of
             Some e \<Rightarrow> (Some (ErrWrap (''failed to create mount target directory '' @ m_Target m) e), mounts)
           | None \<Rightarrow>
               (case me_mount env m of
                  Some e \<Rightarrow> (Some (ErrWrap (''failed to mount '' @ m_Source m @ '' at '' @ m_Target m) e), mounts)
                | None \<Rightarrow> MountAll env ms (mounts @ [m]))))"

definition Unmount :: "mount_env \<Rightarrow> string \<Rightarrow> Mount list \<Rightarrow> go_error option \<times> Mount list" where
  "Unmount env t mounts =
     (case find_target t mounts of
        None \<Rightarrow> (Some (ErrWrap (''cannot unmount '' @ t) (Errdef ErrNotFound)), mounts)
      | Some i \<Rightarrow>
          (case me_unmount env t of
             Some e \<Rightarrow> (Some (ErrWrap (''failed to unmount '' @ t) e), mounts)
           | None \<Rightarrow> (None, delete_at i mounts)))"

text \<open>The loop of \<open>UnmountAll\<close>, from index \<open>n - 1\<close> down: errors and targets tried, in order.\<close>

fun unmount_down ::
  "mount_env \<Rightarrow> nat \<Rightarrow> Mount list \<Rightarrow> (go_error list \<times> string list) \<times> Mount list" where
  "unmount_down env 0 mounts = (([], []), mounts)"
| "unmount_down env (Suc i) mounts =
     (let t = m_Target (mounts ! i)
      in case me_unmount env t of
           Some e \<Rightarrow>
             (case unmount_down env i mounts of
                ((es, ts), ms) \<Rightarrow> ((ErrWrap (''unmount '' @ t) e # es, t # ts), ms))
         | None \<Rightarrow>
             (case unmount_down env i (delete_at i mounts) of
                ((es, ts), ms) \<Rightarrow> ((es, t # ts), ms)))"

definition UnmountAll :: "mount_env \<Rightarrow> Mount list \<Rightarrow> go_error option \<times> Mount list" where
  "UnmountAll env mounts =
     (case unmount_down env (length mounts) mounts of
        ((es, ts), ms) \<Rightarrow> (map_option (ErrWrap ''unmount errors'') (join_errors es), ms))"

section \<open>What mountutil does\<close>

definition op_mounts :: "mount_op list \<Rightarrow> (Mount \<times> string) list" where
  "op_mounts ops = List.map_filter (\<lambda>x. case x of OpMount m t \<Rightarrow> Some (m, t) | _ \<Rightarrow> None) ops"

definition unmounts :: "mount_op list \<Rightarrow> bool" where
  "unmounts ops \<longleftrightarrow> list_ex (\<lambda>x. case x of OpUnmountAll _ \<Rightarrow> True | _ \<Rightarrow> False) ops"

lemma op_mounts_simps [simp]:
  "op_mounts [] = []" "op_mounts (OpMkdirAll p # ops) = op_mounts ops"
  "op_mounts (OpMount m t # ops) = (m, t) # op_mounts ops"
  "op_mounts (OpUnmountAll p # ops) = op_mounts ops"
  by (simp_all add: op_mounts_def map_filter_simps)

lemma op_mounts_append [simp]: "op_mounts (xs @ ys) = op_mounts xs @ op_mounts ys"
  by (simp add: op_mounts_def List.map_filter_def)

lemma unmounts_simps [simp]:
  "\<not> unmounts []" "unmounts (OpMkdirAll p # ops) = unmounts ops" "unmounts (OpMount m t # ops) = unmounts ops"
  "unmounts (xs @ ys) = (unmounts xs \<or> unmounts ys)"
  by (simp_all add: unmounts_def)

lemma mkdir_options_ops:
  "mkdir_options env mdir os = (r, ops) \<Longrightarrow> op_mounts ops = [] \<and> \<not> unmounts ops"
  by (induction os arbitrary: r ops) (auto simp: Let_def split: if_splits option.splits prod.splits sum.splits)

lemma mkdir_mount_ops:
  "mkdir_mount env mdir m = (r, ops) \<Longrightarrow> op_mounts ops = [] \<and> \<not> unmounts ops"
  by (auto simp: mkdir_mount_def dest: mkdir_options_ops split: option.splits prod.splits sum.splits)

lemma mount_one_ok:
  assumes "mount_one env rootfs mdir n i active m = (Inr am, ops)"
  shows "am_point am = mount_target rootfs mdir n i \<and> op_mounts ops = [(am_mount am, am_point am)] \<and> \<not> unmounts ops"
  using assms
  by (auto simp: mount_one_def Let_def dest: mkdir_mount_ops split: option.splits sum.splits prod.splits if_splits)

lemma mount_one_error:
  assumes "mount_one env rootfs mdir n i active m = (Inl e, ops)"
  shows "\<not> unmounts ops"
  using assms
  by (auto simp: mount_one_def Let_def dest: mkdir_mount_ops split: option.splits sum.splits prod.splits if_splits)

lemma mount_loop_result:
  assumes "mount_loop env rootfs mdir n i active ms = (r, act, ops)"
  shows "\<exists>new. act = active @ new \<and> \<not> unmounts ops
    \<and> map am_point new = map (mount_target rootfs mdir n) [i..<i + length new]
    \<and> prefix (map (\<lambda>a. (am_mount a, am_point a)) new) (op_mounts ops)
    \<and> (r = None \<longrightarrow> length new = length ms \<and> op_mounts ops = map (\<lambda>a. (am_mount a, am_point a)) new)"
  using assms
proof (induction ms arbitrary: i active act ops)
  case (Cons m ms)
  show ?case
  proof (cases "fst (mount_one env rootfs mdir n i active m)")
    case (Inl e)
    with Cons.prems mount_one_error [of env rootfs mdir n i active m e] show ?thesis
      by (auto split: prod.splits)
  next
    case (Inr am)
    then obtain ops1 where one: "mount_one env rootfs mdir n i active m = (Inr am, ops1)"
      by (metis prod.collapse)
    with Cons.prems obtain ops2 where
      loop: "mount_loop env rootfs mdir n (Suc i) (active @ [am]) ms = (r, act, ops2)" and "ops = ops1 @ ops2"
      by (auto split: prod.splits)
    with Cons.IH [OF loop] mount_one_ok [OF one] show ?thesis
      by (auto simp: upt_conv_Cons simp del: upt_Suc)
  qed
qed simp

lemma mountutil_All_result:
  assumes "mountutil_All env rootfs mdir ms = (r, act, ops)"
  shows "\<not> unmounts ops
    \<and> map am_point act = map (mount_target rootfs mdir (length ms)) [0..<length act]
    \<and> prefix (map (\<lambda>a. (am_mount a, am_point a)) act) (op_mounts ops)
    \<and> (r = None \<longrightarrow> length act = length ms \<and> op_mounts ops = map (\<lambda>a. (am_mount a, am_point a)) act)"
proof -
  have "mount_loop env rootfs mdir (length ms) 0 [] ms = (r, act, ops)"
    using assms by (auto simp: mountutil_All_def all_cleanup_def split: prod.splits option.splits)
  from mount_loop_result [OF this] show ?thesis by auto
qed

section \<open>The list of the mount service\<close>

definition mount_ok :: "Mount list \<Rightarrow> bool" where
  "mount_ok ms \<longleftrightarrow> distinct (map m_Target ms)"

text \<open>The service's list as a table from targets to specs.\<close>

definition mounts_at :: "Mount list \<Rightarrow> string \<Rightarrow> Mount option" where
  "mounts_at ms t = map_of (map (\<lambda>m. (m_Target m, m)) ms) t"

lemma find_target_None: "find_target t ms = None \<longleftrightarrow> t \<notin> m_Target ` set ms"
  by (auto simp: find_target_def)

lemma find_target_Some:
  "find_target t ms = Some i \<Longrightarrow> i < length ms \<and> m_Target (ms ! i) = t \<and> mounts_at ms t = Some (ms ! i)"
proof (induction ms arbitrary: i)
  case (Cons m ms)
  then show ?case
    by (auto simp: find_target_def mounts_at_def split: if_splits)
qed (simp add: find_target_def)

lemma mountSpecsEqual_iff [simp]: "mountSpecsEqual a b \<longleftrightarrow> a = b"
  by (auto simp: mountSpecsEqual_def intro: Mount.equality)

lemma mounts_at_in: "mount_ok ms \<Longrightarrow> m \<in> set ms \<Longrightarrow> mounts_at ms (m_Target m) = Some m"
  by (auto simp: mount_ok_def mounts_at_def comp_def intro!: map_of_is_SomeI)

lemma mount_ok_append: "mount_ok ms \<Longrightarrow> find_target (m_Target m) ms = None \<Longrightarrow> mount_ok (ms @ [m])"
  by (auto simp: mount_ok_def find_target_None)

lemma MountAll_result:
  assumes "MountAll env ms mounts = (r, mounts')" and "mount_ok mounts"
  shows "mount_ok mounts' \<and> prefix mounts mounts' \<and> (r = None \<longrightarrow> set mounts' = set mounts \<union> set ms)"
  using assms
proof (induction env ms mounts arbitrary: r rule: MountAll.induct)
  case (2 env m ms mounts)
  show ?case
  proof (cases "find_target (m_Target m) mounts")
    case None
    with 2 mount_ok_append [OF "2.prems"(2) None] show ?thesis
      by (auto split: option.splits dest: append_prefixD)
  next
    case (Some i)
    with 2 find_target_Some [OF Some] show ?thesis
      by (auto split: if_splits)
  qed
qed simp

lemma MountAll_present:
  assumes "mount_ok mounts" and "set ms \<subseteq> set mounts"
  shows "MountAll env ms mounts = (None, mounts)"
  using assms(2)
proof (induction ms)
  case (Cons m ms)
  then have "find_target (m_Target m) mounts \<noteq> None" by (auto simp: find_target_None)
  then obtain i where i: "find_target (m_Target m) mounts = Some i" by blast
  have "mounts ! i = m"
    using find_target_Some [OF i] mounts_at_in [OF assms(1), of m] Cons.prems by simp
  with i Cons show ?case by simp
qed simp

lemma mounts_at_delete:
  assumes "mount_ok ms" and "find_target t ms = Some i"
  shows "mounts_at (delete_at i ms) = (mounts_at ms)(t := None)"
  using assms
proof (induction ms arbitrary: i)
  case (Cons m ms)
  have *: "map_of (map (\<lambda>m. (m_Target m, m)) ms) (m_Target m) = None"
    using Cons.prems(1) by (auto simp: mount_ok_def map_of_eq_None_iff)
  show ?case
  proof (cases "m_Target m = t")
    case True
    with Cons.prems * show ?thesis
      by (auto simp: find_target_def mounts_at_def fun_eq_iff)
  next
    case False
    with Cons.prems obtain j where j: "find_target t ms = Some j" "i = Suc j"
      by (auto simp: find_target_def)
    with Cons.IH [of j] Cons.prems(1) False show ?thesis
      by (auto simp: mounts_at_def mount_ok_def fun_eq_iff)
  qed
qed (simp add: find_target_def)

lemma unmount_down_result:
  assumes "n \<le> length ms"
  shows "\<exists>es. unmount_down env n ms =
     ((es, rev (map m_Target (take n ms))),
      filter (\<lambda>m. me_unmount env (m_Target m) \<noteq> None) (take n ms) @ drop n ms)
     \<and> length es = length (filter (\<lambda>m. me_unmount env (m_Target m) \<noteq> None) (take n ms))"
  using assms
proof (induction n arbitrary: ms)
  case (Suc i)
  then have i: "i < length ms" by simp
  have d: "take i (delete_at i ms) = take i ms" "drop i (delete_at i ms) = drop (Suc i) ms"
    using i by (simp_all add: delete_at_def)
  have len: "i \<le> length (delete_at i ms)" using i by (simp add: delete_at_def)
  show ?case
  proof (cases "me_unmount env (m_Target (ms ! i))")
    case None
    with Suc.IH [OF len] d show ?thesis
      by (auto simp: take_Suc_conv_app_nth [OF i] Let_def)
  next
    case (Some e)
    with Suc.IH [of ms] i show ?thesis
      by (auto simp: take_Suc_conv_app_nth [OF i] Let_def Cons_nth_drop_Suc)
  qed
qed simp

section \<open>Properties\<close>

text \<open>
  A successful \<open>mountutil.All\<close> makes exactly one mount call per component, in order, the last on
  the rootfs and each other one on its own numbered directory under \<open>mdir\<close>.
\<close>

theorem mountutil_All_places:
  assumes "mountutil_All env rootfs mdir ms = (None, act, ops)"
  shows "map snd (op_mounts ops) = map (mount_target rootfs mdir (length ms)) [0..<length ms]
       \<and> op_mounts ops = map (\<lambda>a. (am_mount a, am_point a)) act"
proof -
  have "op_mounts ops = map (\<lambda>a. (am_mount a, am_point a)) act" "length act = length ms"
    "map am_point act = map (mount_target rootfs mdir (length ms)) [0..<length act]"
    using mountutil_All_result [OF assms] by simp_all
  then show ?thesis by (simp add: comp_def)
qed

text \<open>
  A failed \<open>mountutil.All\<close> unmounts nothing, although every component before the failing one has
  been mounted: the cleanup is registered too late to run.
\<close>

theorem mountutil_All_never_cleans:
  assumes "mountutil_All env rootfs mdir ms = (Some e, act, ops)"
  shows "\<not> unmounts ops \<and> (\<forall>a \<in> set act. (am_mount a, am_point a) \<in> set (op_mounts ops))"
  using mountutil_All_result [OF assms] by (auto simp: prefix_def)

text \<open>
  The check that a mkdir path is under \<open>mdir\<close> compares text: a path that climbs out of \<open>mdir\<close>
  by \<open>..\<close> is created.
\<close>

theorem mkdir_option_escapes:
  assumes "CHR '':'' \<notin> set mdir" and "CHR '':'' \<notin> set up" and "mu_mkdir env (mdir @ ''/../'' @ up) = None"
  shows "mkdir_options env mdir [mkdir_option_prefix @ mdir @ ''/../'' @ up] =
           (Inr [], [OpMkdirAll (mdir @ ''/../'' @ up)])"
proof -
  have "split_on (CHR '':'') (mdir @ ''/../'' @ up) = [mdir @ ''/../'' @ up]"
    using assms(1,2) by (intro split_on_no_sep) auto
  with assms(3) show ?thesis
    by (simp add: has_prefix_def mkdir_option_prefix_def)
qed

text \<open>
  \<open>MountAll\<close> keeps the targets of the service's mounts distinct and never drops or reorders an
  earlier mount; when it succeeds the list holds the old mounts and the requested ones and nothing
  else, and the same request again changes nothing, whatever the system calls would return.
\<close>

theorem MountAll_idempotent:
  assumes "mount_ok mounts" and "MountAll env ms mounts = (r, mounts')"
  shows "mount_ok mounts' \<and> prefix mounts mounts'
       \<and> (r = None \<longrightarrow> set mounts' = set mounts \<union> set ms \<and> MountAll env' ms mounts' = (None, mounts'))"
  using MountAll_result [OF assms(2,1)] MountAll_present [of mounts' ms env'] by simp

text \<open>
  C37. \<open>Unmount\<close> is deletion from the table of targets, tied to the system call: it succeeds exactly when
  the target is in the table and unmounting it succeeded, and then removes exactly this target; a target
  that is not in the table is reported as not found, a failed unmount is reported with its error, and both
  leave the table as it was.
\<close>

theorem Unmount_refines_delete:
  assumes "mount_ok mounts" and "Unmount env t mounts = (r, mounts')"
  shows "mount_ok mounts'
       \<and> (r = None \<longleftrightarrow> mounts_at mounts t \<noteq> None \<and> me_unmount env t = None)
       \<and> (if r = None then mounts_at mounts' = (mounts_at mounts)(t := None) else mounts' = mounts)
       \<and> (mounts_at mounts t = None \<longrightarrow> (\<exists>e. r = Some e \<and> is_errdef ErrNotFound e))
       \<and> (\<forall>e. mounts_at mounts t \<noteq> None \<longrightarrow> me_unmount env t = Some e \<longrightarrow>
            r = Some (ErrWrap (''failed to unmount '' @ t) e))"
proof (cases "find_target t mounts")
  case None
  then have "mounts_at mounts t = None"
    by (auto simp: find_target_None mounts_at_def map_of_eq_None_iff)
  with None assms show ?thesis by (auto simp: Unmount_def)
next
  case (Some i)
  with assms mounts_at_delete [OF assms(1) Some] find_target_Some [OF Some] show ?thesis
    by (auto simp: Unmount_def mount_ok_def map_delete_at distinct_delete_at split: option.splits)
qed

text \<open>
  \<open>UnmountAll\<close> tries every mount once, in reverse order of mounting, and keeps exactly those
  whose unmount failed, in their order; it succeeds exactly when none failed. Deleting by index
  while counting down never skips or repeats an entry.
\<close>

theorem UnmountAll_keeps_failed:
  "(\<exists>es. unmount_down env (length mounts) mounts =
      ((es, rev (map m_Target mounts)), filter (\<lambda>m. me_unmount env (m_Target m) \<noteq> None) mounts))
   \<and> snd (UnmountAll env mounts) = filter (\<lambda>m. me_unmount env (m_Target m) \<noteq> None) mounts
   \<and> (fst (UnmountAll env mounts) = None \<longleftrightarrow> snd (UnmountAll env mounts) = [])"
  using unmount_down_result [of "length mounts" mounts env] by (auto simp: UnmountAll_def)

section \<open>Witnesses\<close>

definition calm_mountutil :: mountutil_env where
  "calm_mountutil = \<lparr>mu_mkdir = (\<lambda>_. None), mu_mount = (\<lambda>m _. if m_Type m = ''bad'' then Some (ErrNew ''EINVAL'') else None),
     mu_template = (\<lambda>_ s. Inr s)\<rparr>"

definition erofs_mount :: Mount where
  "erofs_mount = \<lparr>m_Type = ''erofs'', m_Source = ''/dev/vda'', m_Target = [], m_Options = [''ro'']\<rparr>"

theorem mountutil_All_places_witness:
  "\<exists>act ops. mountutil_All calm_mountutil ''/r'' ''/m'' [erofs_mount, erofs_mount] = (None, act, ops)
     \<and> map snd (op_mounts ops) = [''/m/0'', ''/r'']"
proof -
  obtain act ops where a: "mountutil_All calm_mountutil ''/r'' ''/m'' [erofs_mount, erofs_mount] = (None, act, ops)"
    by (simp add: mountutil_All_def mount_one_def format_mount_def mkdir_mount_def calm_mountutil_def
        erofs_mount_def cut_prefix_def Let_def)
  moreover have "path_join [''/m'', show_nat 0] = ''/m/0''" by code_simp
  ultimately show ?thesis
    using mountutil_All_places [OF a] by (auto simp: mount_target_def)
qed

theorem mountutil_All_never_cleans_witness:
  "\<exists>e act ops. mountutil_All calm_mountutil ''/r'' ''/m'' [erofs_mount, erofs_mount\<lparr>m_Type := ''bad''\<rparr>]
       = (Some e, act, ops)
     \<and> act \<noteq> [] \<and> \<not> unmounts ops"
proof -
  obtain e act ops where a: "mountutil_All calm_mountutil ''/r'' ''/m'' [erofs_mount, erofs_mount\<lparr>m_Type := ''bad''\<rparr>]
       = (Some e, act, ops)" and "act \<noteq> []"
    by (simp add: mountutil_All_def mount_one_def format_mount_def mkdir_mount_def calm_mountutil_def
        erofs_mount_def cut_prefix_def Let_def)
  with mountutil_All_never_cleans [OF a] show ?thesis by blast
qed

theorem mkdir_option_escapes_witness:
  "mkdir_options calm_mountutil ''/b/mounts'' [mkdir_option_prefix @ ''/b/mounts'' @ ''/../'' @ ''x''] =
     (Inr [], [OpMkdirAll (''/b/mounts'' @ ''/../'' @ ''x'')])
   \<and> path_clean (''/b/mounts'' @ ''/../'' @ ''x'') = ''/b/x''"
proof
  show "mkdir_options calm_mountutil ''/b/mounts'' [mkdir_option_prefix @ ''/b/mounts'' @ ''/../'' @ ''x''] =
     (Inr [], [OpMkdirAll (''/b/mounts'' @ ''/../'' @ ''x'')])"
    by (rule mkdir_option_escapes) (simp_all add: calm_mountutil_def)
  show "path_clean (''/b/mounts'' @ ''/../'' @ ''x'') = ''/b/x''" by code_simp
qed

definition calm_mounts :: mount_env where
  "calm_mounts = \<lparr>me_mkdir = (\<lambda>_. None), me_mount = (\<lambda>_. None), me_unmount = (\<lambda>_. None)\<rparr>"

theorem MountAll_idempotent_witness:
  "MountAll calm_mounts [erofs_mount, erofs_mount] [] = (None, [erofs_mount])
   \<and> MountAll calm_mounts [erofs_mount, erofs_mount] [erofs_mount] = (None, [erofs_mount])"
proof -
  have m: "MountAll calm_mounts [erofs_mount, erofs_mount] [] = (None, [erofs_mount])"
    by (simp add: find_target_def calm_mounts_def)
  with MountAll_idempotent [OF _ m, of calm_mounts] show ?thesis by (simp add: mount_ok_def)
qed

theorem Unmount_refines_delete_witness:
  "(\<exists>ms'. Unmount calm_mounts [] [erofs_mount] = (None, ms') \<and> mounts_at ms' [] = None)
   \<and> snd (Unmount (calm_mounts\<lparr>me_unmount := (\<lambda>_. Some (ErrNew ''EBUSY''))\<rparr>) [] [erofs_mount]) = [erofs_mount]"
proof -
  let ?busy = "calm_mounts\<lparr>me_unmount := (\<lambda>_. Some (ErrNew ''EBUSY''))\<rparr>"
  have ok: "mount_ok [erofs_mount]" by (simp add: mount_ok_def)
  have u: "Unmount calm_mounts [] [erofs_mount] = (None, [])"
    by (simp add: Unmount_def find_target_def calm_mounts_def erofs_mount_def)
  obtain r ms' where b: "Unmount ?busy [] [erofs_mount] = (r, ms')" by fastforce
  have "r \<noteq> None" using Unmount_refines_delete [OF ok b] by simp
  with Unmount_refines_delete [OF ok b] have "ms' = [erofs_mount]" by simp
  with b u Unmount_refines_delete [OF ok u] show ?thesis by simp
qed

end
