(* ===== verification/Container.thy ===== *)
theory Container
  imports VM_Mounts
begin

text \<open>
  Containers inside the VM, package \<open>internal/vminit/runc\<close>: \<open>container.go\<close>, \<open>platform.go\<close> and
  \<open>util.go\<close>. Containers and exec processes are objects shared by reference (by the service's maps,
  by the table of running pids and by requests in flight), so they live in a store, \<open>vm_world\<close>, and
  a reference is an index into it. The init process is owned by its container: \<open>NewContainer\<close>, the
  only constructor, sets it, and nothing clears it, so the nil check in \<open>Process\<close> never fires.
\<close>

section \<open>Data\<close>

record container =
  ct_ID :: string
  ct_Bundle :: string
  ct_cgroup :: "nat option"
  ct_process :: init_proc
  ct_processes :: "(string, nat) gomap"
  ct_reserved :: "(string, unit) gomap"

record vm_world =
  w_conts :: "container list"
  w_execs :: "exec_proc list"
  w_streams :: stream_service

text \<open>A process of a container: its init process, or an exec process by reference.\<close>

datatype pref = PInit | PExec nat

record runc_options =
  ro_Root :: string
  ro_SystemdCgroup :: bool
  ro_IoUid :: nat
  ro_IoGid :: nat
  ro_NoPivotRoot :: bool
  ro_NoNewKeyring :: bool
  ro_CriuWorkPath :: string

definition zero_options :: runc_options where
  "zero_options = \<lparr>ro_Root = [], ro_SystemdCgroup = False, ro_IoUid = 0, ro_IoGid = 0,
     ro_NoPivotRoot = False, ro_NoNewKeyring = False, ro_CriuWorkPath = []\<rparr>"

record create_request =
  cr_ID :: string
  cr_Bundle :: string
  cr_Rootfs :: "Mount list"
  cr_Terminal :: bool
  cr_Stdin :: string
  cr_Stdout :: string
  cr_Stderr :: string
  cr_Checkpoint :: string
  cr_ParentCheckpoint :: string
  cr_Options :: "string option"

record exec_request =
  er_ExecID :: string
  er_Terminal :: bool
  er_Stdin :: string
  er_Stdout :: string
  er_Stderr :: string
  er_Spec :: "string option"

record checkpoint_options =
  co_Exit :: bool
  co_OpenTcp :: bool
  co_ExternalUnixSockets :: bool
  co_Terminal :: bool
  co_FileLocks :: bool
  co_EmptyNamespaces :: "string list"
  co_WorkPath :: string

definition zero_checkpoint :: checkpoint_options where
  "zero_checkpoint = \<lparr>co_Exit = False, co_OpenTcp = False, co_ExternalUnixSockets = False,
     co_Terminal = False, co_FileLocks = False, co_EmptyNamespaces = [], co_WorkPath = []\<rparr>"

record cont_env =
  cn_proc :: proc_env
  cn_unmarshal :: "string \<Rightarrow> runc_options option result"
  cn_unmarshal_ckpt :: "string \<Rightarrow> checkpoint_options result"
  cn_mkdir :: "string \<Rightarrow> go_error option"
  cn_marshal :: "runc_options \<Rightarrow> string result"
  cn_write_file :: "string \<Rightarrow> string \<Rightarrow> go_error option"
  cn_stat :: "string \<Rightarrow> go_error option"
  cn_not_exist :: "go_error \<Rightarrow> bool"
  cn_read_file :: "string \<Rightarrow> string result"
  cn_unmarshal_json :: "string \<Rightarrow> runc_options result"
  cn_mountutil :: mountutil_env
  cn_unified :: bool
  cn_group_path :: "int \<Rightarrow> string result"
  cn_load2 :: "string \<Rightarrow> nat result"
  cn_load1 :: "int \<Rightarrow> nat result"
  cn_close :: "nat closer \<Rightarrow> go_error option"

definition runtimePath :: string where
  "runtimePath = ''/sbin/crun''"

definition optionsFilename :: string where
  "optionsFilename = ''options.json''"

section \<open>Creating a container\<close>

definition WriteOptions :: "cont_env \<Rightarrow> string \<Rightarrow> runc_options \<Rightarrow> go_error option" where
  "WriteOptions env path opts =
     (case cn_marshal env opts of
        Inl e \<Rightarrow> Some e
      | Inr data \<Rightarrow> cn_write_file env (path_join [path, optionsFilename]) data)"

definition ReadOptions :: "cont_env \<Rightarrow> string \<Rightarrow> runc_options option result" where
  "ReadOptions env path =
     (let file = path_join [path, optionsFilename]
      in case cn_stat env file of
           Some e \<Rightarrow> if cn_not_exist env e then Inr None else Inl e
         | None \<Rightarrow>
             (case cn_read_file env file of
                Inl e \<Rightarrow> Inl e
              | Inr data \<Rightarrow>
                  (case cn_unmarshal_json env data of Inl e \<Rightarrow> Inl e | Inr opts \<Rightarrow> Inr (Some opts))))"

definition newInit :: "string \<Rightarrow> string \<Rightarrow> CreateConfig \<Rightarrow> runc_options \<Rightarrow> string \<Rightarrow> init_proc" where
  "newInit path workDir r opts rootfs =
     (process_New (cc_ID r) (NewRunc (ro_Root opts) path runtimePath (ro_SystemdCgroup opts))
        \<lparr>Stdin = cc_Stdin r, Stdout = cc_Stdout r, Stderr = cc_Stderr r, Terminal = cc_Terminal r\<rparr>)
     \<lparr>ip_Bundle := cc_Bundle r, ip_Rootfs := rootfs, ip_WorkDir := workDir,
      ip_IoUID := int (ro_IoUid opts), ip_IoGID := int (ro_IoGid opts),
      ip_NoPivotRoot := ro_NoPivotRoot opts, ip_NoNewKeyring := ro_NoNewKeyring opts,
      ip_CriuWorkPath := (if ro_CriuWorkPath opts = [] then workDir else ro_CriuWorkPath opts)\<rparr>"

definition loadProcessCgroup :: "cont_env \<Rightarrow> int \<Rightarrow> nat result" where
  "loadProcessCgroup env pid =
     (if cn_unified env then
        (case cn_group_path env pid of Inl e \<Rightarrow> Inl e | Inr g \<Rightarrow> cn_load2 env g)
      else cn_load1 env pid)"

definition request_options :: "cont_env \<Rightarrow> create_request \<Rightarrow> runc_options result" where
  "request_options env r =
     (case cr_Options r of
        None \<Rightarrow> Inr zero_options
      | Some v \<Rightarrow>
          (case cn_unmarshal env v of
             Inl e \<Rightarrow> Inl e
           | Inr None \<Rightarrow> Inr zero_options
           | Inr (Some opts) \<Rightarrow> Inr opts))"

definition create_config :: "create_request \<Rightarrow> CreateConfig" where
  "create_config r =
     \<lparr>cc_ID = cr_ID r, cc_Bundle = cr_Bundle r, cc_Runtime = runtimePath, cc_Rootfs = cr_Rootfs r,
      cc_Terminal = cr_Terminal r, cc_Stdin = cr_Stdin r, cc_Stdout = cr_Stdout r, cc_Stderr = cr_Stderr r,
      cc_Checkpoint = cr_Checkpoint r, cc_ParentCheckpoint = cr_ParentCheckpoint r,
      cc_Options = (case cr_Options r of None \<Rightarrow> [] | Some v \<Rightarrow> v)\<rparr>"

definition rootfs_premounted :: "create_request \<Rightarrow> string \<Rightarrow> bool" where
  "rootfs_premounted r rootfs =
     (case cr_Rootfs r of
        [] \<Rightarrow> True
      | [m] \<Rightarrow> m_Type m = ''bind'' \<and> m_Source m = rootfs
      | _ \<Rightarrow> False)"

text \<open>
  \<open>NewContainer\<close>: the container or the error, the mount calls it made, and the streams after it.
\<close>

definition NewContainer ::
  "cont_env \<Rightarrow> create_request \<Rightarrow> stream_service \<Rightarrow> (container result \<times> mount_op list) \<times> stream_service" where
  "NewContainer env r sm =
     (case request_options env r of
        Inl e \<Rightarrow> ((Inl e, []), sm)
      | Inr opts \<Rightarrow>
     (let rootfs = (if cr_Rootfs r = [] then [] else path_join [cr_Bundle r, ''rootfs'']);
          config = create_config r
      in case (if cr_Rootfs r = [] then None else cn_mkdir env rootfs) of
           Some e \<Rightarrow> ((Inl e, []), sm)
         | None \<Rightarrow>
     (case WriteOptions env (cr_Bundle r) opts of
        Some e \<Rightarrow> ((Inl e, []), sm)
      | None \<Rightarrow>
     (case (if rootfs_premounted r rootfs then (None, [], [])
            else mountutil_All (cn_mountutil env) rootfs (path_join [cr_Bundle r, ''mounts'']) (cr_Rootfs r)) of
        (Some e, act, ops) \<Rightarrow> ((Inl e, ops), sm)
      | (None, act, ops) \<Rightarrow>
     (case init_Create (cn_proc env) config
             (newInit (cr_Bundle r) (path_join [cr_Bundle r, ''work'']) config opts rootfs) sm of
        ((Some e, p), sm) \<Rightarrow> ((Inl e, ops), sm)
      | ((None, p), sm) \<Rightarrow>
          ((Inr \<lparr>ct_ID = cr_ID r, ct_Bundle = cr_Bundle r,
                 ct_cgroup = (if ip_pid p > 0
                              then case loadProcessCgroup env (ip_pid p) of Inl e \<Rightarrow> None | Inr cg \<Rightarrow> Some cg
                              else None),
                 ct_process = p, ct_processes = [], ct_reserved = []\<rparr>, ops), sm))))))"

section \<open>Access to the store\<close>

definition cont :: "vm_world \<Rightarrow> nat \<Rightarrow> container" where
  "cont w c = w_conts w ! c"

definition upd_cont :: "nat \<Rightarrow> (container \<Rightarrow> container) \<Rightarrow> vm_world \<Rightarrow> vm_world" where
  "upd_cont c f w = w\<lparr>w_conts := (w_conts w)[c := f (cont w c)]\<rparr>"

definition upd_exec :: "nat \<Rightarrow> exec_proc \<Rightarrow> vm_world \<Rightarrow> vm_world" where
  "upd_exec x e w = w\<lparr>w_execs := (w_execs w)[x := e]\<rparr>"

definition upd_init :: "nat \<Rightarrow> init_proc \<Rightarrow> vm_world \<Rightarrow> vm_world" where
  "upd_init c p w = upd_cont c (\<lambda>ct. ct\<lparr>ct_process := p\<rparr>) w"

text \<open>The methods of \<open>process.Process\<close>, dispatched on the kind of the process.\<close>

fun p_Pid :: "vm_world \<Rightarrow> nat \<Rightarrow> pref \<Rightarrow> int" where
  "p_Pid w c PInit = ip_pid (ct_process (cont w c))"
| "p_Pid w c (PExec x) = ep_pid (w_execs w ! x)"

fun p_ID :: "vm_world \<Rightarrow> nat \<Rightarrow> pref \<Rightarrow> string" where
  "p_ID w c PInit = ip_id (ct_process (cont w c))"
| "p_ID w c (PExec x) = ep_id (w_execs w ! x)"

fun p_ExitStatus :: "vm_world \<Rightarrow> nat \<Rightarrow> pref \<Rightarrow> int" where
  "p_ExitStatus w c PInit = ip_status (ct_process (cont w c))"
| "p_ExitStatus w c (PExec x) = ep_status (w_execs w ! x)"

fun p_ExitedAt :: "vm_world \<Rightarrow> nat \<Rightarrow> pref \<Rightarrow> time" where
  "p_ExitedAt w c PInit = ip_exited (ct_process (cont w c))"
| "p_ExitedAt w c (PExec x) = ep_exited (w_execs w ! x)"

fun p_Stdio :: "vm_world \<Rightarrow> nat \<Rightarrow> pref \<Rightarrow> stdio" where
  "p_Stdio w c PInit = ip_stdio (ct_process (cont w c))"
| "p_Stdio w c (PExec x) = ep_stdio (w_execs w ! x)"

fun p_Stdin :: "vm_world \<Rightarrow> nat \<Rightarrow> pref \<Rightarrow> nat closer option" where
  "p_Stdin w c PInit = ip_stdin (ct_process (cont w c))"
| "p_Stdin w c (PExec x) = ep_stdin (w_execs w ! x)"

fun p_Status :: "vm_world \<Rightarrow> nat \<Rightarrow> pref \<Rightarrow> string" where
  "p_Status w c PInit = Init_Status (ct_process (cont w c))"
| "p_Status w c (PExec x) = Exec_Status (ct_process (cont w c)) (w_execs w ! x)"

fun p_waited :: "vm_world \<Rightarrow> nat \<Rightarrow> pref \<Rightarrow> bool" where
  "p_waited w c PInit = ip_wait_closed (ct_process (cont w c))"
| "p_waited w c (PExec x) = ep_wait_closed (w_execs w ! x)"

definition put_init :: "nat \<Rightarrow> vm_world \<Rightarrow> init_proc step \<Rightarrow> vm_world step" where
  "put_init c w r = obind r (\<lambda>(e, p). Ret (e, upd_init c p w))"

definition put_exec :: "nat \<Rightarrow> vm_world \<Rightarrow> exec_proc step \<Rightarrow> vm_world step" where
  "put_exec x w r = obind r (\<lambda>(e, p). Ret (e, upd_exec x p w))"

fun p_Start :: "proc_env \<Rightarrow> nat \<Rightarrow> pref \<Rightarrow> vm_world \<Rightarrow> vm_world step" where
  "p_Start env c PInit w = put_init c w (Init_Start env (ct_process (cont w c)))"
| "p_Start env c (PExec x) w =
     obind (Exec_Start env (ct_process (cont w c)) (w_execs w ! x) (w_streams w))
       (\<lambda>((e, p), sm). Ret (e, upd_exec x p (w\<lparr>w_streams := sm\<rparr>)))"

fun p_Delete :: "proc_env \<Rightarrow> nat \<Rightarrow> pref \<Rightarrow> vm_world \<Rightarrow> vm_world step" where
  "p_Delete env c PInit w = put_init c w (Init_Delete env (ct_process (cont w c)))"
| "p_Delete env c (PExec x) w = put_exec x w (Exec_Delete env (w_execs w ! x))"

fun p_Kill :: "proc_env \<Rightarrow> nat \<Rightarrow> bool \<Rightarrow> nat \<Rightarrow> pref \<Rightarrow> vm_world \<Rightarrow> vm_world step" where
  "p_Kill env sig all c PInit w = put_init c w (Init_Kill env sig all (ct_process (cont w c)))"
| "p_Kill env sig all c (PExec x) w = put_exec x w (Exec_Kill env sig (w_execs w ! x))"

fun p_SetExited :: "proc_env \<Rightarrow> int \<Rightarrow> nat \<Rightarrow> pref \<Rightarrow> vm_world \<Rightarrow> vm_world outcome" where
  "p_SetExited env st c PInit w =
     obind (Init_SetExited env st (ct_process (cont w c))) (\<lambda>p. Ret (upd_init c p w))"
| "p_SetExited env st c (PExec x) w =
     obind (Exec_SetExited env st (w_execs w ! x)) (\<lambda>p. Ret (upd_exec x p w))"

fun p_Resize :: "proc_env \<Rightarrow> vm_world \<Rightarrow> nat \<Rightarrow> pref \<Rightarrow> go_error option" where
  "p_Resize env w c PInit = Init_Resize env (ct_process (cont w c))"
| "p_Resize env w c (PExec x) = Exec_Resize env (w_execs w ! x)"

section \<open>Methods of a container\<close>

definition ExecdProcesses :: "vm_world \<Rightarrow> nat \<Rightarrow> pref list" where
  "ExecdProcesses w c = map (\<lambda>(k, x). PExec x) (ct_processes (cont w c))"

definition Container_All :: "vm_world \<Rightarrow> nat \<Rightarrow> pref list" where
  "Container_All w c = ExecdProcesses w c @ [PInit]"

definition Container_Pid :: "vm_world \<Rightarrow> nat \<Rightarrow> int" where
  "Container_Pid w c = ip_pid (ct_process (cont w c))"

definition Container_Process :: "vm_world \<Rightarrow> nat \<Rightarrow> string \<Rightarrow> pref result" where
  "Container_Process w c pid =
     (if pid = [] then Inr PInit
      else case gm_get (ct_processes (cont w c)) pid of
             None \<Rightarrow> Inl (ErrWrap (''process does not exist '' @ pid) (Errdef ErrNotFound))
           | Some x \<Rightarrow> Inr (PExec x))"

definition ReserveProcess :: "string \<Rightarrow> container \<Rightarrow> bool \<times> container" where
  "ReserveProcess pid ct =
     (if gm_get (ct_processes ct) pid \<noteq> None then (False, ct)
      else if gm_get (ct_reserved ct) pid \<noteq> None then (False, ct)
      else (True, ct\<lparr>ct_reserved := gm_put pid () (ct_reserved ct)\<rparr>))"

text \<open>The function \<open>ReserveProcess\<close> returns to release the reservation.\<close>

definition cancel_reservation :: "string \<Rightarrow> container \<Rightarrow> container" where
  "cancel_reservation pid ct = ct\<lparr>ct_reserved := gm_del pid (ct_reserved ct)\<rparr>"

definition ProcessAdd :: "string \<Rightarrow> nat \<Rightarrow> container \<Rightarrow> container" where
  "ProcessAdd pid x ct =
     ct\<lparr>ct_reserved := gm_del pid (ct_reserved ct), ct_processes := gm_put pid x (ct_processes ct)\<rparr>"

definition ProcessRemove :: "string \<Rightarrow> container \<Rightarrow> container" where
  "ProcessRemove pid ct = ct\<lparr>ct_processes := gm_del pid (ct_processes ct)\<rparr>"

definition load_cgroup_if_missing :: "cont_env \<Rightarrow> nat \<Rightarrow> pref \<Rightarrow> vm_world \<Rightarrow> vm_world" where
  "load_cgroup_if_missing env c p w =
     (if ct_cgroup (cont w c) = None \<and> p_Pid w c p > 0 then
        (case loadProcessCgroup env (p_Pid w c p) of
           Inl e \<Rightarrow> w
         | Inr cg \<Rightarrow> upd_cont c (\<lambda>ct. ct\<lparr>ct_cgroup := Some cg\<rparr>) w)
      else w)"

text \<open>\<open>Start\<close> returns the process also when starting it failed.\<close>

definition Container_Start ::
  "cont_env \<Rightarrow> nat \<Rightarrow> string \<Rightarrow> vm_world \<Rightarrow> ((pref option \<times> go_error option) \<times> vm_world) outcome" where
  "Container_Start env c eid w =
     (case Container_Process w c eid of
        Inl e \<Rightarrow> Ret ((None, Some e), w)
      | Inr p \<Rightarrow>
          obind (p_Start (cn_proc env) c p w)
            (\<lambda>(r, w). case r of
                Some e \<Rightarrow> Ret ((Some p, Some e), w)
              | None \<Rightarrow> Ret ((Some p, None), load_cgroup_if_missing env c p w)))"

definition Container_Delete ::
  "cont_env \<Rightarrow> nat \<Rightarrow> string \<Rightarrow> vm_world \<Rightarrow> (pref result \<times> vm_world) outcome" where
  "Container_Delete env c eid w =
     (case Container_Process w c eid of
        Inl e \<Rightarrow> Ret (Inl e, w)
      | Inr p \<Rightarrow>
          obind (p_Delete (cn_proc env) c p w)
            (\<lambda>(r, w). case r of
                Some e \<Rightarrow> Ret (Inl e, w)
              | None \<Rightarrow> Ret (Inr p, if eid = [] then w else upd_cont c (ProcessRemove eid) w)))"

definition exec_config :: "exec_request \<Rightarrow> ExecConfig" where
  "exec_config r =
     \<lparr>ec_ID = er_ExecID r, ec_Terminal = er_Terminal r, ec_Stdin = er_Stdin r, ec_Stdout = er_Stdout r,
      ec_Stderr = er_Stderr r, ec_Spec = er_Spec r\<rparr>"

definition Container_Exec ::
  "cont_env \<Rightarrow> nat \<Rightarrow> exec_request \<Rightarrow> vm_world \<Rightarrow> (pref result \<times> vm_world) outcome" where
  "Container_Exec env c r w =
     obind (Init_Exec (cn_proc env) (ct_Bundle (cont w c)) (exec_config r) (ct_process (cont w c)))
       (\<lambda>made. case made of
           Inl e \<Rightarrow> Ret (Inl e, w)
         | Inr e \<Rightarrow>
             let x = length (w_execs w);
                 w1 = w\<lparr>w_execs := w_execs w @ [e]\<rparr>
             in Ret (Inr (PExec x), upd_cont c (ProcessAdd (ep_id e) x) w1))"

definition Container_Pause :: "cont_env \<Rightarrow> nat \<Rightarrow> vm_world \<Rightarrow> vm_world step" where
  "Container_Pause env c w = put_init c w (Init_Pause (cn_proc env) (ct_process (cont w c)))"

definition Container_Resume :: "cont_env \<Rightarrow> nat \<Rightarrow> vm_world \<Rightarrow> vm_world step" where
  "Container_Resume env c w = put_init c w (Init_Resume (cn_proc env) (ct_process (cont w c)))"

definition Container_ResizePty :: "cont_env \<Rightarrow> nat \<Rightarrow> string \<Rightarrow> vm_world \<Rightarrow> go_error option" where
  "Container_ResizePty env c eid w =
     (case Container_Process w c eid of Inl e \<Rightarrow> Some e | Inr p \<Rightarrow> p_Resize (cn_proc env) w c p)"

definition Container_Kill ::
  "cont_env \<Rightarrow> nat \<Rightarrow> string \<Rightarrow> nat \<Rightarrow> bool \<Rightarrow> vm_world \<Rightarrow> vm_world step" where
  "Container_Kill env c eid sig all w =
     (case Container_Process w c eid of
        Inl e \<Rightarrow> Ret (Some e, w)
      | Inr p \<Rightarrow> p_Kill (cn_proc env) sig all c p w)"

definition Container_CloseIO :: "cont_env \<Rightarrow> nat \<Rightarrow> string \<Rightarrow> vm_world \<Rightarrow> go_error option \<times> nat closer option" where
  "Container_CloseIO env c eid w =
     (case Container_Process w c eid of
        Inl e \<Rightarrow> (Some e, None)
      | Inr p \<Rightarrow>
          (case p_Stdin w c p of
             None \<Rightarrow> (None, None)
           | Some s \<Rightarrow> (map_option (ErrWrap ''close stdin'') (cn_close env s), Some s)))"

definition checkpoint_config :: "string \<Rightarrow> checkpoint_options \<Rightarrow> CheckpointConfig" where
  "checkpoint_config path opts =
     \<lparr>kc_WorkDir = co_WorkPath opts, kc_Path = path, kc_Exit = co_Exit opts, kc_AllowOpenTCP = co_OpenTcp opts,
      kc_AllowExternalUnixSockets = co_ExternalUnixSockets opts, kc_AllowTerminal = co_Terminal opts,
      kc_FileLocks = co_FileLocks opts, kc_EmptyNamespaces = co_EmptyNamespaces opts\<rparr>"

definition Container_Checkpoint ::
  "cont_env \<Rightarrow> nat \<Rightarrow> string \<Rightarrow> string option \<Rightarrow> vm_world \<Rightarrow> vm_world step" where
  "Container_Checkpoint env c path options w =
     (case (case options of None \<Rightarrow> Inr zero_checkpoint | Some v \<Rightarrow> cn_unmarshal_ckpt env v) of
        Inl e \<Rightarrow> Ret (Some e, w)
      | Inr opts \<Rightarrow>
          put_init c w (Init_Checkpoint (cn_proc env) (checkpoint_config path opts) (ct_process (cont w c))))"

definition Container_Update :: "cont_env \<Rightarrow> nat \<Rightarrow> string option \<Rightarrow> vm_world \<Rightarrow> vm_world step" where
  "Container_Update env c res w = put_init c w (Init_Update (cn_proc env) res (ct_process (cont w c)))"

definition HasPid :: "vm_world \<Rightarrow> nat \<Rightarrow> int \<Rightarrow> bool" where
  "HasPid w c pid \<longleftrightarrow> Container_Pid w c = pid \<or> list_ex (\<lambda>p. p_Pid w c p = pid) (Container_All w c)"

section \<open>util.go\<close>

record oci_namespace =
  on_Type :: string
  on_Path :: string

text \<open>\<open>ShouldKillAllOnExit\<close>: the namespaces of \<open>config.json\<close>, if the spec has a Linux part.\<close>

definition ShouldKillAllOnExit :: "oci_namespace list option result \<Rightarrow> bool" where
  "ShouldKillAllOnExit spec =
     (case spec of
        Inl e \<Rightarrow> True
      | Inr None \<Rightarrow> True
      | Inr (Some nss) \<Rightarrow> \<not> list_ex (\<lambda>ns. on_Type ns = ''pid'' \<and> on_Path ns = []) nss)"

end
