(* ===== verification/Task_Service.thy ===== *)
theory Task_Service
  imports Container
begin

text \<open>
  The task service inside the VM, \<open>internal/vminit/task/service.go\<close>: its state and its request
  handlers. A handler is cut at the points where it releases a lock, so that \<open>Exit_Protocol\<close> can
  interleave the pieces; the handler itself is their composition. \<open>sv_events\<close> is the sequence of
  events sent on the channel \<open>s.events\<close>. Errors are those before \<open>errgrpc\<close> re-encodes them.
\<close>

section \<open>Data\<close>

record exit_event =
  ex_Pid :: int
  ex_Status :: int

record container_process =
  cp_container :: nat
  cp_process :: pref

type_synonym uint32 = "32 word"

definition to_uint32 :: "int \<Rightarrow> uint32" where
  "to_uint32 n = word_of_int n"

datatype event =
    TaskCreate string string uint32
  | TaskStart string uint32
  | TaskExecAdded string string
  | TaskExecStarted string string uint32
  | TaskExit string string uint32 uint32 time
  | TaskDelete string uint32 uint32 time
  | TaskPaused string
  | TaskResumed string

text \<open>The buffered channel a goroutine of \<open>handleInitExit\<close> waits on.\<close>

record exec_chan =
  ch_cap :: nat
  ch_buf :: "int list"

record vm_service =
  sv_world :: vm_world
  sv_containers :: "(string, nat) gomap"
  sv_waiters :: "(string, go_error option option) gomap"
  sv_running :: "(int, container_process list) gomap"
  sv_runningExecs :: "(nat, int) gomap"
  sv_execCountSubs :: "(nat, exec_chan) gomap"
  sv_initExit :: "(nat, exit_event) gomap"
  sv_exitSubs :: "(nat, (int, exit_event list) gomap) gomap"
  sv_next_sub :: nat
  sv_oom :: "string list"
  sv_events :: "event list"
  sv_shutdown :: bool

datatype cgroup_kind = Cgroup1 "string result" | Cgroup2 "string result" | CgroupOther

record task_env =
  te_cont :: cont_env
  te_connect :: "string \<Rightarrow> int \<Rightarrow> go_error option option result"
  te_spec :: "string \<Rightarrow> oci_namespace list option result"
  te_ps :: "string \<Rightarrow> int list result"
  te_details :: "string \<Rightarrow> string result"
  te_stats :: "nat \<Rightarrow> cgroup_kind"
  te_marshal :: "string \<Rightarrow> string result"
  te_getpid :: int

section \<open>Starting and exits\<close>

definition new_service :: "bool \<Rightarrow> go_error option \<Rightarrow> go_error option \<Rightarrow> stream_service \<Rightarrow> vm_service result" where
  "new_service unified oom_err platform_err sm =
     (if \<not> unified then Inl (ErrWrap ''only unified cgroups mode is supported'' (Errdef ErrNotImplemented))
      else case oom_err of
        Some e \<Rightarrow> Inl e
      | None \<Rightarrow>
          (case platform_err of
             Some e \<Rightarrow> Inl (ErrWrap ''failed to initialized platform behavior'' e)
           | None \<Rightarrow>
               Inr \<lparr>sv_world = \<lparr>w_conts = [], w_execs = [], w_streams = sm\<rparr>, sv_containers = [], sv_waiters = [],
                    sv_running = [], sv_runningExecs = [], sv_execCountSubs = [], sv_initExit = [],
                    sv_exitSubs = [], sv_next_sub = 0, sv_oom = [], sv_events = [], sv_shutdown = False\<rparr>))"

definition send :: "event \<Rightarrow> vm_service \<Rightarrow> vm_service" where
  "send ev s = s\<lparr>sv_events := sv_events s @ [ev]\<rparr>"

definition upd_world :: "vm_world \<Rightarrow> vm_service \<Rightarrow> vm_service" where
  "upd_world w s = s\<lparr>sv_world := w\<rparr>"

text \<open>\<open>preStart\<close>: subscribe to exits; for an init process, forget that its pid is running.\<close>

definition forget_init :: "nat \<Rightarrow> int \<Rightarrow> (int, container_process list) gomap \<Rightarrow> (int, container_process list) gomap" where
  "forget_init c pid m =
     (let left = filter (\<lambda>cp. cp_container cp \<noteq> c) (gm_list m pid)
      in if left \<noteq> [] then gm_put pid left m else gm_del pid m)"

definition preStart :: "nat option \<Rightarrow> vm_service \<Rightarrow> nat \<times> vm_service" where
  "preStart oc s =
     (let t = sv_next_sub s;
          s1 = s\<lparr>sv_exitSubs := gm_put t [] (sv_exitSubs s), sv_next_sub := Suc t\<rparr>
      in (t, case oc of
               None \<Rightarrow> s1
             | Some c \<Rightarrow>
                 s1\<lparr>sv_running := forget_init c (Container_Pid (sv_world s) c) (sv_running s1)\<rparr>))"

text \<open>The part of \<open>runningExecs\<close> updates that a failed start and an exit share.\<close>

definition uncount :: "nat \<Rightarrow> vm_service \<Rightarrow> vm_service" where
  "uncount c s =
     (let n = gm_int (sv_runningExecs s) c - 1;
          s1 = s\<lparr>sv_runningExecs := gm_put c n (sv_runningExecs s)\<rparr>
      in case gm_get (sv_execCountSubs s) c of
           None \<Rightarrow> s1
         | Some ch \<Rightarrow> s1\<lparr>sv_execCountSubs := gm_put c (ch\<lparr>ch_buf := ch_buf ch @ [n]\<rparr>) (sv_execCountSubs s)\<rparr>)"

text \<open>\<open>handleProcessExit\<close>: record the exit and publish it; then, for an exec, count it down.\<close>

definition exit_publish ::
  "task_env \<Rightarrow> exit_event \<Rightarrow> nat \<Rightarrow> pref \<Rightarrow> vm_service \<Rightarrow> vm_service outcome" where
  "exit_publish env e c p s =
     obind (p_SetExited (cn_proc (te_cont env)) (ex_Status e) c p (sv_world s))
       (\<lambda>w. Ret (send (TaskExit (ct_ID (cont w c)) (p_ID w c p) (to_uint32 (ex_Pid e)) (to_uint32 (ex_Status e))
                        (p_ExitedAt w c p)) (upd_world w s)))"

definition handleProcessExit ::
  "task_env \<Rightarrow> exit_event \<Rightarrow> nat \<Rightarrow> pref \<Rightarrow> vm_service \<Rightarrow> vm_service outcome" where
  "handleProcessExit env e c p s =
     obind (exit_publish env e c p s) (\<lambda>s. Ret (if p = PInit then s else uncount c s))"

fun handle_exits ::
  "task_env \<Rightarrow> exit_event list \<Rightarrow> nat \<Rightarrow> pref option \<Rightarrow> vm_service \<Rightarrow> vm_service outcome" where
  "handle_exits env [] c p s = Ret s"
| "handle_exits env (e # es) c None s = Panic ''invalid memory address or nil pointer dereference''"
| "handle_exits env (e # es) c (Some p) s =
     obind (handleProcessExit env e c p s) (handle_exits env es c (Some p))"

text \<open>
  \<open>handleStarted\<close>: end the subscription; the exits to handle at once, or the process noted as
  running. The second part runs after \<open>lifecycleMu\<close> is released.
\<close>

definition end_start :: "nat \<Rightarrow> nat \<Rightarrow> pref option \<Rightarrow> vm_service \<Rightarrow> exit_event list \<times> vm_service" where
  "end_start t c p s =
     (let pid = (case p of None \<Rightarrow> 0 | Some q \<Rightarrow> p_Pid (sv_world s) c q);
          exits = (case gm_get (sv_exitSubs s) t of None \<Rightarrow> [] | Some m \<Rightarrow> m);
          s1 = s\<lparr>sv_exitSubs := gm_del t (sv_exitSubs s)\<rparr>
      in if pid = 0 \<or> gm_get exits pid \<noteq> None then (gm_list exits pid, s1)
         else case p of
                None \<Rightarrow> ([], s1)
              | Some q \<Rightarrow>
                  ([], s1\<lparr>sv_running := gm_put pid
                            (gm_list (sv_running s) pid @ [\<lparr>cp_container = c, cp_process = q\<rparr>])
                            (sv_running s)\<rparr>))"

definition handleStarted :: "task_env \<Rightarrow> nat \<Rightarrow> nat \<Rightarrow> pref option \<Rightarrow> vm_service \<Rightarrow> vm_service outcome" where
  "handleStarted env t c p s =
     (case end_start t c p s of (es, s1) \<Rightarrow> handle_exits env es c p s1)"

text \<open>The closure \<open>cleanup\<close> of \<open>preStart\<close>.\<close>

definition cleanup :: "nat \<Rightarrow> vm_service \<Rightarrow> vm_service" where
  "cleanup t s = s\<lparr>sv_exitSubs := gm_del t (sv_exitSubs s)\<rparr>"

section \<open>Exits reported by the reaper\<close>

text \<open>The locked part of one turn of \<open>processExits\<close>: the processes whose exit is to be handled.\<close>

definition note_exit :: "exit_event \<Rightarrow> (int, exit_event list) gomap \<Rightarrow> (int, exit_event list) gomap" where
  "note_exit e m = gm_put (ex_Pid e) (gm_list m (ex_Pid e) @ [e]) m"

definition take_exit :: "exit_event \<Rightarrow> vm_service \<Rightarrow> container_process list \<times> vm_service" where
  "take_exit e s =
     (let cps = gm_list (sv_running s) (ex_Pid e)
      in (cps,
          s\<lparr>sv_exitSubs := map (\<lambda>(t, m). (t, note_exit e m)) (sv_exitSubs s),
            sv_initExit := foldl (\<lambda>m cp. if cp_process cp = PInit then gm_put (cp_container cp) e m else m)
                             (sv_initExit s) cps,
            sv_running := gm_del (ex_Pid e) (sv_running s)\<rparr>))"

text \<open>
  \<open>handleInitExit\<close>: kill what is left of the container, then either publish at once or leave a
  goroutine waiting for the running execs. The result says which; a negative capacity of the
  channel is a panic.
\<close>

datatype init_exit_next = PublishNow | WaitForExecs

definition kill_rest :: "task_env \<Rightarrow> nat \<Rightarrow> vm_service \<Rightarrow> vm_service" where
  "kill_rest env c s =
     (let w = sv_world s
      in if ShouldKillAllOnExit (te_spec env (ct_Bundle (cont w c)))
         then upd_world (upd_init c (snd (Init_KillAll (cn_proc (te_cont env)) (ct_process (cont w c)))) w) s
         else s)"

definition init_exit_begin :: "nat \<Rightarrow> vm_service \<Rightarrow> (init_exit_next \<times> vm_service) outcome" where
  "init_exit_begin c s =
     (let n = gm_int (sv_runningExecs s) c
      in if n = 0 then Ret (PublishNow, s\<lparr>sv_runningExecs := gm_del c (sv_runningExecs s)\<rparr>)
         else if n < 0 then Panic ''makechan: size out of range''
         else Ret (WaitForExecs,
                   s\<lparr>sv_execCountSubs := gm_put c \<lparr>ch_cap = nat n, ch_buf = []\<rparr> (sv_execCountSubs s)\<rparr>))"

text \<open>
  The goroutine: receive counts until one is zero (\<open>None\<close>: the channel is empty and it waits), then
  publish, then drop the subscription and the count.
\<close>

fun drain :: "int list \<Rightarrow> int list option" where
  "drain [] = None"
| "drain (n # ns) = (if n = 0 then Some ns else drain ns)"

definition init_exit_end :: "nat \<Rightarrow> vm_service \<Rightarrow> vm_service" where
  "init_exit_end c s =
     s\<lparr>sv_execCountSubs := gm_del c (sv_execCountSubs s), sv_runningExecs := gm_del c (sv_runningExecs s)\<rparr>"

definition execs_done :: "nat \<Rightarrow> vm_service \<Rightarrow> bool" where
  "execs_done c s =
     (case gm_get (sv_execCountSubs s) c of None \<Rightarrow> False | Some ch \<Rightarrow> drain (ch_buf ch) \<noteq> None)"

definition handleInitExit :: "task_env \<Rightarrow> exit_event \<Rightarrow> nat \<Rightarrow> vm_service \<Rightarrow> vm_service outcome" where
  "handleInitExit env e c s =
     obind (init_exit_begin c (kill_rest env c s))
       (\<lambda>(next, s). case next of PublishNow \<Rightarrow> handleProcessExit env e c PInit s | WaitForExecs \<Rightarrow> Ret s)"

text \<open>One turn of \<open>processExits\<close>.\<close>

fun handle_taken :: "task_env \<Rightarrow> exit_event \<Rightarrow> container_process list \<Rightarrow> vm_service \<Rightarrow> vm_service outcome" where
  "handle_taken env e [] s = Ret s"
| "handle_taken env e (cp # cps) s =
     obind (if cp_process cp = PInit then handleInitExit env e (cp_container cp) s
            else handleProcessExit env e (cp_container cp) (cp_process cp) s)
       (handle_taken env e cps)"

definition processExits :: "task_env \<Rightarrow> exit_event \<Rightarrow> vm_service \<Rightarrow> vm_service outcome" where
  "processExits env e s = (case take_exit e s of (cps, s) \<Rightarrow> handle_taken env e cps s)"

section \<open>Request handlers\<close>

definition getContainer :: "string \<Rightarrow> vm_service \<Rightarrow> nat result" where
  "getContainer cid s =
     (case gm_get (sv_containers s) cid of
        None \<Rightarrow> Inl (ErrWrap ''container not created'' (Errdef ErrNotFound))
      | Some c \<Rightarrow> Inr c)"

definition waitForCtrNetConnect :: "string \<Rightarrow> vm_service \<Rightarrow> go_error option \<times> vm_service" where
  "waitForCtrNetConnect cid s =
     ((case gm_get (sv_waiters s) cid of
         None \<Rightarrow> None
       | Some None \<Rightarrow> None
       | Some (Some r) \<Rightarrow> r),
      s\<lparr>sv_waiters := gm_del cid (sv_waiters s)\<rparr>)"

definition task_Create :: "task_env \<Rightarrow> create_request \<Rightarrow> vm_service \<Rightarrow> (uint32 result \<times> vm_service) outcome" where
  "task_Create env r s =
     (case preStart None s of
        (t, s) \<Rightarrow>
          (case NewContainer (te_cont env) r (w_streams (sv_world s)) of
             ((Inl e, ops), sm) \<Rightarrow>
               Ret (Inl e, cleanup t (upd_world ((sv_world s)\<lparr>w_streams := sm\<rparr>) s))
           | ((Inr ct, ops), sm) \<Rightarrow>
               let w = sv_world s; c = length (w_conts w);
                   s = upd_world (w\<lparr>w_conts := w_conts w @ [ct], w_streams := sm\<rparr>) s
               in case te_connect env (cr_Bundle r) (ip_pid (ct_process ct)) of
                    Inl e \<Rightarrow> Ret (Inl e, cleanup t s)
                  | Inr waiter \<Rightarrow>
                      let s = s\<lparr>sv_waiters := gm_put (cr_ID r) waiter (sv_waiters s),
                                sv_containers := gm_put (cr_ID r) c (sv_containers s)\<rparr>;
                          s = send (TaskCreate (cr_ID r) (cr_Bundle r) (to_uint32 (Container_Pid (sv_world s) c))) s
                      in obind (handleStarted env t c (Some PInit) s)
                           (\<lambda>s. Ret (Inr (to_uint32 (Container_Pid (sv_world s) c)), s))))"

text \<open>\<open>Start\<close>, first locked part: refuse an exec of a container whose init has exited, count it.\<close>

definition start_begin :: "nat \<Rightarrow> string \<Rightarrow> vm_service \<Rightarrow> (nat \<times> vm_service) result" where
  "start_begin c eid s =
     (if eid = [] then Inr (preStart (Some c) s)
      else if gm_get (sv_initExit s) c \<noteq> None then
        Inl (ErrWrap (''container '' @ ct_ID (cont (sv_world s) c) @ '' init process is not running'')
               (Errdef ErrFailedPrecondition))
      else Inr (preStart None (s\<lparr>sv_runningExecs := gm_put c (gm_int (sv_runningExecs s) c + 1) (sv_runningExecs s)\<rparr>)))"

definition start_failed :: "nat \<Rightarrow> string \<Rightarrow> vm_service \<Rightarrow> vm_service" where
  "start_failed c eid s = (if eid = [] then s else uncount c s)"

definition start_announce :: "nat \<Rightarrow> string \<Rightarrow> pref \<Rightarrow> vm_service \<Rightarrow> vm_service" where
  "start_announce c eid p s =
     (let ct = cont (sv_world s) c; pid = to_uint32 (p_Pid (sv_world s) c p)
      in if eid = [] then
           send (TaskStart (ct_ID ct) pid)
             (if ct_cgroup ct = None then s else s\<lparr>sv_oom := sv_oom s @ [ct_ID ct]\<rparr>)
         else send (TaskExecStarted (ct_ID ct) eid pid) s)"

definition start_run ::
  "task_env \<Rightarrow> nat \<Rightarrow> string \<Rightarrow> vm_service \<Rightarrow> ((pref option \<times> go_error option) \<times> vm_service) outcome" where
  "start_run env c eid s =
     obind (Container_Start (te_cont env) c eid (sv_world s)) (\<lambda>(r, w). Ret (r, upd_world w s))"

definition task_Start ::
  "task_env \<Rightarrow> string \<Rightarrow> string \<Rightarrow> vm_service \<Rightarrow> (uint32 result \<times> vm_service) outcome" where
  "task_Start env cid eid s =
     (case waitForCtrNetConnect cid s of
        (Some e, s) \<Rightarrow> Ret (Inl e, s)
      | (None, s) \<Rightarrow>
     (case getContainer cid s of
        Inl e \<Rightarrow> Ret (Inl e, s)
      | Inr c \<Rightarrow>
     (case start_begin c eid s of
        Inl e \<Rightarrow> Ret (Inl e, s)
      | Inr (t, s) \<Rightarrow>
          obind (start_run env c eid s)
            (\<lambda>((p, err), s).
               case err of
                 Some e \<Rightarrow>
                   obind (handleStarted env t c p (start_failed c eid s)) (\<lambda>s. Ret (Inl e, cleanup t s))
               | None \<Rightarrow>
                   (case p of
                      None \<Rightarrow> Panic ''invalid memory address or nil pointer dereference''
                    | Some q \<Rightarrow>
                        obind (handleStarted env t c p (start_announce c eid q s))
                          (\<lambda>s. Ret (Inr (to_uint32 (p_Pid (sv_world s) c q)), cleanup t s)))))))"

record delete_response =
  dr_ExitStatus :: uint32
  dr_ExitedAt :: time
  dr_Pid :: uint32

text \<open>
  \<open>Delete\<close>, up to the removal from \<open>containerInitExit\<close>. The goroutine that clears the network waiter
  is run first; its error is only logged.
\<close>

definition delete_begin ::
  "task_env \<Rightarrow> string \<Rightarrow> string \<Rightarrow> vm_service \<Rightarrow> ((nat \<times> delete_response) result \<times> vm_service) outcome" where
  "delete_begin env cid eid s0 =
     (let s = snd (waitForCtrNetConnect cid s0)
      in case getContainer cid s of
           Inl e \<Rightarrow> Ret (Inl e, s)
         | Inr c \<Rightarrow>
             obind (Container_Delete (te_cont env) c eid (sv_world s))
               (\<lambda>(r, w). let s = upd_world w s in
                  case r of
                    Inl e \<Rightarrow> Ret (Inl e, s)
                  | Inr p \<Rightarrow>
                      let resp = \<lparr>dr_ExitStatus = to_uint32 (p_ExitStatus w c p), dr_ExitedAt = p_ExitedAt w c p,
                                  dr_Pid = to_uint32 (p_Pid w c p)\<rparr>;
                          s = (if eid = [] then
                                 send (TaskDelete (ct_ID (cont w c)) (dr_Pid resp) (dr_ExitStatus resp) (dr_ExitedAt resp))
                                   (s\<lparr>sv_containers := gm_del cid (sv_containers s)\<rparr>)
                               else s)
                      in Ret (Inr (c, resp), s)))"

definition delete_end :: "nat \<Rightarrow> vm_service \<Rightarrow> vm_service" where
  "delete_end c s = s\<lparr>sv_initExit := gm_del c (sv_initExit s)\<rparr>"

definition task_Delete ::
  "task_env \<Rightarrow> string \<Rightarrow> string \<Rightarrow> vm_service \<Rightarrow> (delete_response result \<times> vm_service) outcome" where
  "task_Delete env cid eid s =
     obind (delete_begin env cid eid s)
       (\<lambda>(r, s). case r of
           Inl e \<Rightarrow> Ret (Inl e, s)
         | Inr (c, resp) \<Rightarrow> Ret (Inr resp, if eid = [] then delete_end c s else s))"

definition task_Exec ::
  "task_env \<Rightarrow> string \<Rightarrow> exec_request \<Rightarrow> vm_service \<Rightarrow> (go_error option \<times> vm_service) outcome" where
  "task_Exec env cid r s =
     (case getContainer cid s of
        Inl e \<Rightarrow> Ret (Some e, s)
      | Inr c \<Rightarrow>
          (case ReserveProcess (er_ExecID r) (cont (sv_world s) c) of
             (False, ct) \<Rightarrow> Ret (Some (ErrWrap (''id '' @ er_ExecID r) (Errdef ErrAlreadyExists)), s)
           | (True, ct) \<Rightarrow>
               obind (Container_Exec (te_cont env) c r (upd_cont c (\<lambda>_. ct) (sv_world s)))
                 (\<lambda>(made, w). case made of
                    Inl e \<Rightarrow> Ret (Some e, upd_world (upd_cont c (cancel_reservation (er_ExecID r)) w) s)
                  | Inr p \<Rightarrow>
                      Ret (None, send (TaskExecAdded (ct_ID (cont w c)) (p_ID w c p)) (upd_world w s)))))"

definition task_ResizePty :: "task_env \<Rightarrow> string \<Rightarrow> string \<Rightarrow> vm_service \<Rightarrow> go_error option" where
  "task_ResizePty env cid eid s =
     (case getContainer cid s of
        Inl e \<Rightarrow> Some e
      | Inr c \<Rightarrow> Container_ResizePty (te_cont env) c eid (sv_world s))"

datatype task_status = UNKNOWN | CREATED | RUNNING | STOPPED | PAUSED | PAUSING

definition status_of :: "string \<Rightarrow> task_status" where
  "status_of st =
     (if st = ''created'' then CREATED else if st = ''running'' then RUNNING
      else if st = ''stopped'' then STOPPED else if st = ''paused'' then PAUSED
      else if st = ''pausing'' then PAUSING else UNKNOWN)"

record state_response =
  sr_ID :: string
  sr_Bundle :: string
  sr_Pid :: uint32
  sr_Status :: task_status
  sr_stdio :: stdio
  sr_ExitStatus :: uint32
  sr_ExitedAt :: time

definition task_State :: "string \<Rightarrow> string \<Rightarrow> vm_service \<Rightarrow> state_response result" where
  "task_State cid eid s =
     (case getContainer cid s of
        Inl e \<Rightarrow> Inl e
      | Inr c \<Rightarrow>
          (let w = sv_world s
           in case Container_Process w c eid of
                Inl e \<Rightarrow> Inl e
              | Inr p \<Rightarrow>
                  Inr \<lparr>sr_ID = p_ID w c p, sr_Bundle = ct_Bundle (cont w c), sr_Pid = to_uint32 (p_Pid w c p),
                       sr_Status = status_of (p_Status w c p), sr_stdio = p_Stdio w c p,
                       sr_ExitStatus = to_uint32 (p_ExitStatus w c p), sr_ExitedAt = p_ExitedAt w c p\<rparr>))"

text \<open>The handlers that call a method of the container and, on success, may send one event.\<close>

definition on_container ::
  "string \<Rightarrow> (nat \<Rightarrow> vm_world \<Rightarrow> vm_world step) \<Rightarrow> (string \<Rightarrow> event option) \<Rightarrow> vm_service \<Rightarrow>
     (go_error option \<times> vm_service) outcome" where
  "on_container cid f ev s =
     (case getContainer cid s of
        Inl e \<Rightarrow> Ret (Some e, s)
      | Inr c \<Rightarrow>
          obind (f c (sv_world s))
            (\<lambda>(r, w). let s = upd_world w s in
               case r of
                 Some e \<Rightarrow> Ret (Some e, s)
               | None \<Rightarrow> Ret (None, case ev (ct_ID (cont w c)) of None \<Rightarrow> s | Some v \<Rightarrow> send v s)))"

definition task_Pause :: "task_env \<Rightarrow> string \<Rightarrow> vm_service \<Rightarrow> (go_error option \<times> vm_service) outcome" where
  "task_Pause env cid = on_container cid (Container_Pause (te_cont env)) (\<lambda>i. Some (TaskPaused i))"

definition task_Resume :: "task_env \<Rightarrow> string \<Rightarrow> vm_service \<Rightarrow> (go_error option \<times> vm_service) outcome" where
  "task_Resume env cid = on_container cid (Container_Resume (te_cont env)) (\<lambda>i. Some (TaskResumed i))"

definition task_Kill ::
  "task_env \<Rightarrow> string \<Rightarrow> string \<Rightarrow> nat \<Rightarrow> bool \<Rightarrow> vm_service \<Rightarrow> (go_error option \<times> vm_service) outcome" where
  "task_Kill env cid eid sig all =
     on_container cid (\<lambda>c. Container_Kill (te_cont env) c eid sig all) (\<lambda>_. None)"

definition task_Checkpoint ::
  "task_env \<Rightarrow> string \<Rightarrow> string \<Rightarrow> string option \<Rightarrow> vm_service \<Rightarrow> (go_error option \<times> vm_service) outcome" where
  "task_Checkpoint env cid path options =
     on_container cid (\<lambda>c. Container_Checkpoint (te_cont env) c path options) (\<lambda>_. None)"

definition task_Update ::
  "task_env \<Rightarrow> string \<Rightarrow> string option \<Rightarrow> vm_service \<Rightarrow> (go_error option \<times> vm_service) outcome" where
  "task_Update env cid res =
     on_container cid (\<lambda>c. Container_Update (te_cont env) c res) (\<lambda>_. None)"

definition getContainerPids :: "task_env \<Rightarrow> nat \<Rightarrow> vm_service \<Rightarrow> uint32 list result" where
  "getContainerPids env c s =
     (case te_ps env (ct_ID (cont (sv_world s) c)) of
        Inl e \<Rightarrow> Inl e
      | Inr ps \<Rightarrow> Inr (map to_uint32 ps))"

fun pid_infos ::
  "task_env \<Rightarrow> nat \<Rightarrow> vm_service \<Rightarrow> uint32 list \<Rightarrow> (uint32 \<times> string option) list result" where
  "pid_infos env c s [] = Inr []"
| "pid_infos env c s (pid # pids) =
     (let w = sv_world s
      in case (case find (\<lambda>p. p_Pid w c p = uint pid) (ExecdProcesses w c) of
                 None \<Rightarrow> Inr None
               | Some p \<Rightarrow>
                   (case te_details env (p_ID w c p) of
                      Inl e \<Rightarrow> Inl (ErrWrap (''failed to marshal process '' @ show_nat (unat pid) @ '' info'') e)
                    | Inr d \<Rightarrow> Inr (Some d))) of
           Inl e \<Rightarrow> Inl e
         | Inr info \<Rightarrow>
             (case pid_infos env c s pids of Inl e \<Rightarrow> Inl e | Inr xs \<Rightarrow> Inr ((pid, info) # xs)))"

definition task_Pids :: "task_env \<Rightarrow> string \<Rightarrow> vm_service \<Rightarrow> (uint32 \<times> string option) list result" where
  "task_Pids env cid s =
     (case getContainer cid s of
        Inl e \<Rightarrow> Inl e
      | Inr c \<Rightarrow>
          (case getContainerPids env c s of Inl e \<Rightarrow> Inl e | Inr pids \<Rightarrow> pid_infos env c s pids))"

definition task_CloseIO :: "task_env \<Rightarrow> string \<Rightarrow> string \<Rightarrow> vm_service \<Rightarrow> go_error option \<times> nat closer option" where
  "task_CloseIO env cid eid s =
     (case getContainer cid s of
        Inl e \<Rightarrow> (Some e, None)
      | Inr c \<Rightarrow> Container_CloseIO (te_cont env) c eid (sv_world s))"

text \<open>\<open>Wait\<close>: \<open>Inr None\<close> while the wait channel of the process is open, that is while it blocks.\<close>

definition task_Wait :: "string \<Rightarrow> string \<Rightarrow> vm_service \<Rightarrow> (uint32 \<times> time) option result" where
  "task_Wait cid eid s =
     (case getContainer cid s of
        Inl e \<Rightarrow> Inl e
      | Inr c \<Rightarrow>
          (let w = sv_world s
           in case Container_Process w c eid of
                Inl e \<Rightarrow> Inl e
              | Inr p \<Rightarrow>
                  Inr (if p_waited w c p then Some (to_uint32 (p_ExitStatus w c p), p_ExitedAt w c p) else None)))"

definition task_Connect :: "task_env \<Rightarrow> string \<Rightarrow> vm_service \<Rightarrow> uint32 \<times> uint32" where
  "task_Connect env cid s =
     (to_uint32 (te_getpid env),
      to_uint32 (case getContainer cid s of Inl _ \<Rightarrow> 0 | Inr c \<Rightarrow> Container_Pid (sv_world s) c))"

definition task_Shutdown :: "vm_service \<Rightarrow> vm_service" where
  "task_Shutdown s = (if sv_containers s \<noteq> [] then s else s\<lparr>sv_shutdown := True\<rparr>)"

definition task_Stats :: "task_env \<Rightarrow> string \<Rightarrow> vm_service \<Rightarrow> string result" where
  "task_Stats env cid s =
     (case getContainer cid s of
        Inl e \<Rightarrow> Inl e
      | Inr c \<Rightarrow>
          (case ct_cgroup (cont (sv_world s) c) of
             None \<Rightarrow> Inl (ErrWrap ''cgroup does not exist'' (Errdef ErrNotFound))
           | Some cg \<Rightarrow>
               (case (case te_stats env cg of
                        Cgroup1 r \<Rightarrow> r
                      | Cgroup2 r \<Rightarrow> r
                      | CgroupOther \<Rightarrow> Inl (ErrWrap ''unsupported cgroup type'' (Errdef ErrNotImplemented))) of
                  Inl e \<Rightarrow> Inl e
                | Inr st \<Rightarrow> te_marshal env st)))"

end
