(* ===== verification/Exit_Protocol.thy ===== *)
theory Exit_Protocol
  imports Task_Service
begin

text \<open>
  How starts and exits of processes interleave in \<open>internal/vminit/task/service.go\<close>. A request in
  flight, an exit being handled and a goroutine of \<open>handleInitExit\<close> are threads; a step runs one
  thread from one lock release to the next, using the pieces of \<open>Task_Service\<close>. The invariant ties
  \<open>runningExecs\<close> to the execs that are starting, running or being reaped, and gives the promise in
  the comment of \<open>handleInitExit\<close>: the exit of the init process is the last exit published.
\<close>

section \<open>Threads\<close>

text \<open>
  \<open>Requested c eid\<close> is a Start that has looked its container up and not yet taken \<open>lifecycleMu\<close>;
  \<open>Deleting c\<close> a Delete of the container that has not yet removed its \<open>containerInitExit\<close> entry;
  \<open>Deleted c\<close> stays behind for a Delete that has returned.
\<close>

datatype thread =
    Creating nat
  | Requested nat string
  | Starting nat nat string
  | StartedOK nat nat string pref
  | StartErr nat nat string "pref option"
  | Announced nat nat pref
  | Failed nat nat "pref option"
  | Exiting exit_event nat pref
  | Uncounting nat
  | InitExiting exit_event nat
  | FinalExit exit_event nat
  | Awaiting exit_event nat
  | Finishing nat
  | Deleting nat
  | Deleted nat

type_synonym proto = "vm_service \<times> thread list"

definition exit_thread :: "exit_event \<Rightarrow> container_process \<Rightarrow> thread" where
  "exit_thread e cp =
     (if cp_process cp = PInit then InitExiting e (cp_container cp)
      else Exiting e (cp_container cp) (cp_process cp))"

text \<open>
  The steps, one per piece of a handler or goroutine between two locks. The one assumption is that of
  the kernel's interface: the reaper reports positive pids. A \<open>Start\<close> that failed before it found a
  process (\<open>Failed\<close> with \<open>None\<close>) would dereference it if exits were noted under pid zero.
\<close>

inductive proto_step :: "proto \<Rightarrow> proto \<Rightarrow> bool" where
  create_begin:
    "preStart None s = (t, s') \<Longrightarrow> proto_step (s, ths) (s', Creating t # ths)"
| create_fail:
    "NewContainer (te_cont (env :: task_env)) r (w_streams (sv_world s)) = ((Inl e, ops), sm) \<Longrightarrow>
     proto_step (s, a @ Creating t # b) (cleanup t (upd_world ((sv_world s)\<lparr>w_streams := sm\<rparr>) s), a @ b)"
| create_unconnected:
    "NewContainer (te_cont (env :: task_env)) r (w_streams (sv_world s)) = ((Inr ct, ops), sm) \<Longrightarrow>
     te_connect env (cr_Bundle r) (ip_pid (ct_process ct)) = Inl e \<Longrightarrow>
     w = sv_world s \<Longrightarrow>
     proto_step (s, a @ Creating t # b)
       (cleanup t (upd_world (w\<lparr>w_conts := w_conts w @ [ct], w_streams := sm\<rparr>) s), a @ b)"
| create_done:
    "NewContainer (te_cont (env :: task_env)) r (w_streams (sv_world s)) = ((Inr ct, ops), sm) \<Longrightarrow>
     te_connect env (cr_Bundle r) (ip_pid (ct_process ct)) = Inr waiter \<Longrightarrow>
     w = sv_world s \<Longrightarrow> c = length (w_conts w) \<Longrightarrow>
     proto_step (s, a @ Creating t # b)
       (send (TaskCreate (cr_ID r) (cr_Bundle r) (to_uint32 (ip_pid (ct_process ct)))) (s\<lparr>sv_world := w\<lparr>w_conts := w_conts w @ [ct], w_streams := sm\<rparr>,
                   sv_waiters := gm_put (cr_ID r) waiter (sv_waiters s), sv_containers := gm_put (cr_ID r) c (sv_containers s)\<rparr>),
        a @ Announced t c PInit # b)"
| start_wait:
    "waitForCtrNetConnect cid s = (x, s') \<Longrightarrow> proto_step (s, ths) (s', ths)"
| start_request:
    "getContainer cid s = Inr c \<Longrightarrow> proto_step (s, ths) (s, Requested c eid # ths)"
| start_refused:
    "start_begin c eid s = Inl e \<Longrightarrow> proto_step (s, a @ Requested c eid # b) (s, a @ b)"
| start_begin:
    "start_begin c eid s = Inr (t, s') \<Longrightarrow>
     proto_step (s, a @ Requested c eid # b) (s', a @ Starting t c eid # b)"
| start_ok:
    "start_run env c eid s = Ret ((Some p, None), s') \<Longrightarrow>
     proto_step (s, a @ Starting t c eid # b) (s', a @ StartedOK t c eid p # b)"
| start_err:
    "start_run env c eid s = Ret ((p, Some e), s') \<Longrightarrow>
     proto_step (s, a @ Starting t c eid # b) (s', a @ StartErr t c eid p # b)"
| announce:
    "proto_step (s, a @ StartedOK t c eid p # b) (start_announce c eid p s, a @ Announced t c p # b)"
| failed:
    "proto_step (s, a @ StartErr t c eid p # b) (start_failed c eid s, a @ Failed t c p # b)"
| announced_end:
    "end_start t c (Some p) s = (es, s') \<Longrightarrow>
     proto_step (s, a @ Announced t c p # b) (s', a @ map (\<lambda>e. Exiting e c p) es @ b)"
| failed_end:
    "end_start t c (Some p) s = (es, s') \<Longrightarrow>
     proto_step (s, a @ Failed t c (Some p) # b) (s', a @ map (\<lambda>e. Exiting e c p) es @ b)"
| failed_early:
    "end_start t c None s = ([], s') \<Longrightarrow>
     proto_step (s, a @ Failed t c None # b) (s', a @ b)"
| reaped:
    "take_exit e s = (cps, s') \<Longrightarrow> ex_Pid e > 0 \<Longrightarrow>
     proto_step (s, ths) (s', map (exit_thread e) cps @ ths)"
| publish:
    "exit_publish env e c p s = Ret s' \<Longrightarrow>
     proto_step (s, a @ Exiting e c p # b) (s', a @ (if p = PInit then [] else [Uncounting c]) @ b)"
| count_down:
    "proto_step (s, a @ Uncounting c # b) (uncount c s, a @ b)"
| init_now:
    "init_exit_begin c (kill_rest env c s) = Ret (PublishNow, s') \<Longrightarrow>
     proto_step (s, a @ InitExiting e c # b) (s', a @ FinalExit e c # b)"
| init_wait:
    "init_exit_begin c (kill_rest env c s) = Ret (WaitForExecs, s') \<Longrightarrow>
     proto_step (s, a @ InitExiting e c # b) (s', a @ Awaiting e c # b)"
| publish_final:
    "exit_publish env e c PInit s = Ret s' \<Longrightarrow>
     proto_step (s, a @ FinalExit e c # b) (s', a @ b)"
| wake:
    "execs_done c s \<Longrightarrow> exit_publish env e c PInit s = Ret s' \<Longrightarrow>
     proto_step (s, a @ Awaiting e c # b) (s', a @ Finishing c # b)"
| finish:
    "proto_step (s, a @ Finishing c # b) (init_exit_end c s, a @ b)"
| delete_begin:
    "delete_begin env cid eid s = Ret (Inr (c, resp), s') \<Longrightarrow>
     proto_step (s, ths) (s', (if eid = [] then [Deleting c] else []) @ ths)"
| delete_refused:
    "delete_begin env cid eid s = Ret (Inl e, s') \<Longrightarrow> proto_step (s, ths) (s', ths)"
| delete_end:
    "proto_step (s, a @ Deleting c # b) (delete_end c s, a @ Deleted c # b)"
| exec_request: "task_Exec env cid rq s = Ret (x, s') \<Longrightarrow> proto_step (s, ths) (s', ths)"
| pause_request: "task_Pause env cid s = Ret (x, s') \<Longrightarrow> proto_step (s, ths) (s', ths)"
| resume_request: "task_Resume env cid s = Ret (x, s') \<Longrightarrow> proto_step (s, ths) (s', ths)"
| kill_request: "task_Kill env cid eid sig all s = Ret (x, s') \<Longrightarrow> proto_step (s, ths) (s', ths)"
| update_request: "task_Update env cid res s = Ret (x, s') \<Longrightarrow> proto_step (s, ths) (s', ths)"
| checkpoint_request: "task_Checkpoint env cid path opts s = Ret (x, s') \<Longrightarrow> proto_step (s, ths) (s', ths)"
| shutdown_request: "proto_step (s, ths) (task_Shutdown s, ths)"

section \<open>Regular runs\<close>

text \<open>
  Not every run keeps the counts. A state is regular when none of the following is under way:
  \<^item> the end of a second Start of an exec that has a pid (\<open>double_start_panics\<close> is such a run);
  \<^item> the end of a start whose process has no pid, or for whose pid two exits were noted meanwhile: a
    pid reused at once, which \<open>processExits\<close> says it cannot handle;
  \<^item> a Start of an exec that looked its container up before a Delete of the container returned;
  \<^item> a Start of an init process under whose pid an exec of the same container runs, a reused pid again.
\<close>

definition noted_exits :: "nat \<Rightarrow> int \<Rightarrow> vm_service \<Rightarrow> exit_event list" where
  "noted_exits t pid s = gm_list (case gm_get (sv_exitSubs s) t of None \<Rightarrow> [] | Some m \<Rightarrow> m) pid"

fun well_timed :: "proto \<Rightarrow> thread \<Rightarrow> bool" where
  "well_timed (s, ths) (Failed t c (Some (PExec x))) = (p_Pid (sv_world s) c (PExec x) = 0)"
| "well_timed (s, ths) (Announced t c p) =
     (p_Pid (sv_world s) c p \<noteq> 0 \<and> length (noted_exits t (p_Pid (sv_world s) c p) s) \<le> 1)"
| "well_timed (s, ths) (Requested c eid) =
     (if eid = [] then list_all (\<lambda>cp. cp_container cp = c \<longrightarrow> cp_process cp = PInit)
                         (gm_list (sv_running s) (Container_Pid (sv_world s) c))
      else Deleted c \<notin> set ths)"
| "well_timed S th = True"

definition regular :: "proto \<Rightarrow> bool" where
  "regular S = list_all (well_timed S) (snd S)"

text \<open>A step from a regular state.\<close>

definition reg_step :: "proto \<Rightarrow> proto \<Rightarrow> bool" where
  "reg_step S S' \<longleftrightarrow> regular S \<and> proto_step S S'"

lemma regularD: "regular (s, ths) \<Longrightarrow> th \<in> set ths \<Longrightarrow> well_timed (s, ths) th"
  by (simp add: regular_def list_all_iff)

section \<open>Counting\<close>

definition cnt :: "('v \<Rightarrow> bool) \<Rightarrow> ('k, 'v list) gomap \<Rightarrow> nat" where
  "cnt P m = (\<Sum>(k, xs)\<leftarrow>m. length (filter P xs))"

lemma cnt_Nil [simp]: "cnt P [] = 0"
  by (simp add: cnt_def)

lemma cnt_Cons [simp]: "cnt P ((k, xs) # m) = length (filter P xs) + cnt P m"
  by (simp add: cnt_def)

lemma gm_list_Cons: "gm_list ((k, v) # m) k' = (if k' = k then v else gm_list m k')"
  by (simp add: gm_list_def)

lemma gm_list_missing: "k \<notin> fst ` set m \<Longrightarrow> gm_list m k = []"
  by (metis gm_list_def map_of_eq_None_iff option.case(1))

lemma gm_del_missing: "k \<notin> fst ` set m \<Longrightarrow> gm_del k m = m"
  by (induction m) auto

lemma cnt_put:
  "gm_wf m \<Longrightarrow> cnt P (gm_put k v m) + length (filter P (gm_list m k)) = cnt P m + length (filter P v)"
proof (induction m)
  case (Cons a m)
  then show ?case by (cases a) (auto simp: gm_wf_def gm_list_Cons gm_list_missing)
qed (simp add: gm_list_def)

lemma cnt_del:
  "gm_wf m \<Longrightarrow> cnt P (gm_del k m) + length (filter P (gm_list m k)) = cnt P m"
proof (induction m)
  case (Cons a m)
  then show ?case by (cases a) (auto simp: gm_wf_def gm_list_Cons gm_list_missing gm_del_missing)
qed (simp add: gm_list_def)

definition exec_of :: "nat \<Rightarrow> container_process \<Rightarrow> bool" where
  "exec_of c cp \<longleftrightarrow> cp_container cp = c \<and> cp_process cp \<noteq> PInit"

fun counts :: "nat \<Rightarrow> thread \<Rightarrow> bool" where
  "counts c (Starting t c' eid) = (c' = c \<and> eid \<noteq> [])"
| "counts c (StartedOK t c' eid p) = (c' = c \<and> eid \<noteq> [])"
| "counts c (StartErr t c' eid p) = (c' = c \<and> eid \<noteq> [])"
| "counts c (Announced t c' p) = (c' = c \<and> p \<noteq> PInit)"
| "counts c (Exiting e c' p) = (c' = c \<and> p \<noteq> PInit)"
| "counts c (Uncounting c') = (c' = c)"
| "counts c _ = False"

text \<open>The execs of a container that are starting, running or being reaped.\<close>

definition live :: "proto \<Rightarrow> nat \<Rightarrow> nat" where
  "live S c = length (filter (counts c) (snd S)) + cnt (exec_of c) (sv_running (fst S))"

section \<open>Invariant\<close>

definition subs_ok :: "vm_service \<Rightarrow> bool" where
  "subs_ok s \<longleftrightarrow> (\<forall>t m. gm_get (sv_exitSubs s) t = Some m \<longrightarrow>
     gm_get m 0 = None \<and> (\<forall>pid. gm_get m pid \<noteq> Some []))"

text \<open>The container takes no more execs: its init process was seen to exit, or it was deleted.\<close>

definition shut :: "proto \<Rightarrow> nat \<Rightarrow> bool" where
  "shut S c \<longleftrightarrow> gm_get (sv_initExit (fst S)) c \<noteq> None \<or> Deleted c \<in> set (snd S)"

definition chan_ok :: "(nat \<Rightarrow> bool) \<Rightarrow> vm_service \<Rightarrow> nat \<Rightarrow> exec_chan \<Rightarrow> bool" where
  "chan_ok k s c ch \<longleftrightarrow> k c
     \<and> (0 \<in> set (ch_buf ch) \<longleftrightarrow> gm_int (sv_runningExecs s) c = 0)
     \<and> length (ch_buf ch) + nat (gm_int (sv_runningExecs s) c) \<le> ch_cap ch"

fun thread_ok :: "(nat \<Rightarrow> bool) \<Rightarrow> vm_service \<Rightarrow> thread \<Rightarrow> bool" where
  "thread_ok k s (StartedOK t c eid p) = (p = PInit \<longleftrightarrow> eid = [])"
| "thread_ok k s (InitExiting e c) = k c"
| "thread_ok k s (Awaiting e c) = k c"
| "thread_ok k s (FinalExit e c) = (k c \<and> gm_int (sv_runningExecs s) c = 0)"
| "thread_ok k s (Finishing c) = (k c \<and> gm_int (sv_runningExecs s) c = 0)"
| "thread_ok k s _ = True"

definition proto_ok :: "proto \<Rightarrow> bool" where
  "proto_ok S \<longleftrightarrow> gm_wf (sv_running (fst S)) \<and> subs_ok (fst S)
     \<and> (\<forall>c. gm_int (sv_runningExecs (fst S)) c = int (live S c))
     \<and> (\<forall>c ch. gm_get (sv_execCountSubs (fst S)) c = Some ch \<longrightarrow> chan_ok (shut S) (fst S) c ch)
     \<and> (\<forall>th \<in> set (snd S). thread_ok (shut S) (fst S) th)"

lemma proto_okD:
  assumes "proto_ok (s, ths)"
  shows "gm_wf (sv_running s)" "subs_ok s" "gm_int (sv_runningExecs s) c = int (live (s, ths) c)"
    "gm_get (sv_execCountSubs s) c = Some ch \<Longrightarrow> chan_ok (shut (s, ths)) s c ch"
    "th \<in> set ths \<Longrightarrow> thread_ok (shut (s, ths)) s th"
  using assms by (simp_all add: proto_ok_def)

lemma proto_okI:
  assumes "gm_wf (sv_running s)" "subs_ok s" "\<And>c. gm_int (sv_runningExecs s) c = int (live (s, ths) c)"
    "\<And>c ch. gm_get (sv_execCountSubs s) c = Some ch \<Longrightarrow> chan_ok (shut (s, ths)) s c ch"
    "\<And>th. th \<in> set ths \<Longrightarrow> thread_ok (shut (s, ths)) s th"
  shows "proto_ok (s, ths)"
  using assms by (simp add: proto_ok_def)

lemma shut_mono:
  "(\<And>c. gm_get (sv_initExit s) c \<noteq> None \<Longrightarrow> gm_get (sv_initExit s') c \<noteq> None)
     \<Longrightarrow> (\<And>c. Deleted c \<in> set ths \<Longrightarrow> Deleted c \<in> set ths') \<Longrightarrow> shut (s, ths) \<le> shut (s', ths')"
  by (auto simp: shut_def le_fun_def)

lemma thread_ok_mono:
  "thread_ok k s th \<Longrightarrow> k \<le> k'
     \<Longrightarrow> (\<And>c. k c \<Longrightarrow> gm_int (sv_runningExecs s) c = 0 \<Longrightarrow> gm_int (sv_runningExecs s') c = 0) \<Longrightarrow> thread_ok k' s' th"
  by (cases th) (auto simp: le_fun_def)

lemma chan_ok_mono:
  "chan_ok k s c ch \<Longrightarrow> k \<le> k' \<Longrightarrow> gm_int (sv_runningExecs s') c = gm_int (sv_runningExecs s) c
     \<Longrightarrow> chan_ok k' s' c ch"
  by (auto simp: chan_ok_def le_fun_def)

section \<open>Frames\<close>

text \<open>Steps that change the world and the events only.\<close>

definition same_proto :: "vm_service \<Rightarrow> vm_service \<Rightarrow> bool" where
  "same_proto s s' \<longleftrightarrow> sv_running s' = sv_running s \<and> sv_runningExecs s' = sv_runningExecs s
     \<and> sv_execCountSubs s' = sv_execCountSubs s \<and> sv_initExit s' = sv_initExit s
     \<and> sv_exitSubs s' = sv_exitSubs s"

lemma same_proto_world [simp]: "same_proto s (upd_world w s)"
  by (simp add: same_proto_def upd_world_def)

lemma same_proto_send: "same_proto s s' \<Longrightarrow> same_proto s (send ev s')"
  by (simp add: same_proto_def send_def)

lemma start_run_same: "start_run env c eid s = Ret (r, s') \<Longrightarrow> same_proto s s'"
  by (auto simp: start_run_def)

lemma start_announce_same: "same_proto s (start_announce c eid p s)"
  by (simp add: start_announce_def Let_def same_proto_def send_def)

lemma exit_publish_same: "exit_publish env e c p s = Ret s' \<Longrightarrow> same_proto s s'"
  by (auto simp: exit_publish_def intro: same_proto_send)

lemma kill_rest_same: "same_proto s (kill_rest env c s)"
  by (simp add: kill_rest_def Let_def same_proto_def upd_world_def)

lemma wait_same: "waitForCtrNetConnect cid s = (x, s') \<Longrightarrow> same_proto s s'"
  by (auto simp: waitForCtrNetConnect_def same_proto_def)

lemma task_Exec_same: "task_Exec env cid rq s = Ret (x, s') \<Longrightarrow> same_proto s s'"
  by (auto simp: task_Exec_def same_proto_def upd_world_def send_def split: sum.splits prod.splits bool.splits)
     (case_tac a; auto)+

lemma on_container_same: "on_container cid f ev s = Ret (x, s') \<Longrightarrow> same_proto s s'"
  by (auto simp: on_container_def Let_def split: sum.splits option.splits intro: same_proto_send)
     (auto simp: same_proto_def)

lemma task_Shutdown_same: "same_proto s (task_Shutdown s)"
  by (simp add: task_Shutdown_def same_proto_def)

lemma delete_begin_same:
  assumes "delete_begin env cid eid s = Ret (y, s')"
  shows "same_proto s s'"
proof -
  let ?s = "snd (waitForCtrNetConnect cid s)"
  have same: "same_proto s ?s" by (simp add: waitForCtrNetConnect_def same_proto_def)
  show ?thesis
  proof (cases "getContainer cid ?s")
    case (Inr c)
    with assms obtain z w where "s' = upd_world w ?s \<or> (\<exists>ev m. s' = send ev ((upd_world w ?s)\<lparr>sv_containers := m\<rparr>))"
      and "Container_Delete (te_cont env) c eid (sv_world ?s) = Ret (z, w)"
      by (auto simp: delete_begin_def Let_def) (case_tac a; auto simp: Let_def split: if_splits)
    with same show ?thesis by (auto simp: same_proto_def upd_world_def send_def)
  qed (use assms same in \<open>auto simp: delete_begin_def Let_def\<close>)
qed

lemmas request_defs = task_Pause_def task_Resume_def task_Kill_def task_Update_def task_Checkpoint_def

lemma shut_same: "same_proto s s' \<Longrightarrow> shut (s', ths) = shut (s, ths)"
  by (simp add: shut_def same_proto_def fun_eq_iff)

lemma same_proto_cong:
  assumes "same_proto s s'"
  shows "live (s', ths) = live (s, ths)" "chan_ok k s' = chan_ok k s" "subs_ok s' = subs_ok s"
    "thread_ok k s' th = thread_ok k s th"
  using assms by (cases th; auto simp: same_proto_def live_def chan_ok_def subs_ok_def fun_eq_iff)+

lemma proto_ok_frame: "proto_ok (s, ths) \<Longrightarrow> same_proto s s' \<Longrightarrow> proto_ok (s', ths)"
  using same_proto_cong(1) [of s s' ths] same_proto_cong(2-4) [of s s'] shut_same [of s s' ths]
  by (simp add: proto_ok_def same_proto_def)

text \<open>A thread replaced by threads that count as much.\<close>

lemma proto_ok_replace:
  assumes ok: "proto_ok (s, a @ th # b)" and kept: "\<And>c. th \<noteq> Deleted c"
    and n: "\<And>c. length (filter (counts c) new) = (if counts c th then 1 else 0)"
    and new: "\<And>x. x \<in> set new \<Longrightarrow> thread_ok (shut (s, a @ th # b)) s x"
  shows "proto_ok (s, a @ new @ b)"
proof (rule proto_okI)
  have k: "shut (s, a @ th # b) \<le> shut (s, a @ new @ b)"
    by (rule shut_mono) (use kept in auto)
  show "gm_int (sv_runningExecs s) c = int (live (s, a @ new @ b) c)" for c
    using proto_okD(3) [OF ok, of c] n [of c] by (simp add: live_def)
  show "chan_ok (shut (s, a @ new @ b)) s c ch" if "gm_get (sv_execCountSubs s) c = Some ch" for c ch
    by (rule chan_ok_mono [OF proto_okD(4) [OF ok that] k]) simp
  show "thread_ok (shut (s, a @ new @ b)) s x" if "x \<in> set (a @ new @ b)" for x
    by (rule thread_ok_mono [of "shut (s, a @ th # b)" s]) (use that new k proto_okD(5) [OF ok] in auto)
qed (use proto_okD(1,2) [OF ok] in simp_all)

lemma proto_ok_add:
  assumes ok: "proto_ok (s, a @ b)" and th: "\<And>c. \<not> counts c th" "\<And>k. thread_ok k s th"
  shows "proto_ok (s, a @ th # b)"
proof (rule proto_okI)
  have k: "shut (s, a @ b) \<le> shut (s, a @ th # b)" by (rule shut_mono) auto
  show "gm_int (sv_runningExecs s) c = int (live (s, a @ th # b) c)" for c
    using proto_okD(3) [OF ok, of c] th(1) [of c] by (simp add: live_def)
  show "chan_ok (shut (s, a @ th # b)) s c ch" if "gm_get (sv_execCountSubs s) c = Some ch" for c ch
    by (rule chan_ok_mono [OF proto_okD(4) [OF ok that] k]) simp
  show "thread_ok (shut (s, a @ th # b)) s x" if "x \<in> set (a @ th # b)" for x
  proof (cases "x = th")
    case False
    then show ?thesis
      by (intro thread_ok_mono [OF proto_okD(5) [OF ok] k]) (use that in auto)
  qed (use th(2) in simp)
qed (use proto_okD(1,2) [OF ok] in simp_all)

lemma Container_Process_kind: "Container_Process w c eid = Inr p \<Longrightarrow> (p = PInit) = (eid = [])"
  by (auto simp: Container_Process_def split: if_splits option.splits)

lemma start_run_kind: "start_run env c eid s = Ret ((Some p, r), s') \<Longrightarrow> (p = PInit) = (eid = [])"
  by (auto simp: start_run_def Container_Start_def dest: Container_Process_kind
      split: sum.splits option.splits)

section \<open>Steps that change the counts\<close>

lemma live_pos: "th \<in> set ths \<Longrightarrow> counts c th \<Longrightarrow> live (s, ths) c > 0"
  by (auto simp: live_def filter_empty_conv)

lemma proto_ok_uncount:
  assumes ok: "proto_ok (s, a @ th # b)" and th: "\<And>c'. counts c' th = (c' = c)"
    and new: "\<And>x. x \<in> set new \<Longrightarrow> (\<forall>k. thread_ok k s' x) \<and> (\<forall>c'. \<not> counts c' x)" and s': "s' = uncount c s"
  shows "proto_ok (s', a @ new @ b)"
proof -
  let ?n = "gm_int (sv_runningExecs s) c" and ?k = "shut (s, a @ th # b)" and ?k' = "shut (s', a @ new @ b)"
  have run: "sv_running s' = sv_running s" "sv_exitSubs s' = sv_exitSubs s" "sv_initExit s' = sv_initExit s"
    by (simp_all add: s' uncount_def Let_def split: option.splits)
  have re: "gm_int (sv_runningExecs s') c' = gm_int (sv_runningExecs s) c' - (if c' = c then 1 else 0)" for c'
    by (simp add: s' uncount_def Let_def split: option.splits)
  have pos: "?n > 0"
    using ok live_pos [of th "a @ th # b" c s] th by (simp add: proto_ok_def)
  have new0: "filter (counts c') new = []" for c' using new by (auto simp: filter_empty_conv)
  have live': "int (live (s', a @ new @ b) c') = int (live (s, a @ th # b) c') - (if c' = c then 1 else 0)" for c'
    using th [of c'] by (simp add: live_def run new0)
  have "th \<noteq> Deleted c'" for c' using th [of c] by auto
  then have k: "?k \<le> ?k'" by (intro shut_mono) (auto simp: run)
  have chan: "chan_ok ?k' s' c' ch" if "gm_get (sv_execCountSubs s') c' = Some ch" for c' ch
  proof (cases "c' = c")
    case True
    with that obtain ch0 where ch0: "gm_get (sv_execCountSubs s) c = Some ch0" "ch = ch0\<lparr>ch_buf := ch_buf ch0 @ [?n - 1]\<rparr>"
      by (auto simp: s' uncount_def Let_def split: option.splits)
    have "chan_ok ?k s c ch0" by (rule proto_okD(4) [OF ok ch0(1)])
    with pos ch0 True re [of c] k show ?thesis by (auto simp: chan_ok_def le_fun_def)
  next
    case False
    with that have "gm_get (sv_execCountSubs s) c' = Some ch"
      by (auto simp: s' uncount_def Let_def split: option.splits if_splits)
    from proto_okD(4) [OF ok this] False re [of c'] k show ?thesis by (auto intro: chan_ok_mono)
  qed
  have old: "thread_ok ?k' s' x" if "x \<in> set a \<union> set b" for x
    by (rule thread_ok_mono [of ?k s]) (use proto_okD(5) [OF ok, of x] that k pos re in \<open>auto split: if_splits\<close>)
  show ?thesis
  proof (rule proto_okI)
    show "gm_wf (sv_running s')" "subs_ok s'"
      using proto_okD(1,2) [OF ok] run by (simp_all add: subs_ok_def)
    show "gm_int (sv_runningExecs s') c' = int (live (s', a @ new @ b) c')" for c'
      using proto_okD(3) [OF ok, of c'] re [of c'] live' [of c'] by simp
    show "thread_ok ?k' s' x" if "x \<in> set (a @ new @ b)" for x
      using that old new by auto
  qed (rule chan)
qed

lemma subs_ok_put: "subs_ok s \<Longrightarrow> sv_exitSubs s' = gm_put t [] (sv_exitSubs s) \<Longrightarrow> subs_ok s'"
  by (auto simp: subs_ok_def)

lemma subs_ok_del: "subs_ok s \<Longrightarrow> sv_exitSubs s' = gm_del t (sv_exitSubs s) \<Longrightarrow> subs_ok s'"
  by (auto simp: subs_ok_def)

lemma cnt_cong: "(\<And>x. x \<in> set xs \<Longrightarrow> P x \<longrightarrow> Q x) \<Longrightarrow> filter P (filter Q xs) = filter P xs"
  by (simp, rule filter_cong) auto

lemma forget_init_wf: "gm_wf m \<Longrightarrow> gm_wf (forget_init c pid m)"
  by (simp add: forget_init_def Let_def)

lemma forget_init_cnt:
  assumes "gm_wf m" and "list_all (\<lambda>cp. cp_container cp = c \<longrightarrow> cp_process cp = PInit) (gm_list m pid)"
  shows "cnt (exec_of c') (forget_init c pid m) = cnt (exec_of c') m"
proof -
  let ?xs = "gm_list m pid" and ?left = "filter (\<lambda>cp. cp_container cp \<noteq> c) (gm_list m pid)"
  have f: "filter (exec_of c') ?left = filter (exec_of c') ?xs"
    by (rule cnt_cong) (use assms(2) in \<open>auto simp: exec_of_def list_all_iff\<close>)
  show ?thesis
  proof (cases "?left = []")
    case True
    with f have "filter (exec_of c') ?xs = []" by simp
    with cnt_del [OF assms(1), of "exec_of c'" pid] True show ?thesis by (simp add: forget_init_def)
  next
    case False
    with cnt_put [OF assms(1), of "exec_of c'" pid ?left] f show ?thesis by (simp add: forget_init_def)
  qed
qed

text \<open>Changes to the subscriptions and to \<open>running\<close> that leave the counted execs as they are.\<close>

lemma proto_ok_rerun:
  assumes ok: "proto_ok (s, ths)" and "gm_wf (sv_running s')" and "subs_ok s'"
    and same: "sv_runningExecs s' = sv_runningExecs s" "sv_execCountSubs s' = sv_execCountSubs s"
      "sv_initExit s' = sv_initExit s"
    and "\<And>c. live (s', ths') c = live (s, ths) c"
    and new: "\<And>x. x \<in> set ths' \<Longrightarrow> x \<in> set ths \<or> (\<forall>k. thread_ok k s x)"
    and kept: "\<And>c. Deleted c \<in> set ths \<Longrightarrow> Deleted c \<in> set ths'"
  shows "proto_ok (s', ths')"
proof (rule proto_okI)
  have k: "shut (s, ths) \<le> shut (s', ths')" by (rule shut_mono) (use same kept in auto)
  show "chan_ok (shut (s', ths')) s' c ch" if "gm_get (sv_execCountSubs s') c = Some ch" for c ch
    by (rule chan_ok_mono [OF proto_okD(4) [OF ok] k]) (use that same in simp_all)
  show "thread_ok (shut (s', ths')) s' x" if "x \<in> set ths'" for x
    by (rule thread_ok_mono [of "shut (s, ths)" s]) (use new [OF that] proto_okD(5) [OF ok] k same in auto)
qed (use assms proto_okD(3) [OF ok] in simp_all)

lemma preStart_fields:
  assumes "preStart oc s = (t, s')"
  shows "sv_exitSubs s' = gm_put t [] (sv_exitSubs s)" "sv_runningExecs s' = sv_runningExecs s"
    "sv_execCountSubs s' = sv_execCountSubs s" "sv_initExit s' = sv_initExit s"
    "sv_running s' = (case oc of None \<Rightarrow> sv_running s
        | Some c \<Rightarrow> forget_init c (Container_Pid (sv_world s) c) (sv_running s))"
  using assms by (auto simp: preStart_def Let_def split: option.splits)

lemma proto_ok_preStart:
  assumes ok: "proto_ok (s, ths)" and pre: "preStart oc s = (t, s')"
    and init: "\<And>c. oc = Some c \<Longrightarrow> list_all (\<lambda>cp. cp_container cp = c \<longrightarrow> cp_process cp = PInit)
                 (gm_list (sv_running s) (Container_Pid (sv_world s) c))"
  shows "proto_ok (s', ths)"
proof (rule proto_ok_rerun [OF ok])
  note wf = proto_okD(1) [OF ok]
  show "gm_wf (sv_running s')"
    using wf preStart_fields(5) [OF pre] by (simp add: forget_init_wf split: option.splits)
  show "subs_ok s'" by (rule subs_ok_put [OF proto_okD(2) [OF ok] preStart_fields(1) [OF pre]])
  show "live (s', ths) c = live (s, ths) c" for c
    using init forget_init_cnt [OF wf] preStart_fields(5) [OF pre]
    by (simp add: live_def split: option.splits)
qed (use preStart_fields [OF pre] in auto)

lemma proto_ok_count_exec:
  assumes ok: "proto_ok (s, a @ b)" and free: "\<not> shut (s, a @ b) c"
    and th: "\<And>c'. counts c' th = (c' = c)" "\<And>k s. thread_ok k s th"
  shows "proto_ok (s\<lparr>sv_runningExecs := gm_put c (gm_int (sv_runningExecs s) c + 1) (sv_runningExecs s)\<rparr>, a @ th # b)"
    (is "proto_ok (?s, _)")
proof (rule proto_okI)
  have k: "shut (s, a @ b) \<le> shut (?s, a @ th # b)" by (rule shut_mono) auto
  show "gm_wf (sv_running ?s)" "subs_ok ?s" using proto_okD(1,2) [OF ok] by (simp_all add: subs_ok_def)
  show "gm_int (sv_runningExecs ?s) c' = int (live (?s, a @ th # b) c')" for c'
    using proto_okD(3) [OF ok, of c'] th(1) [of c'] by (auto simp: live_def)
  show "chan_ok (shut (?s, a @ th # b)) ?s c' ch" if "gm_get (sv_execCountSubs ?s) c' = Some ch" for c' ch
  proof -
    have ch: "chan_ok (shut (s, a @ b)) s c' ch" using proto_okD(4) [OF ok, of c' ch] that by simp
    with free have "c' \<noteq> c" by (auto simp: chan_ok_def)
    then show ?thesis by (intro chan_ok_mono [OF ch k]) auto
  qed
  show "thread_ok (shut (?s, a @ th # b)) ?s x" if "x \<in> set (a @ th # b)" for x
  proof (cases "x = th")
    case False
    then show ?thesis
      by (intro thread_ok_mono [OF proto_okD(5) [OF ok] k]) (use that free in auto)
  qed (use th(2) in simp)
qed

lemma proto_ok_start_begin:
  assumes ok: "proto_ok (s, a @ Requested c eid # b)" and st: "start_begin c eid s = Inr (t, s')"
    and reg: "well_timed (s, a @ Requested c eid # b) (Requested c eid)"
  shows "proto_ok (s', a @ Starting t c eid # b)"
proof (cases "eid = []")
  case True
  with ok have "proto_ok (s, a @ [Starting t c eid] @ b)" by (intro proto_ok_replace [OF ok]) auto
  moreover from True st have "preStart (Some c) s = (t, s')" by (simp add: start_begin_def)
  ultimately show ?thesis using reg True by (auto intro: proto_ok_preStart)
next
  case False
  let ?s = "s\<lparr>sv_runningExecs := gm_put c (gm_int (sv_runningExecs s) c + 1) (sv_runningExecs s)\<rparr>"
  have ab: "proto_ok (s, a @ b)" using proto_ok_replace [OF ok, of "[]"] by simp
  from False st have "gm_get (sv_initExit s) c = None" and pre: "preStart None ?s = (t, s')"
    by (auto simp: start_begin_def split: if_splits)
  with reg False have "\<not> shut (s, a @ b) c" by (auto simp: shut_def)
  with False have "proto_ok (?s, a @ Starting t c eid # b)" by (intro proto_ok_count_exec [OF ab]) auto
  from proto_ok_preStart [OF this pre] show ?thesis by simp
qed

text \<open>The end of a start: the exits noted meanwhile, or the process among the running ones.\<close>

lemma end_start_cases:
  assumes "end_start t c (Some q) s = (es, s')" and "subs_ok s"
  obtains (noted) "es = noted_exits t (p_Pid (sv_world s) c q) s" "es = [] \<longleftrightarrow> p_Pid (sv_world s) c q = 0"
      "s' = s\<lparr>sv_exitSubs := gm_del t (sv_exitSubs s)\<rparr>"
  | (running) "es = []" "p_Pid (sv_world s) c q \<noteq> 0"
      "s' = s\<lparr>sv_exitSubs := gm_del t (sv_exitSubs s),
              sv_running := gm_put (p_Pid (sv_world s) c q)
                (gm_list (sv_running s) (p_Pid (sv_world s) c q) @ [\<lparr>cp_container = c, cp_process = q\<rparr>])
                (sv_running s)\<rparr>"
proof -
  let ?pid = "p_Pid (sv_world s) c q"
  let ?m = "case gm_get (sv_exitSubs s) t of None \<Rightarrow> [] | Some m \<Rightarrow> m"
  have m: "gm_get ?m ?pid \<noteq> Some []" "gm_get ?m 0 = None"
    using assms(2) by (simp_all add: subs_ok_def split: option.splits)
  show thesis
  proof (cases "?pid = 0 \<or> gm_get ?m ?pid \<noteq> None")
    case True
    with assms(1) have es: "es = noted_exits t ?pid s" and s': "s' = s\<lparr>sv_exitSubs := gm_del t (sv_exitSubs s)\<rparr>"
      by (simp_all add: end_start_def Let_def noted_exits_def)
    from es True m have "es = [] \<longleftrightarrow> ?pid = 0"
      by (auto simp: noted_exits_def gm_list_def split: option.splits)
    from noted [OF es this s'] show thesis .
  next
    case False
    with assms(1) show thesis by (intro running) (auto simp: end_start_def Let_def)
  qed
qed

lemma proto_ok_drop_sub:
  assumes ok: "proto_ok (s, ths)"
  shows "proto_ok (s\<lparr>sv_exitSubs := gm_del t (sv_exitSubs s)\<rparr>, ths)" (is "proto_ok (?s, _)")
proof (rule proto_ok_rerun [OF ok])
  show "gm_wf (sv_running ?s)" using proto_okD(1) [OF ok] by simp
  show "subs_ok ?s" by (rule subs_ok_del [OF proto_okD(2) [OF ok]]) simp
qed (simp_all add: live_def)

lemma proto_ok_cleanup:
  assumes "proto_ok (s, a @ Creating t # b)" and "same_proto s s'"
  shows "proto_ok (cleanup t s', a @ b)"
proof -
  have "proto_ok (s, a @ [] @ b)" by (rule proto_ok_replace [OF assms(1)]) auto
  from proto_ok_drop_sub [OF proto_ok_frame [OF this assms(2)], of t] show ?thesis by (simp add: cleanup_def)
qed

lemma cnt_append_one:
  "gm_wf m \<Longrightarrow> cnt P (gm_put k (gm_list m k @ [x]) m) = cnt P m + (if P x then 1 else 0)"
  using cnt_put [of m P k "gm_list m k @ [x]"] by (simp split: if_splits)

lemma proto_ok_run_entry:
  assumes ok: "proto_ok (s, a @ th # b)" and th: "\<And>c'. counts c' th = (c' = c \<and> q \<noteq> PInit)"
    and kept: "\<And>c. th \<noteq> Deleted c"
  shows "proto_ok (s\<lparr>sv_exitSubs := gm_del t (sv_exitSubs s),
              sv_running := gm_put pid (gm_list (sv_running s) pid @ [\<lparr>cp_container = c, cp_process = q\<rparr>])
                (sv_running s)\<rparr>, a @ b)"
  using th kept cnt_append_one [OF proto_okD(1) [OF ok]] proto_okD(1,2) [OF ok]
  by (intro proto_ok_rerun [OF ok]) (auto simp: live_def subs_ok_def exec_of_def)

lemma proto_ok_announced_end:
  assumes ok: "proto_ok (s, a @ Announced t c p # b)" and e: "end_start t c (Some p) s = (es, s')"
    and reg: "well_timed (s, a @ Announced t c p # b) (Announced t c p)"
  shows "proto_ok (s', a @ map (\<lambda>e. Exiting e c p) es @ b)"
  using e proto_okD(2) [OF ok]
proof (cases rule: end_start_cases)
  case noted
  with reg have "length es \<le> 1" "es \<noteq> []" by simp_all
  then obtain x where "es = [x]" by (cases es) auto
  with proto_ok_drop_sub [OF proto_ok_replace [OF ok, of "[Exiting x c p]"], of t] noted(3) show ?thesis by simp
next
  case running
  with proto_ok_run_entry [OF ok, where c = c and q = p and t = t] show ?thesis by auto
qed

lemma proto_ok_failed_end:
  assumes ok: "proto_ok (s, a @ Failed t c (Some p) # b)" and e: "end_start t c (Some p) s = (es, s')"
    and reg: "well_timed (s, a @ Failed t c (Some p) # b) (Failed t c (Some p))"
  shows "proto_ok (s', a @ map (\<lambda>e. Exiting e c p) es @ b)"
  using e proto_okD(2) [OF ok]
proof (cases rule: end_start_cases)
  case noted
  then have "p = PInit \<or> es = []" using reg by (cases p) auto
  then have "proto_ok (s, a @ map (\<lambda>e. Exiting e c p) es @ b)"
    by (intro proto_ok_replace [OF ok]) (auto simp: filter_empty_conv)
  from proto_ok_drop_sub [OF this, of t] noted(3) show ?thesis by simp
next
  case running
  with reg have "p = PInit" by (cases p) auto
  with proto_ok_run_entry [OF ok, where c = c and q = p and t = t] running show ?thesis by auto
qed

lemma proto_ok_failed_early:
  assumes ok: "proto_ok (s, a @ Failed t c None # b)" and e: "end_start t c None s = ([], s')"
  shows "proto_ok (s', a @ b)"
proof -
  have "proto_ok (s, a @ [] @ b)" by (rule proto_ok_replace [OF ok]) auto
  from proto_ok_drop_sub [OF this, of t] e show ?thesis by (simp add: end_start_def Let_def)
qed

lemma note_exit_ok:
  "ex_Pid e > 0 \<Longrightarrow> gm_get m 0 = None \<and> (\<forall>pid. gm_get m pid \<noteq> Some []) \<Longrightarrow>
     gm_get (note_exit e m) 0 = None \<and> (\<forall>pid. gm_get (note_exit e m) pid \<noteq> Some [])"
  by (simp add: note_exit_def)

lemma subs_ok_note:
  "subs_ok s \<Longrightarrow> ex_Pid e > 0 \<Longrightarrow> sv_exitSubs s' = map (\<lambda>(t, m). (t, note_exit e m)) (sv_exitSubs s) \<Longrightarrow> subs_ok s'"
  by (auto simp: subs_ok_def map_of_map note_exit_ok)

lemma init_exits_noted:
  "gm_get m c \<noteq> None \<or> (\<exists>cp \<in> set cps. cp_container cp = c \<and> cp_process cp = PInit) \<Longrightarrow>
   gm_get (foldl (\<lambda>m cp. if cp_process cp = PInit then gm_put (cp_container cp) e m else m) m cps) c \<noteq> None"
proof (induction cps arbitrary: m)
  case (Cons cp cps)
  let ?m = "if cp_process cp = PInit then gm_put (cp_container cp) e m else m"
  have "gm_get ?m c \<noteq> None \<or> (\<exists>cp \<in> set cps. cp_container cp = c \<and> cp_process cp = PInit)"
    using Cons.prems by auto
  from Cons.IH [OF this] show ?case by simp
qed simp

lemma take_exit_fields:
  assumes "take_exit e s = (cps, s')"
  shows "cps = gm_list (sv_running s) (ex_Pid e)" "sv_running s' = gm_del (ex_Pid e) (sv_running s)"
    "sv_runningExecs s' = sv_runningExecs s" "sv_execCountSubs s' = sv_execCountSubs s"
    "sv_exitSubs s' = map (\<lambda>(t, m). (t, note_exit e m)) (sv_exitSubs s)"
    "gm_get (sv_initExit s) c \<noteq> None \<or> (\<exists>cp \<in> set cps. cp_container cp = c \<and> cp_process cp = PInit) \<Longrightarrow>
       gm_get (sv_initExit s') c \<noteq> None"
  using assms init_exits_noted [of "sv_initExit s" c cps e] by (auto simp: take_exit_def Let_def)

lemma count_exit_threads: "filter (counts c) (map (exit_thread e) cps) = map (exit_thread e) (filter (exec_of c) cps)"
  by (induction cps) (auto simp: exit_thread_def exec_of_def)

lemma proto_ok_reaped:
  assumes ok: "proto_ok (s, ths)" and tk: "take_exit e s = (cps, s')" and pid: "ex_Pid e > 0"
  shows "proto_ok (s', map (exit_thread e) cps @ ths)"
proof (rule proto_okI)
  let ?ths = "map (exit_thread e) cps @ ths"
  note f = take_exit_fields(1-5) [OF tk]
  have k: "shut (s, ths) \<le> shut (s', ?ths)" by (rule shut_mono) (use take_exit_fields(6) [OF tk] in auto)
  show "gm_wf (sv_running s')" using proto_okD(1) [OF ok] f(2) by simp
  show "subs_ok s'" by (rule subs_ok_note [OF proto_okD(2) [OF ok] pid f(5)])
  show "gm_int (sv_runningExecs s') c = int (live (s', ?ths) c)" for c
    using proto_okD(3) [OF ok, of c] cnt_del [OF proto_okD(1) [OF ok], of "exec_of c" "ex_Pid e"]
    by (simp add: live_def f count_exit_threads)
  show "chan_ok (shut (s', ?ths)) s' c ch" if "gm_get (sv_execCountSubs s') c = Some ch" for c ch
    by (rule chan_ok_mono [OF proto_okD(4) [OF ok] k]) (use that f in simp_all)
  show "thread_ok (shut (s', ?ths)) s' x" if x: "x \<in> set ?ths" for x
  proof (cases "x \<in> set ths")
    case True
    then show ?thesis by (intro thread_ok_mono [OF proto_okD(5) [OF ok] k]) (use f in simp_all)
  next
    case False
    with x obtain cp where "cp \<in> set cps" "x = exit_thread e cp" by auto
    with take_exit_fields(6) [OF tk, of "cp_container cp"] show ?thesis by (auto simp: exit_thread_def shut_def)
  qed
qed

text \<open>Changes to the counts and their channels that leave every count as it is.\<close>

lemma proto_ok_recount:
  assumes ok: "proto_ok (s, a @ th # b)" and kept: "\<And>c. th \<noteq> Deleted c" and n: "\<And>c. \<not> counts c th"
    and same: "sv_running s' = sv_running s" "sv_exitSubs s' = sv_exitSubs s" "sv_initExit s' = sv_initExit s"
    and re: "\<And>c. gm_int (sv_runningExecs s') c = gm_int (sv_runningExecs s) c"
    and chan: "\<And>c ch. gm_get (sv_execCountSubs s') c = Some ch \<Longrightarrow>
       gm_get (sv_execCountSubs s) c = Some ch \<or> chan_ok (shut (s, a @ th # b)) s c ch"
    and new: "\<And>x. x \<in> set new \<Longrightarrow> thread_ok (shut (s, a @ th # b)) s x \<and> (\<forall>c. \<not> counts c x)"
  shows "proto_ok (s', a @ new @ b)"
proof (rule proto_okI)
  have k: "shut (s, a @ th # b) \<le> shut (s', a @ new @ b)" by (rule shut_mono) (use kept same in auto)
  have "filter (counts c) new = []" for c using new by (auto simp: filter_empty_conv)
  then show "gm_int (sv_runningExecs s') c = int (live (s', a @ new @ b) c)" for c
    using re [of c] proto_okD(3) [OF ok, of c] n [of c] by (simp add: live_def same)
  show "chan_ok (shut (s', a @ new @ b)) s' c ch" if "gm_get (sv_execCountSubs s') c = Some ch" for c ch
    by (rule chan_ok_mono [of "shut (s, a @ th # b)" s]) (use chan [OF that] proto_okD(4) [OF ok] k re in auto)
  show "thread_ok (shut (s', a @ new @ b)) s' x" if "x \<in> set (a @ new @ b)" for x
    by (rule thread_ok_mono [of "shut (s, a @ th # b)" s]) (use that new proto_okD(5) [OF ok] k re in auto)
qed (use proto_okD(1,2) [OF ok] same in \<open>simp_all add: subs_ok_def\<close>)

lemma proto_ok_init_now:
  assumes ok: "proto_ok (s, a @ InitExiting e c # b)" and b: "init_exit_begin c s = Ret (PublishNow, s')"
  shows "proto_ok (s', a @ FinalExit e c # b)"
proof -
  from b have s': "s' = s\<lparr>sv_runningExecs := gm_del c (sv_runningExecs s)\<rparr>" and z: "gm_int (sv_runningExecs s) c = 0"
    by (auto simp: init_exit_begin_def Let_def split: if_splits)
  have "proto_ok (s', a @ [FinalExit e c] @ b)"
    by (rule proto_ok_recount [OF ok]) (use proto_okD(5) [OF ok, of "InitExiting e c"] z in \<open>auto simp: s'\<close>)
  then show ?thesis by simp
qed

lemma proto_ok_init_wait:
  assumes ok: "proto_ok (s, a @ InitExiting e c # b)" and b: "init_exit_begin c s = Ret (WaitForExecs, s')"
  shows "proto_ok (s', a @ Awaiting e c # b)"
proof -
  let ?n = "gm_int (sv_runningExecs s) c"
  from b have s': "s' = s\<lparr>sv_execCountSubs := gm_put c \<lparr>ch_cap = nat ?n, ch_buf = []\<rparr> (sv_execCountSubs s)\<rparr>"
    and n: "?n > 0"
    by (auto simp: init_exit_begin_def Let_def split: if_splits)
  have k: "shut (s, a @ InitExiting e c # b) c" using proto_okD(5) [OF ok, of "InitExiting e c"] by simp
  have "proto_ok (s', a @ [Awaiting e c] @ b)"
    by (rule proto_ok_recount [OF ok]) (use k n in \<open>auto simp: s' chan_ok_def split: if_splits\<close>)
  then show ?thesis by simp
qed

lemma drain_zero: "drain ns \<noteq> None \<longleftrightarrow> 0 \<in> set ns"
  by (induction ns) auto

lemma execs_done_zero:
  assumes "proto_ok (s, ths)" and "execs_done c s"
  shows "gm_int (sv_runningExecs s) c = 0"
proof -
  from assms(2) obtain ch where ch: "gm_get (sv_execCountSubs s) c = Some ch" "drain (ch_buf ch) \<noteq> None"
    by (auto simp: execs_done_def split: option.splits)
  with proto_okD(4) [OF assms(1) ch(1)] drain_zero [of "ch_buf ch"] show ?thesis by (simp add: chan_ok_def)
qed

lemma proto_ok_finish:
  assumes ok: "proto_ok (s, a @ Finishing c # b)"
  shows "proto_ok (init_exit_end c s, a @ b)"
proof -
  have "proto_ok (init_exit_end c s, a @ [] @ b)"
    by (rule proto_ok_recount [OF ok])
       (use proto_okD(5) [OF ok, of "Finishing c"] in \<open>auto simp: init_exit_end_def split: if_splits\<close>)
  then show ?thesis by simp
qed

lemma proto_ok_delete_end:
  assumes ok: "proto_ok (s, a @ Deleting c # b)"
  shows "proto_ok (delete_end c s, a @ Deleted c # b)"
proof (rule proto_okI)
  let ?S = "(delete_end c s, a @ Deleted c # b)"
  have same: "sv_running (delete_end c s) = sv_running s" "sv_runningExecs (delete_end c s) = sv_runningExecs s"
    "sv_execCountSubs (delete_end c s) = sv_execCountSubs s" "sv_exitSubs (delete_end c s) = sv_exitSubs s"
    by (simp_all add: delete_end_def)
  have k: "shut (s, a @ Deleting c # b) \<le> shut ?S"
    by (auto simp: shut_def delete_end_def le_fun_def)
  show "gm_wf (sv_running (delete_end c s))" "subs_ok (delete_end c s)"
    using proto_okD(1,2) [OF ok] by (simp_all add: same subs_ok_def)
  show "gm_int (sv_runningExecs (delete_end c s)) c' = int (live ?S c')" for c'
    using proto_okD(3) [OF ok, of c'] by (simp add: live_def same)
  show "chan_ok (shut ?S) (delete_end c s) c' ch" if "gm_get (sv_execCountSubs (delete_end c s)) c' = Some ch" for c' ch
    by (rule chan_ok_mono [OF proto_okD(4) [OF ok] k]) (use that in \<open>simp_all add: same\<close>)
  show "thread_ok (shut ?S) (delete_end c s) x" if "x \<in> set (a @ Deleted c # b)" for x
  proof (cases "x = Deleted c")
    case False
    then show ?thesis by (intro thread_ok_mono [OF proto_okD(5) [OF ok] k]) (use that in \<open>auto simp: same\<close>)
  qed simp
qed

lemma proto_ok_step:
  assumes "proto_step S S'" and "proto_ok S" and "regular S"
  shows "proto_ok S'"
  using assms
proof (induction rule: proto_step.induct)
  case (create_begin s t s' ths)
  have "proto_ok (s', [] @ ths)" using proto_ok_preStart [OF create_begin(2,1)] by simp
  then have "proto_ok (s', [] @ Creating t # ths)" by (rule proto_ok_add) auto
  then show ?case by simp
next
  case (create_fail env r s e ops sm a t b)
  show ?case by (rule proto_ok_cleanup [OF create_fail(2) same_proto_world])
next
  case (create_unconnected env r s ct ops sm e w a t b)
  show ?case by (rule proto_ok_cleanup [OF create_unconnected(4) same_proto_world])
next
  case (create_done env r s ct ops sm waiter w c a t b)
  from create_done.prems(1) have "proto_ok (s, a @ [Announced t c PInit] @ b)" by (rule proto_ok_replace) auto
  from proto_ok_frame [OF this] show ?case by (simp add: same_proto_def send_def)
next
  case (start_wait cid s x s' ths)
  show ?case by (rule proto_ok_frame [OF start_wait(2) wait_same [OF start_wait(1)]])
next
  case (start_request cid s c ths eid)
  then have "proto_ok (s, [] @ Requested c eid # ths)" by (intro proto_ok_add) auto
  then show ?case by simp
next
  case (start_refused c eid s e a b)
  then have "proto_ok (s, a @ [] @ b)" by (intro proto_ok_replace [OF start_refused(2)]) auto
  then show ?case by simp
next
  case (start_begin c eid s t s' a b)
  show ?case by (rule proto_ok_start_begin [OF start_begin(2,1) regularD [OF start_begin(3)]]) simp
next
  case (start_ok env c eid s p s' a t b)
  then have "proto_ok (s, a @ [StartedOK t c eid p] @ b)"
    using start_run_kind [OF start_ok(1)] by (intro proto_ok_replace [OF start_ok(2)]) auto
  from proto_ok_frame [OF this start_run_same [OF start_ok(1)]] show ?case by simp
next
  case (start_err env c eid s p e s' a t b)
  then have "proto_ok (s, a @ [StartErr t c eid p] @ b)"
    by (intro proto_ok_replace [OF start_err(2)]) auto
  from proto_ok_frame [OF this start_run_same [OF start_err(1)]] show ?case by simp
next
  case (announce s a t c eid p b)
  then have "(p = PInit) = (eid = [])" using proto_okD(5) [OF announce(1), of "StartedOK t c eid p"] by simp
  then have "proto_ok (s, a @ [Announced t c p] @ b)"
    by (intro proto_ok_replace [OF announce(1)]) auto
  from proto_ok_frame [OF this start_announce_same] show ?case by simp
next
  case (failed s a t c eid p b)
  show ?case
  proof (cases "eid = []")
    case True
    then have "proto_ok (s, a @ [Failed t c p] @ b)" by (intro proto_ok_replace [OF failed(1)]) auto
    with True show ?thesis by (simp add: start_failed_def)
  next
    case False
    with proto_ok_uncount [OF failed(1), of c "[Failed t c p]" "uncount c s"] show ?thesis
      by (auto simp: start_failed_def)
  qed
next
  case (announced_end t c p s es s' a b)
  show ?case by (rule proto_ok_announced_end [OF announced_end(2,1) regularD [OF announced_end(3)]]) simp
next
  case (failed_end t c p s es s' a b)
  show ?case by (rule proto_ok_failed_end [OF failed_end(2,1) regularD [OF failed_end(3)]]) simp
next
  case (failed_early t c s s' a b)
  show ?case by (rule proto_ok_failed_early [OF failed_early(2,1)])
next
  case (reaped e s cps s' ths)
  show ?case by (rule proto_ok_reaped [OF reaped(3,1,2)])
next
  case (publish env e c p s s' a b)
  then have "proto_ok (s, a @ (if p = PInit then [] else [Uncounting c]) @ b)"
    by (intro proto_ok_replace [OF publish(2)]) (auto split: if_splits)
  from proto_ok_frame [OF this exit_publish_same [OF publish(1)]] show ?case .
next
  case (count_down s a c b)
  from proto_ok_uncount [OF count_down(1), of c "[]" "uncount c s"] show ?case by auto
next
  case (init_now c env s s' a e b)
  from proto_ok_init_now [OF proto_ok_frame [OF init_now(2) kill_rest_same] init_now(1)] show ?case .
next
  case (init_wait c env s s' a e b)
  from proto_ok_init_wait [OF proto_ok_frame [OF init_wait(2) kill_rest_same] init_wait(1)] show ?case .
next
  case (publish_final env e c s s' a b)
  from publish_final(2) have "proto_ok (s, a @ [] @ b)" by (rule proto_ok_replace) auto
  from proto_ok_frame [OF this exit_publish_same [OF publish_final(1)]] show ?case by simp
next
  case (wake c s env e s' a b)
  then have "proto_ok (s, a @ [Finishing c] @ b)"
    using execs_done_zero [OF wake(3,1)] proto_okD(5) [OF wake(3), of "Awaiting e c"]
    by (intro proto_ok_replace [OF wake(3)]) auto
  from proto_ok_frame [OF this exit_publish_same [OF wake(2)]] show ?case by simp
next
  case (finish s a c b)
  show ?case by (rule proto_ok_finish [OF finish(1)])
next
  case (delete_begin env cid eid s c resp s' ths)
  have ok: "proto_ok (s', [] @ ths)"
    using proto_ok_frame [OF delete_begin(2) delete_begin_same [OF delete_begin(1)]] by simp
  then have "proto_ok (s', [] @ Deleting c # ths)" by (rule proto_ok_add) auto
  with ok show ?case by simp
next
  case (delete_refused env cid eid s e s' ths)
  show ?case by (rule proto_ok_frame [OF delete_refused(2) delete_begin_same [OF delete_refused(1)]])
next
  case (delete_end s a c b)
  show ?case by (rule proto_ok_delete_end [OF delete_end(1)])
next
  case (exec_request env cid rq s x s' ths)
  show ?case by (rule proto_ok_frame [OF exec_request(2) task_Exec_same [OF exec_request(1)]])
next
  case (pause_request env cid s x s' ths)
  show ?case by (rule proto_ok_frame [OF pause_request(2) on_container_same [OF pause_request(1) [unfolded request_defs]]])
next
  case (resume_request env cid s x s' ths)
  show ?case by (rule proto_ok_frame [OF resume_request(2) on_container_same [OF resume_request(1) [unfolded request_defs]]])
next
  case (kill_request env cid eid sig all s x s' ths)
  show ?case by (rule proto_ok_frame [OF kill_request(2) on_container_same [OF kill_request(1) [unfolded request_defs]]])
next
  case (update_request env cid res s x s' ths)
  show ?case by (rule proto_ok_frame [OF update_request(2) on_container_same [OF update_request(1) [unfolded request_defs]]])
next
  case (checkpoint_request env cid path opts s x s' ths)
  show ?case by (rule proto_ok_frame [OF checkpoint_request(2) on_container_same [OF checkpoint_request(1) [unfolded request_defs]]])
next
  case (shutdown_request s ths)
  show ?case by (rule proto_ok_frame [OF shutdown_request(1) task_Shutdown_same])
qed

lemma proto_ok_reachable: "reg_step\<^sup>*\<^sup>* S S' \<Longrightarrow> proto_ok S \<Longrightarrow> proto_ok S'"
  by (induction rule: rtranclp_induct) (auto simp: reg_step_def intro: proto_ok_step)

lemma proto_ok_new: "new_service u o1 o2 sm = Inr s \<Longrightarrow> proto_ok (s, [])"
  by (auto simp: new_service_def proto_ok_def subs_ok_def live_def gm_int_def split: if_splits option.splits)

section \<open>After the end of the init process\<close>

text \<open>The container takes no more execs and no exec of it is counted any more.\<close>

definition over :: "nat \<Rightarrow> proto \<Rightarrow> bool" where
  "over c S \<longleftrightarrow> proto_ok S \<and> shut S c \<and> gm_int (sv_runningExecs (fst S)) c = 0"

text \<open>A container that takes no more execs stays so, and from a regular state its count does not rise from zero.\<close>

definition holds_down :: "nat \<Rightarrow> proto \<Rightarrow> proto \<Rightarrow> bool" where
  "holds_down c S S' \<longleftrightarrow> (shut S c \<longrightarrow> shut S' c
     \<and> (regular S \<longrightarrow> gm_int (sv_runningExecs (fst S)) c = 0 \<longrightarrow> gm_int (sv_runningExecs (fst S')) c \<le> 0))"

lemma holds_down_same:
  "same_proto s s' \<Longrightarrow> (\<And>c. Deleted c \<in> set ths \<Longrightarrow> Deleted c \<in> set ths') \<Longrightarrow> holds_down c (s, ths) (s', ths')"
  by (auto simp: holds_down_def same_proto_def shut_def)

lemma holds_down_start:
  assumes "start_begin c' eid s = Inr (t, s')"
  shows "holds_down c (s, a @ Requested c' eid # b) (s', a @ Starting t c' eid # b)"
proof -
  let ?s = "s\<lparr>sv_runningExecs := gm_put c' (gm_int (sv_runningExecs s) c' + 1) (sv_runningExecs s)\<rparr>"
  have n: "gm_int (sv_runningExecs s') c = 0"
    if "gm_int (sv_runningExecs s) c = 0" "eid = [] \<or> c' \<noteq> c"
    using assms that preStart_fields(2) [of "Some c'" s t s'] preStart_fields(2) [of None ?s t s']
    by (auto simp: start_begin_def split: if_splits)
  have i': "sv_initExit s' = sv_initExit s"
    using assms preStart_fields(4) [of "Some c'" s t s'] preStart_fields(4) [of None ?s t s']
    by (auto simp: start_begin_def split: if_splits)
  show ?thesis
  proof (cases "eid = [] \<or> c' \<noteq> c")
    case True
    with i' n show ?thesis by (auto simp: holds_down_def shut_def)
  next
    case False
    then have "gm_get (sv_initExit s) c = None" using assms by (auto simp: start_begin_def split: if_splits)
    with False have "\<not> (shut (s, a @ Requested c' eid # b) c \<and> regular (s, a @ Requested c' eid # b))"
      using regularD [of s "a @ Requested c' eid # b" "Requested c' eid"] by (auto simp: shut_def)
    moreover have "shut (s, a @ Requested c' eid # b) c \<longrightarrow> shut (s', a @ Starting t c' eid # b) c"
      using i' by (auto simp: shut_def)
    ultimately show ?thesis by (simp add: holds_down_def)
  qed
qed

lemma step_holds_down:
  assumes "proto_step S S'"
  shows "holds_down c S S'"
  using assms
proof (induction rule: proto_step.induct)
  case (create_begin s t s' ths)
  then show ?case using preStart_fields(2,4) [OF create_begin] by (simp add: holds_down_def shut_def)
next
  case (start_wait cid s x s' ths)
  then show ?case by (intro holds_down_same wait_same) simp_all
next
  case (start_begin c' eid s t s' a b)
  then show ?case by (rule holds_down_start)
next
  case (start_ok env c' eid s p s' a t b)
  show ?case by (rule holds_down_same [OF start_run_same [OF start_ok]]) auto
next
  case (start_err env c' eid s p e s' a t b)
  show ?case by (rule holds_down_same [OF start_run_same [OF start_err]]) auto
next
  case (announce s a t c' eid p b)
  show ?case by (rule holds_down_same [OF start_announce_same]) auto
next
  case (reaped e s cps s' ths)
  then show ?case using take_exit_fields(3) [OF reaped(1)] take_exit_fields(6) [OF reaped(1), of c]
    by (auto simp: holds_down_def shut_def)
next
  case (publish env e c' p s s' a b)
  show ?case by (rule holds_down_same [OF exit_publish_same [OF publish]]) auto
next
  case (publish_final env e c' s s' a b)
  show ?case by (rule holds_down_same [OF exit_publish_same [OF publish_final]]) auto
next
  case (wake c' s env e s' a b)
  show ?case by (rule holds_down_same [OF exit_publish_same [OF wake(2)]]) auto
next
  case (init_now c' env s s' a e b)
  then show ?case using kill_rest_same [of s env c']
    by (auto simp: init_exit_begin_def Let_def same_proto_def holds_down_def shut_def split: if_splits)
next
  case (init_wait c' env s s' a e b)
  then show ?case using kill_rest_same [of s env c']
    by (auto simp: init_exit_begin_def Let_def same_proto_def holds_down_def shut_def split: if_splits)
next
  case (delete_begin env cid eid s c' resp s' ths)
  show ?case by (rule holds_down_same [OF delete_begin_same [OF delete_begin]]) auto
next
  case (delete_refused env cid eid s e s' ths)
  show ?case by (rule holds_down_same [OF delete_begin_same [OF delete_refused]]) auto
next
  case (delete_end s a c' b)
  show ?case by (auto simp: holds_down_def shut_def delete_end_def)
next
  case (exec_request env cid rq s x s' ths)
  show ?case by (rule holds_down_same [OF task_Exec_same [OF exec_request]]) auto
next
  case (pause_request env cid s x s' ths)
  show ?case by (rule holds_down_same [OF on_container_same [OF pause_request [unfolded request_defs]]]) auto
next
  case (resume_request env cid s x s' ths)
  show ?case by (rule holds_down_same [OF on_container_same [OF resume_request [unfolded request_defs]]]) auto
next
  case (kill_request env cid eid sig all s x s' ths)
  show ?case by (rule holds_down_same [OF on_container_same [OF kill_request [unfolded request_defs]]]) auto
next
  case (update_request env cid res s x s' ths)
  show ?case by (rule holds_down_same [OF on_container_same [OF update_request [unfolded request_defs]]]) auto
next
  case (checkpoint_request env cid path opts s x s' ths)
  show ?case by (rule holds_down_same [OF on_container_same [OF checkpoint_request [unfolded request_defs]]]) auto
next
  case (shutdown_request s ths)
  show ?case by (rule holds_down_same [OF task_Shutdown_same]) auto
qed (auto simp: holds_down_def shut_def cleanup_def upd_world_def start_failed_def uncount_def Let_def end_start_def
      init_exit_end_def send_def split: if_splits option.splits)

lemma over_step:
  assumes "reg_step S S'" and "over c S"
  shows "over c S'"
proof -
  have "holds_down c S S'" "proto_ok S'" "regular S"
    using assms step_holds_down [of S S' c] proto_ok_step [of S S'] by (auto simp: reg_step_def over_def)
  then show ?thesis using assms(2) proto_okD(3) [of "fst S'" "snd S'" c] by (auto simp: over_def holds_down_def)
qed

lemma over_reachable: "reg_step\<^sup>*\<^sup>* S S' \<Longrightarrow> over c S \<Longrightarrow> over c S'"
  by (induction rule: rtranclp_induct) (auto intro: over_step)

lemma over_live: "over c S \<Longrightarrow> live S c = 0"
  using proto_okD(3) [of "fst S" "snd S" c] by (simp add: over_def)

section \<open>Properties\<close>

text \<open>
  C2. \<open>runningExecs\<close> counts exactly: in every state that a regular run of the service reaches (see
  \<open>regular\<close>: no exec is started a second time, no pid is reused while its process starts, no Start of an
  exec is overtaken by a Delete of its container), whatever the order in which requests, exits and
  goroutines run, the count of a container is the number of its execs that are starting, running, or
  exited and not yet counted down.
\<close>

theorem exec_count_exact:
  assumes "new_service u o1 o2 sm = Inr s0" and "reg_step\<^sup>*\<^sup>* (s0, []) (s, ths)"
  shows "gm_int (sv_runningExecs s) c = int (live (s, ths) c)"
  by (rule proto_okD(3) [OF proto_ok_reachable [OF assms(2) proto_ok_new [OF assms(1)]]])

text \<open>
  C1. The exit of the init process is the last exit published: when \<open>handleInitExit\<close> is about to
  publish it, at once or in its goroutine, no exec of the container is starting, running or waiting
  for its exit to be published, and none ever is again. This is for regular runs (no exec is started a
  second time, no pid is reused while its process starts, no Start of an exec is overtaken by a Delete of
  its container), and for exits that go through \<open>handleInitExit\<close>, not those noted while the init process
  itself is starting (see C39).
\<close>

theorem init_exit_published_last:
  assumes "new_service u o1 o2 sm = Inr s0" and "reg_step\<^sup>*\<^sup>* (s0, []) (s, ths)"
    and "FinalExit e c \<in> set ths \<or> (Awaiting e c \<in> set ths \<and> execs_done c s)"
    and "reg_step\<^sup>*\<^sup>* (s, ths) S'"
  shows "live (s, ths) c = 0 \<and> live S' c = 0"
proof -
  have ok: "proto_ok (s, ths)" by (rule proto_ok_reachable [OF assms(2) proto_ok_new [OF assms(1)]])
  have "over c (s, ths)"
    using assms(3) proto_okD(5) [OF ok, of "FinalExit e c"] proto_okD(5) [OF ok, of "Awaiting e c"]
      execs_done_zero [OF ok, of c] ok
    by (auto simp: over_def)
  with over_reachable [OF assms(4)] over_live show ?thesis by blast
qed

text \<open>
  C13. Counting down never blocks in a regular run (no exec is started a second time, no pid is reused
  while its process starts, no Start of an exec is overtaken by a Delete of its container): the channel
  of a goroutine that waits for execs always has room for the counts still to be sent, so a send under
  \<open>lifecycleMu\<close> returns at once.
\<close>

theorem exec_chan_has_room:
  assumes "new_service u o1 o2 sm = Inr s0" and "reg_step\<^sup>*\<^sup>* (s0, []) (s, ths)"
    and "gm_get (sv_execCountSubs s) c = Some ch"
  shows "length (ch_buf ch) + live (s, ths) c \<le> ch_cap ch"
proof -
  have ok: "proto_ok (s, ths)" by (rule proto_ok_reachable [OF assms(2) proto_ok_new [OF assms(1)]])
  from proto_okD(4) [OF ok assms(3)] proto_okD(3) [OF ok, of c] show ?thesis by (simp add: chan_ok_def)
qed

text \<open>
  C14. The exit of the init process is not lost in a regular run: once the last exec has been counted
  down, the zero the goroutine waits for is in its channel.
\<close>

theorem init_exit_wakes:
  assumes "new_service u o1 o2 sm = Inr s0" and "reg_step\<^sup>*\<^sup>* (s0, []) (s, ths)"
    and "gm_get (sv_execCountSubs s) c = Some ch" and "live (s, ths) c = 0"
  shows "execs_done c s"
proof -
  have ok: "proto_ok (s, ths)" by (rule proto_ok_reachable [OF assms(2) proto_ok_new [OF assms(1)]])
  from proto_okD(4) [OF ok assms(3)] proto_okD(3) [OF ok, of c] assms(3,4) drain_zero [of "ch_buf ch"]
  show ?thesis by (simp add: chan_ok_def execs_done_def)
qed

text \<open>
  What regular runs leave out: starting an exec that is already running.
\<close>

lemma start_running_exec:
  assumes c: "getContainer cid s = Inr c" "gm_get (sv_waiters s) cid = None" "gm_get (sv_initExit s) c = None"
    and x: "gm_get (ct_processes (cont (sv_world s) c)) eid = Some x" "eid \<noteq> []"
    and e: "ep_state (w_execs (sv_world s) ! x) = ExecRunning" "ep_pid (w_execs (sv_world s) ! x) = n" "n \<noteq> 0"
    and x_len: "x < length (w_execs (sv_world s))"
    and no_sub: "gm_get (sv_execCountSubs s) c = None"
  shows "\<exists>r s1. task_Start env cid eid s = Ret (Inl r, s1)
     \<and> gm_int (sv_runningExecs s1) c = gm_int (sv_runningExecs s) c
     \<and> gm_list (sv_running s1) n = gm_list (sv_running s) n @ [\<lparr>cp_container = c, cp_process = PExec x\<rparr>]
     \<and> sv_world s1 = sv_world s \<and> sv_execCountSubs s1 = sv_execCountSubs s \<and> sv_events s1 = sv_events s"
proof -
  have "getContainer cid (s\<lparr>sv_waiters := gm_del cid (sv_waiters s)\<rparr>) = Inr c"
    using c(1) by (simp add: getContainer_def)
  moreover have "upd_exec x (w_execs (sv_world s) ! x) (sv_world s) = sv_world s"
    using x_len by (simp add: upd_exec_def)
  ultimately show ?thesis
    using c(2,3) x e no_sub
    by (simp add: task_Start_def waitForCtrNetConnect_def start_begin_def preStart_def Let_def start_run_def
        Container_Start_def Container_Process_def Exec_Start_def upd_world_def start_failed_def uncount_def
        handleStarted_def end_start_def cleanup_def)
qed

lemma two_exits:
  assumes x: "x < length (w_execs (sv_world s))" and e: "ep_state (w_execs (sv_world s) ! x) = ExecRunning"
    "\<not> ep_wait_closed (w_execs (sv_world s) ! x)"
    and no_sub: "gm_get (sv_execCountSubs s) c = None"
  shows "\<exists>s2. handle_taken env ev [\<lparr>cp_container = c, cp_process = PExec x\<rparr>, \<lparr>cp_container = c, cp_process = PExec x\<rparr>] s
            = Ret s2
     \<and> gm_int (sv_runningExecs s2) c = gm_int (sv_runningExecs s) c - 2
     \<and> (\<exists>v. sv_events s2 = sv_events s @ [v, v] \<and> (\<exists>i p st t. v = TaskExit i (ep_id (w_execs (sv_world s) ! x)) p st t))"
proof -
  let ?env = "cn_proc (te_cont env)"
  obtain f where f: "Exec_SetExited ?env (ex_Status ev) (w_execs (sv_world s) ! x) = Ret f" "ep_state f = ExecStopped"
    "ep_id f = ep_id (w_execs (sv_world s) ! x)"
    using e by (simp add: Exec_SetExited_def exec_setExited_def exec_stop_or_panic_def exec_goto_def ecall_def)
  moreover have "Exec_SetExited ?env (ex_Status ev) f = Ret f" using f(2) by (simp add: Exec_SetExited_def)
  ultimately show ?thesis
    using x no_sub
    by (simp add: handleProcessExit_def exit_publish_def upd_exec_def upd_world_def send_def uncount_def cont_def Let_def)
qed

text \<open>
  C38. A second \<open>Start\<close> of a running exec fails, but enters it a second time among the running
  processes: its one exit is then published twice and counted down twice, which leaves the count of
  the container at minus one, and the exit of the container's init process then panics.
\<close>

theorem double_start_panics:
  assumes "getContainer cid s = Inr c" and "gm_get (sv_waiters s) cid = None" and "gm_get (sv_initExit s) c = None"
    and "gm_get (ct_processes (cont (sv_world s) c)) eid = Some x" and "eid \<noteq> []"
    and "x < length (w_execs (sv_world s))" and "ep_state (w_execs (sv_world s) ! x) = ExecRunning"
    and "\<not> ep_wait_closed (w_execs (sv_world s) ! x)" and "ep_pid (w_execs (sv_world s) ! x) = ex_Pid ev"
    and "ex_Pid ev \<noteq> 0" and "gm_list (sv_running s) (ex_Pid ev) = [\<lparr>cp_container = c, cp_process = PExec x\<rparr>]"
    and "gm_get (sv_execCountSubs s) c = None" and "gm_int (sv_runningExecs s) c = 1"
  shows "\<exists>r s1 s2 v. task_Start env cid eid s = Ret (Inl r, s1) \<and> processExits env ev s1 = Ret s2
     \<and> sv_events s2 = sv_events s @ [v, v] \<and> gm_int (sv_runningExecs s2) c = -1
     \<and> panics (handleInitExit env' ev' c s2)"
proof -
  let ?cp = "\<lparr>cp_container = c, cp_process = PExec x\<rparr>"
  obtain r s1 where s1: "task_Start env cid eid s = Ret (Inl r, s1)" "gm_int (sv_runningExecs s1) c = 1"
    "gm_list (sv_running s1) (ex_Pid ev) = [?cp, ?cp]" "sv_world s1 = sv_world s"
    "sv_execCountSubs s1 = sv_execCountSubs s" "sv_events s1 = sv_events s"
    using start_running_exec [OF assms(1-5,7,9,10,6,12), of env] assms(11,13) by auto
  obtain s1' where t: "take_exit ev s1 = ([?cp, ?cp], s1')"
    "sv_world s1' = sv_world s" "sv_execCountSubs s1' = sv_execCountSubs s" "sv_events s1' = sv_events s"
    "sv_runningExecs s1' = sv_runningExecs s1"
    using s1 by (simp add: take_exit_def Let_def)
  obtain s2 v where s2: "handle_taken env ev [?cp, ?cp] s1' = Ret s2" "gm_int (sv_runningExecs s2) c = -1"
    "sv_events s2 = sv_events s @ [v, v]"
    using two_exits [of x s1' c env ev] t s1(2) assms(6-8,12) by auto
  have "gm_int (sv_runningExecs (kill_rest env' c s2)) c = -1"
    using s2(2) kill_rest_same [of s2 env' c] by (simp add: same_proto_def)
  then have "panics (handleInitExit env' ev' c s2)"
    by (simp add: handleInitExit_def init_exit_begin_def)
  with s1(1) s2 t(1) show ?thesis by (auto simp: processExits_def)
qed

text \<open>
  C39. An init process that exits between the start request and its end is published at once: its
  exit event is sent whatever the number of running execs, and the container is not marked, so that
  execs may still be started and their exits follow the exit of the init process.
\<close>

theorem early_init_exit_not_last:
  assumes "gm_get (sv_exitSubs s) t = Some m" and "gm_get m (Container_Pid (sv_world s) c) = Some [e]"
    and "init_ok (ct_process (cont (sv_world s) c))" and "c < length (w_conts (sv_world s))"
  shows "\<exists>s' i tm. handleStarted env t c (Some PInit) s = Ret s'
     \<and> sv_events s' = sv_events s @ [TaskExit (ct_ID (cont (sv_world s) c)) i (to_uint32 (ex_Pid e)) (to_uint32 (ex_Status e)) tm]
     \<and> sv_runningExecs s' = sv_runningExecs s \<and> sv_initExit s' = sv_initExit s"
proof -
  obtain p where p: "Init_SetExited (cn_proc (te_cont env)) (ex_Status e) (ct_process (cont (sv_world s) c)) = Ret p"
    using init_ok_no_panic(5) [OF assms(3), of "cn_proc (te_cont env)" "ex_Status e"] by (auto simp: not_panics_iff)
  have es: "end_start t c (Some PInit) s = ([e], s\<lparr>sv_exitSubs := gm_del t (sv_exitSubs s)\<rparr>)"
    using assms(1,2) by (simp add: end_start_def Container_Pid_def Let_def gm_list_def)
  show ?thesis
    using assms(4) p
    by (simp add: handleStarted_def es handleProcessExit_def exit_publish_def send_def upd_world_def upd_init_def
        upd_cont_def cont_def)
qed

section \<open>A run\<close>

text \<open>
  A run that reaches the interesting states: a container is created, an exec is added and started,
  the init process exits and its goroutine waits, the exec exits and is counted down.
\<close>

definition calm_cont :: cont_env where
  "calm_cont = \<lparr>cn_proc = calm_env, cn_unmarshal = (\<lambda>_. Inr None), cn_unmarshal_ckpt = (\<lambda>_. Inr zero_checkpoint),
     cn_mkdir = (\<lambda>_. None), cn_marshal = (\<lambda>_. Inr []), cn_write_file = (\<lambda>_ _. None), cn_stat = (\<lambda>_. None),
     cn_not_exist = (\<lambda>_. False), cn_read_file = (\<lambda>_. Inr []), cn_unmarshal_json = (\<lambda>_. Inr zero_options),
     cn_mountutil = calm_mountutil, cn_unified = True, cn_group_path = (\<lambda>_. Inr []), cn_load2 = (\<lambda>_. Inr 0),
     cn_load1 = (\<lambda>_. Inr 0), cn_close = (\<lambda>_. None)\<rparr>"

definition calm_task :: task_env where
  "calm_task = \<lparr>te_cont = calm_cont, te_connect = (\<lambda>_ _. Inr None), te_spec = (\<lambda>_. Inr None),
     te_ps = (\<lambda>_. Inr [42]), te_details = Inr, te_stats = (\<lambda>_. CgroupOther), te_marshal = Inr, te_getpid = 1\<rparr>"

text \<open>The same surroundings for an exec, whose pid file holds another pid.\<close>

definition calm_exec :: task_env where
  "calm_exec = calm_task\<lparr>te_cont := calm_cont\<lparr>cn_proc := calm_env\<lparr>x_read_pid := (\<lambda>_. Inr 43)\<rparr>\<rparr>\<rparr>"

definition demo_create :: create_request where
  "demo_create = \<lparr>cr_ID = ''c1'', cr_Bundle = ''/b'', cr_Rootfs = [], cr_Terminal = False, cr_Stdin = [],
     cr_Stdout = [], cr_Stderr = [], cr_Checkpoint = [], cr_ParentCheckpoint = [], cr_Options = None\<rparr>"

definition demo_exec :: exec_request where
  "demo_exec = \<lparr>er_ExecID = ''e1'', er_Terminal = False, er_Stdin = [], er_Stdout = [], er_Stderr = [], er_Spec = Some []\<rparr>"

definition ret_or :: "'a \<Rightarrow> 'a outcome \<Rightarrow> 'a" where
  "ret_or d m = (case m of Ret x \<Rightarrow> x | Panic _ \<Rightarrow> d)"

lemma ret_or_eq: "\<not> panics m \<Longrightarrow> m = Ret (ret_or d m)"
  by (cases m) (simp_all add: ret_or_def)

definition svc0 :: vm_service where
  "svc0 = \<lparr>sv_world = \<lparr>w_conts = [], w_execs = [], w_streams = one_conn\<rparr>, sv_containers = [], sv_waiters = [],
     sv_running = [], sv_runningExecs = [], sv_execCountSubs = [], sv_initExit = [],
     sv_exitSubs = [], sv_next_sub = 0, sv_oom = [], sv_events = [], sv_shutdown = False\<rparr>"

lemma svc0_new: "new_service True None None one_conn = Inr svc0"
  by (simp add: new_service_def svc0_def)

definition demo_init :: init_proc where
  "demo_init = (newInit ''/b'' (path_join [''/b'', ''work'']) (create_config demo_create) zero_options [])
     \<lparr>ip_io := Some \<lparr>pio_io = Some NullIO, pio_uri = None, pio_copy = False, pio_stdio = null_stdio,
                     pio_streams = (None, None, None)\<rparr>,
      ip_calls := [RtCreate ''c1''], ip_pid := 42\<rparr>"

definition demo_ct :: container where
  "demo_ct = \<lparr>ct_ID = ''c1'', ct_Bundle = ''/b'', ct_cgroup = Some 0, ct_process = demo_init,
     ct_processes = [], ct_reserved = []\<rparr>"

lemma demo_NewContainer: "NewContainer calm_cont demo_create one_conn = ((Inr demo_ct, []), one_conn)"
  by (simp add: NewContainer_def request_options_def WriteOptions_def rootfs_premounted_def init_Create_def
      createIO_def stdio_IsNull_def then_step_def runtimeError_def icall_def init_pipes_def processIO_Copy_def
      init_pid_def loadProcessCgroup_def demo_create_def demo_ct_def demo_init_def calm_cont_def calm_env_def
      calm_io_def create_config_def newInit_def process_New_def null_stdio_def zero_options_def Let_def)

definition demo_e :: exec_proc where
  "demo_e = new_exec\<lparr>ep_path := ''/b'', ep_id := ''e1''\<rparr>"

definition demo_e1 :: exec_proc where
  "demo_e1 = demo_e\<lparr>ep_state := ExecRunning, ep_pid := 43, ep_calls := [RtExec ''c1''],
     ep_io := Some \<lparr>pio_io = Some NullIO, pio_uri = None, pio_copy = False, pio_stdio = null_stdio,
                     pio_streams = (None, None, None)\<rparr>\<rparr>"

lemma demo_Init_Exec: "Init_Exec calm_env ''/b'' (exec_config demo_exec) demo_init = Ret (Inr demo_e)"
  by (simp add: Init_Exec_def init_exec_def demo_init_def newInit_def process_New_def demo_exec_def exec_config_def
      demo_e_def new_exec_def null_stdio_def calm_env_def create_config_def)

lemma demo_Exec_Start:
  "Exec_Start (calm_env\<lparr>x_read_pid := (\<lambda>_. Inr 43)\<rparr>) demo_init demo_e one_conn = Ret ((None, demo_e1), one_conn)"
  by (simp add: Exec_Start_def exec_start_def demo_e_def new_exec_def demo_e1_def createIO_def stdio_IsNull_def
      exec_run_def ecall_def then_step_def exec_pipes_def processIO_Copy_def exec_pid_def lift_step_def exec_goto_def
      null_stdio_def calm_env_def calm_io_def Let_def demo_init_def newInit_def process_New_def create_config_def
      demo_create_def)

definition demo_w1 :: vm_world where
  "demo_w1 = \<lparr>w_conts = [demo_ct], w_execs = [], w_streams = one_conn\<rparr>"

definition demo_w2 :: vm_world where
  "demo_w2 = \<lparr>w_conts = [demo_ct\<lparr>ct_processes := [(''e1'', 0)]\<rparr>], w_execs = [demo_e], w_streams = one_conn\<rparr>"

definition demo_w3 :: vm_world where
  "demo_w3 = demo_w2\<lparr>w_execs := [demo_e1]\<rparr>"

definition sA :: vm_service where
  "sA = svc0\<lparr>sv_exitSubs := [(0, [])], sv_next_sub := 1\<rparr>"

definition sB :: vm_service where
  "sB = sA\<lparr>sv_world := demo_w1, sv_containers := [(''c1'', 0)], sv_waiters := [(''c1'', None)],
     sv_events := [TaskCreate ''c1'' ''/b'' (to_uint32 42)]\<rparr>"

definition sC :: vm_service where
  "sC = sB\<lparr>sv_exitSubs := [], sv_running := [(42, [\<lparr>cp_container = 0, cp_process = PInit\<rparr>])]\<rparr>"

definition sD :: vm_service where
  "sD = sC\<lparr>sv_world := demo_w2, sv_events := sv_events sC @ [TaskExecAdded ''c1'' ''e1'']\<rparr>"

definition sE :: vm_service where
  "sE = sD\<lparr>sv_runningExecs := [(0, 1)], sv_exitSubs := [(1, [])], sv_next_sub := 2\<rparr>"

definition sF :: vm_service where
  "sF = sE\<lparr>sv_world := demo_w3, sv_exitSubs := [], sv_events := sv_events sE @ [TaskExecStarted ''c1'' ''e1'' (to_uint32 43)],
     sv_running := [(42, [\<lparr>cp_container = 0, cp_process = PInit\<rparr>]), (43, [\<lparr>cp_container = 0, cp_process = PExec 0\<rparr>])]\<rparr>"

lemmas demo_defs = svc0_def sA_def sB_def sC_def sD_def sE_def sF_def demo_w1_def demo_w2_def demo_w3_def

lemma demo_ct_simps [simp]:
  "ct_ID demo_ct = ''c1''" "ct_Bundle demo_ct = ''/b''" "ct_process demo_ct = demo_init" "ct_processes demo_ct = []"
  "ct_reserved demo_ct = []" "ct_cgroup demo_ct = Some 0" "ip_pid demo_init = 42"
  "cr_ID demo_create = ''c1''" "cr_Bundle demo_create = ''/b''" "er_ExecID demo_exec = ''e1''"
  "ep_id demo_e = ''e1''" "ep_pid demo_e1 = 43"
  by (simp_all add: demo_ct_def demo_init_def demo_create_def demo_exec_def demo_e_def demo_e1_def)

text \<open>The states of the run are regular.\<close>

lemmas regular_simps = reg_step_def regular_def noted_exits_def gm_list_def cont_def

lemma step_create_begin: "proto_step (svc0, []) (sA, [Creating 0])"
  by (rule proto_step.create_begin) (simp add: preStart_def demo_defs)

lemma step_create_done: "proto_step (sA, [Creating 0]) (sB, [Announced 0 0 PInit])"
proof -
  have N: "NewContainer (te_cont calm_task) demo_create (w_streams (sv_world sA)) = ((Inr demo_ct, []), one_conn)"
    by (simp add: calm_task_def demo_defs demo_NewContainer)
  have C: "te_connect calm_task (cr_Bundle demo_create) (ip_pid (ct_process demo_ct)) = Inr None"
    by (simp add: calm_task_def)
  have "proto_step (sA, [] @ Creating 0 # [])
     (send (TaskCreate (cr_ID demo_create) (cr_Bundle demo_create) (to_uint32 (ip_pid (ct_process demo_ct))))
       (sA\<lparr>sv_world := (sv_world sA)\<lparr>w_conts := w_conts (sv_world sA) @ [demo_ct], w_streams := one_conn\<rparr>,
           sv_waiters := gm_put (cr_ID demo_create) None (sv_waiters sA),
           sv_containers := gm_put (cr_ID demo_create) (length (w_conts (sv_world sA))) (sv_containers sA)\<rparr>),
      [] @ Announced 0 (length (w_conts (sv_world sA))) PInit # [])"
    by (rule proto_step.create_done [OF N C refl refl])
  then show ?thesis by (simp add: send_def demo_defs)
qed

lemma step_announced_init: "proto_step (sB, [Announced 0 0 PInit]) (sC, [])"
proof -
  have "end_start 0 0 (Some PInit) sB = ([], sC)"
    by (simp add: end_start_def cont_def demo_defs gm_list_def)
  from proto_step.announced_end [OF this, of "[]" "[]"] show ?thesis by simp
qed

lemma step_exec: "proto_step (sC, []) (sD, [])"
proof (rule proto_step.exec_request)
  show "task_Exec calm_task ''c1'' demo_exec sC = Ret (None, sD)"
    using demo_Init_Exec
    by (simp add: task_Exec_def getContainer_def ReserveProcess_def Container_Exec_def upd_cont_def cont_def
        ProcessAdd_def calm_task_def calm_cont_def upd_world_def send_def demo_defs Let_def)
qed

lemma step_start_request: "proto_step (sD, []) (sD, [Requested 0 ''e1''])"
  by (rule proto_step.start_request [of "''c1''"]) (simp add: getContainer_def demo_defs)

lemma step_start_begin: "proto_step (sD, [Requested 0 ''e1'']) (sE, [Starting 1 0 ''e1''])"
proof -
  have "start_begin 0 ''e1'' sD = Inr (1, sE)" by (simp add: start_begin_def preStart_def gm_int_def demo_defs)
  from proto_step.start_begin [OF this, of "[]" "[]"] show ?thesis by simp
qed

lemma step_start_ok: "proto_step (sE, [Starting 1 0 ''e1'']) (sE\<lparr>sv_world := demo_w3\<rparr>, [StartedOK 1 0 ''e1'' (PExec 0)])"
proof -
  have "start_run calm_exec 0 ''e1'' sE = Ret ((Some (PExec 0), None), sE\<lparr>sv_world := demo_w3\<rparr>)"
    using demo_Exec_Start
    by (simp add: start_run_def Container_Start_def Container_Process_def cont_def upd_exec_def upd_world_def
        load_cgroup_if_missing_def calm_exec_def calm_task_def calm_cont_def demo_defs)
  from proto_step.start_ok [OF this, of "[]" 1 "[]"] show ?thesis by simp
qed

lemma step_announce:
  "proto_step (sE\<lparr>sv_world := demo_w3\<rparr>, [StartedOK 1 0 ''e1'' (PExec 0)])
     (sE\<lparr>sv_world := demo_w3, sv_events := sv_events sE @ [TaskExecStarted ''c1'' ''e1'' (to_uint32 43)]\<rparr>, [Announced 1 0 (PExec 0)])"
  using proto_step.announce [of "sE\<lparr>sv_world := demo_w3\<rparr>" "[]" 1 0 "''e1''" "PExec 0" "[]"]
  by (simp add: start_announce_def cont_def send_def demo_defs)

lemma step_announced_exec:
  "proto_step (sE\<lparr>sv_world := demo_w3, sv_events := sv_events sE @ [TaskExecStarted ''c1'' ''e1'' (to_uint32 43)]\<rparr>,
     [Announced 1 0 (PExec 0)]) (sF, [])" (is "proto_step (?s, _) _")
proof -
  have "end_start 1 0 (Some (PExec 0)) ?s = ([], sF)"
    by (simp add: end_start_def demo_defs gm_list_def)
  from proto_step.announced_end [OF this, of "[]" "[]"] show ?thesis by simp
qed

lemma regular_announced:
  "regular (sB, [Announced 0 0 PInit])"
  "regular (sE\<lparr>sv_world := demo_w3, sv_events := sv_events sE @ [TaskExecStarted ''c1'' ''e1'' (to_uint32 43)]\<rparr>,
     [Announced 1 0 (PExec 0)])"
  by (simp_all add: regular_simps demo_defs)

lemma run_to_D: "reg_step\<^sup>*\<^sup>* (svc0, []) (sD, [])"
proof -
  have "reg_step (svc0, []) (sA, [Creating 0])" "reg_step (sA, [Creating 0]) (sB, [Announced 0 0 PInit])"
    "reg_step (sB, [Announced 0 0 PInit]) (sC, [])" "reg_step (sC, []) (sD, [])"
    using step_create_begin step_create_done step_announced_init step_exec regular_announced(1)
    by (simp_all add: reg_step_def regular_def)
  then show ?thesis by (meson converse_rtranclp_into_rtranclp rtranclp.rtrancl_refl)
qed

lemma run_to_F: "reg_step\<^sup>*\<^sup>* (svc0, []) (sF, [])"
proof -
  let ?s = "sE\<lparr>sv_world := demo_w3, sv_events := sv_events sE @ [TaskExecStarted ''c1'' ''e1'' (to_uint32 43)]\<rparr>"
  have "reg_step (sD, []) (sD, [Requested 0 ''e1''])"
    "reg_step (sD, [Requested 0 ''e1'']) (sE, [Starting 1 0 ''e1''])"
    "reg_step (sE, [Starting 1 0 ''e1'']) (sE\<lparr>sv_world := demo_w3\<rparr>, [StartedOK 1 0 ''e1'' (PExec 0)])"
    "reg_step (sE\<lparr>sv_world := demo_w3\<rparr>, [StartedOK 1 0 ''e1'' (PExec 0)]) (?s, [Announced 1 0 (PExec 0)])"
    "reg_step (?s, [Announced 1 0 (PExec 0)]) (sF, [])"
    using step_start_request step_start_begin step_start_ok step_announce step_announced_exec regular_announced(2)
    by (simp_all add: reg_step_def regular_def)
  with run_to_D show ?thesis by (meson rtranclp.rtrancl_into_rtrancl)
qed

definition e42 :: exit_event where
  "e42 = \<lparr>ex_Pid = 42, ex_Status = 0\<rparr>"

definition e43 :: exit_event where
  "e43 = \<lparr>ex_Pid = 43, ex_Status = 137\<rparr>"

definition sG :: vm_service where
  "sG = sF\<lparr>sv_running := [(43, [\<lparr>cp_container = 0, cp_process = PExec 0\<rparr>])], sv_initExit := [(0, e42)]\<rparr>"

definition sH :: vm_service where
  "sH = (kill_rest calm_task 0 sG)\<lparr>sv_execCountSubs := [(0, \<lparr>ch_cap = 1, ch_buf = []\<rparr>)]\<rparr>"

definition sI :: vm_service where
  "sI = sH\<lparr>sv_running := []\<rparr>"

definition sJ :: vm_service where
  "sJ = ret_or sI (exit_publish calm_task e43 0 (PExec 0) sI)"

lemma sG_simps [simp]:
  "sv_running sG = [(43, [\<lparr>cp_container = 0, cp_process = PExec 0\<rparr>])]" "sv_runningExecs sG = [(0, 1)]"
  "sv_exitSubs sG = []" "sv_initExit sG = [(0, e42)]" "sv_execCountSubs sG = []"
  by (simp_all add: sG_def demo_defs)

lemma sH_simps [simp]:
  "sv_running sH = [(43, [\<lparr>cp_container = 0, cp_process = PExec 0\<rparr>])]" "sv_runningExecs sH = [(0, 1)]"
  "sv_exitSubs sH = []" "sv_initExit sH = [(0, e42)]"
  "sv_execCountSubs sH = [(0, \<lparr>ch_cap = 1, ch_buf = []\<rparr>)]"
  using kill_rest_same [of sG calm_task 0] by (simp_all add: sH_def same_proto_def)

lemma step_reap_init: "proto_step (sF, []) (sG, [InitExiting e42 0])"
proof -
  have "take_exit e42 sF = ([\<lparr>cp_container = 0, cp_process = PInit\<rparr>], sG)"
    by (simp add: take_exit_def gm_list_def sG_def e42_def demo_defs)
  from proto_step.reaped [OF this, of "[]"] show ?thesis by (simp add: exit_thread_def e42_def)
qed

lemma step_init_wait: "proto_step (sG, [InitExiting e42 0]) (sH, [Awaiting e42 0])"
proof -
  have "init_exit_begin 0 (kill_rest calm_task 0 sG) = Ret (WaitForExecs, sH)"
    using kill_rest_same [of sG calm_task 0]
    by (simp add: init_exit_begin_def gm_int_def same_proto_def sH_def)
  from proto_step.init_wait [OF this, of "[]" e42 "[]"] show ?thesis by simp
qed

lemma step_reap_exec: "proto_step (sH, [Awaiting e42 0]) (sI, [Exiting e43 0 (PExec 0), Awaiting e42 0])"
proof -
  have "take_exit e43 sH = ([\<lparr>cp_container = 0, cp_process = PExec 0\<rparr>], sI)"
    by (simp add: take_exit_def gm_list_def sI_def e43_def)
  from proto_step.reaped [OF this, of "[Awaiting e42 0]"] show ?thesis by (simp add: exit_thread_def e43_def)
qed

lemma demo_publish: "exit_publish calm_task e43 0 (PExec 0) sI = Ret sJ"
proof -
  have w: "w_execs (sv_world sI) = [demo_e1]"
    by (simp add: sI_def sH_def kill_rest_def upd_world_def upd_init_def upd_cont_def sG_def demo_defs Let_def)
  have "\<exists>f. Exec_SetExited calm_env 137 demo_e1 = Ret f"
    by (simp add: Exec_SetExited_def exec_setExited_def exec_stop_or_panic_def exec_goto_def ecall_def
        demo_e1_def demo_e_def new_exec_def)
  with w have "\<not> panics (exit_publish calm_task e43 0 (PExec 0) sI)"
    by (auto simp: exit_publish_def calm_task_def calm_cont_def e43_def)
  from ret_or_eq [OF this, of sI] show ?thesis by (simp add: sJ_def)
qed

lemma sJ_simps [simp]:
  "sv_running sJ = []" "sv_runningExecs sJ = [(0, 1)]" "sv_execCountSubs sJ = [(0, \<lparr>ch_cap = 1, ch_buf = []\<rparr>)]"
  using exit_publish_same [OF demo_publish] by (simp_all add: same_proto_def sI_def)

lemma step_publish: "proto_step (sI, [Exiting e43 0 (PExec 0), Awaiting e42 0]) (sJ, [Uncounting 0, Awaiting e42 0])"
  using proto_step.publish [OF demo_publish, of "[]" "[Awaiting e42 0]"] by simp

lemma step_count_down: "proto_step (sJ, [Uncounting 0, Awaiting e42 0]) (uncount 0 sJ, [Awaiting e42 0])"
  using proto_step.count_down [of sJ "[]" 0 "[Awaiting e42 0]"] by simp

lemma run_to_H: "reg_step\<^sup>*\<^sup>* (svc0, []) (sH, [Awaiting e42 0])"
proof -
  have "reg_step (sF, []) (sG, [InitExiting e42 0])" "reg_step (sG, [InitExiting e42 0]) (sH, [Awaiting e42 0])"
    using step_reap_init step_init_wait by (simp_all add: reg_step_def regular_def)
  with run_to_F show ?thesis by (meson rtranclp.rtrancl_into_rtrancl)
qed

lemma run_to_K: "reg_step\<^sup>*\<^sup>* (svc0, []) (uncount 0 sJ, [Awaiting e42 0])"
proof -
  have "reg_step (sH, [Awaiting e42 0]) (sI, [Exiting e43 0 (PExec 0), Awaiting e42 0])"
    "reg_step (sI, [Exiting e43 0 (PExec 0), Awaiting e42 0]) (sJ, [Uncounting 0, Awaiting e42 0])"
    "reg_step (sJ, [Uncounting 0, Awaiting e42 0]) (uncount 0 sJ, [Awaiting e42 0])"
    using step_reap_exec step_publish step_count_down by (simp_all add: reg_step_def regular_def)
  with run_to_H show ?thesis by (meson rtranclp.rtrancl_into_rtrancl)
qed

lemma sK_chan: "gm_get (sv_execCountSubs (uncount 0 sJ)) 0 = Some \<lparr>ch_cap = 1, ch_buf = [0]\<rparr>"
  "sv_running (uncount 0 sJ) = []"
  by (simp_all add: uncount_def gm_int_def)

section \<open>Witnesses\<close>

theorem exec_count_exact_witness:
  "gm_int (sv_runningExecs sH) 0 = int (live (sH, [Awaiting e42 0]) 0) \<and> live (sH, [Awaiting e42 0]) 0 = 1"
  using exec_count_exact [OF svc0_new run_to_H, of 0] by (simp add: live_def exec_of_def)

theorem init_exit_published_last_witness:
  "Awaiting e42 0 \<in> set [Awaiting e42 0] \<and> execs_done 0 (uncount 0 sJ)
   \<and> live (uncount 0 sJ, [Awaiting e42 0]) 0 = 0"
proof -
  have "execs_done 0 (uncount 0 sJ)" by (simp add: execs_done_def sK_chan)
  with init_exit_published_last [OF svc0_new run_to_K _ rtranclp.rtrancl_refl, of e42 0] show ?thesis by simp
qed

theorem exec_chan_has_room_witness:
  "length ([] :: int list) + live (sH, [Awaiting e42 0]) 0 \<le> 1 \<and> live (sH, [Awaiting e42 0]) 0 = 1"
  using exec_chan_has_room [OF svc0_new run_to_H, of 0] by (simp add: live_def exec_of_def)

theorem init_exit_wakes_witness: "execs_done 0 (uncount 0 sJ)"
  by (rule init_exit_wakes [OF svc0_new run_to_K sK_chan(1)]) (simp add: live_def sK_chan)

theorem double_start_panics_witness:
  "\<exists>r s1 s2 v. task_Start calm_exec ''c1'' ''e1'' (sF\<lparr>sv_waiters := []\<rparr>) = Ret (Inl r, s1)
     \<and> processExits calm_exec e43 s1 = Ret s2
     \<and> sv_events s2 = sv_events (sF\<lparr>sv_waiters := []\<rparr>) @ [v, v] \<and> gm_int (sv_runningExecs s2) 0 = -1
     \<and> panics (handleInitExit calm_task e42 0 s2)"
  by (rule double_start_panics [where x = 0])
     (simp_all add: getContainer_def cont_def demo_defs e43_def demo_e1_def demo_e_def new_exec_def gm_list_def gm_int_def)

theorem early_init_exit_not_last_witness:
  "\<exists>s'. handleStarted calm_task 5 0 (Some PInit) (sF\<lparr>sv_exitSubs := [(5, [(42, [e42])])]\<rparr>) = Ret s'
     \<and> gm_int (sv_runningExecs s') 0 = 1 \<and> gm_get (sv_initExit s') 0 = None"
proof -
  let ?s = "sF\<lparr>sv_exitSubs := [(5, [(42, [e42])])]\<rparr>"
  have "\<exists>s' i tm. handleStarted calm_task 5 0 (Some PInit) ?s = Ret s'
     \<and> sv_events s' = sv_events ?s @ [TaskExit (ct_ID (cont (sv_world ?s) 0)) i (to_uint32 (ex_Pid e42)) (to_uint32 (ex_Status e42)) tm]
     \<and> sv_runningExecs s' = sv_runningExecs ?s \<and> sv_initExit s' = sv_initExit ?s"
    by (rule early_init_exit_not_last [where m = "[(42, [e42])]"])
       (simp_all add: Container_Pid_def cont_def demo_defs init_ok_def alive_def demo_init_def newInit_def process_New_def)
  then show ?thesis by (auto simp: demo_defs gm_int_def)
qed

end
