(* ===== verification/Sandbox.thy ===== *)
theory Sandbox
  imports Streaming
begin

text \<open>
  The sandbox of the shim: its options (\<open>internal/shim/sandbox/sandbox.go\<close>) and the sandbox backed
  by a VM (\<open>internal/shim/sandbox/vm/vm.go\<close>). The VM instance is the interface \<open>vm.Instance\<close> of
  \<open>pkg/vm\<close>: the outcomes of its calls are given by \<open>vmm_env\<close> and the calls made are recorded.
\<close>

unbundle bit_operations_syntax

section \<open>Options\<close>

record Filesystem =
  fs_Tag :: string
  fs_MountPath :: string
  fs_Readonly :: bool

type_synonym DiskFlags = "8 word"

definition DiskFlagReadonly :: DiskFlags where
  "DiskFlagReadonly = 1"

definition DiskFlagVMDK :: DiskFlags where
  "DiskFlagVMDK = 2"

record Disk =
  d_BlockID :: string
  d_MountPath :: string
  d_Flags :: DiskFlags

type_synonym hwaddr = "8 word list"

record NIC =
  nic_Endpoint :: string
  nic_MAC :: hwaddr
  nic_Mode :: int
  nic_Features :: "32 word"
  nic_Flags :: "32 word"

record sb_options =
  o_Filesystems :: "Filesystem list"
  o_Disks :: "Disk list"
  o_NICs :: "NIC list"
  o_StateDir :: string
  o_InitArgs :: "string list"
  o_CPU :: "8 word"
  o_Memory :: "32 word"

datatype sb_opt =
    WithFS string string bool
  | WithDisk string string DiskFlags
  | WithNIC string hwaddr int "32 word" "32 word"
  | WithStateDir string
  | WithInitArgs "string list"
  | WithResources "8 word" "32 word"

fun apply_opt :: "sb_opt \<Rightarrow> sb_options \<Rightarrow> sb_options" where
  "apply_opt (WithFS tag path ro) o1 =
     o1\<lparr>o_Filesystems := o_Filesystems o1 @ [\<lparr>fs_Tag = tag, fs_MountPath = path, fs_Readonly = ro\<rparr>]\<rparr>"
| "apply_opt (WithDisk bid path flags) o1 =
     o1\<lparr>o_Disks := o_Disks o1 @ [\<lparr>d_BlockID = bid, d_MountPath = path, d_Flags = flags\<rparr>]\<rparr>"
| "apply_opt (WithNIC ep mac mode features flags) o1 =
     o1\<lparr>o_NICs := o_NICs o1 @ [\<lparr>nic_Endpoint = ep, nic_MAC = mac, nic_Mode = mode, nic_Features = features,
                              nic_Flags = flags\<rparr>]\<rparr>"
| "apply_opt (WithStateDir dir) o1 = o1\<lparr>o_StateDir := dir\<rparr>"
| "apply_opt (WithInitArgs args) o1 = o1\<lparr>o_InitArgs := o_InitArgs o1 @ args\<rparr>"
| "apply_opt (WithResources cpu mem) o1 = o1\<lparr>o_CPU := cpu, o_Memory := mem\<rparr>"

definition zero_sb_options :: sb_options where
  "zero_sb_options = \<lparr>o_Filesystems = [], o_Disks = [], o_NICs = [], o_StateDir = [], o_InitArgs = [],
     o_CPU = 0, o_Memory = 0\<rparr>"

definition apply_opts :: "sb_opt list \<Rightarrow> sb_options" where
  "apply_opts opts = fold apply_opt opts zero_sb_options"

section \<open>The VM backed sandbox\<close>

datatype vm_call =
    VNewInstance string
  | VAddDisk string string bool bool
  | VAddFS string string bool
  | VAddNIC string hwaddr int "32 word" "32 word"
  | VSetCPUAndMemory "8 word" "32 word"
  | VStart "string list"
  | VShutdown

record vmm_env =
  ve_new :: "string \<Rightarrow> nat result"
  ve_disk :: "Disk \<Rightarrow> go_error option"
  ve_fs :: "Filesystem \<Rightarrow> go_error option"
  ve_nic :: "NIC \<Rightarrow> go_error option"
  ve_resources :: "go_error option"
  ve_start :: "go_error option"
  ve_shutdown :: "go_error option"

record localsandbox =
  sb_instance :: "nat option"
  sb_calls :: "vm_call list"

definition NewVMSandbox :: localsandbox where
  "NewVMSandbox = \<lparr>sb_instance = None, sb_calls = []\<rparr>"

text \<open>A loop that calls a method for each element and stops at the first error.\<close>

fun call_each :: "('a \<Rightarrow> go_error option) \<Rightarrow> ('a \<Rightarrow> vm_call) \<Rightarrow> 'a list \<Rightarrow> go_error option \<times> vm_call list" where
  "call_each f g [] = (None, [])"
| "call_each f g (x # xs) =
     (case f x of
        Some e \<Rightarrow> (Some e, [g x])
      | None \<Rightarrow> (case call_each f g xs of (r, cs) \<Rightarrow> (r, g x # cs)))"

definition disk_call :: "Disk \<Rightarrow> vm_call" where
  "disk_call d = VAddDisk (d_BlockID d) (d_MountPath d) (d_Flags d AND DiskFlagReadonly \<noteq> 0)
                   (d_Flags d AND DiskFlagVMDK \<noteq> 0)"

definition fs_call :: "Filesystem \<Rightarrow> vm_call" where
  "fs_call f = VAddFS (fs_Tag f) (fs_MountPath f) (fs_Readonly f)"

definition nic_call :: "NIC \<Rightarrow> vm_call" where
  "nic_call n = VAddNIC (nic_Endpoint n) (nic_MAC n) (nic_Mode n) (nic_Features n) (nic_Flags n)"

definition resources_calls :: "vmm_env \<Rightarrow> sb_options \<Rightarrow> go_error option \<times> vm_call list" where
  "resources_calls env o1 =
     (if o_CPU o1 > 0 \<and> o_Memory o1 > 0 then (ve_resources env, [VSetCPUAndMemory (o_CPU o1) (o_Memory o1)])
      else if o_CPU o1 > 0 \<or> o_Memory o1 > 0 then
        (Some (ErrWrap ''both CPU and Memory must be set'' (Errdef ErrInvalidArgument)), [])
      else (None, []))"

text \<open>The calls on the new instance, in order, up to the first error.\<close>

fun seq_calls :: "(go_error option \<times> vm_call list) list \<Rightarrow> go_error option \<times> vm_call list" where
  "seq_calls [] = (None, [])"
| "seq_calls ((Some e, cs) # rest) = (Some e, cs)"
| "seq_calls ((None, cs) # rest) = (case seq_calls rest of (r, ds) \<Rightarrow> (r, cs @ ds))"

definition configure :: "vmm_env \<Rightarrow> sb_options \<Rightarrow> go_error option \<times> vm_call list" where
  "configure env o1 =
     seq_calls [call_each (ve_disk env) disk_call (o_Disks o1),
                call_each (ve_fs env) fs_call (o_Filesystems o1),
                call_each (ve_nic env) nic_call (o_NICs o1),
                resources_calls env o1,
                (ve_start env, [VStart (o_InitArgs o1)])]"

definition sandbox_Start :: "vmm_env \<Rightarrow> sb_opt list \<Rightarrow> localsandbox \<Rightarrow> go_error option \<times> localsandbox" where
  "sandbox_Start env opts s =
     (if sb_instance s \<noteq> None then (Some (Errdef ErrFailedPrecondition), s)
      else let o1 = apply_opts opts
           in if o_StateDir o1 = [] then
                (Some (ErrWrap ''state directory is required'' (Errdef ErrInvalidArgument)), s)
              else let s1 = s\<lparr>sb_calls := sb_calls s @ [VNewInstance (o_StateDir o1)]\<rparr>
                   in case ve_new env (o_StateDir o1) of
                        Inl e \<Rightarrow> (Some e, s1)
                      | Inr vmi \<Rightarrow>
                          (case configure env o1 of
                             (Some e, cs) \<Rightarrow> (Some e, s1\<lparr>sb_calls := sb_calls s1 @ cs\<rparr>)
                           | (None, cs) \<Rightarrow> (None, s1\<lparr>sb_calls := sb_calls s1 @ cs, sb_instance := Some vmi\<rparr>)))"

definition sandbox_Stop :: "vmm_env \<Rightarrow> localsandbox \<Rightarrow> go_error option \<times> localsandbox" where
  "sandbox_Stop env s =
     (if sb_instance s = None then (Some (Errdef ErrFailedPrecondition), s)
      else let s1 = s\<lparr>sb_calls := sb_calls s @ [VShutdown]\<rparr>
           in case ve_shutdown env of
                Some e \<Rightarrow> (Some e, s1)
              | None \<Rightarrow> (None, s1\<lparr>sb_instance := None\<rparr>))"

definition sandbox_Client :: "localsandbox \<Rightarrow> nat result" where
  "sandbox_Client s =
     (case sb_instance s of None \<Rightarrow> Inl (Errdef ErrFailedPrecondition) | Some vmi \<Rightarrow> Inr vmi)"

definition sandbox_StartStream :: "(string \<Rightarrow> 'c result) \<Rightarrow> string \<Rightarrow> localsandbox \<Rightarrow> 'c result" where
  "sandbox_StartStream start sid s =
     (if sb_instance s = None then Inl (Errdef ErrFailedPrecondition) else start sid)"

section \<open>Interface\<close>

text \<open>
  The contract in the comment of \<open>sandbox.Sandbox\<close>: a single instance; starting a started sandbox, and
  using or stopping one that is not started, is a precondition error that changes nothing.
\<close>

locale sandbox_contract =
  fixes start :: "'e \<Rightarrow> 'o \<Rightarrow> 's \<Rightarrow> go_error option \<times> 's"
    and stop :: "'e \<Rightarrow> 's \<Rightarrow> go_error option \<times> 's"
    and client :: "'s \<Rightarrow> 'c result"
    and running :: "'s \<Rightarrow> bool"
  assumes start_running: "running s \<Longrightarrow> start e o1 s = (Some (Errdef ErrFailedPrecondition), s)"
    and start_ok: "start e o1 s = (r, s') \<Longrightarrow> \<not> running s \<Longrightarrow> running s' \<longleftrightarrow> r = None"
    and stop_stopped: "\<not> running s \<Longrightarrow> stop e s = (Some (Errdef ErrFailedPrecondition), s)"
    and stop_ok: "stop e s = (r, s') \<Longrightarrow> running s \<Longrightarrow> running s' \<longleftrightarrow> r \<noteq> None"
    and client_stopped: "\<not> running s \<Longrightarrow> client s = Inl (Errdef ErrFailedPrecondition)"
    and client_running: "running s \<Longrightarrow> \<exists>c. client s = Inr c"
begin

lemma start_then_client: "start e o1 s = (None, s') \<Longrightarrow> \<exists>c. client s' = Inr c"
  using start_running [of s e o1] start_ok [of e o1 s None s'] client_running by (cases "running s") auto

lemma stop_then_start:
  "stop e s = (None, s') \<Longrightarrow> running s \<and> \<not> running s' \<and> client s' = Inl (Errdef ErrFailedPrecondition)"
  using stop_stopped [of s e] stop_ok [of e s None s'] client_stopped by (cases "running s") auto

lemma client_iff_running: "(\<exists>c. client s = Inr c) \<longleftrightarrow> running s"
  using client_running client_stopped by (cases "running s") auto

end

interpretation vm_sandbox: sandbox_contract sandbox_Start sandbox_Stop sandbox_Client "\<lambda>s. sb_instance s \<noteq> None"
  by unfold_locales
     (auto simp: sandbox_Start_def sandbox_Stop_def sandbox_Client_def Let_def
       split: sum.splits option.splits if_splits prod.splits dest!: sym [of "Some _"])

section \<open>Order of the calls\<close>

fun opt_disks :: "sb_opt list \<Rightarrow> Disk list" where
  "opt_disks [] = []"
| "opt_disks (WithDisk bid path flags # opts) =
     \<lparr>d_BlockID = bid, d_MountPath = path, d_Flags = flags\<rparr> # opt_disks opts"
| "opt_disks (_ # opts) = opt_disks opts"

lemma opt_disks_append [simp]: "opt_disks (xs @ ys) = opt_disks xs @ opt_disks ys"
  by (induction xs rule: opt_disks.induct) auto

lemma fold_apply_disks: "o_Disks (fold apply_opt opts o1) = o_Disks o1 @ opt_disks opts"
proof (induction opts arbitrary: o1)
  case (Cons a opts)
  then show ?case by (cases a) auto
qed simp

lemma apply_opts_disks: "o_Disks (apply_opts opts) = opt_disks opts"
  by (simp add: apply_opts_def fold_apply_disks zero_sb_options_def)

lemma call_each_ok: "fst (call_each f g xs) = None \<Longrightarrow> snd (call_each f g xs) = map g xs"
  by (induction xs) (auto split: option.splits prod.splits)

lemma call_each_prefix: "prefix (snd (call_each f g xs)) (map g xs)"
  by (induction xs) (auto split: option.splits prod.splits)

lemma seq_calls_ok:
  "fst (seq_calls rs) = None \<longleftrightarrow> (\<forall>r\<in>set rs. fst r = None)"
  by (induction rs rule: seq_calls.induct) (auto split: prod.splits)

lemma seq_calls_all: "fst (seq_calls rs) = None \<Longrightarrow> snd (seq_calls rs) = concat (map snd rs)"
  by (induction rs rule: seq_calls.induct) (auto split: prod.splits)

lemma seq_calls_set: "\<forall>x\<in>set rs. v \<notin> set (snd x) \<Longrightarrow> v \<notin> set (snd (seq_calls rs))"
  by (induction rs rule: seq_calls.induct) (auto split: prod.splits)

lemma call_each_set: "\<forall>x. v \<noteq> g x \<Longrightarrow> v \<notin> set (snd (call_each f g xs))"
  using call_each_prefix [of f g xs] set_mono_prefix by fastforce

lemma configure_no_shutdown: "VShutdown \<notin> set (snd (configure env o1))"
  unfolding configure_def
  by (rule seq_calls_set)
     (simp add: call_each_set disk_call_def fs_call_def nic_call_def resources_calls_def)

lemma sandbox_Start_calls:
  assumes "sandbox_Start env opts s = (None, s')"
  shows "\<exists>res. sb_calls s' = sb_calls s @ VNewInstance (o_StateDir (apply_opts opts))
      # map disk_call (opt_disks opts) @ map fs_call (o_Filesystems (apply_opts opts))
      @ map nic_call (o_NICs (apply_opts opts)) @ res @ [VStart (o_InitArgs (apply_opts opts))]
    \<and> res \<in> {[], [VSetCPUAndMemory (o_CPU (apply_opts opts)) (o_Memory (apply_opts opts))]}"
proof -
  let ?o = "apply_opts opts"
  let ?rs = "[call_each (ve_disk env) disk_call (o_Disks ?o), call_each (ve_fs env) fs_call (o_Filesystems ?o),
    call_each (ve_nic env) nic_call (o_NICs ?o), resources_calls env ?o, (ve_start env, [VStart (o_InitArgs ?o)])]"
  from assms have ok: "fst (seq_calls ?rs) = None"
    and calls: "sb_calls s' = sb_calls s @ VNewInstance (o_StateDir ?o) # snd (seq_calls ?rs)"
    by (auto simp: sandbox_Start_def configure_def [symmetric] Let_def
        split: if_splits sum.splits prod.splits option.splits)
  from ok have "snd (seq_calls ?rs) = map disk_call (o_Disks ?o) @ map fs_call (o_Filesystems ?o)
      @ map nic_call (o_NICs ?o) @ snd (resources_calls env ?o) @ [VStart (o_InitArgs ?o)]"
    using seq_calls_all [OF ok] by (simp only: seq_calls_ok) (simp add: call_each_ok)
  then show ?thesis
    using calls by (auto simp: apply_opts_disks resources_calls_def)
qed

section \<open>Properties\<close>

text \<open>
  A start that fails after the VM instance was made leaves it behind: the sandbox does not keep
  the instance and never shuts it down, so the next start makes another.
\<close>

theorem failed_start_leaks_instance:
  assumes "sandbox_Start env opts s = (Some e, s')" and "sb_instance s = None"
    and "o_StateDir (apply_opts opts) \<noteq> []" and "ve_new env (o_StateDir (apply_opts opts)) = Inr vmi"
  shows "sb_instance s' = None \<and> (\<exists>cs. sb_calls s' = sb_calls s @ VNewInstance (o_StateDir (apply_opts opts)) # cs
           \<and> VShutdown \<notin> set cs)"
  using assms configure_no_shutdown [of env "apply_opts opts"]
  by (auto simp: sandbox_Start_def Let_def split: prod.splits option.splits)

definition calm_vmm :: vmm_env where
  "calm_vmm = \<lparr>ve_new = (\<lambda>_. Inr 0), ve_disk = (\<lambda>_. None), ve_fs = (\<lambda>_. None), ve_nic = (\<lambda>_. None),
     ve_resources = None, ve_start = None, ve_shutdown = None\<rparr>"

theorem failed_start_leaks_instance_witness:
  "\<exists>e s'. sandbox_Start (calm_vmm\<lparr>ve_start := Some (ErrNew ''boot'')\<rparr>) [WithStateDir ''/vm''] NewVMSandbox = (Some e, s')
     \<and> sb_instance s' = None \<and> VShutdown \<notin> set (sb_calls s') \<and> VNewInstance ''/vm'' \<in> set (sb_calls s')"
proof -
  let ?env = "calm_vmm\<lparr>ve_start := Some (ErrNew ''boot'')\<rparr>"
  obtain e s' where s: "sandbox_Start ?env [WithStateDir ''/vm''] NewVMSandbox = (Some e, s')"
    by (simp add: sandbox_Start_def apply_opts_def zero_sb_options_def configure_def calm_vmm_def
        resources_calls_def NewVMSandbox_def)
  from failed_start_leaks_instance [OF this, of 0] show ?thesis
    using s by (auto simp: NewVMSandbox_def apply_opts_def zero_sb_options_def calm_vmm_def)
qed

end
