(* ===== verification/Bundle.thy ===== *)
theory Bundle
  imports Sandbox
begin

text \<open>
  The OCI bundle on its way into the VM: loading and transforming it on the host
  (\<open>internal/shim/task/bundle/bundle.go\<close>, the resource and dump transformers of
  \<open>internal/shim/task/transformers.go\<close>) and writing its files in the VM
  (\<open>plugins/services/bundle/service.go\<close>).

  Of the runtime spec the fields the code reads are modelled; \<open>sp_Other\<close> stands for the rest, which
  is passed on as it is. The JSON codec and the file system are parameters. A transformer is a method
  with a receiver: it maps the receiver and the bundle.
\<close>

section \<open>The bundle\<close>

record spec_mount =
  sm_Destination :: string
  sm_Type :: string
  sm_Source :: string
  sm_Options :: "string list"

record spec =
  sp_Root :: "string option"
  sp_Mounts :: "spec_mount list"
  sp_Annotations :: "(string, string) gomap"
  sp_Other :: string

record Bundle =
  b_Path :: string
  b_Spec :: spec
  b_Rootfs :: string
  b_extraFiles :: "(string, string) gomap"

record bundle_env =
  bu_read :: "string \<Rightarrow> string result"
  bu_unmarshal :: "string \<Rightarrow> spec result"
  bu_marshal :: "spec \<Rightarrow> string result"

type_synonym 's transformer = "'s \<times> Bundle \<Rightarrow> go_error option \<times> ('s \<times> Bundle)"

definition resolveRootfsPath :: "Bundle \<Rightarrow> Bundle result" where
  "resolveRootfsPath b =
     (case sp_Root (b_Spec b) of
        None \<Rightarrow> Inl (ErrWrap ''root path not specified'' (Errdef ErrInvalidArgument))
      | Some p \<Rightarrow>
          Inr (b\<lparr>b_Rootfs := (if path_is_abs p then p else path_join [b_Path b, p]),
                 b_Spec := (b_Spec b)\<lparr>sp_Root := Some ''rootfs''\<rparr>\<rparr>))"

fun run_transformers :: "'s transformer list \<Rightarrow> 's transformer" where
  "run_transformers [] sb = (None, sb)"
| "run_transformers (t # ts) sb =
     (case t sb of (Some e, sb') \<Rightarrow> (Some e, sb') | (None, sb') \<Rightarrow> run_transformers ts sb')"

definition Load :: "bundle_env \<Rightarrow> string \<Rightarrow> 's transformer list \<Rightarrow> 's \<Rightarrow> ('s \<times> Bundle) result" where
  "Load env path ts s =
     (case bu_read env (path_join [path, ''config.json'']) of
        Inl e \<Rightarrow> Inl e
      | Inr specBytes \<Rightarrow>
          (case bu_unmarshal env specBytes of
             Inl e \<Rightarrow> Inl e
           | Inr sp \<Rightarrow>
               (case resolveRootfsPath \<lparr>b_Path = path, b_Spec = sp, b_Rootfs = [], b_extraFiles = []\<rparr> of
                  Inl e \<Rightarrow> Inl e
                | Inr b \<Rightarrow>
                    (case run_transformers ts (s, b) of (Some e, _) \<Rightarrow> Inl e | (None, sb) \<Rightarrow> Inr sb))))"

definition AddExtraFile :: "string \<Rightarrow> string \<Rightarrow> Bundle \<Rightarrow> Bundle" where
  "AddExtraFile name bytes b = b\<lparr>b_extraFiles := gm_put name bytes (b_extraFiles b)\<rparr>"

definition Files :: "bundle_env \<Rightarrow> Bundle \<Rightarrow> (string, string) gomap result" where
  "Files env b =
     (case bu_marshal env (b_Spec b) of
        Inl e \<Rightarrow> Inl (ErrWrap ''failed to marshal spec'' e)
      | Inr specBytes \<Rightarrow> Inr (gm_put ''config.json'' specBytes (b_extraFiles b)))"

section \<open>Resources and dump flag\<close>

definition resourcesAnnotation :: string where
  "resourcesAnnotation = ''io.containerd.nerdbox.resources''"

definition cpuAnnotation :: string where
  "cpuAnnotation = resourcesAnnotation @ ''.cpu''"

definition memAnnotation :: string where
  "memAnnotation = resourcesAnnotation @ ''.memory''"

record resourceConfig =
  rc_cpu :: "8 word"
  rc_mem :: "32 word"

definition annotations :: "Bundle \<Rightarrow> (string, string) gomap" where
  "annotations b = sp_Annotations (b_Spec b)"

definition delete_annotation :: "string \<Rightarrow> Bundle \<Rightarrow> Bundle" where
  "delete_annotation k b = b\<lparr>b_Spec := (b_Spec b)\<lparr>sp_Annotations := gm_del k (annotations b)\<rparr>\<rparr>"

text \<open>The loop over the annotations, in the order the range visits them.\<close>

fun resource_loop :: "(string \<times> string) list \<Rightarrow> resourceConfig transformer" where
  "resource_loop [] (r, b) = (None, (r, b))"
| "resource_loop ((k, v) # rest) (r, b) =
     (if k = cpuAnnotation then
        (case parse_uint v 8 of
           Inl e \<Rightarrow> (Some (ErrWrap (''failed to parse '' @ k @ ''='' @ v) e), (r, b))
         | Inr n \<Rightarrow> resource_loop rest (r\<lparr>rc_cpu := of_nat n\<rparr>, delete_annotation k b))
      else if k = memAnnotation then
        (case parse_uint v 32 of
           Inl e \<Rightarrow> (Some (ErrWrap (''failed to parse '' @ k @ ''='' @ v) e), (r, b))
         | Inr n \<Rightarrow> resource_loop rest (r\<lparr>rc_mem := of_nat n\<rparr>, delete_annotation k b))
      else resource_loop rest (r, b))"

definition resource_FromBundle :: "resourceConfig transformer" where
  "resource_FromBundle rb =
     (case rb of (r, b) \<Rightarrow>
        let r0 = r\<lparr>rc_cpu := 2, rc_mem := 2048\<rparr>
        in if annotations b = [] then (None, (r0, b))
           else case resource_loop (annotations b) (r0, b) of
                  (Some e, rb') \<Rightarrow> (Some e, rb')
                | (None, (r', b')) \<Rightarrow>
                    if rc_cpu r' = 0 \<or> rc_mem r' = 0 then
                      (Some (ErrNew ''cpu and memory must be greater than 0''), (r', b'))
                    else (None, (r', b')))"

definition resource_SandboxOpts :: "resourceConfig \<Rightarrow> sb_opt list" where
  "resource_SandboxOpts r = [WithResources (rc_cpu r) (rc_mem r)]"

definition dumpInfoAnnotation :: string where
  "dumpInfoAnnotation = ''io.containerd.nerdbox.dump-info''"

definition dumpInfo_FromBundle :: "bool transformer" where
  "dumpInfo_FromBundle db =
     (case db of (enabled, b) \<Rightarrow>
        (None, (fold (\<lambda>kv en. if fst kv = dumpInfoAnnotation then True else en) (annotations b) enabled, b)))"

definition dumpInfo_SandboxOpts :: "bool \<Rightarrow> sb_opt list" where
  "dumpInfo_SandboxOpts enabled = (if enabled then [WithInitArgs [''-dump-info'']] else [])"

section \<open>The bundle service of the VM\<close>

record guest_fs =
  gf_dirs :: "string list"
  gf_files :: "(string, string) gomap"

record guest_env =
  ge_mkdir :: "string \<Rightarrow> go_error option"
  ge_write :: "string \<Rightarrow> go_error option"

text \<open>\<open>os.Mkdir\<close> fails when the directory exists; other failures come from the environment.\<close>

definition os_Mkdir :: "guest_env \<Rightarrow> string \<Rightarrow> guest_fs \<Rightarrow> go_error option \<times> guest_fs" where
  "os_Mkdir env d g =
     (if d \<in> set (gf_dirs g) then (Some (Sentinel ''file exists''), g)
      else case ge_mkdir env d of
             Some e \<Rightarrow> (Some e, g)
           | None \<Rightarrow> (None, g\<lparr>gf_dirs := gf_dirs g @ [d]\<rparr>))"

fun write_files :: "guest_env \<Rightarrow> string \<Rightarrow> (string, string) gomap \<Rightarrow> guest_fs \<Rightarrow> go_error option \<times> guest_fs" where
  "write_files env d [] g = (None, g)"
| "write_files env d ((f, bytes) # fs) g =
     (case ge_write env (path_join [d, f]) of
        Some e \<Rightarrow> (Some e, g)
      | None \<Rightarrow> write_files env d fs (g\<lparr>gf_files := gm_put (path_join [d, f]) bytes (gf_files g)\<rparr>))"

definition bundle_Create ::
  "guest_env \<Rightarrow> string \<Rightarrow> string \<Rightarrow> (string, string) gomap \<Rightarrow> guest_fs \<Rightarrow> string result \<times> guest_fs" where
  "bundle_Create env bundleRoot cid files g =
     (let d = path_join [bundleRoot, cid]
      in case os_Mkdir env d g of
           (Some e, g1) \<Rightarrow> (Inl e, g1)
         | (None, g1) \<Rightarrow>
             (case os_Mkdir env (path_join [d, ''rootfs'']) g1 of
                (Some e, g2) \<Rightarrow> (Inl e, g2)
              | (None, g2) \<Rightarrow>
                  (case write_files env d files g2 of
                     (Some e, g3) \<Rightarrow> (Inl e, g3)
                   | (None, g3) \<Rightarrow> (Inr d, g3))))"

section \<open>Resource limits\<close>

text \<open>The value of a resource annotation, or its default.\<close>

definition res_value :: "string \<Rightarrow> nat \<Rightarrow> nat \<Rightarrow> (string, string) gomap \<Rightarrow> nat result" where
  "res_value k bits dflt m = (case gm_get m k of None \<Rightarrow> Inr dflt | Some v \<Rightarrow> parse_uint v bits)"

lemma annotations_delete [simp]: "annotations (delete_annotation k b) = gm_del k (annotations b)"
  by (simp add: annotations_def delete_annotation_def)

lemma cpu_mem_differ [simp]: "cpuAnnotation \<noteq> memAnnotation" "memAnnotation \<noteq> cpuAnnotation"
  by (simp_all add: cpuAnnotation_def memAnnotation_def)

lemma resource_loop_errors:
  assumes "distinct (map fst kvs)"
  shows "fst (resource_loop kvs (r, b)) = None \<longleftrightarrow>
     (\<forall>v. gm_get kvs cpuAnnotation = Some v \<longrightarrow> (\<exists>n. parse_uint v 8 = Inr n)) \<and>
     (\<forall>v. gm_get kvs memAnnotation = Some v \<longrightarrow> (\<exists>n. parse_uint v 32 = Inr n))"
  using assms
proof (induction kvs "(r, b)" arbitrary: r b rule: resource_loop.induct)
  case (2 k v rest r b)
  then show ?case
    by (cases "k = cpuAnnotation"; cases "k = memAnnotation")
       (auto split: sum.splits simp: map_of_eq_None_iff [symmetric])
qed simp

lemma resource_loop_ok:
  assumes "resource_loop kvs (r, b) = (None, (r', b'))" and "distinct (map fst kvs)"
  shows "rc_cpu r' = (case gm_get kvs cpuAnnotation of None \<Rightarrow> rc_cpu r | Some v \<Rightarrow> of_nat (projr (parse_uint v 8))) \<and>
    rc_mem r' = (case gm_get kvs memAnnotation of None \<Rightarrow> rc_mem r | Some v \<Rightarrow> of_nat (projr (parse_uint v 32))) \<and>
    gm_get (annotations b') = (\<lambda>k. if k \<in> {cpuAnnotation, memAnnotation} \<inter> fst ` set kvs then None
                                   else gm_get (annotations b) k)"
  using assms
proof (induction kvs "(r, b)" arbitrary: r b rule: resource_loop.induct)
  case (2 k v rest r b)
  then show ?case
    by (cases "k = cpuAnnotation"; cases "k = memAnnotation")
       (auto split: sum.splits option.splits simp: map_of_eq_None_iff [symmetric] fun_eq_iff)
qed simp

lemma parse_uint_of_nat:
  "parse_uint v LENGTH('a::len) = Inr n \<Longrightarrow> unat (of_nat n :: 'a word) = n"
  using parse_uint_bound [of v "LENGTH('a)" n] by (simp add: unat_of_nat take_bit_nat_eq_self)

lemma res_value_unat:
  fixes w d :: "'a::len word"
  assumes "w = (case gm_get m k of None \<Rightarrow> d | Some v \<Rightarrow> of_nat (projr (parse_uint v LENGTH('a))))"
    and "\<forall>v. gm_get m k = Some v \<longrightarrow> (\<exists>n. parse_uint v LENGTH('a) = Inr n)"
  shows "res_value k LENGTH('a) (unat d) m = Inr c \<longleftrightarrow> unat w = c"
  using assms by (auto simp: res_value_def parse_uint_of_nat split: option.splits)

lemma resource_FromBundle_loop:
  "resource_FromBundle (r, b) =
     (case resource_loop (annotations b) (r\<lparr>rc_cpu := 2, rc_mem := 2048\<rparr>, b) of
        (Some e, rb') \<Rightarrow> (Some e, rb')
      | (None, (r', b')) \<Rightarrow>
          if rc_cpu r' = 0 \<or> rc_mem r' = 0 then
            (Some (ErrNew ''cpu and memory must be greater than 0''), (r', b'))
          else (None, (r', b')))"
  by (simp add: resource_FromBundle_def Let_def)


definition demo_bundle :: Bundle where
  "demo_bundle = \<lparr>b_Path = ''/b'', b_Spec = \<lparr>sp_Root = Some ''rootfs'', sp_Mounts = [],
     sp_Annotations = [(''x'', ''y''), (''io.containerd.nerdbox.resources.cpu'', ''4'')], sp_Other = []\<rparr>,
     b_Rootfs = ''/b/rootfs'', b_extraFiles = []\<rparr>"


section \<open>Files arrive in the VM\<close>

lemma clean_elems_snoc: "proper_elem f \<Longrightarrow> clean_elems r st (es @ [f]) = clean_elems r st es @ [f]"
  by (induction es arbitrary: st) (simp_all add: clean_step.simps proper_elem_def)

lemma split_on_snoc: "c \<notin> set f \<Longrightarrow> split_on c (d @ c # f) = split_on c d @ [f]"
proof (induction d)
  case (Cons x d)
  then show ?case by (cases "split_on c d") auto
qed (simp add: split_on_no_sep)

lemma path_join_elem:
  assumes "path_is_abs d" and "proper_elem f"
  shows "path_join [d, f] = CHR ''/'' # join_with ''/'' (clean_elems True [] (split_on (CHR ''/'') d) @ [f])"
proof -
  obtain p where d: "d = CHR ''/'' # p"
    using assms(1) by (cases d) (auto simp: path_is_abs_def has_prefix_def)
  have f: "f \<noteq> []" "CHR ''/'' \<notin> set f" using assms(2) by (auto simp: proper_elem_def)
  have "split_on (CHR ''/'') (d @ CHR ''/'' # f) = split_on (CHR ''/'') d @ [f]"
    using f(2) by (rule split_on_snoc)
  with clean_elems_snoc [OF assms(2), of True "[]" "split_on (CHR ''/'') d"] show ?thesis
    using f(1) by (simp add: path_join_def path_clean_def d)
qed

lemma clean_rooted_proper:
  "\<forall>e\<in>set (clean_elems True [] (split_on (CHR ''/'') d)). proper_elem e"
  by (rule clean_elems_proper) (auto dest: split_on_parts)

lemma path_join_elem_inj:
  assumes "path_is_abs d" and "proper_elem f" and "proper_elem g"
  shows "path_join [d, f] = path_join [d, g] \<longleftrightarrow> f = g"
proof -
  let ?es = "clean_elems True [] (split_on (CHR ''/'') d)"
  have "split_on (CHR ''/'') (join_with ''/'' (?es @ [x])) = ?es @ [x]" if "proper_elem x" for x
    using clean_rooted_proper [of d] that by (intro split_join_proper) auto
  then show ?thesis
    using assms by (metis append1_eq_conv list.inject path_join_elem)
qed

lemma write_files_other:
  "write_files env d fs g = (None, g') \<Longrightarrow> \<forall>f\<in>fst ` set fs. path_join [d, f] \<noteq> p \<Longrightarrow>
     gm_get (gf_files g') p = gm_get (gf_files g) p"
  by (induction env d fs g rule: write_files.induct) (auto split: option.splits)

lemma write_files_get:
  assumes "write_files env d fs g = (None, g')" and "path_is_abs d" and "gm_wf fs"
    and "\<forall>f\<in>fst ` set fs. proper_elem f" and "gm_get fs name = Some bytes"
  shows "gm_get (gf_files g') (path_join [d, name]) = Some bytes"
  using assms
proof (induction env d fs g rule: write_files.induct)
  case (2 env d f bs fs g)
  let ?g1 = "g\<lparr>gf_files := gm_put (path_join [d, f]) bs (gf_files g)\<rparr>"
  have w: "write_files env d fs ?g1 = (None, g')"
    using 2(2) by (simp split: option.splits)
  show ?case
  proof (cases "name = f")
    case True
    have "gm_get (gf_files g') (path_join [d, f]) = gm_get (gf_files ?g1) (path_join [d, f])"
      by (rule write_files_other [OF w]) (use 2(3,4,5) in \<open>auto simp: path_join_elem_inj gm_wf_def\<close>)
    with True 2(6) show ?thesis by simp
  next
    case False
    then show ?thesis
      using 2(1) [OF _ w] 2(2-6) by (auto simp: gm_wf_def split: option.splits)
  qed
qed simp

text \<open>
  C33. A bundle created in the VM holds every file of the host's bundle, and its \<open>config.json\<close> is the
  transformed spec even when an extra file has that name.
\<close>

theorem bundle_files_arrive:
  assumes "Files env b = Inr files" and "bundle_Create genv root cid files g = (Inr d, g')"
    and "path_is_abs root" and "gm_wf (b_extraFiles b)" and "\<forall>f\<in>fst ` set (b_extraFiles b). proper_elem f"
  shows "bu_marshal env (b_Spec b) = Inr (the (gm_get (gf_files g') (path_join [d, ''config.json'']))) \<and>
    (\<forall>name bytes. gm_get (b_extraFiles b) name = Some bytes \<longrightarrow> name \<noteq> ''config.json'' \<longrightarrow>
       gm_get (gf_files g') (path_join [d, name]) = Some bytes)"
proof -
  obtain sp where sp: "bu_marshal env (b_Spec b) = Inr sp" and files: "files = gm_put ''config.json'' sp (b_extraFiles b)"
    using assms(1) by (auto simp: Files_def split: sum.splits)
  obtain g2 where d: "d = path_join [root, cid]" and w: "write_files genv d files g2 = (None, g')"
    using assms(2) by (auto simp: bundle_Create_def Let_def split: prod.splits option.splits)
  have abs: "path_is_abs d"
    using assms(3) by (cases root) (auto simp: d path_join_def path_clean_def path_is_abs_def has_prefix_def Let_def)
  have wf: "gm_wf files" using assms(4) by (simp add: files)
  have names: "\<forall>f\<in>fst ` set files. proper_elem f"
    using assms(5) unfolding files dom_update by (auto simp: proper_elem_def)
  note get = write_files_get [OF w abs wf names]
  show ?thesis
    using get [of "''config.json''" sp] get sp by (auto simp: files)
qed


definition calm_guest :: guest_env where
  "calm_guest = \<lparr>ge_mkdir = (\<lambda>_. None), ge_write = (\<lambda>_. None)\<rparr>"

definition demo_codec :: bundle_env where
  "demo_codec = \<lparr>bu_read = (\<lambda>_. Inr ''{}''), bu_unmarshal = (\<lambda>_. Inr (b_Spec demo_bundle)),
     bu_marshal = (\<lambda>_. Inr ''{}'')\<rparr>"

theorem bundle_files_arrive_witness:
  "\<exists>files d g'. Files demo_codec (AddExtraFile ''resolv.conf'' ''ns'' demo_bundle) = Inr files \<and>
     bundle_Create calm_guest ''/run'' ''c1'' files \<lparr>gf_dirs = [], gf_files = []\<rparr> = (Inr d, g') \<and>
     gm_get (gf_files g') (path_join [d, ''resolv.conf'']) = Some ''ns''"
proof -
  let ?b = "AddExtraFile ''resolv.conf'' ''ns'' demo_bundle"
  obtain files where f: "Files demo_codec ?b = Inr files"
    by (simp add: Files_def demo_codec_def)
  obtain d g' where c: "bundle_Create calm_guest ''/run'' ''c1'' files \<lparr>gf_dirs = [], gf_files = []\<rparr> = (Inr d, g')"
    using f by (auto simp: Files_def demo_codec_def AddExtraFile_def demo_bundle_def bundle_Create_def os_Mkdir_def
        calm_guest_def path_join_def path_clean_def clean_step.simps Let_def)
  have "gm_get (gf_files g') (path_join [d, ''resolv.conf'']) = Some ''ns''"
    using bundle_files_arrive [OF f c]
    by (simp add: AddExtraFile_def demo_bundle_def path_is_abs_def has_prefix_def gm_wf_def proper_elem_def)
  with f c show ?thesis by blast
qed

end
