(* ===== verification/Vmdk.thy ===== *)
theory Vmdk
  imports Go_Strings "HOL-Library.Word"
begin

text \<open>
  VMDK descriptors of flattened EROFS images (\<open>internal/erofs/vmdk.go\<close>): the text that lists the
  extents of the component files, at most 2 GiB each, with the geometry of the whole disk.

  A file is written through \<open>writer\<close>, which may take only so many bytes. Stat results and file
  creation are parameters.
\<close>

section \<open>VMDK descriptors\<close>

record writer =
  w_out :: string
  w_cap :: "nat option"

definition fprintf :: "string \<Rightarrow> writer \<Rightarrow> go_error option \<times> writer" where
  "fprintf s w =
     (case w_cap w of
        None \<Rightarrow> (None, w\<lparr>w_out := w_out w @ s\<rparr>)
      | Some n \<Rightarrow>
          if length s \<le> n then (None, w\<lparr>w_out := w_out w @ s, w_cap := Some (n - length s)\<rparr>)
          else (Some (Sentinel ''no space left on device''), w\<lparr>w_out := w_out w @ take n s, w_cap := Some 0\<rparr>))"

definition max2GbExtentSectors :: "64 word" where
  "max2GbExtentSectors = drop_bit 9 0x80000000"

definition sectorsPerTrack :: "64 word" where
  "sectorsPerTrack = 63"

definition numberHeads :: "64 word" where
  "numberHeads = 16"

definition extent_line :: "64 word \<Rightarrow> string \<Rightarrow> 64 word \<Rightarrow> string" where
  "extent_line count filename offset =
     ''RW '' @ show_nat (unat count) @ '' FLAT \"'' @ filename @ ''\" '' @ show_nat (unat offset) @ [CHR 0x0A]"

lemma max2Gb_value: "max2GbExtentSectors = 0x400000"
  by (simp add: max2GbExtentSectors_def drop_bit_eq_div)

lemma extent_decreases: "(0::64 word) < sectors \<Longrightarrow> unat (sectors - min sectors max2GbExtentSectors) < unat sectors"
  by (simp add: max2Gb_value min_def unat_sub unat_gt_0 word_le_nat_alt word_less_nat_alt)

function vmdkDescAddExtent :: "64 word \<Rightarrow> string \<Rightarrow> 64 word \<Rightarrow> writer \<Rightarrow> go_error option \<times> writer" where
  "vmdkDescAddExtent sectors filename offset w =
     (if sectors > 0 then
        let count = min sectors max2GbExtentSectors
        in case fprintf (extent_line count filename offset) w of
             (Some e, w') \<Rightarrow> (Some e, w')
           | (None, w') \<Rightarrow> vmdkDescAddExtent (sectors - count) filename (offset + count) w'
      else (None, w))"
  by pat_completeness auto

termination
  by (relation "measure (\<lambda>(sectors, _). unat sectors)") (simp_all add: extent_decreases)

declare vmdkDescAddExtent.simps [simp del]

definition vmdk_header :: "32 word \<Rightarrow> string" where
  "vmdk_header cid =
     ''# Disk DescriptorFile'' @ [CHR 0x0A] @ ''version=1'' @ [CHR 0x0A]
     @ ''CID='' @ show_hex08 (unat cid) @ [CHR 0x0A]
     @ ''parentCID='' @ show_hex08 0xffffffff @ [CHR 0x0A]
     @ ''createType=\"twoGbMaxExtentFlat\"'' @ [CHR 0x0A, CHR 0x0A]
     @ ''# Extent description'' @ [CHR 0x0A]"

definition vmdk_cylinders :: "64 word \<Rightarrow> 64 word" where
  "vmdk_cylinders totalSectors = (totalSectors + sectorsPerTrack * numberHeads - 1) div (sectorsPerTrack * numberHeads)"

definition vmdk_footer :: "64 word \<Rightarrow> string" where
  "vmdk_footer totalSectors =
     [CHR 0x0A, CHR 0x0A] @ ''# The Disk Data Base'' @ [CHR 0x0A] @ ''#DDB'' @ [CHR 0x0A, CHR 0x0A]
     @ ''ddb.virtualHWVersion = \"4\"'' @ [CHR 0x0A]
     @ ''ddb.geometry.cylinders = \"'' @ show_nat (unat (vmdk_cylinders totalSectors)) @ ''\"'' @ [CHR 0x0A]
     @ ''ddb.geometry.heads = \"16\"'' @ [CHR 0x0A]
     @ ''ddb.geometry.sectors = \"63\"'' @ [CHR 0x0A]
     @ ''ddb.adapterType = \"ide\"'' @ [CHR 0x0A]"

text \<open>The sectors of a file of the given size, \<open>uint64(fi.Size()) >> 9\<close>.\<close>

definition size_sectors :: "int \<Rightarrow> 64 word" where
  "size_sectors sz = drop_bit 9 (word_of_int sz)"

fun dump_devices ::
  "(string \<Rightarrow> int result) \<Rightarrow> string list \<Rightarrow> 64 word \<Rightarrow> writer \<Rightarrow> 64 word result \<times> writer" where
  "dump_devices stat [] totalSectors w = (Inr totalSectors, w)"
| "dump_devices stat (d # ds) totalSectors w =
     (case stat d of
        Inl e \<Rightarrow> (Inl e, w)
      | Inr sz \<Rightarrow>
          (case vmdkDescAddExtent (size_sectors sz) d 0 w of
             (Some e, w') \<Rightarrow> (Inl e, w')
           | (None, w') \<Rightarrow> dump_devices stat ds (totalSectors + size_sectors sz) w'))"

definition DumpVMDKDescriptor ::
  "(string \<Rightarrow> int result) \<Rightarrow> 32 word \<Rightarrow> string list \<Rightarrow> writer \<Rightarrow> go_error option \<times> writer" where
  "DumpVMDKDescriptor stat cid devices w =
     (case fprintf (vmdk_header cid) w of
        (Some e, w1) \<Rightarrow> (Some e, w1)
      | (None, w1) \<Rightarrow>
          (case dump_devices stat devices 0 w1 of
             (Inl e, w2) \<Rightarrow> (Some e, w2)
           | (Inr totalSectors, w2) \<Rightarrow> fprintf (vmdk_footer totalSectors) w2))"

text \<open>
  Host files: those this code wrote, over those that exist before. \<open>he_stat\<close> gives the size of a file
  and \<open>he_create\<close> how many bytes a new file takes.
\<close>

record host_env =
  he_stat :: "string \<Rightarrow> int result"
  he_create :: "string \<Rightarrow> nat option result"

type_synonym host_files = "(string, string) gomap"

definition os_Stat :: "host_env \<Rightarrow> host_files \<Rightarrow> string \<Rightarrow> int result" where
  "os_Stat env fs p = (case gm_get fs p of Some bytes \<Rightarrow> Inr (int (length bytes)) | None \<Rightarrow> he_stat env p)"

definition DumpVMDKDescriptorToFile ::
  "host_env \<Rightarrow> string \<Rightarrow> 32 word \<Rightarrow> string list \<Rightarrow> host_files \<Rightarrow> go_error option \<times> host_files" where
  "DumpVMDKDescriptorToFile env vmdkdesc cid devices fs =
     (case he_create env vmdkdesc of
        Inl e \<Rightarrow> (Some e, fs)
      | Inr cap \<Rightarrow>
          let fs1 = gm_put vmdkdesc [] fs
          in case DumpVMDKDescriptor (os_Stat env fs1) cid devices \<lparr>w_out = [], w_cap = cap\<rparr> of
               (err, w) \<Rightarrow> (err, gm_put vmdkdesc (w_out w) fs1))"

section \<open>Extents\<close>

text \<open>The extents of a file of \<open>n\<close> sectors: full ones, then the rest.\<close>

definition ref_extents :: "nat \<Rightarrow> (nat \<times> nat) list" where
  "ref_extents n = map (\<lambda>i. (min 0x400000 (n - i * 0x400000), i * 0x400000)) [0..<(n + 0x3fffff) div 0x400000]"

definition extent_text :: "string \<Rightarrow> nat \<Rightarrow> nat \<times> nat \<Rightarrow> string" where
  "extent_text filename off e = extent_line (of_nat (fst e)) filename (of_nat (off + snd e))"

lemma ref_extents_0 [simp]: "ref_extents 0 = []"
  by (simp add: ref_extents_def)

lemma ref_extents_Cons:
  assumes "0 < n"
  shows "ref_extents n = (min 0x400000 n, 0) # map (\<lambda>(c, off). (c, off + 0x400000)) (ref_extents (n - min 0x400000 n))"
proof -
  have "(n + 0x3fffff) div 0x400000 = Suc ((n - min 0x400000 n + 0x3fffff) div 0x400000)"
  proof (cases "n \<le> 0x400000")
    case True
    then have "(n + 0x3fffff) div 0x400000 = 1" using assms by (intro div_nat_eqI) simp_all
    with True show ?thesis by simp
  next
    case False
    then have "n + 0x3fffff = 0x400000 + (n - 0x400000 + 0x3fffff)" by simp
    then show ?thesis using False by (simp only: div_add_self1 min_def) simp
  qed
  then show ?thesis
    by (simp only: ref_extents_def upt_conv_Cons [of 0, simplified] map_Suc_upt [symmetric])
       (auto simp: min_def)
qed

lemma fprintf_unlimited [simp]: "w_cap w = None \<Longrightarrow> fprintf s w = (None, w\<lparr>w_out := w_out w @ s\<rparr>)"
  by (simp add: fprintf_def)

lemma ref_extents_bounds: "(c, off) \<in> set (ref_extents n) \<Longrightarrow> 0 < c \<and> c \<le> 0x400000 \<and> off + c \<le> n"
proof (induction n arbitrary: c off rule: less_induct)
  case (less n)
  then have n: "0 < n" by (cases n) auto
  consider "c = min 0x400000 n" "off = 0"
    | off' where "off = off' + 0x400000" "(c, off') \<in> set (ref_extents (n - min 0x400000 n))"
    using less.prems by (auto simp: ref_extents_Cons [OF n])
  then show ?case
  proof cases
    case 2
    then have "0 < c \<and> c \<le> 0x400000 \<and> off' + c \<le> n - min 0x400000 n"
      using n by (intro less.IH) auto
    with 2 show ?thesis by (auto simp: min_def split: if_splits)
  qed (use n in \<open>auto simp: min_def\<close>)
qed

lemma ref_extents_sum: "sum_list (map fst (ref_extents n)) = n"
proof (induction n rule: less_induct)
  case (less n)
  show ?case
  proof (cases "n = 0")
    case False
    then have "sum_list (map fst (ref_extents (n - min 0x400000 n))) = n - min 0x400000 n"
      by (intro less.IH) auto
    with False show ?thesis by (simp add: ref_extents_Cons case_prod_beta comp_def)
  qed simp
qed

lemma vmdkDescAddExtent_ref:
  assumes "w_cap w = None" and "unat offset + unat sectors < 2 ^ 64"
  shows "vmdkDescAddExtent sectors f offset w =
     (None, w\<lparr>w_out := w_out w @ concat (map (extent_text f (unat offset)) (ref_extents (unat sectors)))\<rparr>)"
  using assms
proof (induction sectors f offset w rule: vmdkDescAddExtent.induct)
  case (1 sectors f offset w)
  let ?c = "min sectors max2GbExtentSectors"
  show ?case
  proof (cases "sectors > 0")
    case True
    have c: "unat ?c = min 0x400000 (unat sectors)"
      by (simp add: max2Gb_value min_def word_le_nat_alt)
    have s: "unat (sectors - ?c) = unat sectors - unat ?c"
      by (simp add: unat_sub)
    have o: "unat (offset + ?c) = unat offset + unat ?c"
      using 1(3) c by (intro unat_add_lem [THEN iffD1]) simp
    let ?w = "w\<lparr>w_out := w_out w @ extent_line ?c f offset\<rparr>"
    have rec: "vmdkDescAddExtent (sectors - ?c) f (offset + ?c) ?w =
      (None, ?w\<lparr>w_out := w_out ?w @ concat (map (extent_text f (unat (offset + ?c))) (ref_extents (unat (sectors - ?c))))\<rparr>)"
      using 1(2,3) True s o c by (intro 1(1)) simp_all
    have "ref_extents (unat sectors) =
       (unat ?c, 0) # map (\<lambda>(a, off). (a, off + 0x400000)) (ref_extents (unat (sectors - ?c)))"
      using True by (simp add: ref_extents_Cons unat_gt_0 c s)
    moreover have "extent_text f (unat offset) (a, off + 0x400000) = extent_text f (unat (offset + ?c)) (a, off)"
      if "(a, off) \<in> set (ref_extents (unat (sectors - ?c)))" for a off
    proof -
      have "unat ?c = 0x400000"
        using ref_extents_bounds [OF that] s c by (auto simp: min_def split: if_splits)
      with o show ?thesis by (simp add: extent_text_def add_ac)
    qed
    ultimately have "map (extent_text f (unat offset)) (ref_extents (unat sectors)) =
       extent_line ?c f offset # map (extent_text f (unat (offset + ?c))) (ref_extents (unat (sectors - ?c)))"
      by (simp add: extent_text_def [of _ _ "(_, 0)"]) auto
    with rec show ?thesis
      using True 1(2) by (subst vmdkDescAddExtent.simps) (simp add: Let_def)
  qed (simp add: vmdkDescAddExtent.simps word_gt_0)
qed

section \<open>The whole descriptor\<close>

definition file_sectors :: "(string \<Rightarrow> int result) \<Rightarrow> string \<Rightarrow> nat" where
  "file_sectors stat d = nat (projr (stat d)) div 512"

definition file_extents :: "(string \<Rightarrow> int result) \<Rightarrow> string \<Rightarrow> string" where
  "file_extents stat d = concat (map (extent_text d 0) (ref_extents (file_sectors stat d)))"

text \<open>A file size as \<open>os.Stat\<close> reports it: a non-negative 64 bit signed integer.\<close>

definition valid_size :: "int result \<Rightarrow> bool" where
  "valid_size r \<longleftrightarrow> (case r of Inl _ \<Rightarrow> False | Inr sz \<Rightarrow> 0 \<le> sz \<and> sz < 2 ^ 63)"

lemma size_sectors_nat:
  assumes "valid_size (stat d)" and "stat d = Inr sz"
  shows "unat (size_sectors sz) = file_sectors stat d"
proof -
  have "unat (word_of_int sz :: 64 word) = nat sz"
    using assms by (simp add: valid_size_def unat_eq_nat_uint uint_word_of_int)
  then show ?thesis
    using assms by (simp add: size_sectors_def file_sectors_def drop_bit_eq_div unat_div)
qed

lemma file_sectors_less: "valid_size (stat d) \<Longrightarrow> file_sectors stat d < 2 ^ 54"
  by (auto simp: valid_size_def file_sectors_def less_mult_imp_div_less split: sum.splits)

lemma dump_devices_ref:
  assumes "w_cap w = None" and "\<forall>d\<in>set ds. valid_size (stat d)"
    and "unat tot + (\<Sum>d\<leftarrow>ds. file_sectors stat d) < 2 ^ 64"
  shows "\<exists>tot'. dump_devices stat ds tot w = (Inr tot', w\<lparr>w_out := w_out w @ concat (map (file_extents stat) ds)\<rparr>)
     \<and> unat tot' = unat tot + (\<Sum>d\<leftarrow>ds. file_sectors stat d)"
  using assms
proof (induction ds arbitrary: tot w)
  case (Cons d ds)
  from Cons.prems(2) obtain sz where sz: "stat d = Inr sz"
    by (cases "stat d") (auto simp: valid_size_def)
  have s: "unat (size_sectors sz) = file_sectors stat d"
    using Cons.prems(2) sz by (intro size_sectors_nat) simp_all
  have t: "unat (tot + size_sectors sz) = unat tot + file_sectors stat d"
    using Cons.prems(3) s by (subst unat_add_lem [THEN iffD1]) simp_all
  let ?w = "w\<lparr>w_out := w_out w @ file_extents stat d\<rparr>"
  have "vmdkDescAddExtent (size_sectors sz) d 0 w = (None, ?w)"
    using Cons.prems(1) file_sectors_less [of stat d] Cons.prems(2) s
    by (subst vmdkDescAddExtent_ref) (simp_all add: file_extents_def)
  moreover obtain tot' where "dump_devices stat ds (tot + size_sectors sz) ?w =
      (Inr tot', ?w\<lparr>w_out := w_out ?w @ concat (map (file_extents stat) ds)\<rparr>)"
    "unat tot' = unat (tot + size_sectors sz) + (\<Sum>d\<leftarrow>ds. file_sectors stat d)"
    using Cons.IH [of ?w "tot + size_sectors sz"] Cons.prems t by auto
  ultimately show ?case using sz t by simp
qed simp

lemma cylinders_ceiling:
  assumes "unat t + 1007 < 2 ^ 64"
  shows "unat (vmdk_cylinders t) = (unat t + 1007) div 1008"
proof -
  have "unat (t + 1007) = unat t + 1007"
    using assms by (subst unat_add_lem [THEN iffD1]) simp_all
  moreover have "t + sectorsPerTrack * numberHeads - 1 = t + 1007" "sectorsPerTrack * numberHeads = 1008"
    by (simp_all add: sectorsPerTrack_def numberHeads_def)
  ultimately show ?thesis by (simp only: vmdk_cylinders_def unat_div) simp
qed

text \<open>
  C31. The descriptor of a list of files names, for each file in order, extents of at most 2 GiB that
  follow each other from sector 0 and cover its whole sectors, and its geometry covers them all.
\<close>

theorem vmdk_descriptor_complete:
  assumes "w_cap w = None" and "\<forall>d\<in>set devices. valid_size (stat d)"
    and "(\<Sum>d\<leftarrow>devices. file_sectors stat d) + 1007 < 2 ^ 64"
  shows "\<exists>t. DumpVMDKDescriptor stat cid devices w =
      (None, w\<lparr>w_out := w_out w @ vmdk_header cid @ concat (map (file_extents stat) devices) @ vmdk_footer t\<rparr>)
    \<and> unat t = (\<Sum>d\<leftarrow>devices. file_sectors stat d)
    \<and> unat (vmdk_cylinders t) = (unat t + 1007) div 1008
    \<and> (\<forall>d. sum_list (map fst (ref_extents (file_sectors stat d))) = file_sectors stat d
        \<and> (\<forall>(c, off)\<in>set (ref_extents (file_sectors stat d)). 0 < c \<and> c \<le> 0x400000))"
proof -
  let ?w = "w\<lparr>w_out := w_out w @ vmdk_header cid\<rparr>"
  obtain t where "dump_devices stat devices 0 ?w =
      (Inr t, ?w\<lparr>w_out := w_out ?w @ concat (map (file_extents stat) devices)\<rparr>)"
    and t: "unat t = (\<Sum>d\<leftarrow>devices. file_sectors stat d)"
    using dump_devices_ref [of ?w devices stat 0] assms by auto
  then have "DumpVMDKDescriptor stat cid devices w =
      (None, w\<lparr>w_out := w_out w @ vmdk_header cid @ concat (map (file_extents stat) devices) @ vmdk_footer t\<rparr>)"
    using assms(1) by (simp add: DumpVMDKDescriptor_def)
  moreover have "unat (vmdk_cylinders t) = (unat t + 1007) div 1008"
    using assms(3) t by (intro cylinders_ceiling) simp
  ultimately show ?thesis
    using t ref_extents_sum ref_extents_bounds by (intro exI [of _ t]) (auto simp: case_prod_beta)
qed

theorem vmdk_descriptor_complete_witness:
  "\<exists>t out. DumpVMDKDescriptor (\<lambda>_. Inr 4096) 1 [''/a'', ''/b''] \<lparr>w_out = [], w_cap = None\<rparr> =
     (None, \<lparr>w_out = out, w_cap = None\<rparr>) \<and> unat (t :: 64 word) = 16 \<and> unat (vmdk_cylinders t) = 1"
  using vmdk_descriptor_complete [of "\<lparr>w_out = [], w_cap = None\<rparr>" "[''/a'', ''/b'']" "\<lambda>_. Inr 4096" 1]
  by (auto simp: valid_size_def file_sectors_def)

end
