(* ===== verification/Disks.thy ===== *)
theory Disks
  imports VM_Mounts Bundle Vmdk
begin

text \<open>
  Disks and mounts the shim sets up for a container: the translation of rootfs and volume mounts
  into virtio devices (\<open>internal/shim/task/mount.go\<close>, \<open>mount_linux.go\<close>, \<open>mount_other.go\<close>).
  System calls and the hash are parameters.
\<close>

unbundle bit_operations_syntax

section \<open>The disk allocator\<close>

record diskAllocator =
  da_next :: "8 word"

definition newDiskAllocator :: diskAllocator where
  "newDiskAllocator = \<lparr>da_next = 97\<rparr>"

definition da_Next :: "diskAllocator \<Rightarrow> 8 word \<times> diskAllocator" where
  "da_Next d = (da_next d, d\<lparr>da_next := da_next d + 1\<rparr>)"

definition da_count :: "diskAllocator \<Rightarrow> int" where
  "da_count d = uint (da_next d - 97)"

record diskOptions =
  do_name :: string
  do_source :: string
  do_readOnly :: bool
  do_vmdk :: bool

text \<open>The verb \<open>%c\<close> on a byte: the code point of that number in UTF-8.\<close>

definition show_rune :: "8 word \<Rightarrow> string" where
  "show_rune b =
     (let n = unat b in if n < 128 then [char_of n] else [char_of (192 + n div 64), char_of (128 + n mod 64)])"

definition disk_name :: "8 word \<Rightarrow> string \<Rightarrow> string" where
  "disk_name letter cid = take 36 (''disk-'' @ show_nat (unat letter) @ ''-'' @ cid)"

definition device_path :: "8 word \<Rightarrow> string" where
  "device_path letter = ''/dev/vd'' @ show_rune letter"

section \<open>Rootfs mounts\<close>

definition filterOptions :: "string list \<Rightarrow> string list" where
  "filterOptions os = filter (\<lambda>x. x \<noteq> ''loop'') os"

text \<open>The devices and the other options of an EROFS mount.\<close>

fun split_devices :: "string list \<Rightarrow> string list \<times> string list" where
  "split_devices [] = ([], [])"
| "split_devices (x # xs) =
     (case split_devices xs of (devs, opts) \<Rightarrow>
        case cut_prefix x ''device='' of Some d \<Rightarrow> (d # devs, opts) | None \<Rightarrow> (devs, x # opts))"

definition merged_path :: "string \<Rightarrow> string" where
  "merged_path source = path_dir source @ ''/merged_fs.vmdk''"

text \<open>The VMDK of a flattened image: an existing file is used as it is.\<close>

definition ensure_vmdk :: "host_env \<Rightarrow> string \<Rightarrow> string list \<Rightarrow> host_files \<Rightarrow> go_error option \<times> host_files" where
  "ensure_vmdk env p devices fs =
     (case os_Stat env fs p of
        Inr _ \<Rightarrow> (None, fs)
      | Inl e \<Rightarrow>
          if e \<noteq> enoent then (Some (Errdef ErrNotImplemented), fs)
          else case DumpVMDKDescriptorToFile env p 0xfffffffe devices fs of
                 (Some _, fs') \<Rightarrow> (Some (Errdef ErrNotImplemented), fs')
               | (None, fs') \<Rightarrow> (None, fs'))"

type_synonym disk_state = "diskAllocator \<times> host_files"

definition transform_erofs ::
  "host_env \<Rightarrow> string \<Rightarrow> Mount \<Rightarrow> disk_state \<Rightarrow> (diskOptions option \<times> Mount) result \<times> disk_state" where
  "transform_erofs env cid m st =
     (case st of (da, fs) \<Rightarrow>
      case da_Next da of (letter, da') \<Rightarrow>
      case split_devices (m_Options m) of (devs, opts) \<Rightarrow>
        let am = \<lparr>m_Type = ''erofs'', m_Source = device_path letter, m_Target = m_Target m,
                  m_Options = filterOptions opts\<rparr>
        in if devs \<noteq> [] then
             (case ensure_vmdk env (merged_path (m_Source m)) (m_Source m # devs) fs of
                (Some e, fs') \<Rightarrow> (Inl e, (da', fs'))
              | (None, fs') \<Rightarrow>
                  (Inr (Some \<lparr>do_name = disk_name letter cid, do_source = merged_path (m_Source m),
                              do_readOnly = True, do_vmdk = True\<rparr>, am), (da', fs')))
           else (Inr (Some \<lparr>do_name = disk_name letter cid, do_source = m_Source m,
                            do_readOnly = True, do_vmdk = False\<rparr>, am), (da', fs)))"

definition transform_ext4 :: "string \<Rightarrow> Mount \<Rightarrow> disk_state \<Rightarrow> (diskOptions option \<times> Mount) \<times> disk_state" where
  "transform_ext4 cid m st =
     (case st of (da, fs) \<Rightarrow>
      case da_Next da of (letter, da') \<Rightarrow>
        ((Some \<lparr>do_name = disk_name letter cid, do_source = m_Source m, do_readOnly = False, do_vmdk = False\<rparr>,
          \<lparr>m_Type = ''ext4'', m_Source = device_path letter, m_Target = m_Target m,
           m_Options = filterOptions (m_Options m)\<rparr>), (da', fs)))"

text \<open>The last option with a prefix: the index the loop over the options ends with.\<close>

definition last_option :: "string \<Rightarrow> string list \<Rightarrow> string option" where
  "last_option p os = find (\<lambda>x. has_prefix x p) (rev os)"

definition transform_overlay :: "Mount \<Rightarrow> Mount result" where
  "transform_overlay m =
     (case (last_option ''workdir='' (m_Options m), last_option ''upperdir='' (m_Options m)) of
        (Some wd, Some ud) \<Rightarrow>
          if \<not> contains wd ''{{'' \<or> \<not> contains ud ''{{'' then
            Inl (ErrWrap ''cannot use virtiofs for upper dir in overlay'' (Errdef ErrNotImplemented))
          else Inr m
      | _ \<Rightarrow> Inr m)"

definition transform_mount ::
  "host_env \<Rightarrow> string \<Rightarrow> Mount \<Rightarrow> disk_state \<Rightarrow> (diskOptions option \<times> Mount) result \<times> disk_state" where
  "transform_mount env cid m st =
     (if m_Type m = ''erofs'' then transform_erofs env cid m st
      else if m_Type m = ''ext4'' then (case transform_ext4 cid m st of (r, st') \<Rightarrow> (Inr r, st'))
      else if m_Type m \<in> {''overlay'', ''format/overlay'', ''format/mkdir/overlay''} then
        (case transform_overlay m of Inl e \<Rightarrow> (Inl e, st) | Inr m' \<Rightarrow> (Inr (None, m'), st))
      else (Inr (None, m), st))"

fun transform_loop ::
  "host_env \<Rightarrow> string \<Rightarrow> Mount list \<Rightarrow> disk_state \<Rightarrow> (diskOptions list \<times> Mount list) result \<times> disk_state" where
  "transform_loop env cid [] st = (Inr ([], []), st)"
| "transform_loop env cid (m # ms) st =
     (case transform_mount env cid m st of
        (Inl e, st') \<Rightarrow> (Inl e, st')
      | (Inr (d, am), st') \<Rightarrow>
          (case transform_loop env cid ms st' of
             (Inl e, st'') \<Rightarrow> (Inl e, st'')
           | (Inr (ds, ams), st'') \<Rightarrow> (Inr ((case d of None \<Rightarrow> ds | Some x \<Rightarrow> x # ds), am # ams), st'')))"

definition disk_opt :: "diskOptions \<Rightarrow> sb_opt" where
  "disk_opt d = WithDisk (do_name d) (do_source d)
     ((if do_readOnly d then DiskFlagReadonly else 0) OR (if do_vmdk d then DiskFlagVMDK else 0))"

definition transformMounts ::
  "host_env \<Rightarrow> string \<Rightarrow> Mount list \<Rightarrow> disk_state \<Rightarrow> (Mount list \<times> sb_opt list) result \<times> disk_state" where
  "transformMounts env cid ms st =
     (case transform_loop env cid ms st of
        (Inl e, st') \<Rightarrow> (Inl e, st')
      | (Inr (ds, am), st') \<Rightarrow> (Inr (am, map disk_opt ds), st'))"

definition rootfs_tag :: "string \<Rightarrow> string" where
  "rootfs_tag cid = take 36 (''rootfs-'' @ cid)"

definition virtiofs_rootfs :: "string \<Rightarrow> string \<Rightarrow> Mount list \<times> sb_opt list" where
  "virtiofs_rootfs cid rootfs =
     ([\<lparr>m_Type = ''virtiofs'', m_Source = rootfs_tag cid, m_Target = [], m_Options = []\<rparr>],
      [WithFS (rootfs_tag cid) rootfs False])"

text \<open>On Linux; the last component of the result are the mounts made on the host.\<close>

definition setupMounts ::
  "mountutil_env \<Rightarrow> host_env \<Rightarrow> string \<Rightarrow> Mount list \<Rightarrow> string \<Rightarrow> string \<Rightarrow> disk_state \<Rightarrow>
     (Mount list \<times> sb_opt list) result \<times> disk_state \<times> mount_op list" where
  "setupMounts mu env cid ms rootfs lmounts st =
     (if length ms = 1 \<and> (m_Type (hd ms) = ''overlay'' \<or> m_Type (hd ms) = ''bind'') then
        let mnt = (hd ms)\<lparr>m_Target := []\<rparr>
        in (case mu_mount mu mnt rootfs of Some e \<Rightarrow> Inl e | None \<Rightarrow> Inr (virtiofs_rootfs cid rootfs),
            st, [OpMount mnt rootfs])
      else if ms = [] then (Inr (virtiofs_rootfs cid rootfs), st, [])
      else case transformMounts env cid ms st of
             (Inr r, st') \<Rightarrow> (Inr r, st', [])
           | (Inl e, st') \<Rightarrow>
               if is_errdef ErrNotImplemented e then
                 (case mountutil_All mu rootfs lmounts ms of
                    (Some e', _, ops) \<Rightarrow> (Inl e', st', ops)
                  | (None, _, ops) \<Rightarrow> (Inr (virtiofs_rootfs cid rootfs), st', ops))
               else (Inl e, st', []))"

text \<open>On other systems.\<close>

definition setupMounts_other ::
  "host_env \<Rightarrow> string \<Rightarrow> Mount list \<Rightarrow> disk_state \<Rightarrow> (Mount list \<times> sb_opt list) result \<times> disk_state" where
  "setupMounts_other env cid ms st = transformMounts env cid ms st"

section \<open>Bind and volume mounts\<close>

record bindMount =
  bm_tag :: string
  bm_hostSrc :: string
  bm_vmTarget :: string

record bind_env =
  bd_stat :: "string \<Rightarrow> bool result"
  bd_sha256 :: "string \<Rightarrow> nat list"

definition bind_tag :: "bind_env \<Rightarrow> string \<Rightarrow> string" where
  "bind_tag env dest = ''bind-'' @ show_hex_bytes (take 8 (bd_sha256 env dest))"

definition bind_transform :: "bind_env \<Rightarrow> spec_mount \<Rightarrow> (bindMount \<times> spec_mount) result" where
  "bind_transform env m =
     (case bd_stat env (sm_Source m) of
        Inl e \<Rightarrow> Inl (ErrWrap (''failed to stat bind mount source '' @ sm_Source m) e)
      | Inr isdir \<Rightarrow>
          let tag = bind_tag env (sm_Destination m); vmTarget = ''/mnt/'' @ tag
          in Inr (\<lparr>bm_tag = tag, bm_hostSrc = (if isdir then sm_Source m else path_dir (sm_Source m)),
                   bm_vmTarget = vmTarget\<rparr>,
                  m\<lparr>sm_Source := (if isdir then vmTarget else path_join [vmTarget, path_base (sm_Source m)])\<rparr>))"

text \<open>The spec is rewritten in place: on an error the earlier mounts stay rewritten.\<close>

fun bind_loop ::
  "bind_env \<Rightarrow> spec_mount list \<Rightarrow> go_error option \<times> bindMount list \<times> spec_mount list" where
  "bind_loop env [] = (None, [], [])"
| "bind_loop env (m # ms) =
     (if sm_Type m \<noteq> ''bind'' then (case bind_loop env ms of (r, bs, ms') \<Rightarrow> (r, bs, m # ms'))
      else case bind_transform env m of
             Inl e \<Rightarrow> (Some e, [], m # ms)
           | Inr (b, m') \<Rightarrow> (case bind_loop env ms of (r, bs, ms') \<Rightarrow> (r, b # bs, m' # ms')))"

definition set_mounts :: "spec_mount list \<Rightarrow> Bundle \<Rightarrow> Bundle" where
  "set_mounts ms b = b\<lparr>b_Spec := (b_Spec b)\<lparr>sp_Mounts := ms\<rparr>\<rparr>"

definition bind_FromBundle :: "bind_env \<Rightarrow> bindMount list transformer" where
  "bind_FromBundle env sb =
     (case sb of (bm, b) \<Rightarrow>
      case bind_loop env (sp_Mounts (b_Spec b)) of (r, bs, ms) \<Rightarrow> (r, (bm @ bs, set_mounts ms b)))"

definition bind_SandboxOpts :: "bindMount list \<Rightarrow> sb_opt list" where
  "bind_SandboxOpts bm = map (\<lambda>m. WithFS (bm_tag m) (bm_hostSrc m) False) bm"

definition bind_VmMounts :: "bindMount list \<Rightarrow> Mount list" where
  "bind_VmMounts bm =
     map (\<lambda>m. \<lparr>m_Type = ''virtiofs'', m_Source = bm_tag m, m_Target = bm_vmTarget m, m_Options = []\<rparr>) bm"

record blockMounter =
  bk_opts :: "sb_opt list"
  bk_vmMounts :: "Mount list"

definition volume_target :: "8 word \<Rightarrow> string" where
  "volume_target letter = ''/mnt/sd'' @ show_rune letter"

fun block_loop ::
  "string \<Rightarrow> spec_mount list \<Rightarrow> diskAllocator \<Rightarrow> (sb_opt list \<times> Mount list \<times> spec_mount list) \<times> diskAllocator" where
  "block_loop cid [] da = (([], [], []), da)"
| "block_loop cid (m # ms) da =
     (if sm_Type m \<noteq> ''ext4'' then
        (case block_loop cid ms da of ((os, vs, ms'), da') \<Rightarrow> ((os, vs, m # ms'), da'))
      else case da_Next da of (letter, da1) \<Rightarrow>
        let ro = (''ro'' \<in> set (sm_Options m));
            m' = m\<lparr>sm_Type := ''bind'', sm_Source := volume_target letter,
                   sm_Options := (if ro then [''rbind'', ''ro''] else [''rbind''])\<rparr>;
            opt = WithDisk (disk_name letter cid) (sm_Source m) (if ro then DiskFlagReadonly else 0);
            vm = \<lparr>m_Type = ''ext4'', m_Source = device_path letter, m_Target = volume_target letter,
                  m_Options = sm_Options m\<rparr>
        in (case block_loop cid ms da1 of ((os, vs, ms'), da') \<Rightarrow> ((opt # os, vm # vs, m' # ms'), da')))"

definition block_FromBundle ::
  "string \<Rightarrow> blockMounter \<Rightarrow> Bundle \<Rightarrow> diskAllocator \<Rightarrow> (blockMounter \<times> Bundle) \<times> diskAllocator" where
  "block_FromBundle cid bk b da =
     (case block_loop cid (sp_Mounts (b_Spec b)) da of
        ((os, vs, ms), da') \<Rightarrow>
          ((bk\<lparr>bk_opts := bk_opts bk @ os, bk_vmMounts := bk_vmMounts bk @ vs\<rparr>, set_mounts ms b), da'))"

section \<open>Letters and disks\<close>

definition is_disk :: "Mount \<Rightarrow> bool" where
  "is_disk m \<longleftrightarrow> m_Type m = ''erofs'' \<or> m_Type m = ''ext4''"

text \<open>The host file behind the disk of a mount.\<close>

definition host_source :: "Mount \<Rightarrow> string" where
  "host_source m = (if m_Type m = ''erofs'' \<and> fst (split_devices (m_Options m)) \<noteq> [] then merged_path (m_Source m)
                    else m_Source m)"

text \<open>The names the guest gives \<open>n\<close> disks, from the \<open>k\<close>th on.\<close>

definition guest_devices :: "8 word \<Rightarrow> nat \<Rightarrow> string list" where
  "guest_devices k n = map (\<lambda>i. device_path (k + of_nat i)) [0..<n]"

lemma guest_devices_0 [simp]: "guest_devices k 0 = []"
  by (simp add: guest_devices_def)

lemma guest_devices_Suc [simp]: "guest_devices k (Suc n) = device_path k # guest_devices (k + 1) n"
  by (simp add: guest_devices_def upt_conv_Cons map_Suc_upt [symmetric] add_ac del: upt_Suc)

lemma guest_devices_append:
  "guest_devices k (m + n) = guest_devices k m @ guest_devices (k + of_nat m) n"
  by (induction m arbitrary: k) (simp_all add: add_ac)

lemma transform_mount_disk:
  assumes "transform_mount env cid m (da, fs) = (Inr (d, am), (da', fs'))"
  shows "if is_disk m then
           d \<noteq> None \<and> do_source (the d) = host_source m \<and> is_disk am \<and> m_Source am = device_path (da_next da)
             \<and> da_next da' = da_next da + 1
         else d = None \<and> am = m \<and> da' = da"
  using assms
  by (auto simp: transform_mount_def transform_erofs_def transform_ext4_def transform_overlay_def da_Next_def
      is_disk_def host_source_def Let_def split: if_splits prod.splits option.splits sum.splits)

lemma transform_loop_disks:
  assumes "transform_loop env cid ms (da, fs) = (Inr (ds, am), (da', fs'))"
  shows "da_next da' = da_next da + of_nat (length ds) \<and>
    map m_Source (filter is_disk am) = guest_devices (da_next da) (length ds) \<and>
    map do_source ds = map host_source (filter is_disk ms)"
  using assms
proof (induction ms arbitrary: da fs ds am)
  case (Cons m ms)
  obtain d am1 da1 fs1 where m: "transform_mount env cid m (da, fs) = (Inr (d, am1), (da1, fs1))"
    using Cons.prems by (auto split: prod.splits sum.splits)
  obtain ds1 ams where rest: "transform_loop env cid ms (da1, fs1) = (Inr (ds1, ams), (da', fs'))"
    and eq: "ds = (case d of None \<Rightarrow> ds1 | Some x \<Rightarrow> x # ds1)" "am = am1 # ams"
    using Cons.prems m by (auto split: prod.splits sum.splits)
  show ?case
    using Cons.IH [OF rest] transform_mount_disk [OF m]
    by (cases "is_disk m") (auto simp: eq add_ac)
qed simp

lemma opt_disks_disk_opt [simp]: "map d_MountPath (opt_disks (map disk_opt ds)) = map do_source ds"
  by (induction ds) (simp_all add: disk_opt_def)

lemma length_opt_disks_disk_opt [simp]: "length (opt_disks (map disk_opt ds)) = length ds"
  by (induction ds) (simp_all add: disk_opt_def)

abbreviation volumes :: "spec_mount list \<Rightarrow> spec_mount list" where
  "volumes ms \<equiv> filter (\<lambda>m. sm_Type m = ''ext4'') ms"

lemma block_loop_disks:
  assumes "block_loop cid ms da = ((os, vs, ms'), da')"
  shows "da_next da' = da_next da + of_nat (length os) \<and>
    map m_Source vs = guest_devices (da_next da) (length os) \<and>
    map d_MountPath (opt_disks os) = map sm_Source (volumes ms) \<and> length os = length (volumes ms) \<and>
    length (opt_disks os) = length os"
  using assms
proof (induction ms arbitrary: da os vs ms')
  case (Cons m ms)
  then show ?case
    by (cases "sm_Type m = ''ext4''") (auto simp: da_Next_def Let_def add_ac split: prod.splits)
qed simp

lemma da_count_start: "da_count (newDiskAllocator\<lparr>da_next := 97 + of_nat n\<rparr>) = int (n mod 256)"
  by (simp add: da_count_def uint_word_of_int_eq unsigned_of_nat take_bit_eq_mod zmod_int)

lemma letters_name_disks:
  assumes "transformMounts env cid ms (newDiskAllocator, fs) = (Inr (am, opts), (da, fs'))"
    and "block_FromBundle cid \<lparr>bk_opts = [], bk_vmMounts = []\<rparr> b da = ((bk, b'), da')"
  shows "map d_MountPath (opt_disks (opts @ bk_opts bk)) =
           map host_source (filter is_disk ms) @ map sm_Source (volumes (sp_Mounts (b_Spec b)))
     \<and> map m_Source (filter is_disk am @ bk_vmMounts bk) =
         guest_devices 97 (length (opt_disks (opts @ bk_opts bk)))
     \<and> da_count da' = int (length (opt_disks (opts @ bk_opts bk)) mod 256)"
proof -
  obtain ds where loop: "transform_loop env cid ms (newDiskAllocator, fs) = (Inr (ds, am), (da, fs'))"
    and opts: "opts = map disk_opt ds"
    using assms(1) by (auto simp: transformMounts_def split: prod.splits sum.splits)
  obtain os vs ms' where block: "block_loop cid (sp_Mounts (b_Spec b)) da = ((os, vs, ms'), da')"
    and bk: "bk_opts bk = os" "bk_vmMounts bk = vs"
    using assms(2) by (auto simp: block_FromBundle_def split: prod.splits)
  note L = transform_loop_disks [OF loop] and B = block_loop_disks [OF block]
  have "da_next da' = 97 + of_nat (length ds + length os)"
    using L B by (simp add: newDiskAllocator_def add_ac)
  then have "da_count da' = int ((length ds + length os) mod 256)"
    using da_count_start [of "length ds + length os"] by (simp add: da_count_def)
  then show ?thesis
    using L B by (simp add: opts bk guest_devices_append newDiskAllocator_def)
qed

text \<open>
  Every device path in the mounts of the guest, rootfs first and volumes after, is the name of
  the disk at the same place in the sandbox options, whose file is the one the mount asked for; and
  the allocator has counted exactly these disks, modulo 256.
\<close>

theorem disk_letters_agree:
  assumes "transformMounts env cid ms (newDiskAllocator, fs) = (Inr (am, opts), (da, fs'))"
    and "block_FromBundle cid \<lparr>bk_opts = [], bk_vmMounts = []\<rparr> b da = ((bk, b'), da')"
  shows "map d_MountPath (opt_disks (opts @ bk_opts bk)) =
           map host_source (filter is_disk ms) @ map sm_Source (volumes (sp_Mounts (b_Spec b)))
     \<and> map m_Source (filter is_disk am @ bk_vmMounts bk) =
         guest_devices 97 (length (opt_disks (opts @ bk_opts bk)))
     \<and> da_count da' = int (length (opt_disks (opts @ bk_opts bk)) mod 256)"
  by (rule letters_name_disks [OF assms])

definition plain_host :: host_env where
  "plain_host = \<lparr>he_stat = (\<lambda>_. Inl enoent), he_create = (\<lambda>_. Inr None)\<rparr>"

definition ext4_mount :: "string \<Rightarrow> Mount" where
  "ext4_mount src = \<lparr>m_Type = ''ext4'', m_Source = src, m_Target = [], m_Options = [''loop'']\<rparr>"

definition volume_bundle :: Bundle where
  "volume_bundle = \<lparr>b_Path = ''/b'', b_Spec = \<lparr>sp_Root = None, sp_Mounts =
      [\<lparr>sm_Destination = ''/data'', sm_Type = ''ext4'', sm_Source = ''/vol.img'', sm_Options = [''ro'']\<rparr>],
     sp_Annotations = [], sp_Other = []\<rparr>, b_Rootfs = [], b_extraFiles = []\<rparr>"

theorem disk_letters_agree_witness:
  "\<exists>am opts da fs' bk b' da'. transformMounts plain_host ''c1'' [ext4_mount ''/root.img''] (newDiskAllocator, []) =
      (Inr (am, opts), (da, fs')) \<and>
     block_FromBundle ''c1'' \<lparr>bk_opts = [], bk_vmMounts = []\<rparr> volume_bundle da = ((bk, b'), da') \<and>
     map d_MountPath (opt_disks (opts @ bk_opts bk)) = [''/root.img'', ''/vol.img''] \<and>
     map m_Source (filter is_disk am @ bk_vmMounts bk) = guest_devices 97 2"
proof -
  obtain am opts da fs' where t: "transformMounts plain_host ''c1'' [ext4_mount ''/root.img''] (newDiskAllocator, []) =
      (Inr (am, opts), (da, fs'))"
    by (simp add: transformMounts_def transform_mount_def transform_ext4_def ext4_mount_def da_Next_def)
  obtain bk b' da' where b: "block_FromBundle ''c1'' \<lparr>bk_opts = [], bk_vmMounts = []\<rparr> volume_bundle da = ((bk, b'), da')"
    by (metis surj_pair)
  have paths: "map d_MountPath (opt_disks (opts @ bk_opts bk)) = [''/root.img'', ''/vol.img'']"
    using disk_letters_agree [OF t b]
    by (simp add: ext4_mount_def is_disk_def host_source_def volume_bundle_def)
  then have "length (opt_disks (opts @ bk_opts bk)) = 2"
    by (metis length_map length_Cons list.size(3) numeral_2_eq_2)
  then have devices: "map m_Source (filter is_disk am @ bk_vmMounts bk) = guest_devices 97 2"
    using disk_letters_agree [OF t b] by simp
  show ?thesis by (intro exI conjI) (rule t b paths devices)+
qed

section \<open>Where letters and disks part\<close>

lemma device_path_vdb: "device_path 98 = ''/dev/vdb''"
  by (simp add: device_path_def show_rune_def char_of_eq_iff)

text \<open>
  When the rootfs mounts are given up after a disk letter was taken and made on the host instead,
  the sandbox gets no disk for that letter, but the next volume's device is named after it: the guest
  looks for \<open>/dev/vdb\<close> when the volume is its only disk, \<open>/dev/vda\<close>.
\<close>

theorem fallback_shifts_letters:
  assumes "is_disk m1" and "transform_mount env cid m1 (newDiskAllocator, fs) = (Inr (d, am), (da1, fs1))"
    and "m_Type m2 = ''overlay''" and "transform_overlay m2 = Inl e"
    and "mountutil_All mu rootfs lmounts [m1, m2] = (None, act, ops)"
    and "volumes (sp_Mounts (b_Spec b)) = [v]"
  shows "\<exists>opts da bk b' da'. setupMounts mu env cid [m1, m2] rootfs lmounts (newDiskAllocator, fs) =
       (Inr (fst (virtiofs_rootfs cid rootfs), opts), (da, fs1), ops)
     \<and> block_FromBundle cid \<lparr>bk_opts = [], bk_vmMounts = []\<rparr> b da = ((bk, b'), da')
     \<and> length (opt_disks (opts @ bk_opts bk)) = 1
     \<and> map m_Source (bk_vmMounts bk) = [''/dev/vdb'']"
proof -
  have e: "is_errdef ErrNotImplemented e"
    using assms(4) by (auto simp: transform_overlay_def split: option.splits if_splits)
  have da1: "da_next da1 = 98"
    using transform_mount_disk [OF assms(2)] assms(1) by (simp add: newDiskAllocator_def)
  have "transformMounts env cid [m1, m2] (newDiskAllocator, fs) = (Inl e, (da1, fs1))"
    using assms(2,3,4) by (simp add: transformMounts_def transform_mount_def [of _ _ m2])
  then have "setupMounts mu env cid [m1, m2] rootfs lmounts (newDiskAllocator, fs) =
      (Inr (virtiofs_rootfs cid rootfs), (da1, fs1), ops)"
    using assms(5) e by (simp add: setupMounts_def)
  moreover obtain bk b' da' where b: "block_FromBundle cid \<lparr>bk_opts = [], bk_vmMounts = []\<rparr> b da1 = ((bk, b'), da')"
    by (metis surj_pair)
  moreover have "length (opt_disks (bk_opts bk)) = 1 \<and> map m_Source (bk_vmMounts bk) = [device_path 98]"
    using b assms(6) da1 block_loop_disks
    by (fastforce simp: block_FromBundle_def split: prod.splits)
  ultimately show ?thesis
    by (auto simp: virtiofs_rootfs_def device_path_vdb)
qed

definition plain_overlay :: Mount where
  "plain_overlay = \<lparr>m_Type = ''overlay'', m_Source = ''overlay'', m_Target = [],
     m_Options = [''workdir=/w'', ''upperdir=/u'']\<rparr>"

theorem fallback_shifts_letters_witness:
  "\<exists>ops opts da fs1 bk b' da'.
     setupMounts calm_mountutil plain_host ''c1'' [ext4_mount ''/root.img'', plain_overlay] ''/r'' ''/m''
       (newDiskAllocator, []) =
       (Inr (fst (virtiofs_rootfs ''c1'' ''/r''), opts), (da, fs1), ops)
     \<and> block_FromBundle ''c1'' \<lparr>bk_opts = [], bk_vmMounts = []\<rparr> volume_bundle da = ((bk, b'), da')
     \<and> length (opt_disks (opts @ bk_opts bk)) = 1 \<and> map m_Source (bk_vmMounts bk) = [''/dev/vdb'']"
proof -
  let ?m1 = "ext4_mount ''/root.img''"
  obtain d am da1 fs1 where t: "transform_mount plain_host ''c1'' ?m1 (newDiskAllocator, []) = (Inr (d, am), (da1, fs1))"
    by (simp add: transform_mount_def transform_ext4_def ext4_mount_def da_Next_def)
  obtain e where e: "transform_overlay plain_overlay = Inl e"
    by (simp add: transform_overlay_def plain_overlay_def last_option_def has_prefix_def)
  obtain act ops where a: "mountutil_All calm_mountutil ''/r'' ''/m'' [?m1, plain_overlay] = (None, act, ops)"
    by (simp add: mountutil_All_def calm_mountutil_def mount_one_def mount_target_def format_mount_def
        mkdir_mount_def cut_prefix_def ext4_mount_def plain_overlay_def Let_def)
  have m1: "is_disk ?m1" by (simp add: is_disk_def ext4_mount_def)
  have "m_Type plain_overlay = ''overlay''" "volumes (sp_Mounts (b_Spec volume_bundle)) =
      [\<lparr>sm_Destination = ''/data'', sm_Type = ''ext4'', sm_Source = ''/vol.img'', sm_Options = [''ro'']\<rparr>]"
    by (simp_all add: plain_overlay_def volume_bundle_def)
  from fallback_shifts_letters [OF m1 t this(1) e a this(2)] show ?thesis by (elim exE) (intro exI)
qed

text \<open>
  A VMDK descriptor that could not be written completely stays behind under its final name, and
  the next attempt takes it for the finished one.
\<close>

theorem partial_vmdk_reused:
  assumes "he_create env p = Inr cap" and "DumpVMDKDescriptorToFile env p cid devices fs = (Some e, fs')"
  shows "ensure_vmdk env p devices' fs' = (None, fs')"
  using assms by (auto simp: DumpVMDKDescriptorToFile_def ensure_vmdk_def os_Stat_def Let_def split: prod.splits)

theorem partial_vmdk_reused_witness:
  "\<exists>e fs'. DumpVMDKDescriptorToFile plain_host ''/i/merged_fs.vmdk'' 0 [''/missing''] [] = (Some e, fs')
     \<and> ensure_vmdk plain_host ''/i/merged_fs.vmdk'' [''/missing''] fs' = (None, fs')"
proof -
  have c: "he_create plain_host ''/i/merged_fs.vmdk'' = Inr None" by (simp add: plain_host_def)
  obtain e fs' where d: "DumpVMDKDescriptorToFile plain_host ''/i/merged_fs.vmdk'' 0 [''/missing''] [] = (Some e, fs')"
    by (simp add: DumpVMDKDescriptorToFile_def DumpVMDKDescriptor_def fprintf_def os_Stat_def plain_host_def)
  from partial_vmdk_reused [OF c d] d show ?thesis by blast
qed

end
