(* ===== verification/Networking.thy ===== *)
theory Networking
  imports Bundle
begin

text \<open>
  Network configuration: virtio-net features (\<open>internal/virtionet/features.go\<close>), the annotations of
  the VM's and the container's networks on the host (\<open>internal/shim/task/networking.go\<close>,
  \<open>ctrnetworking.go\<close>, \<open>internal/nwcfg/nwcfg.go\<close>) and the flags of the guest's init
  (\<open>pkg/vminit/initd/networking.go\<close>, \<open>ParseFlags\<close> of \<open>initd.go\<close>).

  MAC addresses are parsed and printed as \<open>net.ParseMAC\<close> and \<open>HardwareAddr.String\<close> do. The text of IP
  addresses is left to \<open>net_env\<close>, the functions of \<open>net/netip\<close>; an unset address is \<open>None\<close>.
\<close>

unbundle bit_operations_syntax

section \<open>Virtio-net features\<close>

text \<open>The constants \<open>VIRTIO_NET_F_*\<close>, \<open>1 << i\<close> each, in the order \<open>Features\<close> tests them.\<close>

definition virtio_features :: "(string \<times> nat) list" where
  "virtio_features =
     [(''VIRTIO_NET_F_CSUM'', 0), (''VIRTIO_NET_F_GUEST_CSUM'', 1),
      (''VIRTIO_NET_F_GUEST_TSO4'', 7), (''VIRTIO_NET_F_GUEST_TSO6'', 8),
      (''VIRTIO_NET_F_GUEST_UFO'', 10), (''VIRTIO_NET_F_HOST_TSO4'', 11),
      (''VIRTIO_NET_F_HOST_TSO6'', 12), (''VIRTIO_NET_F_HOST_UFO'', 14)]"

fun features_Add :: "32 word \<Rightarrow> string list \<Rightarrow> 32 word result" where
  "features_Add f [] = Inr f"
| "features_Add f (x # xs) =
     (case map_of virtio_features x of
        Some i \<Rightarrow> features_Add (f OR push_bit i 1) xs
      | None \<Rightarrow> Inl (ErrNew (''unknown feature: '' @ x)))"

definition FeaturesFromStrings :: "string list \<Rightarrow> 32 word result" where
  "FeaturesFromStrings xs = features_Add 0 xs"

definition features_Features :: "32 word \<Rightarrow> string list" where
  "features_Features f = map fst (filter (\<lambda>(x, i). f AND push_bit i 1 > 0) virtio_features)"

section \<open>MAC and IP addresses\<close>

definition hex_digit :: "char \<Rightarrow> nat option" where
  "hex_digit c =
     (let n = of_char c :: nat
      in if 48 \<le> n \<and> n \<le> 57 then Some (n - 48)
         else if 97 \<le> n \<and> n \<le> 102 then Some (n - 87)
         else if 65 \<le> n \<and> n \<le> 70 then Some (n - 55) else None)"

definition hex_byte :: "char \<Rightarrow> char \<Rightarrow> 8 word option" where
  "hex_byte a b =
     (case (hex_digit a, hex_digit b) of (Some x, Some y) \<Rightarrow> Some (of_nat (16 * x + y)) | _ \<Rightarrow> None)"

text \<open>Octets in pairs of digits with a separator, and in groups of four digits with dots.\<close>

fun mac_pairs :: "char \<Rightarrow> string \<Rightarrow> hwaddr option" where
  "mac_pairs c (a # b # rest) =
     (case hex_byte a b of
        None \<Rightarrow> None
      | Some x \<Rightarrow>
          (case rest of
             [] \<Rightarrow> Some [x]
           | s # rest' \<Rightarrow> if s = c then map_option (Cons x) (mac_pairs c rest') else None))"
| "mac_pairs c _ = None"

fun mac_quads :: "string \<Rightarrow> hwaddr option" where
  "mac_quads (a # b # c # d # rest) =
     (case (hex_byte a b, hex_byte c d) of
        (Some x, Some y) \<Rightarrow>
          (case rest of
             [] \<Rightarrow> Some [x, y]
           | s # rest' \<Rightarrow> if s = CHR ''.'' then map_option (\<lambda>xs. x # y # xs) (mac_quads rest') else None)
      | _ \<Rightarrow> None)"
| "mac_quads _ = None"

definition ParseMAC :: "string \<Rightarrow> hwaddr result" where
  "ParseMAC s =
     (let bad = Inl (ErrNew (''address '' @ s @ '': invalid MAC address''));
          r = (if length s < 14 then None
               else if s ! 2 \<in> {CHR '':'', CHR ''-''} then mac_pairs (s ! 2) s
               else if s ! 4 = CHR ''.'' then mac_quads s else None)
      in case r of None \<Rightarrow> bad | Some hw \<Rightarrow> if length hw \<in> {6, 8, 20} then Inr hw else bad)"

definition mac_String :: "hwaddr \<Rightarrow> string" where
  "mac_String hw = join_with '':'' (map (\<lambda>b. show_hex_byte (unat b)) hw)"

datatype ip = V4 "32 word" | V6 "128 word"

definition Is4 :: "ip \<Rightarrow> bool" where
  "Is4 a = (case a of V4 _ \<Rightarrow> True | V6 _ \<Rightarrow> False)"

record ip_prefix =
  px_Addr :: ip
  px_Bits :: nat

record net_env =
  ne_ParsePrefix :: "string \<Rightarrow> ip_prefix result"
  ne_ParseAddr :: "string \<Rightarrow> ip result"
  ne_String :: "ip_prefix \<Rightarrow> string"

section \<open>Networks of the VM\<close>

record network =
  nw_endpoint :: string
  nw_mode :: string
  nw_mac :: hwaddr
  nw_dhcp :: bool
  nw_addr4 :: "ip_prefix option"
  nw_addr6 :: "ip_prefix option"
  nw_features :: "32 word"
  nw_vfkit :: bool
  nw_vnetHdr :: bool

definition zero_network :: network where
  "zero_network = \<lparr>nw_endpoint = [], nw_mode = [], nw_mac = [], nw_dhcp = False, nw_addr4 = None, nw_addr6 = None,
     nw_features = 0, nw_vfkit = False, nw_vnetHdr = False\<rparr>"

definition networkAnnotation :: string where
  "networkAnnotation = ''io.containerd.nerdbox.network''"

definition parseVirtioNetFeatures :: "string \<Rightarrow> 32 word result" where
  "parseVirtioNetFeatures v = FeaturesFromStrings (split_on (CHR ''|'') v)"

text \<open>\<open>err\<close> wrapped when a standard library parser fails, as each case of the switches does.\<close>

definition wrap_result :: "string \<Rightarrow> 'a result \<Rightarrow> ('a \<Rightarrow> 'b result) \<Rightarrow> 'b result" where
  "wrap_result msg r k = (case r of Inl e \<Rightarrow> Inl (ErrWrap msg e) | Inr x \<Rightarrow> k x)"

definition parse_network_field :: "net_env \<Rightarrow> string \<Rightarrow> string \<Rightarrow> network \<Rightarrow> network result" where
  "parse_network_field env key v n =
     (if key = ''socket'' then Inr (n\<lparr>nw_endpoint := v\<rparr>)
      else if key = ''mode'' then
        (if v \<noteq> ''unixgram'' \<and> v \<noteq> ''unixstream'' then Inl (ErrNew (''invalid network mode: '' @ v))
         else Inr (n\<lparr>nw_mode := v\<rparr>))
      else if key = ''mac'' then
        wrap_result ''parsing MAC address'' (ParseMAC v) (\<lambda>mac.
          if hd mac AND 0xfe \<noteq> hd mac then Inl (ErrNew ''invalid MAC address: multicast bit is set'')
          else Inr (n\<lparr>nw_mac := mac\<rparr>))
      else if key = ''dhcp'' then
        wrap_result ''parsing DHCP field'' (parse_bool v) (\<lambda>b. Inr (n\<lparr>nw_dhcp := b\<rparr>))
      else if key = ''addr'' then
        wrap_result ''parsing address'' (ne_ParsePrefix env v) (\<lambda>addr.
          if Is4 (px_Addr addr) then
            (if nw_addr4 n \<noteq> None then Inl (ErrNew ''multiple IPv4 addresses specified'')
             else Inr (n\<lparr>nw_addr4 := Some addr\<rparr>))
          else
            (if nw_addr6 n \<noteq> None then Inl (ErrNew ''multiple IPv6 addresses specified'')
             else Inr (n\<lparr>nw_addr6 := Some addr\<rparr>)))
      else if key = ''features'' then
        wrap_result ''parsing features'' (parseVirtioNetFeatures v) (\<lambda>f. Inr (n\<lparr>nw_features := f\<rparr>))
      else if key = ''vfkit'' then
        wrap_result ''parsing vfkit field'' (parse_bool v) (\<lambda>b. Inr (n\<lparr>nw_vfkit := b\<rparr>))
      else if key = ''vnet_hdr'' then
        wrap_result ''parsing vnet_hdr field'' (parse_bool v) (\<lambda>b. Inr (n\<lparr>nw_vnetHdr := b\<rparr>))
      else Inl (ErrNew (''unknown network field: '' @ key)))"

fun parse_network_fields :: "net_env \<Rightarrow> string list \<Rightarrow> network \<Rightarrow> network result" where
  "parse_network_fields env [] n = Inr n"
| "parse_network_fields env (field # fs) n =
     (case split2 (CHR ''='') field of
        [key, v] \<Rightarrow>
          (case parse_network_field env key v n of
             Inl e \<Rightarrow> Inl e
           | Inr n' \<Rightarrow> parse_network_fields env fs n')
      | _ \<Rightarrow> Inl (ErrNew (''invalid network field: '' @ field)))"

definition parseNetwork :: "net_env \<Rightarrow> string \<Rightarrow> network result" where
  "parseNetwork env annotation =
     (case parse_network_fields env (split_on (CHR '','') annotation) zero_network of
        Inl e \<Rightarrow> Inl e
      | Inr n \<Rightarrow>
          if nw_endpoint n = [] \<or> nw_mode n = [] \<or> nw_mac n = [] then
            Inl (ErrNew ''missing required field(s): endpoint, mode, mac'')
          else Inr n)"

text \<open>
  A loop over the annotations with a prefix: each is removed from the spec, then parsed and appended.
  \<open>networksProvider.FromBundle\<close> and \<open>ctrNetConfig.fromBundle\<close> are this loop.
\<close>

fun annotation_loop ::
  "string \<Rightarrow> (string \<Rightarrow> 'n result) \<Rightarrow> string \<Rightarrow> (string \<times> string) list \<Rightarrow> 'n list transformer" where
  "annotation_loop pre parse msg [] (ns, b) = (None, (ns, b))"
| "annotation_loop pre parse msg ((k, v) # rest) (ns, b) =
     (if \<not> has_prefix k pre then annotation_loop pre parse msg rest (ns, b)
      else let b' = delete_annotation k b
           in case parse v of
                Inl e \<Rightarrow> (Some (ErrWrap msg e), (ns, b'))
              | Inr n \<Rightarrow> annotation_loop pre parse msg rest (ns @ [n], b'))"

definition networks_FromBundle :: "net_env \<Rightarrow> network list transformer" where
  "networks_FromBundle env nb =
     annotation_loop (networkAnnotation @ ''.'') (parseNetwork env) ''failed to parse network annotation''
       (annotations (snd nb)) nb"

definition NET_FLAG_VFKIT :: "32 word" where
  "NET_FLAG_VFKIT = push_bit 0 1"

definition NET_FLAG_INCLUDE_VNET_HEADER :: "32 word" where
  "NET_FLAG_INCLUDE_VNET_HEADER = push_bit 1 1"

definition nic_flags :: "network \<Rightarrow> 32 word" where
  "nic_flags nw = (if nw_vfkit nw then NET_FLAG_VFKIT else 0) OR (if nw_vnetHdr nw then NET_FLAG_INCLUDE_VNET_HEADER else 0)"

definition networks_SandboxOptions :: "network list \<Rightarrow> sb_opt list" where
  "networks_SandboxOptions nws =
     map (\<lambda>nw. WithNIC (nw_endpoint nw) (nw_mac nw) (if nw_mode nw = ''unixstream'' then 1 else 0)
            (nw_features nw) (nic_flags nw)) nws"

definition network_fields :: "net_env \<Rightarrow> hwaddr \<Rightarrow> bool \<Rightarrow> ip_prefix option \<Rightarrow> ip_prefix option \<Rightarrow> string list" where
  "network_fields env mac dhcp a4 a6 =
     [''mac='' @ mac_String mac] @ (if dhcp then [''dhcp=true''] else [])
     @ (case a4 of None \<Rightarrow> [] | Some a \<Rightarrow> [''addr='' @ ne_String env a])
     @ (case a6 of None \<Rightarrow> [] | Some a \<Rightarrow> [''addr='' @ ne_String env a])"

definition network_value :: "net_env \<Rightarrow> network \<Rightarrow> string" where
  "network_value env nw = join_with '','' (network_fields env (nw_mac nw) (nw_dhcp nw) (nw_addr4 nw) (nw_addr6 nw))"

definition networks_InitArgs :: "net_env \<Rightarrow> network list \<Rightarrow> string list" where
  "networks_InitArgs env nws = map (\<lambda>nw. ''-network='' @ network_value env nw) nws"

section \<open>Networks of the container\<close>

record nw_Network =
  n_VmMAC :: string
  n_MAC :: string
  n_Addrs :: "ip_prefix list"
  n_IfName :: string
  n_DefaultGw4 :: "ip option"
  n_DefaultGw6 :: "ip option"

definition zero_nw_Network :: nw_Network where
  "zero_nw_Network = \<lparr>n_VmMAC = [], n_MAC = [], n_Addrs = [], n_IfName = [], n_DefaultGw4 = None, n_DefaultGw6 = None\<rparr>"

definition ifNameSize :: nat where
  "ifNameSize = 16"

definition ctrNetworkAnnotation :: string where
  "ctrNetworkAnnotation = ''io.containerd.nerdbox.ctr.network''"

definition ctrDNSAnnotation :: string where
  "ctrDNSAnnotation = ''io.containerd.nerdbox.ctr.dns''"

definition parse_ctr_field :: "net_env \<Rightarrow> string \<Rightarrow> string \<Rightarrow> nw_Network \<Rightarrow> nw_Network result" where
  "parse_ctr_field env key v n =
     (if key = ''vmmac'' then
        (if n_VmMAC n \<noteq> [] then Inl (ErrNew ''multiple VM MAC addresses specified'')
         else wrap_result ''parsing MAC address'' (ParseMAC v) (\<lambda>mac.
           if hd mac AND 1 \<noteq> 0 then Inl (ErrNew (''invalid VM MAC address '' @ v @ '': multicast bit is set''))
           else Inr (n\<lparr>n_VmMAC := mac_String mac\<rparr>)))
      else if key = ''mac'' then
        (if n_MAC n \<noteq> [] then Inl (ErrNew ''multiple container MAC addresses specified'')
         else wrap_result ''parsing container MAC address'' (ParseMAC v) (\<lambda>mac.
           if hd mac AND 1 \<noteq> 0 then Inl (ErrNew (''invalid container MAC address '' @ v @ '': multicast bit is set''))
           else Inr (n\<lparr>n_MAC := mac_String mac\<rparr>)))
      else if key = ''addr'' then
        wrap_result ''parsing container address'' (ne_ParsePrefix env v) (\<lambda>a. Inr (n\<lparr>n_Addrs := n_Addrs n @ [a]\<rparr>))
      else if key = ''gw'' then
        wrap_result ''parsing gateway address'' (ne_ParseAddr env v) (\<lambda>a.
          if Is4 a then
            (if n_DefaultGw4 n \<noteq> None then Inl (ErrNew ''multiple IPv4 gateways specified'')
             else Inr (n\<lparr>n_DefaultGw4 := Some a\<rparr>))
          else
            (if n_DefaultGw6 n \<noteq> None then Inl (ErrNew ''multiple IPv6 gateways specified'')
             else Inr (n\<lparr>n_DefaultGw6 := Some a\<rparr>)))
      else if key = ''ifname'' then
        (if length v \<ge> ifNameSize then
           Inl (ErrNew (''interface name has more than '' @ show_nat (ifNameSize - 1) @ '' characters: ''
                  @ take (ifNameSize - 1) v @ ''...''))
         else Inr (n\<lparr>n_IfName := v\<rparr>))
      else Inl (ErrNew (''unknown network field: '' @ key)))"

fun parse_ctr_fields :: "net_env \<Rightarrow> string list \<Rightarrow> nw_Network \<Rightarrow> nw_Network result" where
  "parse_ctr_fields env [] n = Inr n"
| "parse_ctr_fields env (field # fs) n =
     (case split2 (CHR ''='') field of
        [key, v] \<Rightarrow>
          (case parse_ctr_field env key v n of Inl e \<Rightarrow> Inl e | Inr n' \<Rightarrow> parse_ctr_fields env fs n')
      | _ \<Rightarrow> Inl (ErrNew (''invalid container network field: '' @ field)))"

definition parseCtrNetwork :: "net_env \<Rightarrow> string \<Rightarrow> nw_Network result" where
  "parseCtrNetwork env annotation =
     (case parse_ctr_fields env (split_on (CHR '','') annotation) zero_nw_Network of
        Inl e \<Rightarrow> Inl e
      | Inr n \<Rightarrow> if n_VmMAC n = [] then Inl (ErrNew ([CHR 0x27] @ ''vmmac'' @ [CHR 0x27] @ '' is missing'')) else Inr n)"

definition ctr_fromBundle :: "net_env \<Rightarrow> nw_Network list transformer" where
  "ctr_fromBundle env nb =
     annotation_loop (ctrNetworkAnnotation @ ''.'') (parseCtrNetwork env)
       ''failed to parse container network annotation'' (annotations (snd nb)) nb"

text \<open>The lines of \<open>resolv.conf\<close> for one field of the annotation.\<close>

definition resolv_line :: "string \<Rightarrow> string" where
  "resolv_line field = (case cut_at (CHR ''='') field of (k, v, found) \<Rightarrow> k @ (if found then CHR '' '' # v else []) @ [CHR 0x0A])"

definition resolv_bytes :: "string result \<Rightarrow> bool \<Rightarrow> Bundle \<Rightarrow> string \<times> Bundle" where
  "resolv_bytes hostRC fallbackToHostRC b =
     (case gm_get (annotations b) ctrDNSAnnotation of
        Some rcCSV \<Rightarrow>
          (concat (map resolv_line (split_on (CHR '','') rcCSV)), delete_annotation ctrDNSAnnotation b)
      | None \<Rightarrow>
          if fallbackToHostRC then (case hostRC of Inr c \<Rightarrow> (c, b) | Inl _ \<Rightarrow> ([], b)) else ([], b))"

definition addResolvConf :: "string result \<Rightarrow> bool \<Rightarrow> Bundle \<Rightarrow> Bundle" where
  "addResolvConf hostRC fallbackToHostRC b =
     (if \<exists>m\<in>set (sp_Mounts (b_Spec b)). sm_Destination m = ''/etc/resolv.conf'' then b
      else case resolv_bytes hostRC fallbackToHostRC b of (rc, b1) \<Rightarrow>
        let b2 = (if rc \<noteq> [] then AddExtraFile ''resolv.conf'' rc b1 else b1);
            source = (if rc \<noteq> [] then ''resolv.conf'' else ''/etc/resolv.conf'')
        in b2\<lparr>b_Spec := (b_Spec b2)\<lparr>sp_Mounts := sp_Mounts (b_Spec b2) @
             [\<lparr>sm_Destination = ''/etc/resolv.conf'', sm_Type = ''bind'', sm_Source = source,
               sm_Options = [''rbind'', ''rprivate'']\<rparr>]\<rparr>\<rparr>)"

section \<open>Flags of the guest's init\<close>

record vm_Network =
  vn_MAC :: hwaddr
  vn_Addr4 :: "ip_prefix option"
  vn_Addr6 :: "ip_prefix option"
  vn_DHCP :: bool

definition zero_vm_Network :: vm_Network where
  "zero_vm_Network = \<lparr>vn_MAC = [], vn_Addr4 = None, vn_Addr6 = None, vn_DHCP = False\<rparr>"

definition Validate :: "vm_Network \<Rightarrow> go_error option" where
  "Validate nw =
     (if vn_MAC nw = [] then Some (ErrNew ''must specify MAC address'')
      else if (vn_Addr4 nw \<noteq> None \<or> vn_Addr6 nw \<noteq> None) \<and> vn_DHCP nw then
        Some (ErrNew ''cannot specify both addr and dhcp'')
      else None)"

fun set_fields :: "net_env \<Rightarrow> string \<Rightarrow> string list \<Rightarrow> vm_Network \<Rightarrow> vm_Network result" where
  "set_fields env v [] nw = Inr nw"
| "set_fields env v (kv # kvs) nw =
     (case split_on (CHR ''='') kv of
        [k, x] \<Rightarrow>
          if k = ''mac'' then
            wrap_result ''invalid MAC address'' (ParseMAC x) (\<lambda>mac. set_fields env v kvs (nw\<lparr>vn_MAC := mac\<rparr>))
          else if k = ''addr'' then
            wrap_result ''invalid IP address'' (ne_ParsePrefix env x) (\<lambda>a.
              set_fields env v kvs (if Is4 (px_Addr a) then nw\<lparr>vn_Addr4 := Some a\<rparr> else nw\<lparr>vn_Addr6 := Some a\<rparr>))
          else if k = ''dhcp'' then
            wrap_result ''invalid DHCP field'' (parse_bool x) (\<lambda>d. set_fields env v kvs (nw\<lparr>vn_DHCP := d\<rparr>))
          else Inl (ErrNew (''invalid network '' @ quote v @ '': unknown field '' @ quote k))
      | _ \<Rightarrow> Inl (ErrNew (''invalid network '' @ quote v
                 @ '': expected format: mac=<mac>,[addr=<addr>|dhcp=<dhcp>]'')))"

definition Networks_Set :: "net_env \<Rightarrow> string \<Rightarrow> vm_Network list \<Rightarrow> vm_Network list result" where
  "Networks_Set env v ns =
     (case set_fields env v (split_on (CHR '','') v) zero_vm_Network of
        Inl e \<Rightarrow> Inl e
      | Inr nw \<Rightarrow>
          (case Validate nw of
             Some e \<Rightarrow> Inl (ErrWrap (''invalid network '' @ quote v) e)
           | None \<Rightarrow> Inr (ns @ [nw])))"

definition Networks_String :: "net_env \<Rightarrow> vm_Network list \<Rightarrow> string" where
  "Networks_String env ns =
     join_with '' '' (map (\<lambda>nw. join_with '','' (network_fields env (vn_MAC nw) (vn_DHCP nw) (vn_Addr4 nw) (vn_Addr6 nw))) ns)"

record initd_Config =
  ic_VSockContextID :: int
  ic_RPCPort :: int
  ic_StreamPort :: int
  ic_Networks :: "vm_Network list"
  ic_DumpInfo :: bool
  ic_Debug :: bool
  ic_Dev :: bool

definition default_Config :: initd_Config where
  "default_Config = \<lparr>ic_VSockContextID = 0, ic_RPCPort = 1024, ic_StreamPort = 1025, ic_Networks = [],
     ic_DumpInfo = False, ic_Debug = False, ic_Dev = False\<rparr>"

definition bool_flag :: "string \<Rightarrow> bool" where
  "bool_flag name \<longleftrightarrow> name \<in> {''debug'', ''dump-info'', ''dev''}"

definition flag_defined :: "string \<Rightarrow> bool" where
  "flag_defined name \<longleftrightarrow> bool_flag name \<or> name \<in> {''vsock-rpc-port'', ''vsock-stream-port'', ''vsock-cid'', ''network''}"

text \<open>
  Setting a flag from its text. Numbers are read as plain decimals; the other bases of \<open>strconv\<close> do not
  occur in the arguments the host builds.
\<close>

definition set_flag :: "net_env \<Rightarrow> string \<Rightarrow> string \<Rightarrow> initd_Config \<Rightarrow> initd_Config result" where
  "set_flag env name v c =
     (if name = ''debug'' then map_sum id (\<lambda>b. c\<lparr>ic_Debug := b\<rparr>) (parse_bool v)
      else if name = ''dump-info'' then map_sum id (\<lambda>b. c\<lparr>ic_DumpInfo := b\<rparr>) (parse_bool v)
      else if name = ''dev'' then map_sum id (\<lambda>b. c\<lparr>ic_Dev := b\<rparr>) (parse_bool v)
      else if name = ''vsock-rpc-port'' then map_sum id (\<lambda>n. c\<lparr>ic_RPCPort := int n\<rparr>) (parse_uint v 63)
      else if name = ''vsock-stream-port'' then map_sum id (\<lambda>n. c\<lparr>ic_StreamPort := int n\<rparr>) (parse_uint v 63)
      else if name = ''vsock-cid'' then map_sum id (\<lambda>n. c\<lparr>ic_VSockContextID := int n\<rparr>) (parse_uint v 63)
      else if name = ''network'' then map_sum id (\<lambda>ns. c\<lparr>ic_Networks := ns\<rparr>) (Networks_Set env v (ic_Networks c))
      else Inl (ErrNew (''flag provided but not defined: -'' @ name)))"

text \<open>
  The \<open>flag\<close> package: parsing stops at the first argument that is not a flag; an error leaves the
  process, since the set is made with \<open>ExitOnError\<close>.
\<close>

fun parse_flags :: "net_env \<Rightarrow> string list \<Rightarrow> initd_Config \<Rightarrow> initd_Config result" where
  "parse_flags env [] c = Inr c"
| "parse_flags env (s # args) c =
     (if length s < 2 \<or> hd s \<noteq> CHR ''-'' then Inr c
      else if s = ''--'' then Inr c
      else let body = (if s ! 1 = CHR ''-'' then drop 2 s else drop 1 s)
           in if hd body = CHR ''-'' \<or> hd body = CHR ''='' then Inl (ErrNew (''bad flag syntax: '' @ s))
              else case cut_at (CHR ''='') body of
                (name, v, True) \<Rightarrow>
                  (case set_flag env name v c of Inl e \<Rightarrow> Inl e | Inr c' \<Rightarrow> parse_flags env args c')
              | (name, v, False) \<Rightarrow>
                  if bool_flag name then
                    (case set_flag env name ''true'' c of Inl e \<Rightarrow> Inl e | Inr c' \<Rightarrow> parse_flags env args c')
                  else (case args of
                          [] \<Rightarrow> Inl (ErrNew ((if flag_defined name then ''flag needs an argument: -''
                                              else ''flag provided but not defined: -'') @ name))
                        | v' # args' \<Rightarrow>
                            (case set_flag env name v' c of Inl e \<Rightarrow> Inl e | Inr c' \<Rightarrow> parse_flags env args' c')))"

definition ParseFlags :: "net_env \<Rightarrow> string list \<Rightarrow> initd_Config result" where
  "ParseFlags env args =
     parse_flags env (if args \<noteq> [] \<and> hd args = ''tsi_hijack'' then tl args else args) default_Config"

section \<open>Features\<close>

lemma and_push_bit_pos: "(f AND push_bit i 1 > (0 :: 32 word)) \<longleftrightarrow> bit f i"
  by (simp add: word_gt_0 push_bit_eq_mult and_exp_eq_0_iff_not_bit)

lemma virtio_features_small: "(x, i) \<in> set virtio_features \<Longrightarrow> i < 32"
  by (auto simp: virtio_features_def)

lemma virtio_features_inj: "(x, i) \<in> set virtio_features \<Longrightarrow> (y, i) \<in> set virtio_features \<Longrightarrow> x = y"
proof -
  have "inj_on snd (set virtio_features)"
    by (rule distinct_map [THEN iffD1, THEN conjunct2]) (simp add: virtio_features_def)
  then show "(x, i) \<in> set virtio_features \<Longrightarrow> (y, i) \<in> set virtio_features \<Longrightarrow> x = y"
    by (metis inj_on_def prod.inject snd_conv)
qed

lemma virtio_features_map_of: "map_of virtio_features x = Some i \<longleftrightarrow> (x, i) \<in> set virtio_features"
proof -
  have "distinct (map fst virtio_features)" by (simp add: virtio_features_def)
  then show ?thesis by simp
qed

lemma features_Add_bits:
  assumes "features_Add f xs = Inr g" and "(y, i) \<in> set virtio_features"
  shows "bit g i \<longleftrightarrow> bit f i \<or> y \<in> set xs"
  using assms(1)
proof (induction xs arbitrary: f)
  case (Cons x xs)
  then obtain j where j: "(x, j) \<in> set virtio_features" and r: "features_Add (f OR push_bit j 1) xs = Inr g"
    by (auto simp: virtio_features_map_of split: option.splits)
  have "j = i \<longleftrightarrow> x = y"
    using j assms(2) virtio_features_inj virtio_features_map_of by (metis option.inject)
  with Cons.IH [OF r] virtio_features_small [OF assms(2)] show ?case
    by (auto simp: bit_simps)
qed simp

lemma features_Add_known: "features_Add f xs = Inr g \<Longrightarrow> x \<in> set xs \<Longrightarrow> \<exists>i. (x, i) \<in> set virtio_features"
  by (induction xs arbitrary: f) (auto simp: virtio_features_map_of split: option.splits)

text \<open>
  Feature names survive the trip through the bit mask: the mask of a list of names, listed again,
  gives exactly these names.
\<close>

theorem features_roundtrip:
  assumes "FeaturesFromStrings xs = Inr f"
  shows "set (features_Features f) = set xs"
proof -
  have "f AND push_bit i 1 > 0 \<longleftrightarrow> y \<in> set xs" if "(y, i) \<in> set virtio_features" for y i
    using features_Add_bits [of 0 xs f y i] assms that by (simp only: and_push_bit_pos FeaturesFromStrings_def) simp
  then have "y \<in> set (features_Features f) \<longleftrightarrow> (\<exists>i. (y, i) \<in> set virtio_features) \<and> y \<in> set xs" for y
    unfolding features_Features_def by force
  then show ?thesis
    using assms features_Add_known [of 0 xs f] by (auto simp: FeaturesFromStrings_def)
qed

theorem features_roundtrip_witness:
  "\<exists>f. FeaturesFromStrings [''VIRTIO_NET_F_HOST_UFO'', ''VIRTIO_NET_F_CSUM''] = Inr f
     \<and> set (features_Features f) = {''VIRTIO_NET_F_HOST_UFO'', ''VIRTIO_NET_F_CSUM''}"
proof -
  obtain f where f: "FeaturesFromStrings [''VIRTIO_NET_F_HOST_UFO'', ''VIRTIO_NET_F_CSUM''] = Inr f"
    by (simp add: FeaturesFromStrings_def virtio_features_def)
  from features_roundtrip [OF f] f show ?thesis by simp
qed

section \<open>MAC addresses\<close>

lemma of_char_digit: "d < 16 \<Longrightarrow> (of_char (digit d) :: nat) = (if d < 10 then 48 + d else 87 + d)"
  by (simp add: digit_def)

lemma hex_digit_digit: "d < 16 \<Longrightarrow> hex_digit (digit d) = Some d"
  by (simp add: hex_digit_def Let_def of_char_digit)

lemma hex_byte_show: "hex_byte (digit (unat (b :: 8 word) div 16 mod 16)) (digit (unat b mod 16)) = Some b"
proof -
  have "unat b < 256" using unsigned_less [of b] by simp
  then have "unat b div 16 mod 16 = unat b div 16" by (simp add: div_less_iff_less_mult)
  then show ?thesis by (simp add: hex_byte_def hex_digit_digit)
qed

lemma mac_pairs_String: "hw \<noteq> [] \<Longrightarrow> mac_pairs (CHR '':'') (mac_String hw) = Some hw"
proof (induction hw rule: induct_list012)
  case (2 x)
  then show ?case by (simp add: mac_String_def show_hex_byte_def hex_byte_show)
next
  case (3 x y zs)
  then show ?case by (simp add: mac_String_def show_hex_byte_def hex_byte_show)
qed simp

lemma length_mac_String: "hw \<noteq> [] \<Longrightarrow> length (mac_String hw) = 3 * length hw - 1"
  by (induction hw rule: induct_list012) (auto simp: mac_String_def show_hex_byte_def)

lemma ParseMAC_String [simp]:
  assumes "length hw \<in> {6, 8, 20}"
  shows "ParseMAC (mac_String hw) = Inr hw"
proof -
  obtain x y zs where hw: "hw = x # y # zs"
    using assms by (cases hw; cases "tl hw") auto
  have "mac_String hw ! 2 = CHR '':''"
    by (simp add: hw mac_String_def show_hex_byte_def)
  moreover have "\<not> length (mac_String hw) < 14"
    using assms length_mac_String [of hw] by (auto simp: hw)
  moreover have "mac_pairs (CHR '':'') (mac_String hw) = Some hw"
    by (rule mac_pairs_String) (simp add: hw)
  ultimately show ?thesis using assms by (simp add: ParseMAC_def Let_def)
qed

lemma ParseMAC_length: "ParseMAC s = Inr hw \<Longrightarrow> length hw \<in> {6, 8, 20}"
  by (auto simp: ParseMAC_def Let_def split: option.splits if_splits)

lemma mac_String_chars: "c \<in> set (mac_String hw) \<Longrightarrow> c = CHR '':'' \<or> (\<exists>d<16. c = digit d)"
proof (induction hw rule: induct_list012)
  case (2 x)
  then show ?case by (force simp: mac_String_def show_hex_byte_def)
next
  case (3 x y zs)
  then show ?case by (force simp: mac_String_def show_hex_byte_def)
qed (simp add: mac_String_def)

lemma mac_String_plain:
  assumes "hex_digit c = None" and "c \<noteq> CHR '':''"
  shows "c \<notin> set (mac_String hw)"
  using mac_String_chars [of c hw] assms hex_digit_digit by auto

section \<open>Annotations of the host stay on the host\<close>

text \<open>A bundle with other annotations, and the networks that the annotations with a prefix describe.\<close>

definition with_annotations :: "(string, string) gomap \<Rightarrow> Bundle \<Rightarrow> Bundle" where
  "with_annotations m b = b\<lparr>b_Spec := (b_Spec b)\<lparr>sp_Annotations := m\<rparr>\<rparr>"

lemma annotations_with [simp]:
  "annotations (with_annotations m b) = m" "with_annotations m (with_annotations m' b) = with_annotations m b"
  "with_annotations (annotations b) b = b"
  by (simp_all add: annotations_def with_annotations_def)

lemma delete_annotation_with:
  "delete_annotation k b = with_annotations (filter (\<lambda>kv. fst kv \<noteq> k) (annotations b)) b"
proof -
  have "gm_del k (annotations b) = filter (\<lambda>kv. fst kv \<noteq> k) (annotations b)"
    unfolding AList.delete_eq by (rule filter_cong) auto
  then show ?thesis by (simp add: delete_annotation_def with_annotations_def)
qed

definition parsed_as :: "(string \<Rightarrow> 'n result) \<Rightarrow> string \<Rightarrow> (string, string) gomap \<Rightarrow> 'n list \<Rightarrow> bool" where
  "parsed_as parse pre kvs ns \<longleftrightarrow> map (\<lambda>kv. parse (snd kv)) (filter (\<lambda>kv. has_prefix (fst kv) pre) kvs) = map Inr ns"

lemma annotation_loop_ok:
  assumes "annotation_loop pre parse msg kvs (ns, b) = (None, (ns', b'))"
  shows "(\<exists>new. ns' = ns @ new \<and> parsed_as parse pre kvs new)
    \<and> b' = with_annotations (filter (\<lambda>kv. \<not> (has_prefix (fst kv) pre \<and> fst kv \<in> fst ` set kvs)) (annotations b)) b"
  using assms
proof (induction kvs arbitrary: ns b)
  case (Cons kv rest)
  obtain k v where kv: "kv = (k, v)" by (cases kv)
  show ?case
  proof (cases "has_prefix k pre")
    case False
    with Cons.prems have "annotation_loop pre parse msg rest (ns, b) = (None, (ns', b'))" by (simp add: kv)
    from Cons.IH [OF this] False show ?thesis by (auto simp: kv parsed_as_def intro!: arg_cong2 [of _ _ _ _ with_annotations] filter_cong)
  next
    case True
    with Cons.prems obtain n where p: "parse v = Inr n" and
      "annotation_loop pre parse msg rest (ns @ [n], delete_annotation k b) = (None, (ns', b'))"
      by (auto simp: kv Let_def split: sum.splits)
    from Cons.IH [OF this(2)] obtain new where "ns' = ns @ n # new" "parsed_as parse pre rest new"
      and b': "b' = with_annotations (filter (\<lambda>kv. \<not> (has_prefix (fst kv) pre \<and> fst kv \<in> fst ` set rest))
        (annotations (delete_annotation k b))) (delete_annotation k b)" by auto
    moreover from b' have "b' = with_annotations (filter (\<lambda>x. \<not> (has_prefix (fst x) pre \<and> fst x \<in> fst ` set (kv # rest)))
        (annotations b)) b"
      using True by (auto simp: delete_annotation_with kv intro!: arg_cong2 [of _ _ _ _ with_annotations] filter_cong)
    ultimately show ?thesis using True p by (auto simp: kv parsed_as_def intro!: exI [of _ "n # new"])
  qed
qed (simp add: parsed_as_def)

lemma annotation_loop_all:
  assumes "annotation_loop pre parse msg (annotations b) (ns, b) = (None, (ns', b'))"
  shows "\<exists>new. ns' = ns @ new \<and> parsed_as parse pre (annotations b) new
    \<and> b' = with_annotations (filter (\<lambda>kv. \<not> has_prefix (fst kv) pre) (annotations b)) b"
proof -
  have "filter (\<lambda>kv. \<not> (has_prefix (fst kv) pre \<and> fst kv \<in> fst ` set (annotations b))) (annotations b)
      = filter (\<lambda>kv. \<not> has_prefix (fst kv) pre) (annotations b)"
    by (rule filter_cong) auto
  with annotation_loop_ok [OF assms] show ?thesis by auto
qed

lemma prefix_not_both:
  assumes "has_prefix k (ctrNetworkAnnotation @ ''.'')"
  shows "\<not> has_prefix k (networkAnnotation @ ''.'')"
proof
  assume "has_prefix k (networkAnnotation @ ''.'')"
  then have "take 30 k = ''io.containerd.nerdbox.network.''" by (auto simp: has_prefix_def networkAnnotation_def elim: prefixE)
  moreover have "take 34 k = ''io.containerd.nerdbox.ctr.network.''"
    using assms by (auto simp: has_prefix_def ctrNetworkAnnotation_def elim: prefixE)
  then have "take 30 (take 34 k) = take 30 ''io.containerd.nerdbox.ctr.network.''" by simp
  ultimately show False by simp
qed

text \<open>
  C32. The two transformers of networks, run one after the other on a bundle without an error, read each
  annotation of the host's spec that has one of their prefixes as one network, in order, and take exactly
  those annotations off the spec; every other annotation and everything else of the bundle is as before.
\<close>

theorem network_annotations_removed:
  assumes "networks_FromBundle env (ns, b) = (None, (ns', b1))" and "ctr_fromBundle env (cs, b1) = (None, (cs', b2))"
  shows "b2 = with_annotations (filter (\<lambda>kv. \<not> has_prefix (fst kv) (networkAnnotation @ ''.'')
              \<and> \<not> has_prefix (fst kv) (ctrNetworkAnnotation @ ''.'')) (annotations b)) b
    \<and> (\<exists>nw. ns' = ns @ nw \<and> parsed_as (parseNetwork env) (networkAnnotation @ ''.'') (annotations b) nw)
    \<and> (\<exists>cnw. cs' = cs @ cnw \<and> parsed_as (parseCtrNetwork env) (ctrNetworkAnnotation @ ''.'') (annotations b) cnw)"
proof -
  from assms have n: "annotation_loop (networkAnnotation @ ''.'') (parseNetwork env)
      ''failed to parse network annotation'' (annotations b) (ns, b) = (None, (ns', b1))"
    and c: "annotation_loop (ctrNetworkAnnotation @ ''.'') (parseCtrNetwork env)
      ''failed to parse container network annotation'' (annotations b1) (cs, b1) = (None, (cs', b2))"
    by (simp_all add: networks_FromBundle_def ctr_fromBundle_def)
  have "filter (\<lambda>kv. has_prefix (fst kv) (ctrNetworkAnnotation @ ''.'')) (filter (\<lambda>kv. \<not> has_prefix (fst kv) (networkAnnotation @ ''.'')) m)
      = filter (\<lambda>kv. has_prefix (fst kv) (ctrNetworkAnnotation @ ''.'')) m" for m :: "(string, string) gomap"
    using prefix_not_both by (auto intro: filter_cong)
  with annotation_loop_all [OF n] annotation_loop_all [OF c] show ?thesis
    by (auto simp: parsed_as_def conj_commute)
qed

section \<open>From the annotation to the guest\<close>

text \<open>What \<open>net/netip\<close> documents of a parsed prefix: its text parses back, and has no comma or equals sign.\<close>

definition netip_law :: "net_env \<Rightarrow> bool" where
  "netip_law env \<longleftrightarrow> (\<forall>s p. ne_ParsePrefix env s = Inr p \<longrightarrow> ne_ParsePrefix env (ne_String env p) = Inr p
     \<and> CHR '','' \<notin> set (ne_String env p) \<and> CHR ''='' \<notin> set (ne_String env p))"

definition addr_ok :: "net_env \<Rightarrow> bool \<Rightarrow> ip_prefix option \<Rightarrow> bool" where
  "addr_ok env four a \<longleftrightarrow> (\<forall>p. a = Some p \<longrightarrow> Is4 (px_Addr p) = four \<and> (\<exists>s. ne_ParsePrefix env s = Inr p))"

definition mac_ok :: "hwaddr \<Rightarrow> bool" where
  "mac_ok hw \<longleftrightarrow> length hw \<in> {6, 8, 20}"

definition network_ok :: "net_env \<Rightarrow> network \<Rightarrow> bool" where
  "network_ok env n \<longleftrightarrow> (nw_mac n = [] \<or> mac_ok (nw_mac n)) \<and> addr_ok env True (nw_addr4 n) \<and> addr_ok env False (nw_addr6 n)"

definition to_vm :: "network \<Rightarrow> vm_Network" where
  "to_vm n = \<lparr>vn_MAC = nw_mac n, vn_Addr4 = nw_addr4 n, vn_Addr6 = nw_addr6 n, vn_DHCP = nw_dhcp n\<rparr>"

lemma wrap_result_Inr [simp]: "wrap_result msg r k = Inr y \<longleftrightarrow> (\<exists>x. r = Inr x \<and> k x = Inr y)"
  by (auto simp: wrap_result_def split: sum.splits)

lemma parse_network_field_ok:
  "parse_network_field env key v n = Inr n' \<Longrightarrow> network_ok env n \<Longrightarrow> network_ok env n'"
  using ParseMAC_length [of v] unfolding mac_ok_def [symmetric]
  by (auto simp: parse_network_field_def network_ok_def addr_ok_def split: if_split_asm
      dest: arg_cong [of _ _ nw_addr4])

lemma parse_network_fields_ok:
  "parse_network_fields env fs n = Inr n' \<Longrightarrow> network_ok env n \<Longrightarrow> network_ok env n'"
  by (induction fs arbitrary: n) (auto dest: parse_network_field_ok split: list.splits sum.splits)

lemma parseNetwork_ok:
  "parseNetwork env s = Inr n \<Longrightarrow> network_ok env n \<and> nw_mac n \<noteq> []"
  using parse_network_fields_ok [of env "split_on (CHR '','') s" zero_network n]
  by (auto simp: parseNetwork_def network_ok_def addr_ok_def zero_network_def split: sum.splits if_splits)

lemma network_value_split:
  assumes "netip_law env" and "network_ok env n"
  shows "split_on (CHR '','') (network_value env n) =
     network_fields env (nw_mac n) (nw_dhcp n) (nw_addr4 n) (nw_addr6 n)"
  unfolding network_value_def
proof (rule split_on_join)
  have "CHR '','' \<notin> set (ne_String env p)" if "nw_addr4 n = Some p \<or> nw_addr6 n = Some p" for p
    using assms that by (auto simp: netip_law_def network_ok_def addr_ok_def)
  then show "\<forall>w\<in>set (network_fields env (nw_mac n) (nw_dhcp n) (nw_addr4 n) (nw_addr6 n)). CHR '','' \<notin> set w"
    using mac_String_plain [of "CHR '',''"]
    by (auto simp: network_fields_def hex_digit_def split: option.splits)
qed (simp add: network_fields_def)

lemma set_fields_network:
  assumes "netip_law env" and "network_ok env n" and "nw_mac n \<noteq> []"
  shows "set_fields env v (network_fields env (nw_mac n) (nw_dhcp n) (nw_addr4 n) (nw_addr6 n)) zero_vm_Network =
     Inr (to_vm n)"
proof -
  have mac: "ParseMAC (mac_String (nw_mac n)) = Inr (nw_mac n)" "CHR ''='' \<notin> set (mac_String (nw_mac n))"
    using assms(2,3) ParseMAC_String [of "nw_mac n"] mac_String_plain [of "CHR ''=''"]
    by (simp_all add: network_ok_def mac_ok_def hex_digit_def)
  have ip: "ne_ParsePrefix env (ne_String env p) = Inr p \<and> CHR ''='' \<notin> set (ne_String env p)"
    if "nw_addr4 n = Some p \<or> nw_addr6 n = Some p" for p
    using assms that by (auto simp: netip_law_def network_ok_def addr_ok_def)
  have is4: "nw_addr4 n = Some p \<Longrightarrow> Is4 (px_Addr p)" "nw_addr6 n = Some p \<Longrightarrow> \<not> Is4 (px_Addr p)" for p
    using assms(2) by (auto simp: network_ok_def addr_ok_def)
  show ?thesis
    using mac ip is4
    by (cases "nw_addr4 n"; cases "nw_addr6 n"; cases "nw_dhcp n")
       (simp_all add: network_fields_def split_on_no_sep wrap_result_def zero_vm_Network_def to_vm_def parse_bool_def)
qed

definition addr_conflict :: "network \<Rightarrow> bool" where
  "addr_conflict n \<longleftrightarrow> nw_dhcp n \<and> (nw_addr4 n \<noteq> None \<or> nw_addr6 n \<noteq> None)"

lemma Networks_Set_value:
  assumes "netip_law env" and "parseNetwork env s = Inr n"
  shows "Networks_Set env (network_value env n) ns =
    (if addr_conflict n then
       Inl (ErrWrap (''invalid network '' @ quote (network_value env n)) (ErrNew ''cannot specify both addr and dhcp''))
     else Inr (ns @ [to_vm n]))"
proof -
  note ok = parseNetwork_ok [OF assms(2)]
  show ?thesis
    using ok by (simp add: Networks_Set_def network_value_split [OF assms(1)] set_fields_network [OF assms(1)]
        Validate_def to_vm_def addr_conflict_def)
qed

definition init_args :: "net_env \<Rightarrow> bool \<Rightarrow> network list \<Rightarrow> bool \<Rightarrow> string list" where
  "init_args env debug nws dump =
     (if debug then [''-debug''] else []) @ networks_InitArgs env nws @ (if dump then [''-dump-info''] else [])"

lemma parse_flags_network:
  "parse_flags env ((''-network='' @ v) # args) c =
     (case Networks_Set env v (ic_Networks c) of
        Inl e \<Rightarrow> Inl e
      | Inr ns \<Rightarrow> parse_flags env args (c\<lparr>ic_Networks := ns\<rparr>))"
  by (simp add: set_flag_def split: sum.splits)

lemma parse_flags_networks:
  assumes "netip_law env" and "\<forall>n\<in>set nws. \<exists>s. parseNetwork env s = Inr n"
    and "ParseTail = parse_flags env rest (c\<lparr>ic_Networks := ic_Networks c @ map to_vm nws\<rparr>)"
  shows "parse_flags env (networks_InitArgs env nws @ rest) c = Inr c' \<longleftrightarrow>
     (\<forall>n\<in>set nws. \<not> addr_conflict n) \<and> ParseTail = Inr c'"
  using assms(2,3)
proof (induction nws arbitrary: c)
  case Nil
  then show ?case by (simp add: networks_InitArgs_def)
next
  case (Cons n nws)
  then obtain s where s: "parseNetwork env s = Inr n" by auto
  let ?c = "c\<lparr>ic_Networks := ic_Networks c @ [to_vm n]\<rparr>"
  have step: "parse_flags env (networks_InitArgs env (n # nws) @ rest) c =
      (case Networks_Set env (network_value env n) (ic_Networks c) of
         Inl e \<Rightarrow> Inl e
       | Inr ns \<Rightarrow> parse_flags env (networks_InitArgs env nws @ rest) (c\<lparr>ic_Networks := ns\<rparr>))"
  proof -
    have "networks_InitArgs env (n # nws) @ rest = (''-network='' @ network_value env n) # networks_InitArgs env nws @ rest"
      by (simp add: networks_InitArgs_def)
    then show ?thesis by (simp only: parse_flags_network)
  qed
  have "ParseTail = parse_flags env rest (?c\<lparr>ic_Networks := ic_Networks ?c @ map to_vm nws\<rparr>)"
    using Cons.prems(2) by simp
  with Cons.IH [of ?c] Cons.prems(1) show ?case
    by (simp add: step Networks_Set_value [OF assms(1) s])
qed

lemma parse_init_args:
  assumes "netip_law env" and "\<forall>n\<in>set nws. \<exists>s. parseNetwork env s = Inr n"
    and "\<not> ic_Debug c0" and "\<not> ic_DumpInfo c0"
  shows "parse_flags env (init_args env debug nws dump) c0 = Inr c \<longleftrightarrow>
     (\<forall>n\<in>set nws. \<not> addr_conflict n) \<and>
     c = c0\<lparr>ic_Debug := debug, ic_Networks := ic_Networks c0 @ map to_vm nws, ic_DumpInfo := dump\<rparr>"
proof -
  let ?tail = "if dump then [''-dump-info''] else []"
  let ?c1 = "c0\<lparr>ic_Debug := debug\<rparr>"
  have "parse_flags env (init_args env debug nws dump) c0 = parse_flags env (networks_InitArgs env nws @ ?tail) ?c1"
    using assms(3) by (cases c0) (simp add: init_args_def bool_flag_def set_flag_def parse_bool_def)
  then have "parse_flags env (init_args env debug nws dump) c0 = Inr c \<longleftrightarrow>
      (\<forall>n\<in>set nws. \<not> addr_conflict n) \<and>
      parse_flags env ?tail (?c1\<lparr>ic_Networks := ic_Networks ?c1 @ map to_vm nws\<rparr>) = Inr c"
    using parse_flags_networks [OF assms(1,2) refl, of ?tail ?c1 c] by simp
  moreover have "parse_flags env ?tail (?c1\<lparr>ic_Networks := ic_Networks ?c1 @ map to_vm nws\<rparr>) =
      Inr (c0\<lparr>ic_Debug := debug, ic_Networks := ic_Networks c0 @ map to_vm nws, ic_DumpInfo := dump\<rparr>)"
    using assms(4) by (cases c0) (simp add: bool_flag_def set_flag_def parse_bool_def)
  ultimately show ?thesis by auto
qed

text \<open>
  C5. The init arguments the host builds from its annotations configure the guest as asked: the guest
  accepts them exactly when no network asks for DHCP and a fixed address at once, and then its
  configuration has the same networks and flags. The host itself does not check this condition.
\<close>

theorem init_args_roundtrip:
  assumes "netip_law env" and "\<forall>n\<in>set nws. \<exists>s. parseNetwork env s = Inr n"
  shows "ParseFlags env (init_args env debug nws dump) = Inr c \<longleftrightarrow>
     (\<forall>n\<in>set nws. \<not> addr_conflict n) \<and>
     c = default_Config\<lparr>ic_Debug := debug, ic_Networks := map to_vm nws, ic_DumpInfo := dump\<rparr>"
proof -
  have "init_args env debug nws dump = [] \<or> hd (init_args env debug nws dump) \<noteq> ''tsi_hijack''"
    by (cases nws) (auto simp: init_args_def networks_InitArgs_def)
  then have "ParseFlags env (init_args env debug nws dump) = parse_flags env (init_args env debug nws dump) default_Config"
    by (auto simp: ParseFlags_def)
  then show ?thesis
    using parse_init_args [OF assms, of default_Config debug dump c] by (simp add: default_Config_def)
qed

definition demo_net :: net_env where
  "demo_net = \<lparr>ne_ParsePrefix = (\<lambda>s. if s = ''10.0.0.2/24'' then Inr \<lparr>px_Addr = V4 0x0a000002, px_Bits = 24\<rparr>
       else Inl (ErrNew ''netip.ParsePrefix'')),
     ne_ParseAddr = (\<lambda>_. Inl (ErrNew ''netip.ParseAddr'')), ne_String = (\<lambda>_. ''10.0.0.2/24'')\<rparr>"

definition demo_network :: network where
  "demo_network = zero_network\<lparr>nw_endpoint := ''/s'', nw_mode := ''unixgram'', nw_mac := [2, 0, 0, 0, 0, 1],
     nw_addr4 := Some \<lparr>px_Addr = V4 0x0a000002, px_Bits = 24\<rparr>\<rparr>"

lemma demo_network_parsed:
  "parseNetwork demo_net ''socket=/s,mode=unixgram,mac=02:00:00:00:00:01,addr=10.0.0.2/24'' = Inr demo_network"
proof -
  have "ParseMAC ''02:00:00:00:00:01'' = Inr [2, 0, 0, 0, 0, 1]"
    by (simp add: ParseMAC_def hex_byte_def hex_digit_def)
  then show ?thesis
    by (simp add: parseNetwork_def parse_network_field_def split2_def wrap_result_def demo_net_def demo_network_def
        zero_network_def Is4_def)
qed

theorem init_args_roundtrip_witness:
  "ParseFlags demo_net (init_args demo_net True [demo_network] False) =
     Inr (default_Config\<lparr>ic_Debug := True, ic_Networks := [to_vm demo_network], ic_DumpInfo := False\<rparr>)"
proof -
  have "netip_law demo_net" by (simp add: netip_law_def demo_net_def)
  moreover have "\<forall>n\<in>set [demo_network]. \<exists>s. parseNetwork demo_net s = Inr n"
    using demo_network_parsed by auto
  ultimately show ?thesis
    by (subst init_args_roundtrip) (simp_all add: addr_conflict_def demo_network_def zero_network_def)
qed

definition networked_bundle :: Bundle where
  "networked_bundle = with_annotations
     [(''x'', ''y''),
      (''io.containerd.nerdbox.network.0'', ''socket=/s,mode=unixgram,mac=02:00:00:00:00:01,addr=10.0.0.2/24''),
      (''io.containerd.nerdbox.networks'', ''z'')] demo_bundle"

theorem network_annotations_removed_witness:
  "\<exists>ns' b1 cs' b2. networks_FromBundle demo_net ([], networked_bundle) = (None, (ns', b1)) \<and>
     ctr_fromBundle demo_net ([], b1) = (None, (cs', b2)) \<and> ns' = [demo_network] \<and> cs' = [] \<and>
     annotations b2 = [(''x'', ''y''), (''io.containerd.nerdbox.networks'', ''z'')]"
proof -
  let ?pre = "networkAnnotation @ ''.''" and ?cpre = "ctrNetworkAnnotation @ ''.''"
  note pre = networkAnnotation_def ctrNetworkAnnotation_def has_prefix_def
  obtain ns' b1 where n: "networks_FromBundle demo_net ([], networked_bundle) = (None, (ns', b1))"
    by (simp add: networks_FromBundle_def networked_bundle_def pre demo_network_parsed)
  obtain cs' b2 where c: "ctr_fromBundle demo_net ([], b1) = (None, (cs', b2))"
    using n by (auto simp: networks_FromBundle_def ctr_fromBundle_def networked_bundle_def pre demo_network_parsed
        delete_annotation_with)
  have an: "filter (\<lambda>kv. has_prefix (fst kv) ?pre) (annotations networked_bundle)
        = [(''io.containerd.nerdbox.network.0'', ''socket=/s,mode=unixgram,mac=02:00:00:00:00:01,addr=10.0.0.2/24'')]"
    "filter (\<lambda>kv. has_prefix (fst kv) ?cpre) (annotations networked_bundle) = []"
    "filter (\<lambda>kv. \<not> has_prefix (fst kv) ?pre \<and> \<not> has_prefix (fst kv) ?cpre) (annotations networked_bundle)
        = [(''x'', ''y''), (''io.containerd.nerdbox.networks'', ''z'')]"
    by (simp_all add: networked_bundle_def pre)
  from network_annotations_removed [OF n c] have "ns' = [demo_network]" "cs' = []"
    "annotations b2 = [(''x'', ''y''), (''io.containerd.nerdbox.networks'', ''z'')]"
    by (auto simp: parsed_as_def an demo_network_parsed)
  with n c show ?thesis by blast
qed

end
