(* ===== verification/VM_Networking.thy ===== *)
theory VM_Networking
  imports Networking
begin

text \<open>
  Networking inside the VM: the interfaces of the VM itself (\<open>internal/vminit/vmnetworking\<close>) and the
  bridge and veth pair of a container (\<open>internal/vminit/ctrnetworking\<close>).

  Netlink, DHCP and file writes are operations of \<open>nl_op\<close>: each function returns its result and the
  operations it performed, whose outcomes the environment gives. The goroutines of an \<open>errgroup\<close> are
  run in list order: each writes only its own slot, and the group's error is that of one that failed.
\<close>

unbundle bit_operations_syntax

section \<open>Operations\<close>

datatype nl_op =
    NlLinkByName string
  | NlLinkSetUp string
  | NlAddrAdd string ip_prefix
  | NlRouteAdd "string option" ip
  | NlWriteFile string string
  | NlDhcpClient string
  | NlDhcpRequest string
  | NlDhcpRelease string
  | NlAddBridge string
  | NlAddVeth string string hwaddr
  | NlSetMaster string string
  | NlGetNetns int
  | NlNewHandle int

record link =
  l_Name :: string
  l_HardwareAddr :: hwaddr
  l_ParentDevBus :: string

record dhcp_ack =
  ack_Addr :: ip_prefix
  ack_Router :: "8 word list list option"

record nl_env =
  nl_LinkList :: "link list result"
  nl_ctr_LinkList :: "link list result"
  nl_do :: "nl_op \<Rightarrow> go_error option"
  nl_lease :: "string \<Rightarrow> dhcp_ack"

text \<open>Operations in sequence, up to the first that fails; each error is wrapped as its call site does.\<close>

fun nl_seq :: "nl_env \<Rightarrow> (nl_op \<times> (go_error \<Rightarrow> go_error)) list \<Rightarrow> go_error option \<times> nl_op list" where
  "nl_seq env [] = (None, [])"
| "nl_seq env ((x, wrap) # rest) =
     (case nl_do env x of
        Some e \<Rightarrow> (Some (wrap e), [x])
      | None \<Rightarrow> (case nl_seq env rest of (r, xs) \<Rightarrow> (r, x # xs)))"

section \<open>Addresses\<close>

definition Masked :: "ip_prefix \<Rightarrow> ip" where
  "Masked p =
     (case px_Addr p of
        V4 w \<Rightarrow> V4 (w AND NOT (mask (32 - px_Bits p)))
      | V6 w \<Rightarrow> V6 (w AND NOT (mask (128 - px_Bits p))))"

text \<open>\<open>Addr.Next\<close>: the zero address after the last one.\<close>

definition Next :: "ip \<Rightarrow> ip option" where
  "Next a = (case a of V4 w \<Rightarrow> if w + 1 = 0 then None else Some (V4 (w + 1))
                     | V6 w \<Rightarrow> if w + 1 = 0 then None else Some (V6 (w + 1)))"

definition static_gw :: "vm_Network \<Rightarrow> ip option" where
  "static_gw nw =
     (case vn_Addr4 nw of
        Some p \<Rightarrow> Next (Masked p)
      | None \<Rightarrow> (case vn_Addr6 nw of Some p \<Rightarrow> Next (Masked p) | None \<Rightarrow> None))"

section \<open>Interfaces of the VM\<close>

definition listVirtioIfaces :: "nl_env \<Rightarrow> (string, string) gomap result" where
  "listVirtioIfaces env =
     (case nl_LinkList env of
        Inl e \<Rightarrow> Inl e
      | Inr links \<Rightarrow>
          Inr (fold (\<lambda>l m. if l_ParentDevBus l = ''virtio'' then gm_put (mac_String (l_HardwareAddr l)) (l_Name l) m else m)
                 links []))"

definition configureStatic :: "nl_env \<Rightarrow> string \<Rightarrow> vm_Network \<Rightarrow> go_error option \<times> nl_op list" where
  "configureStatic env iface nw =
     nl_seq env ((case vn_Addr4 nw of None \<Rightarrow> [] | Some p \<Rightarrow> [(NlAddrAdd iface p, id)])
               @ (case vn_Addr6 nw of None \<Rightarrow> [] | Some p \<Rightarrow> [(NlAddrAdd iface p, id)])
               @ [(NlLinkSetUp iface, id)])"

definition configureDHCP :: "nl_env \<Rightarrow> string \<Rightarrow> dhcp_ack result \<times> nl_op list" where
  "configureDHCP env iface =
     (case nl_seq env [(NlLinkSetUp iface, id), (NlDhcpClient iface, id), (NlDhcpRequest iface, id)] of
        (Some e, xs) \<Rightarrow> (Inl e, xs)
      | (None, xs) \<Rightarrow>
          let add = NlAddrAdd iface (ack_Addr (nl_lease env iface))
          in case nl_do env add of
               Some e \<Rightarrow> (Inl e, xs @ [add, NlDhcpRelease iface])
             | None \<Rightarrow> (Inr (nl_lease env iface), xs @ [add]))"

definition AddrFromSlice :: "8 word list \<Rightarrow> ip option" where
  "AddrFromSlice bs = (if length bs = 4 then Some (V4 (word_rcat bs)) else if length bs = 16 then Some (V6 (word_rcat bs)) else None)"

text \<open>The routers of a lease: addresses of a wrong length are left out.\<close>

definition Routers :: "dhcp_ack \<Rightarrow> ip list" where
  "Routers ack = (case ack_Router ack of None \<Rightarrow> [] | Some ips \<Rightarrow> List.map_filter AddrFromSlice ips)"

text \<open>
  The renewals of a lease: what the loop waits for is the end of its context or the renewal interval,
  then the server's answer. \<open>None\<close> means that it still runs after the events given.
\<close>

datatype renew_event = CtxDone go_error | RenewAfter "dhcp_ack result"

fun RenewLoop :: "renew_event list \<Rightarrow> dhcp_ack \<Rightarrow> (go_error \<times> dhcp_ack) option" where
  "RenewLoop [] l = None"
| "RenewLoop (CtxDone e # evs) l = Some (e, l)"
| "RenewLoop (RenewAfter (Inl e) # evs) l = Some (e, l)"
| "RenewLoop (RenewAfter (Inr l') # evs) l = RenewLoop evs l'"

definition lease_Release :: "nl_env \<Rightarrow> string \<Rightarrow> go_error option \<times> nl_op list" where
  "lease_Release env iface = (nl_do env (NlDhcpRelease iface), [NlDhcpRelease iface])"

text \<open>One turn of the loop over the networks: the gateway it finds, its lease and its operations.\<close>

record iface_result =
  ir_gw :: "ip option"
  ir_lease :: "string option"
  ir_err :: "go_error option"

definition setup_one ::
  "nl_env \<Rightarrow> (string, string) gomap \<Rightarrow> vm_Network \<Rightarrow> iface_result \<times> nl_op list" where
  "setup_one env ifaces nw =
     (case gm_get ifaces (mac_String (vn_MAC nw)) of
        None \<Rightarrow> (\<lparr>ir_gw = None, ir_lease = None, ir_err = None\<rparr>, [])
      | Some iface \<Rightarrow>
          if vn_DHCP nw then
            (case configureDHCP env iface of
               (Inl e, xs) \<Rightarrow> (\<lparr>ir_gw = None, ir_lease = None, ir_err = Some e\<rparr>, xs)
             | (Inr ack, xs) \<Rightarrow>
                 (\<lparr>ir_gw = (case Routers ack of [] \<Rightarrow> None | r # _ \<Rightarrow> Some r), ir_lease = Some iface,
                   ir_err = None\<rparr>, xs))
          else
            (case configureStatic env iface nw of
               (r, xs) \<Rightarrow> (\<lparr>ir_gw = static_gw nw, ir_lease = None, ir_err = r\<rparr>, xs)))"

definition uniqueMACs :: "vm_Network list \<Rightarrow> nat" where
  "uniqueMACs nws = length (remdups_adj (map (\<lambda>nw. mac_String (vn_MAC nw)) nws))"

definition resolv_conf :: "(ip \<Rightarrow> string) \<Rightarrow> ip list \<Rightarrow> string" where
  "resolv_conf show_ip gws = join_with [CHR 0x0A] (map (\<lambda>gw. ''nameserver '' @ show_ip gw) gws @ [[]])"

definition etc_hosts :: string where
  "etc_hosts = ''127.0.0.1'' @ [CHR 0x09] @ ''localhost'' @ [CHR 0x0A]"

text \<open>The leases to renew, or the error, and the operations performed.\<close>

definition SetupVM :: "nl_env \<Rightarrow> (ip \<Rightarrow> string) \<Rightarrow> vm_Network list \<Rightarrow> string list result \<times> nl_op list" where
  "SetupVM env show_ip nws =
     (case listVirtioIfaces env of
        Inl e \<Rightarrow> (Inl e, [])
      | Inr ifaces \<Rightarrow>
          if length ifaces < uniqueMACs nws then
            (Inl (ErrNew (''not enough virtio interfaces found (found '' @ show_nat (length ifaces)
                   @ '', expected '' @ show_nat (uniqueMACs nws) @ '')'')), [])
          else case nl_seq env [(NlLinkByName ''lo'', id), (NlLinkSetUp ''lo'', id)] of
            (Some e, xs) \<Rightarrow> (Inl e, xs)
          | (None, xs) \<Rightarrow>
              let rs = map (setup_one env ifaces) nws;
                  ys = concat (map snd rs);
                  errs = List.map_filter (\<lambda>r. ir_err (fst r)) rs;
                  leases = List.map_filter (\<lambda>r. ir_lease (fst r)) rs;
                  gws = List.map_filter (\<lambda>r. ir_gw (fst r)) rs
              in if errs \<noteq> [] then (Inl (hd errs), xs @ ys)
                 else case nl_seq env
                       ((case gws of [] \<Rightarrow> []
                         | gw # _ \<Rightarrow> [(NlRouteAdd None gw, ErrWrap ''failed to add default gateway route'')])
                        @ [(NlWriteFile ''/etc/resolv.conf'' (resolv_conf show_ip gws), ErrWrap ''failed to write resolv.conf''),
                           (NlWriteFile ''/etc/hosts'' etc_hosts, ErrWrap ''failed to write hosts'')]) of
                   (Some e, zs) \<Rightarrow> (Inl e, xs @ ys @ zs)
                 | (None, zs) \<Rightarrow> (Inr leases, xs @ ys @ zs))"

section \<open>The network of a container\<close>

definition bridgeNameFromMAC :: "string \<Rightarrow> string" where
  "bridgeNameFromMAC mac = ''br-'' @ filter (\<lambda>c. c \<noteq> CHR '':'') mac"

definition generateRandomMAC :: "8 word list \<Rightarrow> hwaddr" where
  "generateRandomMAC random =
     (case random of [] \<Rightarrow> [] | b # bs \<Rightarrow> ((b AND 0xfe) OR 2) # bs)"

record netConfig =
  nc_bridgeName :: string
  nc_ctrMAC :: hwaddr
  nc_hostVethName :: string
  nc_ctrVethName :: string
  nc_addrs :: "ip_prefix list"

definition linkByMAC :: "link list result \<Rightarrow> string \<Rightarrow> link result" where
  "linkByMAC links mac =
     (case links of
        Inl e \<Rightarrow> Inl (ErrWrap ''listing links'' e)
      | Inr ls \<Rightarrow>
          (case index_func (\<lambda>l. mac_String (l_HardwareAddr l) = mac) ls of
             None \<Rightarrow> Inl (ErrNew (''interface with MAC '' @ mac @ '' not found''))
           | Some i \<Rightarrow> Inr (ls ! i)))"

definition addBridgeNetwork :: "nl_env \<Rightarrow> string \<Rightarrow> string \<Rightarrow> go_error option \<times> nl_op list" where
  "addBridgeNetwork env vmMAC bridgeName =
     (case linkByMAC (nl_LinkList env) vmMAC of
        Inl e \<Rightarrow> (Some (ErrWrap ''getting host link'' e), [])
      | Inr hostIf \<Rightarrow>
          (case nl_do env (NlAddBridge bridgeName) of
             Some e \<Rightarrow>
               (if e = eexist then None else Some (ErrWrap (''adding bridge '' @ bridgeName) e), [NlAddBridge bridgeName])
           | None \<Rightarrow>
               (case nl_seq env
                  [(NlSetMaster (l_Name hostIf) bridgeName,
                    ErrWrap (''connecting '' @ l_Name hostIf @ '' to bridge '' @ bridgeName)),
                   (NlLinkByName bridgeName, ErrWrap (''looking up bridge device '' @ bridgeName)),
                   (NlLinkSetUp bridgeName, ErrWrap (''set bridge '' @ bridgeName))] of
                  (r, xs) \<Rightarrow> (r, NlAddBridge bridgeName # xs))))"

text \<open>\<open>nl_missing\<close> tells a missing link from other failures of the lookup.\<close>

definition nl_missing :: "go_error \<Rightarrow> bool" where
  "nl_missing e \<longleftrightarrow> e = Sentinel ''Link not found''"

definition makeNet :: "nl_env \<Rightarrow> 8 word list \<Rightarrow> nw_Network \<Rightarrow> netConfig result \<times> nl_op list" where
  "makeNet env random n =
     (case (if n_MAC n = [] then Inr (generateRandomMAC random) else ParseMAC (n_MAC n)) of
        Inl e \<Rightarrow> (Inl e, [])
      | Inr ctrMAC \<Rightarrow>
          let br = bridgeNameFromMAC (n_VmMAC n);
              nc = \<lparr>nc_bridgeName = br, nc_ctrMAC = ctrMAC,
                    nc_hostVethName = ''ve-'' @ filter (\<lambda>c. c \<noteq> CHR '':'') (mac_String ctrMAC),
                    nc_ctrVethName = n_IfName n, nc_addrs = n_Addrs n\<rparr>
          in case nl_do env (NlLinkByName br) of
               None \<Rightarrow> (Inr nc, [NlLinkByName br])
             | Some e \<Rightarrow>
                 if \<not> nl_missing e then (Inl (ErrWrap (''checking for bridge '' @ br) e), [NlLinkByName br])
                 else (case addBridgeNetwork env (n_VmMAC n) br of
                         (Some e', xs) \<Rightarrow> (Inl e', NlLinkByName br # xs)
                       | (None, xs) \<Rightarrow> (Inr nc, NlLinkByName br # xs)))"

definition addVeth :: "nl_env \<Rightarrow> netConfig \<Rightarrow> link result \<times> nl_op list" where
  "addVeth env nc =
     (case nl_seq env
        [(NlAddVeth (nc_hostVethName nc) (nc_ctrVethName nc) (nc_ctrMAC nc), ErrWrap ''adding veth''),
         (NlLinkByName (nc_hostVethName nc), ErrWrap (''getting host veth '' @ nc_hostVethName nc))] of
        (Some e, xs) \<Rightarrow> (Inl e, xs)
      | (None, xs) \<Rightarrow>
          (case linkByMAC (nl_ctr_LinkList env) (mac_String (nc_ctrMAC nc)) of
             Inl e \<Rightarrow> (Inl (ErrWrap (''lookup container '' @ nc_ctrVethName nc @ '' / '' @ mac_String (nc_ctrMAC nc)) e), xs)
           | Inr ctrVeth \<Rightarrow>
               (case nl_seq env
                  [(NlSetMaster (nc_hostVethName nc) (nc_bridgeName nc),
                    ErrWrap (''connecting '' @ nc_hostVethName nc @ '' to '' @ nc_bridgeName nc)),
                   (NlLinkSetUp (nc_hostVethName nc), ErrWrap (''setting VM's '' @ nc_hostVethName nc)),
                   (NlLinkSetUp (l_Name ctrVeth), ErrWrap (''setting container's '' @ nc_ctrVethName nc))] of
                  (Some e, ys) \<Rightarrow> (Inl e, xs @ ys)
                | (None, ys) \<Rightarrow> (Inr ctrVeth, xs @ ys))))"

definition addAddrs :: "nl_env \<Rightarrow> netConfig \<Rightarrow> link \<Rightarrow> go_error option \<times> nl_op list" where
  "addAddrs env nc ctrVeth =
     nl_seq env (map (\<lambda>a. (NlAddrAdd (l_Name ctrVeth) a, ErrWrap (''adding address to container's '' @ nc_ctrVethName nc)))
                   (nc_addrs nc))"

definition addDefaultGw :: "nl_env \<Rightarrow> link \<Rightarrow> ip option \<Rightarrow> go_error option \<times> nl_op list" where
  "addDefaultGw env ctrVeth gw =
     nl_seq env (case gw of None \<Rightarrow> [] | Some a \<Rightarrow> [(NlRouteAdd (Some (l_Name ctrVeth)) a, ErrWrap ''add default gw'')])"

text \<open>The goroutine \<open>Connect\<close> starts for one network, without and with the handles it opens first.\<close>

definition connect_net :: "nl_env \<Rightarrow> 8 word list \<Rightarrow> nw_Network \<Rightarrow> go_error option \<times> nl_op list" where
  "connect_net env random n =
     (case makeNet env random n of
        (Inl e, xs) \<Rightarrow> (Some e, xs)
      | (Inr nc0, xs) \<Rightarrow>
          let nc = (if nc_ctrVethName nc0 = [] then nc0\<lparr>nc_ctrVethName := ''eth%d''\<rparr> else nc0)
          in case addVeth env nc of
               (Inl e, ys) \<Rightarrow> (Some e, xs @ ys)
             | (Inr ctrVeth, ys) \<Rightarrow>
                 (case addAddrs env nc ctrVeth of
                    (Some e, zs) \<Rightarrow> (Some e, xs @ ys @ zs)
                  | (None, zs) \<Rightarrow>
                      (case addDefaultGw env ctrVeth (n_DefaultGw4 n) of
                         (Some e, us) \<Rightarrow> (Some e, xs @ ys @ zs @ us)
                       | (None, us) \<Rightarrow>
                           (case addDefaultGw env ctrVeth (n_DefaultGw6 n) of
                              (r, vs) \<Rightarrow> (r, xs @ ys @ zs @ us @ vs)))))"

definition connect_one :: "nl_env \<Rightarrow> int \<Rightarrow> 8 word list \<Rightarrow> nw_Network \<Rightarrow> go_error option \<times> nl_op list" where
  "connect_one env pid random n =
     (case nl_seq env [(NlGetNetns pid, ErrWrap ''getting container netns''),
                       (NlNewHandle pid, ErrWrap ''creating netlink handle in container netns'')] of
        (Some e, xs) \<Rightarrow> (Some e, xs)
      | (None, xs) \<Rightarrow> (case connect_net env random n of (r, ys) \<Rightarrow> (r, xs @ ys)))"

text \<open>
  \<open>Connect\<close> and the wait for its goroutines. \<open>None\<close> as result of the first component stands for a
  nil wait function, when there is no network.
\<close>

definition ctr_Connect ::
  "nl_env \<Rightarrow> (string \<Rightarrow> nw_Network list result) \<Rightarrow> (nat \<Rightarrow> 8 word list) \<Rightarrow> string \<Rightarrow> int \<Rightarrow>
     (go_error option \<times> nl_op list) option result" where
  "ctr_Connect env loadConfig random dir pid =
     (case loadConfig (path_join [dir, ''nw-config.json'']) of
        Inl e \<Rightarrow> Inl e
      | Inr [] \<Rightarrow> Inr None
      | Inr (n # ns) \<Rightarrow>
          let rs = map (\<lambda>(i, x). connect_one env pid (random i) x) (enumerate 0 (n # ns));
              errs = List.map_filter fst rs
          in Inr (Some (if errs = [] then None else Some (hd errs), concat (map snd rs))))"

section \<open>Names of bridges\<close>

lemma unat_octet: "unat (b :: 8 word) < 256"
  using unsigned_less [of b] by simp

lemma filter_join_hex:
  "filter (\<lambda>c. c \<noteq> CHR '':'') (mac_String hw) = show_hex_bytes (map unat hw)"
proof (induction hw rule: induct_list012)
  case 1
  then show ?case by (simp add: mac_String_def)
next
  case (2 x)
  have "digit d \<noteq> CHR '':''" if "d < 16" for d
    using hex_digit_digit [OF that] by (auto simp: hex_digit_def)
  then show ?case by (simp add: mac_String_def show_hex_byte_def)
next
  case (3 x y zs)
  have "digit d \<noteq> CHR '':''" if "d < 16" for d
    using hex_digit_digit [OF that] by (auto simp: hex_digit_def)
  with 3 show ?case by (simp add: mac_String_def show_hex_byte_def)
qed

text \<open>
  Bridges are named after the MAC address of the VM's interface: different addresses give
  different bridges, and the name fits the kernel's limit exactly for addresses of six octets. The
  host also accepts addresses of 8 and 20 octets, whose bridges cannot be created.
\<close>

theorem bridge_names:
  assumes "ParseMAC s = Inr a" and "ParseMAC t = Inr b"
  shows "(bridgeNameFromMAC (mac_String a) = bridgeNameFromMAC (mac_String b) \<longleftrightarrow> a = b) \<and>
     (length (bridgeNameFromMAC (mac_String a)) < ifNameSize \<longleftrightarrow> length a = 6)"
proof -
  have "map unat a = map unat b" if "show_hex_bytes (map unat a) = show_hex_bytes (map unat b)"
    using that by (intro show_hex_bytes_inj) (auto simp: unat_octet)
  moreover have "inj (unat :: 8 word \<Rightarrow> nat)" by (rule inj_unsigned)
  ultimately have "show_hex_bytes (map unat a) = show_hex_bytes (map unat b) \<longleftrightarrow> a = b"
    using inj_map_eq_map by blast
  then show ?thesis
    using ParseMAC_length [OF assms(1)] by (auto simp: bridgeNameFromMAC_def filter_join_hex ifNameSize_def)
qed

lemma demo_mac: "ParseMAC ''02:00:00:00:00:01'' = Inr [2, 0, 0, 0, 0, 1]"
  by (simp add: ParseMAC_def hex_byte_def hex_digit_def)

theorem bridge_names_witness:
  "ParseMAC ''02:00:00:00:00:01'' = Inr [2, 0, 0, 0, 0, 1] \<and>
     length (bridgeNameFromMAC (mac_String [2, 0, 0, 0, 0, 1])) < ifNameSize"
  using bridge_names [OF demo_mac demo_mac] demo_mac by simp

lemma generateRandomMAC_unicast:
  assumes "random \<noteq> []"
  shows "hd (generateRandomMAC random) AND 1 = 0 \<and> hd (generateRandomMAC random) AND 2 = 2"
proof -
  have "(b AND 0xfe OR 2) AND 1 = (0 :: 8 word)" "(b AND 0xfe OR 2) AND 2 = (2 :: 8 word)" for b :: "8 word"
    by (auto intro!: bit_word_eqI simp: bit_simps less_Suc_eq numeral_eq_Suc)
  with assms show ?thesis by (cases random) (simp_all add: generateRandomMAC_def)
qed

section \<open>Gateways\<close>

lemma masked_next:
  fixes w :: "'a::len word"
  assumes "0 < n"
  shows "(w AND NOT (mask n)) + 1 = (w AND NOT (mask n)) OR 1"
  by (rule disjunctive_add) (use assms in \<open>auto simp: bit_simps\<close>)

lemma masked_or_one:
  fixes w :: "'a::len word"
  assumes "0 < n"
  shows "((w AND NOT (mask n)) OR 1) AND NOT (mask n) = w AND NOT (mask n)"
  by (rule bit_word_eqI) (use assms in \<open>auto simp: bit_simps\<close>)

text \<open>
  The gateway assumed for a static address is the first address of its subnet after the network
  address, except for a prefix of full length, where it lies outside the subnet.
\<close>

theorem gateway_in_subnet:
  assumes "vn_Addr4 nw = Some \<lparr>px_Addr = V4 w, px_Bits = n\<rparr>" and "static_gw nw = Some g"
  shows "if n < 32 then \<exists>v. g = V4 v \<and> Masked \<lparr>px_Addr = V4 v, px_Bits = n\<rparr> = Masked \<lparr>px_Addr = V4 w, px_Bits = n\<rparr>
           \<and> v = (w AND NOT (mask (32 - n))) OR 1
         else g = V4 (w + 1)"
proof -
  have g: "g = V4 ((w AND NOT (mask (32 - n))) + 1)"
    using assms by (auto simp: static_gw_def Masked_def Next_def split: if_splits)
  show ?thesis
  proof (cases "n < 32")
    case True
    then have "0 < 32 - n" by simp
    from g masked_next [OF this, of w] masked_or_one [OF this, of w] True show ?thesis by (simp add: Masked_def)
  next
    case False
    with g show ?thesis by simp
  qed
qed

theorem gateway_in_subnet_witness:
  "\<exists>g. static_gw (to_vm demo_network) = Some g \<and> g = V4 0x0a000001"
proof -
  obtain g where g: "static_gw (to_vm demo_network) = Some g"
    by (simp add: static_gw_def to_vm_def demo_network_def Masked_def Next_def mask_eq_exp_minus_1)
  have a: "vn_Addr4 (to_vm demo_network) = Some \<lparr>px_Addr = V4 0x0a000002, px_Bits = 24\<rparr>"
    by (simp add: to_vm_def demo_network_def)
  have "g = V4 ((0x0a000002 AND NOT (mask 8)) OR 1)"
    using gateway_in_subnet [OF a g] by auto
  with g show ?thesis by (simp add: mask_eq_exp_minus_1)
qed

section \<open>Counting interfaces\<close>

text \<open>
  The count of unique MAC addresses only merges neighbours: with the addresses of one interface
  not next to each other, the setup is refused although every network has its interface.
\<close>

theorem unique_macs_overcounted:
  assumes "nl_LinkList env = Inr [la, lb]" and "l_ParentDevBus la = ''virtio''" and "l_ParentDevBus lb = ''virtio''"
    and "vn_MAC a1 = l_HardwareAddr la" and "vn_MAC a2 = l_HardwareAddr la" and "vn_MAC b = l_HardwareAddr lb"
    and "mac_String (l_HardwareAddr la) \<noteq> mac_String (l_HardwareAddr lb)"
  shows "(\<exists>e. SetupVM env show_ip [a1, b, a2] = (Inl e, [])) \<and> uniqueMACs [a1, a2, b] = 2"
  using assms by (simp add: SetupVM_def listVirtioIfaces_def uniqueMACs_def)

definition demo_link :: "string \<Rightarrow> 8 word \<Rightarrow> link" where
  "demo_link name x = \<lparr>l_Name = name, l_HardwareAddr = [2, 0, 0, 0, 0, x], l_ParentDevBus = ''virtio''\<rparr>"

definition demo_nl :: nl_env where
  "demo_nl = \<lparr>nl_LinkList = Inr [demo_link ''eth0'' 1, demo_link ''eth1'' 2], nl_ctr_LinkList = Inr [],
     nl_do = (\<lambda>_. None), nl_lease = (\<lambda>_. \<lparr>ack_Addr = \<lparr>px_Addr = V4 0, px_Bits = 0\<rparr>, ack_Router = None\<rparr>)\<rparr>"

theorem unique_macs_overcounted_witness:
  "\<exists>e. SetupVM demo_nl (\<lambda>_. []) (map (\<lambda>x. zero_vm_Network\<lparr>vn_MAC := [2, 0, 0, 0, 0, x]\<rparr>) [1, 2, 1]) = (Inl e, [])"
  using unique_macs_overcounted [of demo_nl "demo_link ''eth0'' 1" "demo_link ''eth1'' 2"
      "zero_vm_Network\<lparr>vn_MAC := [2, 0, 0, 0, 0, 1]\<rparr>" "zero_vm_Network\<lparr>vn_MAC := [2, 0, 0, 0, 0, 1]\<rparr>"
      "zero_vm_Network\<lparr>vn_MAC := [2, 0, 0, 0, 0, 2]\<rparr>" "\<lambda>_. []"]
  by (simp add: demo_nl_def demo_link_def mac_String_def show_hex_byte_def digit_def)

end
