(* ===== verification/Socket_Forward.thy ===== *)
theory Socket_Forward
  imports Bundle
begin

text \<open>
  Forwarding of UNIX sockets from a container to the host: the shim's side
  (\<open>internal/shim/task/socketforward.go\<close>) and the service in the VM
  (\<open>internal/vminit/socketforward/socketforward.go\<close>).

  A connection inside the VM is known by a number; its goroutine is split at its waits into
  \<open>guest_connect\<close> (up to the request on the notify channel) and \<open>guest_result\<close> (from the host's answer
  on). The step relation \<open>sf_step\<close> interleaves connections, the Accept streams of any number of
  forwarders and the host's handlers. Dialling and opening streams are outcomes of \<open>fwd_env\<close>; the
  fresh stream ID of \<open>GenerateStreamID\<close> is given to the step that uses it.
\<close>

section \<open>The shim\<close>

record socketForwardEntry =
  sf_id :: string
  sf_hostPath :: string
  sf_vmPath :: string
  sf_containerPath :: string

definition parseUDSMount :: "(string \<Rightarrow> nat list) \<Rightarrow> string \<Rightarrow> spec_mount \<Rightarrow> socketForwardEntry result" where
  "parseUDSMount sha256 containerID m =
     (if sm_Source m = [] then Inl (ErrNew ''source (host path) is required'')
      else if sm_Destination m = [] then Inl (ErrNew ''destination (container path) is required'')
      else if sm_Options m \<noteq> [] then Inl (ErrNew (''unknown option '' @ quote (join_with '', '' (sm_Options m))))
      else let hash = show_hex_bytes (sha256 (containerID @ '':'' @ sm_Destination m))
           in Inr \<lparr>sf_id = hash, sf_hostPath = sm_Source m, sf_vmPath = ''/run/socketfwd/'' @ hash @ ''.sock'',
                   sf_containerPath = sm_Destination m\<rparr>)"

definition uds_bind :: "socketForwardEntry \<Rightarrow> spec_mount" where
  "uds_bind e = \<lparr>sm_Destination = sf_containerPath e, sm_Type = ''bind'', sm_Source = sf_vmPath e, sm_Options = [''bind'']\<rparr>"

fun uds_loop ::
  "(string \<Rightarrow> nat list) \<Rightarrow> string \<Rightarrow> spec_mount list \<Rightarrow> go_error option \<times> socketForwardEntry list \<times> spec_mount list" where
  "uds_loop sha cid [] = (None, [], [])"
| "uds_loop sha cid (m # ms) =
     (if sm_Type m \<noteq> ''uds'' then (case uds_loop sha cid ms of (r, es, ms') \<Rightarrow> (r, es, m # ms'))
      else case parseUDSMount sha cid m of
             Inl e \<Rightarrow> (Some (ErrWrap (''parsing uds mount for '' @ quote (sm_Destination m)) e), [], m # ms)
           | Inr entry \<Rightarrow> (case uds_loop sha cid ms of (r, es, ms') \<Rightarrow> (r, entry # es, uds_bind entry # ms')))"

definition sf_FromBundle :: "(string \<Rightarrow> nat list) \<Rightarrow> string \<Rightarrow> socketForwardEntry list transformer" where
  "sf_FromBundle sha cid eb =
     (case eb of (entries, b) \<Rightarrow>
      case uds_loop sha cid (sp_Mounts (b_Spec b)) of
        (r, es, ms) \<Rightarrow> (r, (entries @ es, b\<lparr>b_Spec := (b_Spec b)\<lparr>sp_Mounts := ms\<rparr>\<rparr>)))"

text \<open>The request is the list of forward IDs and socket paths; \<open>rpc\<close> is the outcome of \<open>Bind\<close> in the VM.\<close>

definition bindSockets ::
  "((string \<times> string) list \<Rightarrow> go_error option) \<Rightarrow> localsandbox \<Rightarrow> socketForwardEntry list \<Rightarrow> go_error option" where
  "bindSockets rpc sb entries =
     (if entries = [] then None
      else case sandbox_Client sb of
             Inl e \<Rightarrow> Some (ErrWrap ''getting ttrpc client for socket forwarding'' e)
           | Inr _ \<Rightarrow>
               (case rpc (map (\<lambda>e. (sf_id e, sf_vmPath e)) entries) of
                  Some e \<Rightarrow> Some (ErrWrap ''bind RPC'' e)
                | None \<Rightarrow> None))"

record socketForwarder =
  fw_containerID :: string
  fw_entries :: "(string, socketForwardEntry) gomap"
  fw_closed :: bool

definition startSocketForwarding ::
  "localsandbox \<Rightarrow> string \<Rightarrow> socketForwardEntry list \<Rightarrow> socketForwarder result" where
  "startSocketForwarding sb cid entries =
     (case sandbox_Client sb of
        Inl e \<Rightarrow> Inl (ErrWrap ''getting ttrpc client for socket forwarding'' e)
      | Inr _ \<Rightarrow>
          Inr \<lparr>fw_containerID = cid, fw_entries = fold (\<lambda>e m. gm_put (sf_id e) e m) entries [], fw_closed = False\<rparr>)"

definition fwd_shutdown :: "socketForwarder option \<Rightarrow> go_error option \<times> socketForwarder option" where
  "fwd_shutdown fwd = (None, map_option (\<lambda>f. f\<lparr>fw_closed := True\<rparr>) fwd)"

record ConnectRequest =
  cr_StreamID :: string
  cr_ForwardID :: string

record ConnectResult =
  cs_StreamID :: string
  cs_Error :: string

record fwd_env =
  fe_dial :: "string \<Rightarrow> go_error option"
  fe_stream :: "string \<Rightarrow> go_error option"

datatype fwd_op = FDial string | FStartStream string | FCloseHost string | FRelay string string

text \<open>
  \<open>sb.StartStream\<close>: when it succeeds the VM has registered the stream, because the handshake ends with
  the VM's answer (\<open>Streaming.handshake_agrees\<close>). The list is the streams registered in the VM.
\<close>

definition open_stream :: "fwd_env \<Rightarrow> string \<Rightarrow> string list \<Rightarrow> go_error option \<times> string list" where
  "open_stream env sid streams =
     (case fe_stream env sid of Some e \<Rightarrow> (Some e, streams) | None \<Rightarrow> (None, streams @ [sid]))"

definition fwd_handleConnection ::
  "fwd_env \<Rightarrow> (string, socketForwardEntry) gomap \<Rightarrow> ConnectRequest \<Rightarrow> string list \<Rightarrow>
     ConnectResult \<times> fwd_op list \<times> string list" where
  "fwd_handleConnection env entries req streams =
     (let sid = cr_StreamID req
      in case gm_get entries (cr_ForwardID req) of
           None \<Rightarrow> (\<lparr>cs_StreamID = sid, cs_Error = ''unknown forward ID: '' @ cr_ForwardID req\<rparr>, [], streams)
         | Some entry \<Rightarrow>
             (case fe_dial env (sf_hostPath entry) of
                Some _ \<Rightarrow>
                  (\<lparr>cs_StreamID = sid, cs_Error = ''failed to dial host socket''\<rparr>, [FDial (sf_hostPath entry)], streams)
              | None \<Rightarrow>
                  (case open_stream env sid streams of
                     (Some e, streams') \<Rightarrow>
                       (\<lparr>cs_StreamID = sid, cs_Error = err_msg e\<rparr>,
                        [FDial (sf_hostPath entry), FStartStream sid, FCloseHost (sf_hostPath entry)], streams')
                   | (None, streams') \<Rightarrow>
                       (\<lparr>cs_StreamID = sid, cs_Error = []\<rparr>,
                        [FDial (sf_hostPath entry), FStartStream sid, FRelay (sf_hostPath entry) sid], streams'))))"

section \<open>The service in the VM\<close>

datatype uds_conn = UdsWaiting string | UdsRelaying string | UdsClosed

record sf_service =
  sv_listeners :: "(string \<times> string) list"
  sv_pending :: "(string, nat) gomap"
  sv_notify :: "ConnectRequest list"
  sv_conns :: "(nat, uds_conn) gomap"
  sv_streams :: "string list"

definition NewService :: sf_service where
  "NewService = \<lparr>sv_listeners = [], sv_pending = [], sv_notify = [], sv_conns = [], sv_streams = []\<rparr>"

definition notify_cap :: nat where
  "notify_cap = 64"

record bind_outcome =
  bo_mkdir :: "string \<Rightarrow> go_error option"
  bo_remove :: "string \<Rightarrow> go_error option"
  bo_listen :: "string \<Rightarrow> go_error option"

definition sf_bind :: "bind_outcome \<Rightarrow> string \<Rightarrow> string \<Rightarrow> sf_service \<Rightarrow> go_error option \<times> sf_service" where
  "sf_bind env forwardID socketPath s =
     (case bo_mkdir env (path_dir socketPath) of
        Some e \<Rightarrow> (Some (ErrWrap (''creating parent directory for '' @ socketPath) e), s)
      | None \<Rightarrow>
          (case bo_remove env socketPath of
             Some e \<Rightarrow>
               if e \<noteq> Sentinel ''no such file or directory'' then
                 (Some (ErrWrap (''removing stale socket file '' @ socketPath) e), s)
               else (case bo_listen env socketPath of
                       Some e' \<Rightarrow> (Some (ErrWrap (''listening on '' @ socketPath) e'), s)
                     | None \<Rightarrow> (None, s\<lparr>sv_listeners := sv_listeners s @ [(socketPath, forwardID)]\<rparr>))
           | None \<Rightarrow>
               (case bo_listen env socketPath of
                  Some e' \<Rightarrow> (Some (ErrWrap (''listening on '' @ socketPath) e'), s)
                | None \<Rightarrow> (None, s\<lparr>sv_listeners := sv_listeners s @ [(socketPath, forwardID)]\<rparr>))))"

fun sf_Bind :: "bind_outcome \<Rightarrow> (string \<times> string) list \<Rightarrow> sf_service \<Rightarrow> go_error option \<times> sf_service" where
  "sf_Bind env [] s = (None, s)"
| "sf_Bind env ((fid, path) # rest) s =
     (case sf_bind env fid path s of
        (Some e, s') \<Rightarrow> (Some (ErrWrap (''binding socket forward listener at '' @ path) e), s')
      | (None, s') \<Rightarrow> sf_Bind env rest s')"

text \<open>A new connection, up to the send on the notify channel, which drops the connection when full.\<close>

definition guest_connect :: "string result \<Rightarrow> string \<Rightarrow> nat \<Rightarrow> sf_service \<Rightarrow> sf_service" where
  "guest_connect generated forwardID c s =
     (case generated of
        Inl _ \<Rightarrow> s\<lparr>sv_conns := gm_put c UdsClosed (sv_conns s)\<rparr>
      | Inr sid \<Rightarrow>
          let s1 = s\<lparr>sv_pending := gm_put sid c (sv_pending s)\<rparr>
          in if length (sv_notify s1) < notify_cap then
               s1\<lparr>sv_notify := sv_notify s1 @ [\<lparr>cr_StreamID = sid, cr_ForwardID = forwardID\<rparr>],
                  sv_conns := gm_put c (UdsWaiting sid) (sv_conns s1)\<rparr>
             else s1\<lparr>sv_pending := gm_del sid (sv_pending s1), sv_conns := gm_put c UdsClosed (sv_conns s1)\<rparr>)"

text \<open>The send loop of an Accept stream takes the next request.\<close>

definition accept_send :: "sf_service \<Rightarrow> (ConnectRequest \<times> sf_service) option" where
  "accept_send s = (case sv_notify s of [] \<Rightarrow> None | r # rs \<Rightarrow> Some (r, s\<lparr>sv_notify := rs\<rparr>))"

text \<open>
  The rest of a connection's goroutine once the host's answer is there: \<open>streams.Get\<close> claims the
  registered stream.
\<close>

definition guest_dialled :: "nat \<Rightarrow> ConnectResult \<Rightarrow> sf_service \<Rightarrow> sf_service" where
  "guest_dialled c r s =
     (let sid = cs_StreamID r
      in if cs_Error r \<noteq> [] then s\<lparr>sv_conns := gm_put c UdsClosed (sv_conns s)\<rparr>
         else if sid \<in> set (sv_streams s) then
           s\<lparr>sv_streams := removeAll sid (sv_streams s), sv_conns := gm_put c (UdsRelaying sid) (sv_conns s)\<rparr>
         else s\<lparr>sv_conns := gm_put c UdsClosed (sv_conns s)\<rparr>)"

text \<open>The receive loop of an Accept stream hands the answer to the connection that waits for it.\<close>

definition guest_result :: "ConnectResult \<Rightarrow> sf_service \<Rightarrow> sf_service" where
  "guest_result r s =
     (case gm_get (sv_pending s) (cs_StreamID r) of
        None \<Rightarrow> s
      | Some c \<Rightarrow> guest_dialled c r (s\<lparr>sv_pending := gm_del (cs_StreamID r) (sv_pending s)\<rparr>))"

definition sf_Shutdown :: "(string \<Rightarrow> go_error option) \<Rightarrow> sf_service \<Rightarrow> go_error option \<times> sf_service" where
  "sf_Shutdown close s =
     (join_errors (List.map_filter (\<lambda>l. close (fst l)) (sv_listeners s)), s\<lparr>sv_listeners := []\<rparr>)"

section \<open>The protocol\<close>

text \<open>
  The whole system: the service, one entry map per forwarder with its Accept stream, the requests on
  their way to each forwarder, the results on their way back, the host sockets dialled, the forwarders
  that were shut down and the stream IDs of the messages that were lost.
\<close>

record sf_system =
  y_guest :: sf_service
  y_forwarders :: "(string, socketForwardEntry) gomap list"
  y_requests :: "(nat \<times> ConnectRequest) list"
  y_results :: "ConnectResult list"
  y_dialled :: "string list"
  y_used :: "string list"
  y_closed :: "nat list"
  y_lost :: "string list"

definition dials :: "fwd_op list \<Rightarrow> string list" where
  "dials ops = List.map_filter (\<lambda>x. case x of FDial p \<Rightarrow> Some p | _ \<Rightarrow> None) ops"

text \<open>A request is handled: what \<open>handleConnection\<close> did to the VM's streams, and its result.\<close>

definition host_handle :: "fwd_env \<Rightarrow> nat \<Rightarrow> ConnectRequest \<Rightarrow> sf_system \<Rightarrow> ConnectResult \<times> sf_system" where
  "host_handle env k req y =
     (case fwd_handleConnection env (y_forwarders y ! k) req (sv_streams (y_guest y)) of
        (res, ops, streams) \<Rightarrow>
          (res, y\<lparr>y_requests := remove1 (k, req) (y_requests y), y_dialled := y_dialled y @ dials ops,
                  y_guest := (y_guest y)\<lparr>sv_streams := streams\<rparr>\<rparr>))"

text \<open>
  The steps. A message is lost when \<open>srv.Send\<close> of a request or \<open>stream.Send\<close> of a result fails (a result
  also when the context or the VM's receive loop ends first), when \<open>Recv\<close> fails or the forwarder's receive
  loop has ended before it, and when the forwarder is shut down while it handles the request: the loop
  then drops the result.
\<close>

inductive sf_step :: "sf_system \<Rightarrow> sf_system \<Rightarrow> bool" where
  connect: "c \<notin> fst ` set (sv_conns (y_guest y)) \<Longrightarrow> (\<And>sid. gen = Inr sid \<Longrightarrow> sid \<notin> set (y_used y)) \<Longrightarrow>
     sf_step y (y\<lparr>y_guest := guest_connect gen fid c (y_guest y),
                  y_used := (case gen of Inl _ \<Rightarrow> y_used y | Inr sid \<Rightarrow> sid # y_used y)\<rparr>)"
| send: "accept_send (y_guest y) = Some (req, g) \<Longrightarrow> k < length (y_forwarders y) \<Longrightarrow>
     sf_step y (y\<lparr>y_guest := g, y_requests := y_requests y @ [(k, req)]\<rparr>)"
| send_fails: "accept_send (y_guest y) = Some (req, g) \<Longrightarrow>
     sf_step y (y\<lparr>y_guest := g, y_lost := y_lost y @ [cr_StreamID req]\<rparr>)"
| handle: "(k, req) \<in> set (y_requests y) \<Longrightarrow> (\<And>sid e. fe_stream env sid = Some e \<Longrightarrow> err_msg e \<noteq> []) \<Longrightarrow>
     host_handle env k req y = (res, y') \<Longrightarrow>
     sf_step y (y'\<lparr>y_results := y_results y' @ [res]\<rparr>)"
| result: "y_results y = before @ r # after \<Longrightarrow>
     sf_step y (y\<lparr>y_guest := guest_result r (y_guest y), y_results := before @ after\<rparr>)"
| result_send_fails: "y_results y = before @ r # after \<Longrightarrow>
     sf_step y (y\<lparr>y_results := before @ after, y_lost := y_lost y @ [cs_StreamID r]\<rparr>)"
| shutdown: "sf_step y (y\<lparr>y_closed := k # y_closed y\<rparr>)"
| request_dropped: "(k, req) \<in> set (y_requests y) \<Longrightarrow>
     sf_step y (y\<lparr>y_requests := remove1 (k, req) (y_requests y), y_lost := y_lost y @ [cr_StreamID req]\<rparr>)"
| result_dropped: "(k, req) \<in> set (y_requests y) \<Longrightarrow> k \<in> set (y_closed y) \<Longrightarrow>
     host_handle env k req y = (res, y') \<Longrightarrow>
     sf_step y (y'\<lparr>y_lost := y_lost y' @ [cs_StreamID res]\<rparr>)"

definition sf_start :: "(string, socketForwardEntry) gomap list \<Rightarrow> sf_system" where
  "sf_start fws = \<lparr>y_guest = NewService, y_forwarders = fws, y_requests = [], y_results = [], y_dialled = [], y_used = [],
     y_closed = [], y_lost = []\<rparr>"

abbreviation sf_reach :: "(string, socketForwardEntry) gomap list \<Rightarrow> sf_system \<Rightarrow> bool" where
  "sf_reach fws y \<equiv> sf_step\<^sup>*\<^sup>* (sf_start fws) y"

section \<open>Invariant\<close>

text \<open>The stream IDs of the messages under way, wherever they are, and with those of the lost ones.\<close>

definition under_way :: "sf_system \<Rightarrow> string list" where
  "under_way y = map cr_StreamID (sv_notify (y_guest y)) @ map (\<lambda>kr. cr_StreamID (snd kr)) (y_requests y)
     @ map cs_StreamID (y_results y)"

definition outstanding :: "sf_system \<Rightarrow> string list" where
  "outstanding y = under_way y @ y_lost y"

lemmas outstanding_defs = outstanding_def under_way_def

definition host_paths :: "(string, socketForwardEntry) gomap list \<Rightarrow> string set" where
  "host_paths fws = {sf_hostPath e | e m. m \<in> set fws \<and> e \<in> snd ` set m}"

definition sf_inv :: "sf_system \<Rightarrow> bool" where
  "sf_inv y \<longleftrightarrow>
     distinct (outstanding y) \<and>
     (\<forall>sid. sid \<in> set (outstanding y) \<longleftrightarrow> gm_get (sv_pending (y_guest y)) sid \<noteq> None) \<and>
     (\<forall>sid\<in>set (outstanding y). sid \<in> set (y_used y)) \<and>
     (\<forall>r\<in>set (y_results y). cs_Error r = [] \<longrightarrow> cs_StreamID r \<in> set (sv_streams (y_guest y))) \<and>
     (\<forall>sid c. gm_get (sv_pending (y_guest y)) sid = Some c \<longleftrightarrow> gm_get (sv_conns (y_guest y)) c = Some (UdsWaiting sid)) \<and>
     (\<forall>kr\<in>set (y_requests y). fst kr < length (y_forwarders y)) \<and>
     (\<forall>p\<in>set (y_dialled y). p \<in> host_paths (y_forwarders y))"

lemma sf_invI:
  assumes "distinct (outstanding y)"
    and "\<And>sid. sid \<in> set (outstanding y) \<longleftrightarrow> gm_get (sv_pending (y_guest y)) sid \<noteq> None"
    and "\<And>sid. sid \<in> set (outstanding y) \<Longrightarrow> sid \<in> set (y_used y)"
    and "\<And>r. r \<in> set (y_results y) \<Longrightarrow> cs_Error r = [] \<Longrightarrow> cs_StreamID r \<in> set (sv_streams (y_guest y))"
    and "\<And>sid c. gm_get (sv_pending (y_guest y)) sid = Some c \<longleftrightarrow> gm_get (sv_conns (y_guest y)) c = Some (UdsWaiting sid)"
    and "\<And>kr. kr \<in> set (y_requests y) \<Longrightarrow> fst kr < length (y_forwarders y)"
    and "\<And>p. p \<in> set (y_dialled y) \<Longrightarrow> p \<in> host_paths (y_forwarders y)"
  shows "sf_inv y"
  unfolding sf_inv_def using assms by blast

lemma sf_invD:
  assumes "sf_inv y"
  shows "distinct (outstanding y)"
    and "sid \<in> set (outstanding y) \<longleftrightarrow> gm_get (sv_pending (y_guest y)) sid \<noteq> None"
    and "sid \<in> set (outstanding y) \<Longrightarrow> sid \<in> set (y_used y)"
    and "r \<in> set (y_results y) \<Longrightarrow> cs_Error r = [] \<Longrightarrow> cs_StreamID r \<in> set (sv_streams (y_guest y))"
    and "gm_get (sv_pending (y_guest y)) sid = Some c \<longleftrightarrow> gm_get (sv_conns (y_guest y)) c = Some (UdsWaiting sid)"
    and "kr \<in> set (y_requests y) \<Longrightarrow> fst kr < length (y_forwarders y)"
    and "p \<in> set (y_dialled y) \<Longrightarrow> p \<in> host_paths (y_forwarders y)"
  using assms unfolding sf_inv_def by blast+

lemma sf_inv_start: "sf_inv (sf_start fws)"
  by (rule sf_invI) (simp_all add: sf_start_def outstanding_defs NewService_def)

lemma gm_get_fresh: "k \<notin> fst ` set m \<Longrightarrow> gm_get m k = None"
  by (simp add: map_of_eq_None_iff)

lemma sf_inv_refused:
  assumes "sf_inv y" and "c \<notin> fst ` set (sv_conns (y_guest y))" and "g = (y_guest y)\<lparr>sv_conns := gm_put c UdsClosed (sv_conns (y_guest y)),
      sv_pending := p\<rparr>" and "gm_get p = gm_get (sv_pending (y_guest y))" and "set (y_used y) \<subseteq> set used"
  shows "sf_inv (y\<lparr>y_guest := g, y_used := used\<rparr>)"
proof (rule sf_invI)
  let ?y = "y\<lparr>y_guest := g, y_used := used\<rparr>"
  have out: "outstanding ?y = outstanding y" by (simp add: outstanding_defs assms(3))
  show "distinct (outstanding ?y)" using sf_invD(1) [OF assms(1)] by (simp add: out)
  show "sid \<in> set (outstanding ?y) \<longleftrightarrow> gm_get (sv_pending (y_guest ?y)) sid \<noteq> None" for sid
    using sf_invD(2) [OF assms(1), of sid] by (simp only: out) (simp add: assms(3,4))
  show "sid \<in> set (outstanding ?y) \<Longrightarrow> sid \<in> set (y_used ?y)" for sid
    using sf_invD(3) [OF assms(1)] assms(5) by (auto simp: out)
  show "gm_get (sv_pending (y_guest ?y)) sid = Some c' \<longleftrightarrow> gm_get (sv_conns (y_guest ?y)) c' = Some (UdsWaiting sid)" for sid c'
    using sf_invD(5) [OF assms(1)] gm_get_fresh [OF assms(2)] by (simp add: assms(3,4))
qed (use sf_invD(4,6,7) [OF assms(1)] assms(3) in auto)

lemma sf_inv_connect:
  assumes "sf_inv y" and "c \<notin> fst ` set (sv_conns (y_guest y))" and "\<And>sid. gen = Inr sid \<Longrightarrow> sid \<notin> set (y_used y)"
  shows "sf_inv (y\<lparr>y_guest := guest_connect gen fid c (y_guest y),
                  y_used := (case gen of Inl _ \<Rightarrow> y_used y | Inr sid \<Rightarrow> sid # y_used y)\<rparr>)"
proof (cases gen)
  case (Inl e)
  then show ?thesis
    by (intro sf_inv_refused [OF assms(1,2), where p = "sv_pending (y_guest y)"]) (simp_all add: guest_connect_def)
next
  case (Inr sid)
  let ?g = "y_guest y"
  have out: "sid \<notin> set (outstanding y)" using assms(3) Inr sf_invD(3) [OF assms(1)] by blast
  then have none: "gm_get (sv_pending ?g) sid = None" using sf_invD(2) [OF assms(1)] by blast
  show ?thesis
  proof (cases "length (sv_notify ?g) < notify_cap")
    case False
    with Inr none show ?thesis
      by (intro sf_inv_refused [OF assms(1,2), where p = "gm_del sid (gm_put sid c (sv_pending ?g))"])
         (auto simp: guest_connect_def Let_def fun_eq_iff)
  next
    case True
    let ?y = "y\<lparr>y_guest := guest_connect gen fid c ?g, y_used := sid # y_used y\<rparr>"
    have g: "guest_connect gen fid c ?g = ?g\<lparr>sv_pending := gm_put sid c (sv_pending ?g),
        sv_notify := sv_notify ?g @ [\<lparr>cr_StreamID = sid, cr_ForwardID = fid\<rparr>],
        sv_conns := gm_put c (UdsWaiting sid) (sv_conns ?g)\<rparr>"
      using Inr True by (simp add: guest_connect_def Let_def)
    have o: "set (outstanding ?y) = insert sid (set (outstanding y))" "distinct (outstanding ?y) \<longleftrightarrow> distinct (outstanding y)"
      using out by (auto simp: outstanding_defs g)
    have "sf_inv ?y"
    proof (rule sf_invI)
      show "distinct (outstanding ?y)" using sf_invD(1) [OF assms(1)] o by simp
      show "x \<in> set (outstanding ?y) \<longleftrightarrow> gm_get (sv_pending (y_guest ?y)) x \<noteq> None" for x
        using sf_invD(2) [OF assms(1), of x] by (simp only: o(1)) (auto simp: g)
      show "x \<in> set (outstanding ?y) \<Longrightarrow> x \<in> set (y_used ?y)" for x
        using sf_invD(3) [OF assms(1)] by (auto simp: o)
      show "gm_get (sv_pending (y_guest ?y)) x = Some c' \<longleftrightarrow> gm_get (sv_conns (y_guest ?y)) c' = Some (UdsWaiting x)" for x c'
        using sf_invD(5) [OF assms(1), of x c'] sf_invD(5) [OF assms(1), of sid c'] none gm_get_fresh [OF assms(2)]
        by (auto simp: g)
    qed (use sf_invD(4,6,7) [OF assms(1)] g in auto)
    with Inr show ?thesis by simp
  qed
qed

lemma sf_inv_send:
  assumes "sf_inv y" and "accept_send (y_guest y) = Some (req, g)" and "k < length (y_forwarders y)"
  shows "sf_inv (y\<lparr>y_guest := g, y_requests := y_requests y @ [(k, req)]\<rparr>)"
proof -
  obtain rest where n: "sv_notify (y_guest y) = req # rest" and g: "g = (y_guest y)\<lparr>sv_notify := rest\<rparr>"
    using assms(2) by (auto simp: accept_send_def split: list.splits)
  let ?y = "y\<lparr>y_guest := g, y_requests := y_requests y @ [(k, req)]\<rparr>"
  have out: "set (outstanding ?y) = set (outstanding y)" "distinct (outstanding ?y) \<longleftrightarrow> distinct (outstanding y)"
    by (auto simp: outstanding_defs n g)
  show ?thesis
    by (rule sf_invI) (use sf_invD [OF assms(1)] assms(3) g out in auto)
qed

lemma sf_inv_send_fails:
  assumes "sf_inv y" and "accept_send (y_guest y) = Some (req, g)"
  shows "sf_inv (y\<lparr>y_guest := g, y_lost := y_lost y @ [cr_StreamID req]\<rparr>)"
proof -
  obtain rest where n: "sv_notify (y_guest y) = req # rest" and g: "g = (y_guest y)\<lparr>sv_notify := rest\<rparr>"
    using assms(2) by (auto simp: accept_send_def split: list.splits)
  let ?y = "y\<lparr>y_guest := g, y_lost := y_lost y @ [cr_StreamID req]\<rparr>"
  have out: "set (outstanding ?y) = set (outstanding y)" "distinct (outstanding ?y) \<longleftrightarrow> distinct (outstanding y)"
    by (auto simp: outstanding_defs n g)
  show ?thesis
    by (rule sf_invI) (use sf_invD [OF assms(1)] g out in auto)
qed

lemma open_stream_ok: "open_stream env sid streams = (r, streams') \<Longrightarrow>
    set streams \<subseteq> set streams' \<and> (r = None \<longrightarrow> sid \<in> set streams') \<and> (\<forall>e. r = Some e \<longrightarrow> fe_stream env sid = Some e)"
  by (auto simp: open_stream_def split: option.splits)

lemma fwd_result:
  assumes "fwd_handleConnection env entries req streams = (res, ops, streams')"
  shows "cs_StreamID res = cr_StreamID req" "set streams \<subseteq> set streams'"
    "(\<And>sid e. fe_stream env sid = Some e \<Longrightarrow> err_msg e \<noteq> []) \<Longrightarrow> cs_Error res = [] \<Longrightarrow> cs_StreamID res \<in> set streams'"
    "FDial p \<in> set ops \<Longrightarrow> \<exists>e\<in>snd ` set entries. p = sf_hostPath e"
proof -
  show "cs_StreamID res = cr_StreamID req" "set streams \<subseteq> set streams'"
    using assms open_stream_ok by (auto simp: fwd_handleConnection_def Let_def split: option.splits prod.splits)
  show "cs_StreamID res \<in> set streams'" if "\<And>sid e. fe_stream env sid = Some e \<Longrightarrow> err_msg e \<noteq> []" "cs_Error res = []"
    using assms that open_stream_ok by (fastforce simp: fwd_handleConnection_def Let_def split: option.splits prod.splits)
  show "\<exists>e\<in>snd ` set entries. p = sf_hostPath e" if "FDial p \<in> set ops"
  proof (cases "gm_get entries (cr_ForwardID req)")
    case None
    with assms that show ?thesis by (simp add: fwd_handleConnection_def Let_def)
  next
    case (Some e)
    with assms that have "p = sf_hostPath e"
      by (auto simp: fwd_handleConnection_def Let_def split: option.splits prod.splits)
    with map_of_SomeD [OF Some] show ?thesis by force
  qed
qed

lemma dials_in: "p \<in> set (dials ops) \<longleftrightarrow> FDial p \<in> set ops"
  unfolding dials_def by (induction ops) (auto simp: List.map_filter_simps split: fwd_op.splits)

text \<open>What handling a request changes, whatever then happens to its result.\<close>

lemma host_handle_parts:
  assumes "host_handle env k req y = (res, y')" and "(k, req) \<in> set (y_requests y)"
  obtains us vs ops streams where "y_requests y = us @ (k, req) # vs"
    "fwd_handleConnection env (y_forwarders y ! k) req (sv_streams (y_guest y)) = (res, ops, streams)"
    "y' = y\<lparr>y_requests := us @ vs, y_dialled := y_dialled y @ dials ops, y_guest := (y_guest y)\<lparr>sv_streams := streams\<rparr>\<rparr>"
proof -
  obtain us vs where "y_requests y = us @ (k, req) # vs" and "(k, req) \<notin> set us"
    using assms(2) split_list_first by fastforce
  with assms(1) that show thesis by (auto simp: host_handle_def remove1_append split: prod.splits)
qed

lemma sf_inv_dialled:
  assumes "sf_inv y" and "fst kr < length (y_forwarders y)" and "p \<in> set (y_dialled y @ dials ops)"
    and "fwd_handleConnection env (y_forwarders y ! fst kr) req streams = (res, ops, streams')"
  shows "p \<in> host_paths (y_forwarders y)"
proof (cases "p \<in> set (y_dialled y)")
  case True
  with sf_invD(7) [OF assms(1)] show ?thesis by simp
next
  case False
  with assms(3) fwd_result(4) [OF assms(4), of p] obtain e
    where "e \<in> snd ` set (y_forwarders y ! fst kr)" "p = sf_hostPath e" by (auto simp: dials_in)
  moreover have "y_forwarders y ! fst kr \<in> set (y_forwarders y)" using assms(2) by (rule nth_mem)
  ultimately show ?thesis unfolding host_paths_def by blast
qed

lemma sf_inv_handle:
  assumes "sf_inv y" and "(k, req) \<in> set (y_requests y)"
    and "\<And>sid e. fe_stream env sid = Some e \<Longrightarrow> err_msg e \<noteq> []" and "host_handle env k req y = (res, y')"
  shows "sf_inv (y'\<lparr>y_results := y_results y' @ [res]\<rparr>)"
proof -
  obtain us vs ops streams where u: "y_requests y = us @ (k, req) # vs"
    and h: "fwd_handleConnection env (y_forwarders y ! k) req (sv_streams (y_guest y)) = (res, ops, streams)"
    and y': "y' = y\<lparr>y_requests := us @ vs, y_dialled := y_dialled y @ dials ops, y_guest := (y_guest y)\<lparr>sv_streams := streams\<rparr>\<rparr>"
    by (rule host_handle_parts [OF assms(4,2)])
  note R = fwd_result [OF h]
  let ?y = "y'\<lparr>y_results := y_results y' @ [res]\<rparr>"
  have out: "set (outstanding ?y) = set (outstanding y)" "distinct (outstanding ?y) \<longleftrightarrow> distinct (outstanding y)"
    using R(1) by (auto simp: outstanding_defs u y')
  show ?thesis
  proof (rule sf_invI)
    show "p \<in> host_paths (y_forwarders ?y)" if "p \<in> set (y_dialled ?y)" for p
      using sf_inv_dialled [OF assms(1), of "(k, req)"] h sf_invD(6) [OF assms(1,2)] that by (simp add: y')
    show "cs_StreamID x \<in> set (sv_streams (y_guest ?y))" if "x \<in> set (y_results ?y)" "cs_Error x = []" for x
      using that R(2) R(3) [OF assms(3)] sf_invD(4) [OF assms(1), of x] by (auto simp: y')
  qed (use sf_invD(1,2,3,5,6) [OF assms(1)] u out in \<open>auto simp: y'\<close>)
qed

lemma sf_inv_lost:
  assumes "sf_inv y" and "\<And>sid. sid \<in> set (outstanding y') \<longleftrightarrow> sid \<in> set (outstanding y)"
    and "distinct (outstanding y') \<longleftrightarrow> distinct (outstanding y)"
    and "sv_pending (y_guest y') = sv_pending (y_guest y)" "sv_conns (y_guest y') = sv_conns (y_guest y)"
      "set (sv_streams (y_guest y)) \<subseteq> set (sv_streams (y_guest y'))"
      "y_used y' = y_used y" "y_forwarders y' = y_forwarders y" "set (y_results y') \<subseteq> set (y_results y)"
      "set (y_requests y') \<subseteq> set (y_requests y)"
    and "\<And>p. p \<in> set (y_dialled y') \<Longrightarrow> p \<in> host_paths (y_forwarders y)"
  shows "sf_inv y'"
proof (rule sf_invI)
  show "cs_StreamID r \<in> set (sv_streams (y_guest y'))" if "r \<in> set (y_results y')" "cs_Error r = []" for r
    using that assms(6,9) sf_invD(4) [OF assms(1), of r] by blast
qed (use sf_invD(1,2,3,5,6) [OF assms(1)] assms(2-5,7,8,10,11) in auto)

lemma sf_inv_result_dropped:
  assumes "sf_inv y" and "(k, req) \<in> set (y_requests y)" and "host_handle env k req y = (res, y')"
  shows "sf_inv (y'\<lparr>y_lost := y_lost y' @ [cs_StreamID res]\<rparr>)"
proof -
  obtain us vs ops streams where u: "y_requests y = us @ (k, req) # vs"
    and h: "fwd_handleConnection env (y_forwarders y ! k) req (sv_streams (y_guest y)) = (res, ops, streams)"
    and y': "y' = y\<lparr>y_requests := us @ vs, y_dialled := y_dialled y @ dials ops, y_guest := (y_guest y)\<lparr>sv_streams := streams\<rparr>\<rparr>"
    by (rule host_handle_parts [OF assms(3,2)])
  note R = fwd_result [OF h]
  show ?thesis
  proof (rule sf_inv_lost [OF assms(1)])
    show "p \<in> host_paths (y_forwarders y)" if "p \<in> set (y_dialled (y'\<lparr>y_lost := y_lost y' @ [cs_StreamID res]\<rparr>))" for p
      using sf_inv_dialled [OF assms(1), of "(k, req)"] h sf_invD(6) [OF assms(1,2)] that by (simp add: y')
  qed (use R(1,2) in \<open>auto simp: outstanding_defs u y'\<close>)
qed

lemma sf_inv_request_dropped:
  assumes "sf_inv y" and "(k, req) \<in> set (y_requests y)"
  shows "sf_inv (y\<lparr>y_requests := remove1 (k, req) (y_requests y), y_lost := y_lost y @ [cr_StreamID req]\<rparr>)"
proof -
  obtain us vs where u: "y_requests y = us @ (k, req) # vs" and "(k, req) \<notin> set us"
    using assms(2) split_list_first by fastforce
  then have "remove1 (k, req) (y_requests y) = us @ vs" by (simp add: remove1_append)
  then show ?thesis
    by (intro sf_inv_lost [OF assms(1)]) (use sf_invD(7) [OF assms(1)] in \<open>auto simp: outstanding_defs u\<close>)
qed

lemma sf_inv_result_lost:
  assumes "sf_inv y" and "y_results y = before @ r # after"
  shows "sf_inv (y\<lparr>y_results := before @ after, y_lost := y_lost y @ [cs_StreamID r]\<rparr>)"
  by (rule sf_inv_lost [OF assms(1)]) (use sf_invD(7) [OF assms(1)] in \<open>auto simp: outstanding_defs assms(2)\<close>)

lemma sf_inv_shutdown: "sf_inv y \<Longrightarrow> sf_inv (y\<lparr>y_closed := cl\<rparr>)"
  by (rule sf_inv_lost) (use sf_invD(7) in \<open>auto simp: outstanding_defs\<close>)

lemma sf_inv_result:
  assumes "sf_inv y" and "y_results y = before @ r # after"
  shows "sf_inv (y\<lparr>y_guest := guest_result r (y_guest y), y_results := before @ after\<rparr>)"
proof -
  let ?g = "y_guest y" and ?sid = "cs_StreamID r"
  let ?y = "y\<lparr>y_guest := guest_result r ?g, y_results := before @ after\<rparr>"
  have "?sid \<in> set (outstanding y)" using assms(2) by (simp add: outstanding_defs)
  then obtain c where c: "gm_get (sv_pending ?g) ?sid = Some c" using sf_invD(2) [OF assms(1)] by blast
  have notify: "sv_notify (guest_result r ?g) = sv_notify ?g"
    and pending: "gm_get (sv_pending (guest_result r ?g)) sid = (if sid = ?sid then None else gm_get (sv_pending ?g) sid)"
    and conns: "gm_get (sv_conns (guest_result r ?g)) c' = Some (UdsWaiting sid) \<longleftrightarrow>
      c' \<noteq> c \<and> gm_get (sv_conns ?g) c' = Some (UdsWaiting sid)"
    and streams: "sid \<in> set (sv_streams ?g) \<Longrightarrow> sid \<noteq> ?sid \<Longrightarrow> sid \<in> set (sv_streams (guest_result r ?g))" for sid c'
    by (simp_all add: guest_result_def guest_dialled_def Let_def c)
  have d: "distinct (outstanding y)" by (rule sf_invD(1) [OF assms(1)])
  have out: "set (outstanding ?y) = set (outstanding y) - {?sid}" "distinct (outstanding ?y)"
    "?sid \<notin> cs_StreamID ` (set before \<union> set after)"
    using d by (auto simp: outstanding_defs notify assms(2))
  show ?thesis
  proof (rule sf_invI)
    show "gm_get (sv_pending (y_guest ?y)) sid = Some c' \<longleftrightarrow> gm_get (sv_conns (y_guest ?y)) c' = Some (UdsWaiting sid)" for sid c'
      using sf_invD(5) [OF assms(1), of sid c'] sf_invD(5) [OF assms(1), of ?sid c'] sf_invD(5) [OF assms(1), of sid c]
        sf_invD(5) [OF assms(1), of ?sid c] c
      by (auto simp: pending conns)
    show "cs_StreamID x \<in> set (sv_streams (y_guest ?y))" if "x \<in> set (y_results ?y)" "cs_Error x = []" for x
    proof -
      from that(1) have "cs_StreamID x \<in> cs_StreamID ` (set before \<union> set after)" by simp
      with out(3) have "cs_StreamID x \<noteq> ?sid" by metis
      with that sf_invD(4) [OF assms(1), of x] streams show ?thesis by (auto simp: assms(2))
    qed
    show "sid \<in> set (outstanding ?y) \<longleftrightarrow> gm_get (sv_pending (y_guest ?y)) sid \<noteq> None" for sid
      using sf_invD(2) [OF assms(1), of sid] by (auto simp: out pending)
    show "sid \<in> set (outstanding ?y) \<Longrightarrow> sid \<in> set (y_used ?y)" for sid
      using sf_invD(3) [OF assms(1), of sid] by (simp add: out)
  qed (use sf_invD(6,7) [OF assms(1)] out(2) in simp_all)
qed

lemma sf_inv_step: "sf_step y y' \<Longrightarrow> sf_inv y \<Longrightarrow> sf_inv y'"
  by (induction rule: sf_step.induct)
     (blast intro: sf_inv_connect sf_inv_send sf_inv_send_fails sf_inv_handle sf_inv_result sf_inv_result_lost
        sf_inv_shutdown sf_inv_request_dropped sf_inv_result_dropped)+

lemma sf_inv_reach: "sf_reach fws y \<Longrightarrow> sf_inv y"
  by (induction rule: rtranclp_induct) (auto intro: sf_inv_start sf_inv_step)

lemma sf_reach_forwarders: "sf_reach fws y \<Longrightarrow> y_forwarders y = fws"
proof (induction rule: rtranclp_induct)
  case (step y z)
  from step.hyps(2) have "y_forwarders z = y_forwarders y"
    by (cases rule: sf_step.cases) (auto simp: host_handle_def split: prod.splits)
  with step.IH show ?case by simp
qed (simp add: sf_start_def)

lemma lost_stays: "sf_step\<^sup>*\<^sup>* y y' \<Longrightarrow> set (y_lost y) \<subseteq> set (y_lost y')"
proof (induction rule: rtranclp_induct)
  case (step y' z)
  from step.hyps(2) have "set (y_lost y') \<subseteq> set (y_lost z)"
    by (cases rule: sf_step.cases) (auto simp: host_handle_def split: prod.splits)
  with step.IH show ?case by blast
qed simp

section \<open>Properties\<close>

text \<open>
  C6. When the host reports success, the connection it is for is still waiting, its stream is already
  registered in the VM and the relay starts; and the host only ever dials socket paths of its own
  entries, whatever forward IDs the VM sends.
\<close>

theorem forward_success_relays:
  assumes "sf_reach fws y" and "r \<in> set (y_results y)" and "cs_Error r = []"
  shows "\<exists>c. gm_get (sv_conns (y_guest y)) c = Some (UdsWaiting (cs_StreamID r)) \<and>
      gm_get (sv_conns (guest_result r (y_guest y))) c = Some (UdsRelaying (cs_StreamID r)) \<and>
      set (y_dialled y) \<subseteq> host_paths fws"
proof -
  have inv: "sf_inv y" by (rule sf_inv_reach [OF assms(1)])
  have "cs_StreamID r \<in> set (outstanding y)" using assms(2) by (simp add: outstanding_defs)
  then obtain c where c: "gm_get (sv_pending (y_guest y)) (cs_StreamID r) = Some c"
    using sf_invD(2) [OF inv] by blast
  have s: "cs_StreamID r \<in> set (sv_streams (y_guest y))" by (rule sf_invD(4) [OF inv assms(2,3)])
  have "set (y_dialled y) \<subseteq> host_paths fws"
    using sf_invD(7) [OF inv] sf_reach_forwarders [OF assms(1)] by auto
  moreover have "gm_get (sv_conns (guest_result r (y_guest y))) c = Some (UdsRelaying (cs_StreamID r))"
    using c s assms(3) by (simp add: guest_result_def guest_dialled_def Let_def)
  ultimately show ?thesis using sf_invD(5) [OF inv] c by blast
qed

lemma count_list_distinct: "distinct xs \<Longrightarrow> x \<in> set xs \<Longrightarrow> count_list xs x = 1"
  by (induction xs) (auto simp: count_list_0_iff)

text \<open>
  C15. A waiting connection has exactly one message: it is under way, as a queued request, a request at
  a forwarder or a result on its way back, or it was lost, because a send of it failed or its forwarder
  was shut down. A connection whose message was lost waits for ever, whatever happens later.
\<close>

theorem waiting_has_one_message:
  assumes "sf_reach fws y" and "gm_get (sv_conns (y_guest y)) c = Some (UdsWaiting sid)"
  shows "count_list (under_way y) sid + count_list (y_lost y) sid = 1
    \<and> (sid \<in> set (y_lost y) \<longrightarrow>
         (\<forall>y'. sf_step\<^sup>*\<^sup>* y y' \<longrightarrow> (\<exists>c'. gm_get (sv_conns (y_guest y')) c' = Some (UdsWaiting sid))))"
proof (intro conjI impI allI)
  have inv: "sf_inv y" by (rule sf_inv_reach [OF assms(1)])
  have "sid \<in> set (outstanding y)"
    using sf_invD(5) [OF inv, of sid c] sf_invD(2) [OF inv, of sid] assms(2) by simp
  with sf_invD(1) [OF inv] have "count_list (outstanding y) sid = 1" by (intro count_list_distinct)
  then show "count_list (under_way y) sid + count_list (y_lost y) sid = 1" by (simp add: outstanding_def)
  fix y' assume lost: "sid \<in> set (y_lost y)" and run: "sf_step\<^sup>*\<^sup>* y y'"
  have inv': "sf_inv y'" by (rule sf_inv_reach [OF rtranclp_trans [OF assms(1) run]])
  have "sid \<in> set (outstanding y')" using lost lost_stays [OF run] by (auto simp: outstanding_def)
  with sf_invD(2) [OF inv', of sid] obtain c' where "gm_get (sv_pending (y_guest y')) sid = Some c'" by blast
  with sf_invD(5) [OF inv'] show "\<exists>c'. gm_get (sv_conns (y_guest y')) c' = Some (UdsWaiting sid)" by blast
qed

definition demo_entry :: socketForwardEntry where
  "demo_entry = \<lparr>sf_id = ''f'', sf_hostPath = ''/h.sock'', sf_vmPath = ''/run/socketfwd/f.sock'', sf_containerPath = ''/c.sock''\<rparr>"

definition calm_fwd :: fwd_env where
  "calm_fwd = \<lparr>fe_dial = (\<lambda>_. None), fe_stream = (\<lambda>_. None)\<rparr>"

definition demo_y :: "(string, socketForwardEntry) gomap list \<Rightarrow> nat \<Rightarrow> sf_system" where
  "demo_y fws k =
     (case host_handle calm_fwd k \<lparr>cr_StreamID = ''s'', cr_ForwardID = ''f''\<rparr>
             ((sf_start fws)\<lparr>y_guest := (guest_connect (Inr ''s'') ''f'' 0 NewService)\<lparr>sv_notify := []\<rparr>,
                y_used := [''s''], y_requests := [(k, \<lparr>cr_StreamID = ''s'', cr_ForwardID = ''f''\<rparr>)]\<rparr>) of
        (res, y) \<Rightarrow> y\<lparr>y_results := y_results y @ [res]\<rparr>)"

lemmas demo_y_simps = demo_y_def host_handle_def fwd_handleConnection_def open_stream_def dials_def Let_def sf_start_def
  calm_fwd_def guest_connect_def NewService_def notify_cap_def

lemma demo_reach:
  assumes "k < length fws"
  shows "sf_reach fws (demo_y fws k)"
proof -
  let ?req = "\<lparr>cr_StreamID = ''s'', cr_ForwardID = ''f''\<rparr>"
  let ?g = "guest_connect (Inr ''s'') ''f'' 0 NewService"
  let ?y1 = "(sf_start fws)\<lparr>y_guest := ?g, y_used := [''s'']\<rparr>"
  let ?y2 = "?y1\<lparr>y_guest := ?g\<lparr>sv_notify := []\<rparr>, y_requests := [(k, ?req)]\<rparr>"
  have 1: "sf_step (sf_start fws) ?y1"
    using sf_step.connect [of 0 "sf_start fws" "Inr ''s''" "''f''"] by (simp add: sf_start_def NewService_def)
  have n: "accept_send (y_guest ?y1) = Some (?req, ?g\<lparr>sv_notify := []\<rparr>)"
    by (simp add: accept_send_def guest_connect_def NewService_def notify_cap_def)
  have 2: "sf_step ?y1 ?y2"
    using sf_step.send [OF n, of k] assms by (simp add: sf_start_def)
  obtain res y' where h: "host_handle calm_fwd k ?req ?y2 = (res, y')" by fastforce
  have "sf_step ?y2 (y'\<lparr>y_results := y_results y' @ [res]\<rparr>)"
    by (rule sf_step.handle [OF _ _ h]) (simp_all add: calm_fwd_def)
  then have 3: "sf_step ?y2 (demo_y fws k)" using h by (simp add: demo_y_def sf_start_def)
  from 1 2 3 show ?thesis by (metis (lifting) converse_rtranclp_into_rtranclp rtranclp.rtrancl_refl)
qed

theorem forward_success_relays_witness:
  "\<exists>c r. gm_get (sv_conns (guest_result r (y_guest (demo_y [[(''f'', demo_entry)]] 0)))) c = Some (UdsRelaying ''s'')"
proof -
  let ?y = "demo_y [[(''f'', demo_entry)]] 0" and ?r = "\<lparr>cs_StreamID = ''s'', cs_Error = []\<rparr>"
  have "?r \<in> set (y_results ?y)"
    by (simp add: demo_y_simps)
  from forward_success_relays [OF demo_reach this] show ?thesis by auto
qed

theorem waiting_has_one_message_witness:
  "count_list (under_way (demo_y [[(''f'', demo_entry)]] 0)) ''s''
     + count_list (y_lost (demo_y [[(''f'', demo_entry)]] 0)) ''s'' = 1"
proof -
  let ?y = "demo_y [[(''f'', demo_entry)]] 0"
  have "gm_get (sv_conns (y_guest ?y)) 0 = Some (UdsWaiting ''s'')"
    by (simp add: demo_y_simps)
  from waiting_has_one_message [OF demo_reach this] show ?thesis by simp
qed

text \<open>
  The Accept streams of all forwarders take their requests from one channel: with two containers
  a connection to a socket of the first can be answered by the forwarder of the second, which does not
  know it, and is closed although the first would have relayed it.
\<close>

theorem accept_streams_misroute:
  "\<exists>y. sf_reach [[(''f'', demo_entry)], []] y \<and> gm_get (sv_conns (y_guest y)) 0 = Some UdsClosed \<and> y_dialled y = []"
proof -
  let ?fws = "[[(''f'', demo_entry)], []] :: (string, socketForwardEntry) gomap list"
  let ?y = "demo_y ?fws 1"
  let ?r = "\<lparr>cs_StreamID = ''s'', cs_Error = ''unknown forward ID: f''\<rparr>"
  have r: "y_results ?y = [] @ ?r # []"
    by (simp add: demo_y_simps)
  have "sf_reach ?fws (?y\<lparr>y_guest := guest_result ?r (y_guest ?y), y_results := []\<rparr>)"
    using demo_reach [of 1 ?fws] sf_step.result [OF r] by (simp add: rtranclp.rtrancl_into_rtrancl)
  moreover have "gm_get (sv_conns (guest_result ?r (y_guest ?y))) 0 = Some UdsClosed" "y_dialled ?y = []"
    by (simp_all add: demo_y_simps guest_result_def guest_dialled_def List.map_filter_simps)
  ultimately show ?thesis by (intro exI [of _ "?y\<lparr>y_guest := guest_result ?r (y_guest ?y), y_results := []\<rparr>"]) simp
qed

end
