(* ===== verification/Shim_IO.thy ===== *)
theory Shim_IO
  imports Process_IO "HOL-Library.Multiset"
begin

text \<open>
  Container I/O on the host: \<open>internal/shim/task/io.go\<close>, \<open>io_copystreams_unix.go\<close> and the default
  scheme of \<open>io_other.go\<close>. A connection to the VM is known by its stream ID; the state is the list of
  open ones. \<open>generateStreamID\<close> and the outcome of \<open>StartStream\<close> are parameters, FIFOs and files are
  those of \<open>io_env\<close>. A copy goroutine is its source stream and destination; when it ends it counts
  down and may close the \<open>done\<close> channel.
\<close>

section \<open>Streams\<close>

record ss_env =
  se_start :: "string \<Rightarrow> go_error option"
  se_gen :: "string \<Rightarrow> string"

type_synonym conns = "string triple"

text \<open>\<open>if c != nil && (i != 2 || c != conns[1])\<close>: what the cleanups close.\<close>

definition conns_list :: "conns \<Rightarrow> string list" where
  "conns_list cs = (case cs of (a, b, c) \<Rightarrow>
     (case a of None \<Rightarrow> [] | Some x \<Rightarrow> [x]) @ (case b of None \<Rightarrow> [] | Some x \<Rightarrow> [x])
     @ (case c of None \<Rightarrow> [] | Some x \<Rightarrow> if c = b then [] else [x]))"

definition close_conns_of :: "conns \<Rightarrow> string list \<Rightarrow> string list" where
  "close_conns_of cs opened = filter (\<lambda>x. x \<notin> set (conns_list cs)) opened"

definition start_one ::
  "ss_env \<Rightarrow> string \<Rightarrow> string list \<Rightarrow> string result \<times> string list" where
  "start_one env pre opened =
     (case se_start env (se_gen env pre) of
        Some e \<Rightarrow> (Inl e, opened)
      | None \<Rightarrow> (Inr (se_gen env pre), opened @ [se_gen env pre]))"

definition stream_uri :: "string \<Rightarrow> string" where
  "stream_uri sid = ''stream://'' @ sid"

text \<open>
  The three parts of \<open>createStreams\<close>: each takes the stdio and connections so far. An error closes the
  connections made before it.
\<close>

type_synonym create_state = "stdio \<times> conns \<times> string list"

definition create_stdin :: "ss_env \<Rightarrow> string \<Rightarrow> create_state \<Rightarrow> go_error option \<times> create_state" where
  "create_stdin env pre st =
     (case st of (io, (c0, c1, c2), opened) \<Rightarrow>
        if Stdin io = [] then (None, st)
        else case start_one env (pre @ ''-stdin'') opened of
               (Inl e, op) \<Rightarrow> (Some (ErrWrap ''failed to start stdin stream'' e), (io, (c0, c1, c2), op))
             | (Inr sid, op) \<Rightarrow> (None, (io\<lparr>Stdin := stream_uri sid\<rparr>, (Some sid, c1, c2), op)))"

definition create_stdout :: "ss_env \<Rightarrow> string \<Rightarrow> create_state \<Rightarrow> go_error option \<times> create_state" where
  "create_stdout env pre st =
     (case st of (io, (c0, c1, c2), opened) \<Rightarrow>
        if Stdout io = [] then (None, st)
        else case start_one env (pre @ ''-stdout'') opened of
               (Inl e, op) \<Rightarrow> (Some (ErrWrap ''failed to start stdout stream'' e), (io, (c0, c1, c2), op))
             | (Inr sid, op) \<Rightarrow> (None, (io\<lparr>Stdout := stream_uri sid\<rparr>, (c0, Some sid, c2), op)))"

definition create_stderr :: "ss_env \<Rightarrow> string \<Rightarrow> string \<Rightarrow> create_state \<Rightarrow> go_error option \<times> create_state" where
  "create_stderr env pre stdout st =
     (case st of (io, (c0, c1, c2), opened) \<Rightarrow>
        if Stderr io = [] then (None, st)
        else if Stderr io = stdout then (None, (io\<lparr>Stderr := Stdout io\<rparr>, (c0, c1, c1), opened))
        else case start_one env (pre @ ''-stderr'') opened of
               (Inl e, op) \<Rightarrow> (Some (ErrWrap ''failed to start stderr stream'' e), (io, (c0, c1, c2), op))
             | (Inr sid, op) \<Rightarrow> (None, (io\<lparr>Stderr := stream_uri sid\<rparr>, (c0, c1, Some sid), op)))"

definition create_fail :: "go_error \<Rightarrow> create_state \<Rightarrow> (stdio \<times> conns) result \<times> string list" where
  "create_fail e st = (case st of (io, cs, opened) \<Rightarrow> (Inl e, close_conns_of cs opened))"

definition createStreams :: "ss_env \<Rightarrow> string \<Rightarrow> stdio \<Rightarrow> string list \<Rightarrow> (stdio \<times> conns) result \<times> string list" where
  "createStreams env pre io opened =
     (case create_stdin env pre (io, (None, None, None), opened) of
        (Some e, st) \<Rightarrow> create_fail e st
      | (None, st) \<Rightarrow>
          (case create_stdout env pre st of
             (Some e, st') \<Rightarrow> create_fail e st'
           | (None, st') \<Rightarrow>
               (case create_stderr env pre (Stdout io) st' of
                  (Some e, st'') \<Rightarrow> create_fail e st''
                | (None, (io', cs, op)) \<Rightarrow> (Inr (io', cs), op))))"

section \<open>Copying\<close>

text \<open>
  What \<open>copyStreams\<close> has started: the output copies with the index of their stream, whether stdin is
  copied, the counter \<open>copying\<close>, how often \<open>done\<close> was closed, the shared file writer, and the handles
  it opened that no copy will close.
\<close>

record copy_plan =
  cp_copies :: "(nat \<times> string dest) list"
  cp_stdin :: bool
  cp_copying :: int
  cp_closes :: nat
  cp_shared :: "counting option"
  cp_leaked :: "string list"

definition new_plan :: copy_plan where
  "new_plan = \<lparr>cp_copies = [], cp_stdin = False, cp_copying = 2, cp_closes = 0, cp_shared = None, cp_leaked = []\<rparr>"

definition count_down :: "copy_plan \<Rightarrow> copy_plan" where
  "count_down p =
     (let n = cp_copying p - 1
      in p\<lparr>cp_copying := n, cp_closes := cp_closes p + (if n = 0 then 1 else 0)\<rparr>)"

definition copy_one :: "io_env \<Rightarrow> string \<Rightarrow> string \<Rightarrow> nat \<Rightarrow> string \<Rightarrow> copy_plan \<Rightarrow> go_error option \<times> copy_plan" where
  "copy_one env stdout stderr i name p =
     (if name = [] then (None, count_down p)
      else case ie_is_fifo env name of
             Inl e \<Rightarrow> (Some e, p)
           | Inr True \<Rightarrow>
               (case ie_open_fifo env name O_WRONLY of
                  Some e \<Rightarrow> (Some (ErrWrap (''containerd-shim: opening w/o fifo '' @ quote name @ '' failed'') e), p)
                | None \<Rightarrow>
                    (case ie_open_fifo env name O_RDONLY of
                       Some e \<Rightarrow> (Some (ErrWrap (''containerd-shim: opening r/o fifo '' @ quote name @ '' failed'') e),
                                  p\<lparr>cp_leaked := cp_leaked p @ [name]\<rparr>)
                     | None \<Rightarrow> (None, p\<lparr>cp_copies := cp_copies p @ [(i, ToFifo name)]\<rparr>)))
           | Inr False \<Rightarrow>
               (case cp_shared p of
                  Some c \<Rightarrow> (None, p\<lparr>cp_shared := Some (bumpCount 1 c), cp_copies := cp_copies p @ [(i, ToShared name)]\<rparr>)
                | None \<Rightarrow>
                    (case ie_open_file env name of
                       Some e \<Rightarrow> (Some (ErrWrap (''containerd-shim: opening file '' @ quote name @ '' failed'') e), p)
                     | None \<Rightarrow>
                         (None, p\<lparr>cp_shared := (if stdout = stderr then Some (newCountingWriteCloser 1) else None),
                                  cp_copies := cp_copies p @ [(i, ToFile name)]\<rparr>))))"

definition copyStreams :: "io_env \<Rightarrow> string \<Rightarrow> string \<Rightarrow> string \<Rightarrow> go_error option \<times> copy_plan" where
  "copyStreams env stdin stdout stderr =
     (case copy_one env stdout stderr 1 stdout new_plan of
           (Some e, p) \<Rightarrow> (Some e, p)
         | (None, p1) \<Rightarrow>
             (case copy_one env stdout stderr 2 stderr p1 of
                (Some e, p) \<Rightarrow> (Some e, p)
              | (None, p2) \<Rightarrow>
                  if stdin = [] then (None, p2)
                  else case ie_open_fifo env stdin O_RDONLY_NONBLOCK of
                         Some e \<Rightarrow> (Some (ErrNew (''containerd-shim: opening '' @ stdin @ '' failed: '' @ err_msg e)), p2)
                       | None \<Rightarrow> (None, p2\<lparr>cp_stdin := True\<rparr>)))"

text \<open>The end of an output copy.\<close>

definition copy_end :: "nat \<times> string dest \<Rightarrow> copy_plan \<Rightarrow> copy_plan" where
  "copy_end x p = (count_down p)\<lparr>cp_copies := remove1 x (cp_copies p)\<rparr>"

section \<open>Forwarding\<close>

definition defaultScheme :: string where
  "defaultScheme = ''fifo''"

text \<open>
  The stdio for the VM and the shutdown function, nil for I/O that is not forwarded; else the function
  closes the streams and waits for \<open>done\<close>.
\<close>

record io_shutdown =
  sh_conns :: conns
  sh_plan :: copy_plan

definition forward_copy ::
  "(string \<Rightarrow> string \<Rightarrow> string \<Rightarrow> go_error option \<times> copy_plan) \<Rightarrow> ss_env \<Rightarrow> string \<Rightarrow> stdio \<Rightarrow> stdio \<Rightarrow> string list \<Rightarrow> (stdio \<times> io_shutdown option) result \<times> string list" where
  "forward_copy copy ss pre sio pio opened =
     (case createStreams ss pre pio opened of
        (Inl e, op) \<Rightarrow> (Inl e, op)
      | (Inr (pio', cs), op) \<Rightarrow>
          (case copy (Stdin sio) (Stdout sio) (Stderr sio) of
             (Some e, _) \<Rightarrow> (Inl e, close_conns_of cs op)
           | (None, p) \<Rightarrow> (Inr (pio', Some \<lparr>sh_conns = cs, sh_plan = p\<rparr>), op)))"

text \<open>\<open>forwardIO\<close> with the default scheme and the \<open>copyStreams\<close> of a platform.\<close>

definition forwardIO_on ::
  "string \<Rightarrow> (string \<Rightarrow> string \<Rightarrow> string \<Rightarrow> go_error option \<times> copy_plan) \<Rightarrow> io_env \<Rightarrow> ss_env \<Rightarrow> string \<Rightarrow> stdio \<Rightarrow>
     string list \<Rightarrow> (stdio \<times> io_shutdown option) result \<times> string list" where
  "forwardIO_on dflt copy env ss pre sio opened =
     (if stdio_IsNull sio then (Inr (sio, None), opened)
      else case ie_url_parse env (Stdout sio) of
             Inl e \<Rightarrow> (Inl (ErrWrap ''unable to parse stdout uri'' e), opened)
           | Inr (scheme0, path) \<Rightarrow>
               let scheme = (if scheme0 = [] then dflt else scheme0)
               in if scheme = ''stream'' then (Inr (sio, None), opened)
                  else if scheme = ''fifo'' \<or> scheme = ''pipe'' then forward_copy copy ss pre sio sio opened
                  else if scheme = ''file'' then
                    (case ie_mkdir_all env (path_dir path) of
                       Some e \<Rightarrow> (Inl e, opened)
                     | None \<Rightarrow>
                         (case ie_open_file env path of
                            Some e \<Rightarrow> (Inl e, opened)
                          | None \<Rightarrow> forward_copy copy ss pre sio (sio\<lparr>Stdout := path, Stderr := path\<rparr>) opened))
                  else (Inl (ErrWrap (''unsupported STDIO scheme '' @ scheme) (Errdef ErrNotImplemented)), opened))"

definition forwardIO ::
  "io_env \<Rightarrow> ss_env \<Rightarrow> string \<Rightarrow> stdio \<Rightarrow> string list \<Rightarrow> (stdio \<times> io_shutdown option) result \<times> string list" where
  "forwardIO env = forwardIO_on defaultScheme (copyStreams env) env"

text \<open>The shutdown function: it returns when the copies have ended or its context is done.\<close>

definition io_shutdown_run :: "bool \<Rightarrow> io_shutdown \<Rightarrow> string list \<Rightarrow> go_error option \<times> string list" where
  "io_shutdown_run ctx_done sh opened =
     (if cp_closes (sh_plan sh) > 0 \<or> \<not> ctx_done then None else Some (Sentinel ''context canceled''),
      close_conns_of (sh_conns sh) opened)"

section \<open>Streams are not leaked\<close>

lemma filter_fresh: "\<forall>x\<in>set xs. x \<notin> S \<Longrightarrow> filter (\<lambda>x. x \<notin> S) xs = xs"
  by (induction xs) auto

lemma close_conns_keep:
  "set (conns_list cs) \<inter> set opened = {} \<Longrightarrow> close_conns_of cs (opened @ new) = opened @ close_conns_of cs new"
  by (auto simp: close_conns_of_def intro!: filter_fresh)

text \<open>What the three parts keep: the connections made are the new open ones, and fresh.\<close>

definition create_inv :: "string list \<Rightarrow> create_state \<Rightarrow> bool" where
  "create_inv opened st \<longleftrightarrow> (case st of (io, cs, op) \<Rightarrow>
     set (conns_list cs) \<inter> set opened = {} \<and> (\<exists>new. op = opened @ new \<and> close_conns_of cs new = []))"

lemma create_inv_close: "create_inv opened (io, cs, op) \<Longrightarrow> close_conns_of cs op = opened"
  by (auto simp: create_inv_def close_conns_keep)

lemma create_inv_stdin:
  assumes "\<forall>p. se_gen env p \<notin> set opened"
  shows "create_inv opened (snd (create_stdin env pre (io, (None, None, None), opened)))
    \<and> (\<exists>io' a op. snd (create_stdin env pre (io, (None, None, None), opened)) = (io', (a, None, None), op))"
  using assms
  by (auto simp: create_stdin_def create_inv_def start_one_def conns_list_def close_conns_of_def filter_empty_conv split: option.splits)

lemma create_inv_stdout:
  assumes "\<forall>p. se_gen env p \<notin> set opened" and "create_inv opened (io, (a, None, None), op)"
  shows "create_inv opened (snd (create_stdout env pre (io, (a, None, None), op)))
    \<and> (\<exists>io' b op'. snd (create_stdout env pre (io, (a, None, None), op)) = (io', (a, b, None), op'))"
  using assms
  by (auto simp: create_stdout_def create_inv_def start_one_def conns_list_def close_conns_of_def filter_empty_conv split: option.splits)

lemma create_inv_stderr:
  assumes "\<forall>p. se_gen env p \<notin> set opened" and "create_inv opened (io, (a, b, None), op)"
  shows "create_inv opened (snd (create_stderr env pre out (io, (a, b, None), op)))"
  using assms
  by (auto simp: create_stderr_def create_inv_def start_one_def conns_list_def close_conns_of_def filter_empty_conv split: option.splits)

lemma createStreams_streams:
  assumes "\<forall>p. se_gen env p \<notin> set opened"
  shows "case createStreams env pre io opened of
      (Inl e, op) \<Rightarrow> op = opened
    | (Inr (io', cs), op) \<Rightarrow> close_conns_of cs op = opened"
proof -
  obtain r1 io1 a op1 where s1: "create_stdin env pre (io, (None, None, None), opened) = (r1, (io1, (a, None, None), op1))"
    and i1: "create_inv opened (io1, (a, None, None), op1)"
    using create_inv_stdin [OF assms, of pre io] by (metis prod.collapse)
  obtain r2 io2 b op2 where s2: "create_stdout env pre (io1, (a, None, None), op1) = (r2, (io2, (a, b, None), op2))"
    and i2: "create_inv opened (io2, (a, b, None), op2)"
    using create_inv_stdout [OF assms i1, of pre] by (metis prod.collapse)
  obtain r3 io3 cs op3 where s3: "create_stderr env pre (Stdout io) (io2, (a, b, None), op2) = (r3, (io3, cs, op3))"
    and i3: "create_inv opened (io3, cs, op3)"
    using create_inv_stderr [OF assms i2, of pre "Stdout io"] by (metis prod.collapse)
  show ?thesis
    using i1 i2 i3
    by (simp add: createStreams_def s1 s2 s3 create_fail_def create_inv_close split: option.splits)
qed

lemma forward_copy_streams:
  assumes "\<forall>p. se_gen ss p \<notin> set opened"
  shows "case forward_copy copy ss pre sio pio opened of
      (Inl e, op) \<Rightarrow> op = opened
    | (Inr (io', sh), op) \<Rightarrow> \<exists>s. sh = Some s \<and> close_conns_of (sh_conns s) op = opened"
  using createStreams_streams [OF assms, of pre pio]
  by (auto simp: forward_copy_def split: prod.splits sum.splits option.splits)

lemma forwardIO_on_closed:
  assumes "\<forall>p. se_gen ss p \<notin> set opened"
  shows "case forwardIO_on dflt copy env ss pre sio opened of
      (Inl e, op) \<Rightarrow> op = opened
    | (Inr (io', None), op) \<Rightarrow> io' = sio \<and> op = opened
    | (Inr (io', Some sh), op) \<Rightarrow> snd (io_shutdown_run b sh op) = opened"
proof -
  let ?P = "\<lambda>r. case r of
      (Inl e, op) \<Rightarrow> op = opened
    | (Inr (io', None), op) \<Rightarrow> io' = sio \<and> op = opened
    | (Inr (io', Some sh), op) \<Rightarrow> snd (io_shutdown_run b sh op) = opened"
  have fc: "?P (forward_copy copy ss pre sio pio opened)" for pio
    using forward_copy_streams [OF assms, of copy pre sio pio]
    by (auto simp: io_shutdown_run_def split: prod.splits sum.splits option.splits)
  show ?thesis
  proof (cases "ie_url_parse env (Stdout sio)")
    case (Inl e)
    then show ?thesis by (simp add: forwardIO_on_def)
  next
    case (Inr sp)
    obtain scheme path where sp: "sp = (scheme, path)" by (cases sp)
    show ?thesis
      by (simp add: forwardIO_on_def Inr sp Let_def fc)
         (cases "ie_mkdir_all env (path_dir path)"; cases "ie_open_file env path"; simp add: fc)
  qed
qed

lemma forwardIO_closed:
  assumes "\<forall>p. se_gen ss p \<notin> set opened"
  shows "case forwardIO env ss pre sio opened of
      (Inl e, op) \<Rightarrow> op = opened
    | (Inr (io', None), op) \<Rightarrow> io' = sio \<and> op = opened
    | (Inr (io', Some sh), op) \<Rightarrow> snd (io_shutdown_run b sh op) = opened"
  unfolding forwardIO_def by (rule forwardIO_on_closed [OF assms])

text \<open>
  C34. Streams opened for a container's I/O are never leaked: a failed \<open>forwardIO\<close> leaves no new stream
  open, and the shutdown function of a successful one closes exactly those it opened.
\<close>

theorem forwardIO_streams:
  assumes "\<forall>p. se_gen ss p \<notin> set opened"
  shows "case forwardIO env ss pre sio opened of
      (Inl e, op) \<Rightarrow> op = opened
    | (Inr (io', None), op) \<Rightarrow> io' = sio \<and> op = opened
    | (Inr (io', Some sh), op) \<Rightarrow> snd (io_shutdown_run b sh op) = opened"
  by (rule forwardIO_closed [OF assms])

section \<open>The end of the copies\<close>

definition plan_inv :: "copy_plan \<Rightarrow> bool" where
  "plan_inv p \<longleftrightarrow> cp_copying p = int (length (cp_copies p)) \<and> cp_closes p = (if cp_copies p = [] then 1 else 0)"

text \<open>The same while \<open>k\<close> turns of the loop over the two outputs are left.\<close>

definition plan_mid :: "nat \<Rightarrow> copy_plan \<Rightarrow> bool" where
  "plan_mid k p \<longleftrightarrow> cp_copying p = int (length (cp_copies p) + k) \<and> cp_closes p = (if cp_copying p = 0 then 1 else 0)"

text \<open>The loop over the two outputs, for any way to start one copy that keeps the count.\<close>

locale output_copier =
  fixes one :: "nat \<Rightarrow> string \<Rightarrow> copy_plan \<Rightarrow> go_error option \<times> copy_plan"
  assumes counts: "one i name p = (None, p') \<Longrightarrow> plan_mid (Suc k) p \<Longrightarrow> plan_mid k p'"
begin

lemma both_started:
  assumes "one 1 o1 new_plan = (None, p1)" and "one 2 e1 p1 = (None, p2)"
  shows "plan_inv p2"
proof -
  have "plan_mid 2 new_plan" by (simp add: plan_mid_def new_plan_def)
  then have "plan_mid 0 p2"
    using counts [OF assms(1), of 1] counts [OF assms(2), of 0] by (simp add: numeral_2_eq_2)
  then show ?thesis by (auto simp: plan_mid_def plan_inv_def)
qed

end

interpretation unix_copies: output_copier "copy_one env o1 e1" for env o1 e1
  by unfold_locales
     (auto simp: copy_one_def count_down_def plan_mid_def Let_def split: if_splits sum.splits bool.splits option.splits)

lemma plan_inv_stdin [simp]: "plan_inv (p\<lparr>cp_stdin := b\<rparr>) = plan_inv p"
  by (simp add: plan_inv_def)

lemma copyStreams_plan:
  assumes "copyStreams env i o1 e1 = (None, p)"
  shows "plan_inv p"
proof -
  obtain p1 p2 where "copy_one env o1 e1 1 o1 new_plan = (None, p1)" "copy_one env o1 e1 2 e1 p1 = (None, p2)"
    and p: "p = p2 \<or> p = p2\<lparr>cp_stdin := True\<rparr>"
    using assms by (auto simp: copyStreams_def Let_def split: if_splits prod.splits option.splits)
  from unix_copies.both_started [OF this(1,2)] p show ?thesis by auto
qed

lemma copy_end_plan:
  assumes "plan_inv p" and "x \<in> set (cp_copies p)"
  shows "plan_inv (copy_end x p) \<and> cp_copies (copy_end x p) = remove1 x (cp_copies p)"
proof -
  obtain n where n: "length (cp_copies p) = Suc n" using assms(2) by (cases "cp_copies p") auto
  have r: "length (remove1 x (cp_copies p)) = n" using assms(2) n by (simp add: length_remove1)
  then have "remove1 x (cp_copies p) = [] \<longleftrightarrow> n = 0" by (metis length_0_conv)
  moreover have "cp_copies p \<noteq> []" using n by auto
  ultimately show ?thesis
    using assms(1) n r by (simp add: plan_inv_def copy_end_def count_down_def Let_def)
qed

lemma copy_ends_plan:
  assumes "plan_inv p" and "mset (cp_copies p) = mset (xs @ ys)"
  shows "plan_inv (fold copy_end xs p) \<and> mset (cp_copies (fold copy_end xs p)) = mset ys"
  using assms
proof (induction xs arbitrary: p)
  case (Cons x xs)
  then have "x \<in> set (cp_copies p)" by (metis append_Cons list.set_intros(1) mset_eq_setD)
  from copy_end_plan [OF Cons.prems(1) this] Cons.IH [of "copy_end x p"] Cons.prems(2) show ?case by simp
qed simp

text \<open>
  C35. The channel that ends the I/O of a container is closed exactly once, when the last of its output
  copies ends, in whatever order they end; with no output it is closed from the start.
\<close>

theorem io_done_closed_once:
  assumes "copyStreams env i o1 e1 = (None, p)" and "mset (cp_copies p) = mset (xs @ ys)"
  shows "cp_closes (fold copy_end xs p) = (if ys = [] then 1 else 0)"
  using copy_ends_plan [OF copyStreams_plan [OF assms(1)] assms(2)] by (auto simp: plan_inv_def)

section \<open>Files\<close>

text \<open>
  Standard output to a file is never accepted: the path of the URI is only used for the streams,
  the copies still look for a file under the name of the URI itself, and the call fails when there is
  none.
\<close>

theorem file_stdio_rejected:
  assumes "ie_url_parse env (Stdout sio) = Inr (''file'', path)" and "Stdout sio \<noteq> []"
    and "ie_is_fifo env (Stdout sio) = Inl err"
  shows "\<exists>e op. forwardIO env ss pre sio opened = (Inl e, op)"
proof -
  have "fst (copyStreams env (Stdin sio) (Stdout sio) (Stderr sio)) = Some err"
    using assms(2,3) by (simp add: copyStreams_def new_plan_def copy_one_def Let_def)
  then have "\<exists>e op. forward_copy (copyStreams env) ss pre sio pio opened = (Inl e, op)" for pio
    by (cases "copyStreams env (Stdin sio) (Stdout sio) (Stderr sio)")
       (auto simp: forward_copy_def split: prod.splits sum.splits)
  then show ?thesis
    using assms(1,2) by (auto simp: forwardIO_def forwardIO_on_def stdio_IsNull_def split: option.splits)
qed

section \<open>Witnesses\<close>

definition calm_ss :: ss_env where
  "calm_ss = \<lparr>se_start = (\<lambda>_. None), se_gen = (\<lambda>p. p)\<rparr>"

definition fifo_stdio :: stdio where
  "fifo_stdio = \<lparr>Stdin = [], Stdout = ''/o'', Stderr = ''/e'', Terminal = False\<rparr>"

definition fifo_env :: io_env where
  "fifo_env = calm_io\<lparr>ie_url_parse := (\<lambda>_. Inr ([], ''/o'')), ie_is_fifo := (\<lambda>_. Inr True)\<rparr>"

theorem forwardIO_streams_witness:
  "\<exists>io' sh op. forwardIO fifo_env calm_ss ''c'' fifo_stdio [] = (Inr (io', Some sh), op) \<and> op \<noteq> [] \<and>
     snd (io_shutdown_run False sh op) = []"
proof -
  obtain io' sh op where f: "forwardIO fifo_env calm_ss ''c'' fifo_stdio [] = (Inr (io', Some sh), op)" "op \<noteq> []"
    by (simp add: forwardIO_def forwardIO_on_def forward_copy_def createStreams_def create_stdin_def create_stdout_def create_stderr_def
        start_one_def calm_ss_def fifo_stdio_def fifo_env_def calm_io_def stdio_IsNull_def defaultScheme_def
        copyStreams_def new_plan_def copy_one_def Let_def)
  have "\<forall>p. se_gen calm_ss p \<notin> set []" by simp
  from forwardIO_streams [OF this, where env = fifo_env and pre = "''c''" and sio = fifo_stdio and b = False] f show ?thesis by simp
qed

theorem io_done_closed_once_witness:
  "\<exists>p. copyStreams fifo_env [] ''/o'' ''/e'' = (None, p) \<and>
     cp_closes (fold copy_end [(2, ToFifo ''/e''), (1, ToFifo ''/o'')] p) = 1"
proof -
  obtain p where p: "copyStreams fifo_env [] ''/o'' ''/e'' = (None, p)"
    "mset (cp_copies p) = mset ([(2, ToFifo ''/e''), (1, ToFifo ''/o'')] @ [])"
    by (simp add: copyStreams_def new_plan_def copy_one_def fifo_env_def calm_io_def Let_def)
  from io_done_closed_once [OF p] p show ?thesis by auto
qed

theorem file_stdio_rejected_witness:
  "\<exists>e op. forwardIO (calm_io\<lparr>ie_url_parse := (\<lambda>_. Inr (''file'', ''/log'')), ie_is_fifo := (\<lambda>_. Inl (ErrNew ''stat''))\<rparr>)
     calm_ss ''c'' (fifo_stdio\<lparr>Stdout := ''file:///log''\<rparr>) [] = (Inl e, op)"
  by (rule file_stdio_rejected [where path = "''/log''" and err = "ErrNew ''stat''"]) simp_all

end
