(* ===== verification/Shim_Service.thy ===== *)
theory Shim_Service
  imports Disks VM_Networking Socket_Forward Shim_IO
begin

text \<open>
  The task service of the shim (\<open>internal/shim/task/service.go\<close>): it prepares a container on the host,
  boots the VM, hands the container over to the task service inside and proxies the other calls. Its
  parts are those of the theories imported here, composed in the order of the code.

  The RPCs to the VM and the host's files are outcomes in \<open>shim_env\<close>. A handler may panic, by calling
  a nil shutdown function, or block, on the mutex \<open>s.mu\<close> that another handler left locked.
\<close>

section \<open>Handlers\<close>

datatype 'a go = Done 'a | Panics | Blocks

fun gbind :: "'a go \<Rightarrow> ('a \<Rightarrow> 'b go) \<Rightarrow> 'b go" where
  "gbind (Done x) k = k x"
| "gbind Panics k = Panics"
| "gbind Blocks k = Blocks"

lemma gbind_Done [simp]: "gbind m k = Done y \<longleftrightarrow> (\<exists>x. m = Done x \<and> k x = Done y)"
  by (cases m) auto

section \<open>State\<close>

text \<open>A shutdown function: \<open>None\<close> is a nil function value.\<close>

type_synonym shutdown_fn = "io_shutdown option"

record shim_container =
  c_ioShutdown :: shutdown_fn
  c_forwarder :: "socketForwarder option"
  c_execShutdowns :: "(string, shutdown_fn) gomap"

datatype shim_event = Envelope string string | RuntimeEvent string string

record shim_service =
  sv_locked :: bool
  sv_sb :: localsandbox
  sv_containers :: "(string, shim_container) gomap"
  sv_events :: "shim_event option list"
  sv_debug :: bool
  sv_shutdownInitiated :: bool
  sv_open :: "string list"

definition NewTaskService :: "localsandbox \<Rightarrow> bool \<Rightarrow> shim_service" where
  "NewTaskService sb debug = \<lparr>sv_locked = False, sv_sb = sb, sv_containers = [], sv_events = [], sv_debug = debug,
     sv_shutdownInitiated = False, sv_open = []\<rparr>"

text \<open>\<open>s.mu.Lock()\<close> with the body up to the unlock.\<close>

definition with_lock :: "(shim_service \<Rightarrow> 'a go) \<Rightarrow> shim_service \<Rightarrow> 'a go" where
  "with_lock body s = (if sv_locked s then Blocks else body s)"

text \<open>Calling a shutdown function; \<open>late\<close> tells that the context ends before the copies do.\<close>

definition call_shutdown :: "bool \<Rightarrow> shutdown_fn \<Rightarrow> string list \<Rightarrow> (go_error option \<times> string list) go" where
  "call_shutdown late f opened =
     (case f of None \<Rightarrow> Panics | Some sh \<Rightarrow> Done (io_shutdown_run late sh opened))"

section \<open>Shutdown of a container\<close>

fun exec_shutdowns ::
  "bool \<Rightarrow> (string, shutdown_fn) gomap \<Rightarrow> string list \<Rightarrow> (go_error list \<times> string list) go" where
  "exec_shutdowns late [] opened = Done ([], opened)"
| "exec_shutdowns late ((execID, f) # rest) opened =
     gbind (call_shutdown late f opened) (\<lambda>(r, op).
       gbind (exec_shutdowns late rest op) (\<lambda>(es, op').
         Done ((case r of None \<Rightarrow> es | Some e \<Rightarrow> ErrWrap (''exec '' @ quote execID @ '' io shutdown'') e # es), op')))"

text \<open>\<open>c.shutdown\<close>: the I/O, the socket forwarder and the execs; the forwarder is closed.\<close>

definition container_shutdown ::
  "bool \<Rightarrow> shim_container \<Rightarrow> string list \<Rightarrow> (go_error option \<times> shim_container \<times> string list) go" where
  "container_shutdown late c opened =
     (let (ioErrs, op1) =
            (case c_ioShutdown c of
               None \<Rightarrow> ([], opened)
             | Some sh \<Rightarrow> (case io_shutdown_run late sh opened of
                 (None, op) \<Rightarrow> ([], op) | (Some e, op) \<Rightarrow> ([ErrWrap ''io shutdown'' e], op)));
          (fr, fwd) = fwd_shutdown (c_forwarder c);
          fwdErrs = (case fr of None \<Rightarrow> [] | Some e \<Rightarrow> [ErrWrap ''socket forward shutdown'' e])
      in gbind (exec_shutdowns late (c_execShutdowns c) op1) (\<lambda>(es, op2).
           Done (join_errors (ioErrs @ fwdErrs @ es), c\<lparr>c_forwarder := fwd\<rparr>, op2)))"

section \<open>Shutdown of the service\<close>

text \<open>
  The unmounting in the VM. An attempt is a call that did not reach the VM, or the system calls of the
  VM's \<open>UnmountAll\<close> on its mounts; with it comes whether the context is done afterwards. The result is
  \<open>None\<close> when all the attempts given were followed by another. What the shutdown asks of the VM is
  recorded in order beside the mounts of the guest.
\<close>

datatype vm_asked = AskedUnmountAll | AskedStop

type_synonym guest_log = "Mount list \<times> vm_asked list"

type_synonym unmount_attempt = "(go_error + mount_env) \<times> bool"

definition permanent :: "go_error \<Rightarrow> bool" where
  "permanent e \<longleftrightarrow> e = Sentinel ''ttrpc: closed'' \<or> e = err_eof \<or> is_errdef ErrNotImplemented e"

definition unmount_attempt :: "go_error + mount_env \<Rightarrow> guest_log \<Rightarrow> go_error option \<times> guest_log" where
  "unmount_attempt a gl =
     (case gl of (guest, asked) \<Rightarrow>
      case (case a of Inl e \<Rightarrow> (Some e, guest) | Inr env \<Rightarrow> UnmountAll env guest) of
        (r, guest') \<Rightarrow> (r, (guest', asked @ [AskedUnmountAll])))"

fun unmountAllWithRetry :: "unmount_attempt list \<Rightarrow> guest_log \<Rightarrow> (go_error option \<times> guest_log) option" where
  "unmountAllWithRetry [] guest = None"
| "unmountAllWithRetry ((a, ctx_done) # rest) guest =
     (case unmount_attempt a guest of
        (None, guest') \<Rightarrow> Some (None, guest')
      | (Some e, guest') \<Rightarrow>
          if permanent e \<or> ctx_done then Some (Some e, guest') else unmountAllWithRetry rest guest')"

fun containers_shutdown ::
  "bool \<Rightarrow> (string, shim_container) gomap \<Rightarrow> string list \<Rightarrow>
     (go_error list \<times> (string, shim_container) gomap \<times> string list) go" where
  "containers_shutdown late [] opened = Done ([], [], opened)"
| "containers_shutdown late ((cid, c) # rest) opened =
     gbind (container_shutdown late c opened) (\<lambda>(r, c', op).
       gbind (containers_shutdown late rest op) (\<lambda>(es, cs, op').
         Done ((case r of None \<Rightarrow> es | Some e \<Rightarrow> ErrWrap (''container '' @ quote cid @ '' shutdown'') e # es),
               (cid, c') # cs, op')))"

text \<open>
  The shutdown callback, on the service and the mounts of the guest. The unmount is best effort and is
  made when the sandbox has a client. The last send on the events channel, which holds 128 events, is
  taken to find room: \<open>forward\<close> empties the channel until it receives this nil.
\<close>

definition service_shutdown ::
  "vmm_env \<Rightarrow> unmount_attempt list \<Rightarrow> bool \<Rightarrow> guest_log \<Rightarrow> shim_service \<Rightarrow>
     (go_error option \<times> guest_log \<times> shim_service) go" where
  "service_shutdown env attempts late guest = with_lock (\<lambda>s.
     gbind (containers_shutdown late (sv_containers s) (sv_open s)) (\<lambda>(errs, cs, op).
       case (case sandbox_Client (sv_sb s) of
               Inl _ \<Rightarrow> Some guest
             | Inr _ \<Rightarrow> map_option snd (unmountAllWithRetry attempts guest)) of
         None \<Rightarrow> Blocks
       | Some (guest', asked) \<Rightarrow>
           (case sandbox_Stop env (sv_sb s) of (r, sb') \<Rightarrow>
              Done (join_errors (errs @ (case r of None \<Rightarrow> [] | Some e \<Rightarrow> [ErrWrap ''sandbox shutdown'' e])),
                    (guest', asked @ [AskedStop]),
                    s\<lparr>sv_sb := sb', sv_containers := cs, sv_open := op, sv_events := sv_events s @ [None]\<rparr>))))"

section \<open>Preparing a container\<close>

record CreateTaskRequest =
  rq_ID :: string
  rq_Bundle :: string
  rq_Rootfs :: "Mount list"
  rq_Stdio :: stdio
  rq_Checkpoint :: string
  rq_ParentCheckpoint :: string
  rq_Options :: string

record vm_create_request =
  vc_ID :: string
  vc_Bundle :: string
  vc_Rootfs :: "Mount list"
  vc_Stdio :: stdio
  vc_Options :: string

record shim_env =
  x_bundle :: bundle_env
  x_bind :: bind_env
  x_net :: net_env
  x_hostRC :: "string result"
  x_nwjson :: "nw_Network list \<Rightarrow> string result"
  x_abs :: "string result"
  x_mkdir :: "string \<Rightarrow> go_error option"
  x_mountutil :: mountutil_env
  x_host :: host_env
  x_vmm :: vmm_env
  x_ss :: ss_env
  x_io :: io_env
  x_events :: "go_error option"
  x_bundleCreate :: "string \<Rightarrow> (string, string) gomap \<Rightarrow> string result"
  x_mountAll :: "Mount list \<Rightarrow> go_error option"
  x_bindRPC :: "(string \<times> string) list \<Rightarrow> go_error option"
  x_taskCreate :: "vm_create_request \<Rightarrow> int result"

record providers =
  pr_bm :: "bindMount list"
  pr_nws :: "network list"
  pr_ctr :: "nw_Network list"
  pr_res :: resourceConfig
  pr_dump :: bool
  pr_sf :: "socketForwardEntry list"

definition zero_providers :: providers where
  "zero_providers = \<lparr>pr_bm = [], pr_nws = [], pr_ctr = [], pr_res = \<lparr>rc_cpu = 0, rc_mem = 0\<rparr>, pr_dump = False, pr_sf = []\<rparr>"

text \<open>A transformer of one provider as one of all.\<close>

definition on_provider :: "(providers \<Rightarrow> 'p) \<Rightarrow> ('p \<Rightarrow> providers \<Rightarrow> providers) \<Rightarrow> 'p transformer \<Rightarrow> providers transformer" where
  "on_provider get put t pb =
     (case pb of (p, b) \<Rightarrow> case t (get p, b) of (r, (x, b')) \<Rightarrow> (r, (put x p, b')))"

definition create_transformers :: "shim_env \<Rightarrow> string \<Rightarrow> providers transformer list" where
  "create_transformers env cid =
     [on_provider pr_bm (\<lambda>x p. p\<lparr>pr_bm := x\<rparr>) (bind_FromBundle (x_bind env)),
      on_provider pr_nws (\<lambda>x p. p\<lparr>pr_nws := x\<rparr>) (networks_FromBundle (x_net env)),
      on_provider pr_ctr (\<lambda>x p. p\<lparr>pr_ctr := x\<rparr>) (ctr_fromBundle (x_net env)),
      on_provider pr_res (\<lambda>x p. p\<lparr>pr_res := x\<rparr>) resource_FromBundle,
      on_provider pr_dump (\<lambda>x p. p\<lparr>pr_dump := x\<rparr>) dumpInfo_FromBundle,
      on_provider pr_sf (\<lambda>x p. p\<lparr>pr_sf := x\<rparr>) (sf_FromBundle (bd_sha256 (x_bind env)) cid),
      (\<lambda>(p, b). (None, (p, addResolvConf (x_hostRC env) (pr_nws p = []) b)))]"

text \<open>What is known before the VM is started.\<close>

record create_plan =
  cp_providers :: providers
  cp_bundle :: Bundle
  cp_rootfs :: "Mount list"
  cp_block :: blockMounter
  cp_opts :: "sb_opt list"

definition create_opts :: "bool \<Rightarrow> string \<Rightarrow> sb_opt list \<Rightarrow> net_env \<Rightarrow> providers \<Rightarrow> blockMounter \<Rightarrow> sb_opt list" where
  "create_opts debug vmState mountOpts net p bk =
     (if debug then [WithInitArgs [''-debug'']] else []) @ [WithStateDir vmState] @ mountOpts
     @ networks_SandboxOptions (pr_nws p) @ [WithInitArgs (networks_InitArgs net (pr_nws p))]
     @ bind_SandboxOpts (pr_bm p) @ bk_opts bk @ resource_SandboxOpts (pr_res p) @ dumpInfo_SandboxOpts (pr_dump p)"

definition too_many_disks :: "int \<Rightarrow> go_error" where
  "too_many_disks n = ErrWrap (''exceeded maximum virtio disk count: '' @ show_int n @ '' > 25'') (Errdef ErrNotImplemented)"

definition create_prepare ::
  "shim_env \<Rightarrow> bool \<Rightarrow> CreateTaskRequest \<Rightarrow> host_files \<Rightarrow> create_plan result \<times> host_files" where
  "create_prepare env debug r fs =
     (if rq_Checkpoint r \<noteq> [] \<or> rq_ParentCheckpoint r \<noteq> [] then
        (Inl (ErrWrap ''checkpoints not supported'' (Errdef ErrNotImplemented)), fs)
      else case Load (x_bundle env) (rq_Bundle r) (create_transformers env (rq_ID r)) zero_providers of
        Inl e \<Rightarrow> (Inl e, fs)
      | Inr (p, b0) \<Rightarrow>
      (case x_nwjson env (pr_ctr p) of
         Inl e \<Rightarrow> (Inl (ErrWrap ''marshaling container networking config'' e), fs)
       | Inr nwJSON \<Rightarrow>
      let b1 = AddExtraFile ''nw-config.json'' nwJSON b0
      in case x_abs env of
           Inl e \<Rightarrow> (Inl (ErrWrap ''failed to get absolute path for vm state directory'' e), fs)
         | Inr vmState \<Rightarrow>
      (case x_mkdir env vmState of
         Some e \<Rightarrow> (Inl (ErrWrap (''failed to create vm state directory '' @ quote vmState) e), fs)
       | None \<Rightarrow>
      (case setupMounts (x_mountutil env) (x_host env) (rq_ID r) (rq_Rootfs r) (b_Rootfs b1)
              (path_join [rq_Bundle r, ''mounts'']) (newDiskAllocator, fs) of
         (Inl e, (da, fs'), ops) \<Rightarrow> (Inl e, fs')
       | (Inr (m, mountOpts), (da, fs'), ops) \<Rightarrow>
      (case block_FromBundle (rq_ID r) \<lparr>bk_opts = [], bk_vmMounts = []\<rparr> b1 da of
         ((bk, b2), da') \<Rightarrow>
           if da_count da' > 25 then (Inl (too_many_disks (da_count da')), fs')
           else (Inr \<lparr>cp_providers = p, cp_bundle = b2, cp_rootfs = m, cp_block = bk,
                      cp_opts = create_opts debug vmState mountOpts (x_net env) p bk\<rparr>, fs'))))))"

section \<open>Creating a container\<close>

text \<open>Streams are opened through the sandbox.\<close>

definition sandbox_streams :: "ss_env \<Rightarrow> localsandbox \<Rightarrow> ss_env" where
  "sandbox_streams ss sb =
     ss\<lparr>se_start := (\<lambda>sid.
       case sandbox_StartStream (\<lambda>x. case se_start ss x of None \<Rightarrow> Inr () | Some e \<Rightarrow> Inl e) sid sb of
         Inl e \<Rightarrow> Some e | Inr _ \<Rightarrow> None)\<rparr>"

text \<open>From the bundle files to the forwarding of the I/O, once the VM runs.\<close>

definition create_handover ::
  "shim_env \<Rightarrow> CreateTaskRequest \<Rightarrow> create_plan \<Rightarrow> string result" where
  "create_handover env r plan =
     (case x_events env of
        Some e \<Rightarrow> Inl e
      | None \<Rightarrow>
     (case Files (x_bundle env) (cp_bundle plan) of
        Inl e \<Rightarrow> Inl e
      | Inr files \<Rightarrow>
     (case x_bundleCreate env (rq_ID r) files of
        Inl e \<Rightarrow> Inl e
      | Inr br \<Rightarrow>
          let specs = bind_VmMounts (pr_bm (cp_providers plan)) @ bk_vmMounts (cp_block plan)
          in case (if specs = [] then None else x_mountAll env specs) of
               Some e \<Rightarrow> Inl e
             | None \<Rightarrow> Inr br)))"

definition create_task ::
  "shim_env \<Rightarrow> bool \<Rightarrow> CreateTaskRequest \<Rightarrow> create_plan \<Rightarrow> string \<Rightarrow> shim_service \<Rightarrow> (int result \<times> shim_service) go" where
  "create_task env late r plan br s =
     (case forwardIO (x_io env) (sandbox_streams (x_ss env) (sv_sb s)) (rq_ID r) (rq_Stdio r) (sv_open s) of
        (Inl e, op) \<Rightarrow> Done (Inl e, s\<lparr>sv_open := op\<rparr>)
      | (Inr (cio, ioShutdown), op) \<Rightarrow>
          (case bindSockets (x_bindRPC env) (sv_sb s) (pr_sf (cp_providers plan)) of
             Some e \<Rightarrow> gbind (call_shutdown late ioShutdown op) (\<lambda>(_, op'). Done (Inl e, s\<lparr>sv_open := op'\<rparr>))
           | None \<Rightarrow>
               let c = \<lparr>c_ioShutdown = ioShutdown, c_forwarder = None, c_execShutdowns = []\<rparr>
               in case x_taskCreate env \<lparr>vc_ID = rq_ID r, vc_Bundle = br, vc_Rootfs = cp_rootfs plan, vc_Stdio = cio,
                                         vc_Options = rq_Options r\<rparr> of
                    Inl e \<Rightarrow> gbind (container_shutdown late c op) (\<lambda>(_, _, op'). Done (Inl e, s\<lparr>sv_open := op'\<rparr>))
                  | Inr pid \<Rightarrow>
                      (case startSocketForwarding (sv_sb s) (rq_ID r) (pr_sf (cp_providers plan)) of
                         Inl e \<Rightarrow> gbind (container_shutdown late c op) (\<lambda>(_, _, op'). Done (Inl e, s\<lparr>sv_open := op'\<rparr>))
                       | Inr fwd \<Rightarrow>
                           with_lock (\<lambda>s'. Done (Inr pid, s'\<lparr>sv_containers :=
                               gm_put (rq_ID r) (c\<lparr>c_forwarder := Some fwd\<rparr>) (sv_containers s')\<rparr>))
                             (s\<lparr>sv_open := op\<rparr>))))"

definition shim_Create ::
  "shim_env \<Rightarrow> bool \<Rightarrow> CreateTaskRequest \<Rightarrow> shim_service \<times> host_files \<Rightarrow> (int result \<times> shim_service \<times> host_files) go" where
  "shim_Create env late r st =
     (case st of (s, fs) \<Rightarrow>
      case create_prepare env (sv_debug s) r fs of
        (Inl e, fs') \<Rightarrow> Done (Inl e, s, fs')
      | (Inr plan, fs') \<Rightarrow>
          (case sandbox_Start (x_vmm env) (cp_opts plan) (sv_sb s) of
             (Some e, sb') \<Rightarrow> Done (Inl e, s\<lparr>sv_sb := sb'\<rparr>, fs')
           | (None, sb') \<Rightarrow>
               let s1 = s\<lparr>sv_sb := sb'\<rparr>
               in case sandbox_Client sb' of
                    Inl e \<Rightarrow> Done (Inl e, s1, fs')
                  | Inr _ \<Rightarrow>
                      (case create_handover env r plan of
                         Inl e \<Rightarrow> Done (Inl e, s1, fs')
                       | Inr br \<Rightarrow>
                           gbind (create_task env late r plan br s1) (\<lambda>(x, s2). Done (x, s2, fs')))))"

section \<open>Delete and Exec\<close>

definition shim_Delete ::
  "('d result) \<Rightarrow> bool \<Rightarrow> string \<Rightarrow> string \<Rightarrow> shim_service \<Rightarrow> ('d result \<times> shim_service) go" where
  "shim_Delete rpc late cid execID s =
     (case sandbox_Client (sv_sb s) of
        Inl e \<Rightarrow> Done (Inl e, s)
      | Inr _ \<Rightarrow>
          (case rpc of
             Inl e \<Rightarrow> Done (Inl e, s)
           | Inr resp \<Rightarrow>
               with_lock (\<lambda>s.
                 case gm_get (sv_containers s) cid of
                   None \<Rightarrow> Done (rpc, s)
                 | Some c \<Rightarrow>
                     if execID \<noteq> [] then
                       (case gm_get (c_execShutdowns c) execID of
                          None \<Rightarrow> Done (rpc, s)
                        | Some f \<Rightarrow>
                            gbind (call_shutdown late f (sv_open s)) (\<lambda>(_, op).
                              Done (rpc, s\<lparr>sv_open := op, sv_containers := gm_put cid
                                (c\<lparr>c_execShutdowns := gm_del execID (c_execShutdowns c)\<rparr>) (sv_containers s)\<rparr>)))
                     else
                       gbind (container_shutdown late c (sv_open s)) (\<lambda>(_, _, op).
                         Done (rpc, s\<lparr>sv_open := op, sv_containers := gm_del cid (sv_containers s)\<rparr>))) s))"

text \<open>The lock of the unknown container branch is not released.\<close>

definition shim_Exec ::
  "io_env \<Rightarrow> ss_env \<Rightarrow> (stdio \<Rightarrow> go_error option) \<Rightarrow> bool \<Rightarrow> string \<Rightarrow> string \<Rightarrow> stdio \<Rightarrow> shim_service \<Rightarrow>
     (go_error option \<times> shim_service) go" where
  "shim_Exec io ss rpc late cid execID rio s =
     (case sandbox_Client (sv_sb s) of
        Inl e \<Rightarrow> Done (Some e, s)
      | Inr _ \<Rightarrow>
          (case forwardIO io (sandbox_streams ss (sv_sb s)) (cid @ ''-'' @ execID) rio (sv_open s) of
             (Inl e, op) \<Rightarrow> Done (Some e, s\<lparr>sv_open := op\<rparr>)
           | (Inr (cio, ioShutdown), op) \<Rightarrow>
               with_lock (\<lambda>s.
                 case gm_get (sv_containers s) cid of
                   None \<Rightarrow>
                     gbind (case ioShutdown of None \<Rightarrow> Done (None, sv_open s) | Some _ \<Rightarrow> call_shutdown late ioShutdown (sv_open s))
                       (\<lambda>(_, op'). Done (Some (ErrWrap (''container '' @ quote cid @ '' not found'') (Errdef ErrNotFound)),
                                         s\<lparr>sv_open := op', sv_locked := True\<rparr>))
                 | Some c \<Rightarrow>
                     let s1 = s\<lparr>sv_containers := gm_put cid
                           (c\<lparr>c_execShutdowns := gm_put execID ioShutdown (c_execShutdowns c)\<rparr>) (sv_containers s)\<rparr>
                     in (case rpc cio of
                           None \<Rightarrow> Done (None, s1)
                         | Some e \<Rightarrow>
                             gbind (call_shutdown late ioShutdown (sv_open s1)) (\<lambda>(_, op').
                               Done (Some e, s1\<lparr>sv_open := op', sv_containers := gm_put cid
                                 (c\<lparr>c_execShutdowns := gm_del execID (gm_put execID ioShutdown (c_execShutdowns c))\<rparr>)
                                 (sv_containers s1)\<rparr>))))
                 (s\<lparr>sv_open := op\<rparr>)))"

section \<open>Proxied calls and shutdown\<close>

definition shim_proxy :: "('r \<Rightarrow> 'a result) \<Rightarrow> 'r \<Rightarrow> shim_service \<Rightarrow> 'a result" where
  "shim_proxy rpc r s = (case sandbox_Client (sv_sb s) of Inl e \<Rightarrow> Inl e | Inr _ \<Rightarrow> rpc r)"

definition shim_Start :: "('r \<Rightarrow> 'a result) \<Rightarrow> 'r \<Rightarrow> shim_service \<Rightarrow> 'a result" where
  "shim_Start = shim_proxy"

definition shim_ResizePty :: "('r \<Rightarrow> 'a result) \<Rightarrow> 'r \<Rightarrow> shim_service \<Rightarrow> 'a result" where
  "shim_ResizePty = shim_proxy"

definition shim_State :: "('r \<Rightarrow> 'a result) \<Rightarrow> 'r \<Rightarrow> shim_service \<Rightarrow> 'a result" where
  "shim_State = shim_proxy"

definition shim_Pause :: "('r \<Rightarrow> 'a result) \<Rightarrow> 'r \<Rightarrow> shim_service \<Rightarrow> 'a result" where
  "shim_Pause = shim_proxy"

definition shim_Resume :: "('r \<Rightarrow> 'a result) \<Rightarrow> 'r \<Rightarrow> shim_service \<Rightarrow> 'a result" where
  "shim_Resume = shim_proxy"

definition shim_Kill :: "('r \<Rightarrow> 'a result) \<Rightarrow> 'r \<Rightarrow> shim_service \<Rightarrow> 'a result" where
  "shim_Kill = shim_proxy"

definition shim_Pids :: "('r \<Rightarrow> 'a result) \<Rightarrow> 'r \<Rightarrow> shim_service \<Rightarrow> 'a result" where
  "shim_Pids = shim_proxy"

definition shim_CloseIO :: "('r \<Rightarrow> 'a result) \<Rightarrow> 'r \<Rightarrow> shim_service \<Rightarrow> 'a result" where
  "shim_CloseIO = shim_proxy"

definition shim_Checkpoint :: "'r \<Rightarrow> shim_service \<Rightarrow> unit result" where
  "shim_Checkpoint r s = Inr ()"

definition shim_Update :: "('r \<Rightarrow> 'a result) \<Rightarrow> 'r \<Rightarrow> shim_service \<Rightarrow> 'a result" where
  "shim_Update = shim_proxy"

definition shim_Wait :: "('r \<Rightarrow> 'a result) \<Rightarrow> 'r \<Rightarrow> shim_service \<Rightarrow> 'a result" where
  "shim_Wait = shim_proxy"

definition shim_Stats :: "('r \<Rightarrow> 'a result) \<Rightarrow> 'r \<Rightarrow> shim_service \<Rightarrow> 'a result" where
  "shim_Stats = shim_proxy"

text \<open>\<open>Connect\<close> answers with the shim's own pid and the task pid of the VM's answer.\<close>

definition shim_Connect :: "int \<Rightarrow> ('r \<Rightarrow> int result) \<Rightarrow> 'r \<Rightarrow> shim_service \<Rightarrow> (int \<times> int) result" where
  "shim_Connect pid rpc r s =
     (case shim_proxy rpc r s of Inl e \<Rightarrow> Inl e | Inr taskPid \<Rightarrow> Inr (pid, taskPid))"

text \<open>
  \<open>Shutdown\<close> initiates the shutdown once and waits for it; \<open>ctx_first\<close> gives the error of a context
  that ends before.
\<close>

definition shim_Shutdown :: "go_error option \<Rightarrow> shim_service \<Rightarrow> unit result \<times> shim_service" where
  "shim_Shutdown ctx_first s =
     (case ctx_first of None \<Rightarrow> Inr () | Some e \<Rightarrow> Inl e, s\<lparr>sv_shutdownInitiated := True\<rparr>)"

definition shim_send :: "shim_event \<Rightarrow> shim_service \<Rightarrow> shim_service" where
  "shim_send ev s = s\<lparr>sv_events := sv_events s @ [Some ev]\<rparr>"

text \<open>The forwarder: topic and payload of the events published, and those ignored after the last.\<close>

fun shim_forward :: "(shim_event \<Rightarrow> string) \<Rightarrow> shim_event option list \<Rightarrow> (string \<times> shim_event) list \<times> shim_event option list" where
  "shim_forward topic [] = ([], [])"
| "shim_forward topic (None # rest) = ([], rest)"
| "shim_forward topic (Some ev # rest) =
     (case shim_forward topic rest of (pub, ign) \<Rightarrow>
        (((case ev of Envelope t _ \<Rightarrow> t | RuntimeEvent _ _ \<Rightarrow> topic ev), ev) # pub, ign))"

section \<open>Streams of execs\<close>

lemma exec_io_closes:
  assumes "\<forall>p. se_gen ss p \<notin> set opened"
    and "forwardIO io (sandbox_streams ss sb) pre rio opened = (Inr (cio, Some sh), op)"
  obtains e where "io_shutdown_run b sh op = (e, opened)"
proof -
  have "\<forall>p. se_gen (sandbox_streams ss sb) p \<notin> set opened"
    using assms(1) by (simp add: sandbox_streams_def)
  from forwardIO_closed [OF this, where env = io and pre = pre and sio = rio and b = b] assms(2)
  have "snd (io_shutdown_run b sh op) = opened" by simp
  then show ?thesis using that by (metis prod.collapse)
qed

section \<open>Unmounting before the VM stops\<close>

lemma UnmountAll_result:
  "UnmountAll env guest = (r, guest') \<Longrightarrow> guest' = filter (\<lambda>m. me_unmount env (m_Target m) \<noteq> None) guest \<and> (r = None \<longleftrightarrow> guest' = [])"
  using unmount_down_result [of "length guest" guest env] by (auto simp: UnmountAll_def split: prod.splits)

lemma unmount_attempt_result:
  assumes "unmount_attempt a (guest, asked) = (r, guest', asked')"
  shows "set guest' \<subseteq> set guest" and "r = None \<Longrightarrow> guest' = []" and "asked' = asked @ [AskedUnmountAll]"
  using assms by (auto simp: unmount_attempt_def dest: UnmountAll_result split: sum.splits prod.splits)

lemma unmount_retry_result:
  "unmountAllWithRetry attempts (guest, asked) = Some (r, guest', asked') \<Longrightarrow>
     set guest' \<subseteq> set guest \<and> (r = None \<longrightarrow> guest' = []) \<and> (\<exists>n. asked' = asked @ replicate (Suc n) AskedUnmountAll)"
proof (induction attempts arbitrary: guest asked)
  case (Cons x attempts)
  obtain a d r1 guest1 asked1 where x: "x = (a, d)" and u: "unmount_attempt a (guest, asked) = (r1, guest1, asked1)"
    by (metis surj_pair)
  note A = unmount_attempt_result [OF u]
  show ?case
  proof (cases "r1 = None \<or> permanent (the r1) \<or> d")
    case True
    with Cons.prems have "r = r1" "guest' = guest1" "asked' = asked1" by (auto simp: x u split: option.splits if_splits)
    with A have "set guest' \<subseteq> set guest" "r = None \<longrightarrow> guest' = []" "asked' = asked @ replicate (Suc 0) AskedUnmountAll"
      by simp_all
    then show ?thesis by blast
  next
    case False
    with Cons.prems have "unmountAllWithRetry attempts (guest1, asked1) = Some (r, guest', asked')"
      by (auto simp: x u split: option.splits)
    from Cons.IH [OF this] A obtain n where "set guest' \<subseteq> set guest" "r = None \<longrightarrow> guest' = []"
      "asked' = asked @ replicate (Suc (Suc n)) AskedUnmountAll" by auto
    then show ?thesis by blast
  qed
qed simp

lemma unmount_retry_returns:
  assumes "\<exists>x\<in>set attempts. snd x"
  shows "\<exists>r gl'. unmountAllWithRetry attempts gl = Some (r, gl')"
  using assms
proof (induction attempts arbitrary: gl)
  case (Cons x attempts)
  obtain a d r1 gl1 where x: "x = (a, d)" and u: "unmount_attempt a gl = (r1, gl1)"
    by (metis surj_pair)
  show ?case
  proof (cases "r1 = None \<or> permanent (the r1) \<or> d")
    case True
    then show ?thesis by (cases gl1) (auto simp: x u split: option.splits)
  next
    case False
    then have "\<exists>x\<in>set attempts. snd x" using Cons.prems by (auto simp: x)
    from Cons.IH [OF this, of gl1] False show ?thesis by (auto simp: x u)
  qed
qed simp

text \<open>
  C16. When the service's lock is free, the shutdown of every container returns, the sandbox has a VM, the
  context of the shutdown ends at some time and the channel of events has room for the last one, the
  shutdown callback returns: the guest is asked to
  unmount at least once, no mount is left there if an attempt succeeded, and after the last attempt, and
  not before, the VM is told to shut down, once.
\<close>

theorem unmount_before_stop:
  assumes "\<exists>x\<in>set attempts. snd x" and "sv_locked s = False"
    and "containers_shutdown late (sv_containers s) (sv_open s) = Done (errs, cs, op)"
    and "sb_instance (sv_sb s) = Some vmi"
  shows "\<exists>r ur guest' n s'. service_shutdown env attempts late (guest, []) s
         = Done (r, (guest', replicate (Suc n) AskedUnmountAll @ [AskedStop]), s')
     \<and> unmountAllWithRetry attempts (guest, []) = Some (ur, guest', replicate (Suc n) AskedUnmountAll)
     \<and> set guest' \<subseteq> set guest \<and> (ur = None \<longrightarrow> guest' = [])
     \<and> sb_calls (sv_sb s') = sb_calls (sv_sb s) @ [VShutdown]
     \<and> (sb_instance (sv_sb s') = None \<longleftrightarrow> ve_shutdown env = None)
     \<and> last (sv_events s') = None"
proof -
  obtain ur guest' asked' where u: "unmountAllWithRetry attempts (guest, []) = Some (ur, guest', asked')"
    using unmount_retry_returns [OF assms(1), of "(guest, [])"] by auto
  with unmount_retry_result [OF u] obtain n where
    "unmountAllWithRetry attempts (guest, []) = Some (ur, guest', replicate (Suc n) AskedUnmountAll)"
    "set guest' \<subseteq> set guest" "ur = None \<longrightarrow> guest' = []" by auto
  then show ?thesis
    using assms(2-4)
    by (cases "ve_shutdown env")
       (simp_all add: service_shutdown_def with_lock_def sandbox_Client_def sandbox_Stop_def del: replicate_Suc)
qed

section \<open>The disks of the VM\<close>

lemma opt_disks_create [simp]:
  "opt_disks (create_opts debug vmState mountOpts net p bk) = opt_disks mountOpts @ opt_disks (bk_opts bk)"
proof -
  have "opt_disks (networks_SandboxOptions nws) = []" for nws
    by (induction nws) (simp_all add: networks_SandboxOptions_def)
  moreover have "opt_disks (bind_SandboxOpts bm) = []" for bm
    by (induction bm) (simp_all add: bind_SandboxOpts_def)
  ultimately show ?thesis
    by (simp add: create_opts_def resource_SandboxOpts_def dumpInfo_SandboxOpts_def)
qed

text \<open>The spec of a bundle as \<open>config.json\<close> has it.\<close>

definition config_spec :: "bundle_env \<Rightarrow> string \<Rightarrow> spec result" where
  "config_spec env path =
     (case bu_read env (path_join [path, ''config.json'']) of Inl e \<Rightarrow> Inl e | Inr bytes \<Rightarrow> bu_unmarshal env bytes)"

text \<open>No transformer that runs before the volumes are assigned touches them.\<close>

definition keeps_volumes :: "'s transformer \<Rightarrow> bool" where
  "keeps_volumes t \<longleftrightarrow> (\<forall>s b. volumes (sp_Mounts (b_Spec (snd (snd (t (s, b)))))) = volumes (sp_Mounts (b_Spec b)))"

lemma run_transformers_volumes: "list_all keeps_volumes ts \<Longrightarrow> keeps_volumes (run_transformers ts)"
proof (induction ts)
  case (Cons t ts)
  show ?case unfolding keeps_volumes_def
  proof (intro allI)
    fix s b
    obtain x s' b' where t: "t (s, b) = (x, s', b')" by (metis surj_pair)
    moreover have "keeps_volumes t" using Cons.prems by simp
    ultimately have "volumes (sp_Mounts (b_Spec b')) = volumes (sp_Mounts (b_Spec b))"
      using keeps_volumes_def [of t] by (metis snd_conv)
    moreover have "volumes (sp_Mounts (b_Spec (snd (snd (run_transformers ts (s', b')))))) = volumes (sp_Mounts (b_Spec b'))"
      using Cons by (simp add: keeps_volumes_def)
    ultimately show "volumes (sp_Mounts (b_Spec (snd (snd (run_transformers (t # ts) (s, b)))))) = volumes (sp_Mounts (b_Spec b))"
      using t by (cases x) simp_all
  qed
qed (simp add: keeps_volumes_def)

lemma on_provider_volumes:
  assumes "keeps_volumes t"
  shows "keeps_volumes (on_provider get put t)"
  unfolding keeps_volumes_def
proof (intro allI)
  fix s b
  obtain r x b' where t: "t (get s, b) = (r, x, b')" by (metis surj_pair)
  with assms [unfolded keeps_volumes_def, rule_format, of "get s" b]
  show "volumes (sp_Mounts (b_Spec (snd (snd (on_provider get put t (s, b)))))) = volumes (sp_Mounts (b_Spec b))"
    by (simp add: on_provider_def)
qed

lemma keeps_same_mounts:
  "(\<And>s b. sp_Mounts (b_Spec (snd (snd (t (s, b))))) = sp_Mounts (b_Spec b)) \<Longrightarrow> keeps_volumes t"
  by (simp add: keeps_volumes_def)

lemma annotation_loop_mounts:
  "sp_Mounts (b_Spec (snd (snd (annotation_loop pre parse msg as (xs, b))))) = sp_Mounts (b_Spec b)"
  by (induction as arbitrary: xs b) (auto simp: Let_def delete_annotation_def split: sum.splits option.splits)

lemma resource_loop_mounts: "sp_Mounts (b_Spec (snd (snd (resource_loop as (r, b))))) = sp_Mounts (b_Spec b)"
  by (induction as arbitrary: r b) (auto simp: delete_annotation_def split: sum.splits option.splits)

lemma bind_loop_volumes: "volumes (snd (snd (bind_loop env ms))) = volumes ms"
proof (induction ms)
  case (Cons m ms)
  then show ?case by (auto simp: bind_transform_def Let_def split: sum.splits prod.splits)
qed simp

lemma uds_loop_volumes: "volumes (snd (snd (uds_loop sha cid ms))) = volumes ms"
proof (induction ms)
  case (Cons m ms)
  then show ?case by (auto simp: uds_bind_def split: sum.splits prod.splits)
qed simp

lemma create_transformers_volumes: "list_all keeps_volumes (create_transformers env cid)"
proof -
  have "keeps_volumes (bind_FromBundle (x_bind env))" "keeps_volumes (sf_FromBundle (bd_sha256 (x_bind env)) cid)"
    using bind_loop_volumes uds_loop_volumes
    by (auto simp: keeps_volumes_def bind_FromBundle_def sf_FromBundle_def set_mounts_def split: prod.splits)
       (metis snd_conv)+
  moreover have "keeps_volumes (networks_FromBundle (x_net env))" "keeps_volumes (ctr_fromBundle (x_net env))"
    "keeps_volumes dumpInfo_FromBundle"
    by (rule keeps_same_mounts;
        simp add: networks_FromBundle_def ctr_fromBundle_def dumpInfo_FromBundle_def annotation_loop_mounts)+
  moreover have "keeps_volumes resource_FromBundle"
  proof (rule keeps_same_mounts)
    fix r b
    obtain x r' b' where "resource_loop (annotations b) (r\<lparr>rc_cpu := 2, rc_mem := 2048\<rparr>, b) = (x, r', b')" by (metis surj_pair)
    moreover from this have "sp_Mounts (b_Spec b') = sp_Mounts (b_Spec b)" using resource_loop_mounts by (metis snd_conv)
    ultimately show "sp_Mounts (b_Spec (snd (snd (resource_FromBundle (r, b))))) = sp_Mounts (b_Spec b)"
      by (cases x) (auto simp: resource_FromBundle_def Let_def)
  qed
  moreover have "keeps_volumes (\<lambda>(p, b). (None, (p, addResolvConf (x_hostRC env) (pr_nws p = []) b)))"
    by (auto simp: keeps_volumes_def addResolvConf_def resolv_bytes_def delete_annotation_def AddExtraFile_def Let_def
        split: prod.splits option.splits sum.splits)
  ultimately show ?thesis unfolding create_transformers_def by (simp add: on_provider_volumes)
qed

lemma create_Load_volumes:
  assumes "Load env path (create_transformers senv cid) p0 = Inr (p, b)"
  obtains sp where "config_spec env path = Inr sp" "volumes (sp_Mounts (b_Spec b)) = volumes (sp_Mounts sp)"
proof -
  obtain bytes sp b0 where "bu_read env (path_join [path, ''config.json'']) = Inr bytes" "bu_unmarshal env bytes = Inr sp"
    and b0: "resolveRootfsPath \<lparr>b_Path = path, b_Spec = sp, b_Rootfs = [], b_extraFiles = []\<rparr> = Inr b0"
    and run: "run_transformers (create_transformers senv cid) (p0, b0) = (None, (p, b))"
    using assms by (auto simp: Load_def split: sum.splits prod.splits option.splits)
  moreover have "sp_Mounts (b_Spec b0) = sp_Mounts sp" using b0 by (auto simp: resolveRootfsPath_def split: option.splits)
  moreover have "volumes (sp_Mounts (b_Spec b)) = volumes (sp_Mounts (b_Spec b0))"
    using run_transformers_volumes [OF create_transformers_volumes, of senv cid] run
    unfolding keeps_volumes_def by (metis snd_conv)
  ultimately show thesis by (intro that) (simp_all add: config_spec_def)
qed

lemma create_prepare_ok:
  assumes "create_prepare env debug r fs = (Inr plan, fs')"
  obtains p b1 m mountOpts da ops bk b2 da' vmState sp where
    "config_spec (x_bundle env) (rq_Bundle r) = Inr sp" "volumes (sp_Mounts (b_Spec b1)) = volumes (sp_Mounts sp)"
    "setupMounts (x_mountutil env) (x_host env) (rq_ID r) (rq_Rootfs r) (b_Rootfs b1)
       (path_join [rq_Bundle r, ''mounts'']) (newDiskAllocator, fs) = (Inr (m, mountOpts), (da, fs'), ops)"
    "block_FromBundle (rq_ID r) \<lparr>bk_opts = [], bk_vmMounts = []\<rparr> b1 da = ((bk, b2), da')"
    "da_count da' \<le> 25"
    "plan = \<lparr>cp_providers = p, cp_bundle = b2, cp_rootfs = m, cp_block = bk,
             cp_opts = create_opts debug vmState mountOpts (x_net env) p bk\<rparr>"
proof -
  obtain p b0 where l: "Load (x_bundle env) (rq_Bundle r) (create_transformers env (rq_ID r)) zero_providers = Inr (p, b0)"
    using assms by (auto simp: create_prepare_def split: if_splits sum.splits)
  obtain sp where sp: "config_spec (x_bundle env) (rq_Bundle r) = Inr sp" "volumes (sp_Mounts (b_Spec b0)) = volumes (sp_Mounts sp)"
    by (rule create_Load_volumes [OF l])
  from assms l obtain nw where "x_nwjson env (pr_ctr p) = Inr nw"
    by (auto simp: create_prepare_def split: if_splits sum.splits)
  moreover have "volumes (sp_Mounts (b_Spec (AddExtraFile ''nw-config.json'' nw b0))) = volumes (sp_Mounts sp)"
    using sp(2) by (simp add: AddExtraFile_def)
  ultimately show thesis
    using assms l sp(1) that [of sp "AddExtraFile ''nw-config.json'' nw b0"]
    by (auto simp: create_prepare_def Let_def split: if_splits sum.splits prod.splits option.splits)
qed

text \<open>Rootfs mounts that become disks of the VM, unless one of them cannot.\<close>

definition on_disks :: "Mount list \<Rightarrow> bool" where
  "on_disks ms \<longleftrightarrow> ms \<noteq> [] \<and> (\<forall>m. ms = [m] \<longrightarrow> m_Type m \<noteq> ''overlay'' \<and> m_Type m \<noteq> ''bind'')"

lemma setupMounts_translated:
  assumes "transformMounts henv cid ms (da0, fs) = (Inr r, (da, fs'))" and "on_disks ms"
  shows "setupMounts mu henv cid ms rootfs lmounts (da0, fs) = (Inr r, (da, fs'), [])"
  using assms by (cases ms) (auto simp: setupMounts_def on_disks_def)

lemma create_started:
  assumes "shim_Create env late r (s, fs) = Done (Inr pid, s', fs')"
  obtains plan sb' br where "create_prepare env (sv_debug s) r fs = (Inr plan, fs')"
    "sandbox_Start (x_vmm env) (cp_opts plan) (sv_sb s) = (None, sb')"
    "create_handover env r plan = Inr br" 
    "create_task env late r plan br (s\<lparr>sv_sb := sb'\<rparr>) = Done (Inr pid, s')"
  using assms that
  by (auto simp: shim_Create_def Let_def split: sum.splits prod.splits option.splits)

lemma create_task_ok:
  assumes "create_task env late r plan br s = Done (Inr pid, s')"
  obtains cio sh c where "sv_sb s' = sv_sb s"
    "x_taskCreate env \<lparr>vc_ID = rq_ID r, vc_Bundle = br, vc_Rootfs = cp_rootfs plan, vc_Stdio = cio, vc_Options = rq_Options r\<rparr> = Inr pid"
    "sv_containers s' = gm_put (rq_ID r) c (sv_containers s)" "c_ioShutdown c = sh"
  using assms that
  by (auto simp: create_task_def with_lock_def Let_def split: sum.splits prod.splits option.splits if_splits)


lemma create_plan_disks:
  assumes "shim_Create env late r (s, fs) = Done (Inr pid, s', fs')"
    and "transformMounts (x_host env) (rq_ID r) (rq_Rootfs r) (newDiskAllocator, fs) = (Inr (am, opts), (da, fs''))"
    and "on_disks (rq_Rootfs r)"
  obtains plan cio br sp where "create_prepare env (sv_debug s) r fs = (Inr plan, fs')"
    "sandbox_Start (x_vmm env) (cp_opts plan) (sv_sb s) = (None, sv_sb s')"
    "config_spec (x_bundle env) (rq_Bundle r) = Inr sp"
    "map d_MountPath (opt_disks (cp_opts plan)) =
       map host_source (filter is_disk (rq_Rootfs r)) @ map sm_Source (volumes (sp_Mounts sp))"
    "map m_Source (filter is_disk am @ bk_vmMounts (cp_block plan)) = guest_devices 97 (length (opt_disks (cp_opts plan)))"
    "length (opt_disks (cp_opts plan)) mod 256 \<le> 25"
    "x_taskCreate env \<lparr>vc_ID = rq_ID r, vc_Bundle = br, vc_Rootfs = am, vc_Stdio = cio, vc_Options = rq_Options r\<rparr> = Inr pid"
    "gm_get (sv_containers s') (rq_ID r) \<noteq> None"
proof -
  obtain plan sb' br where pl: "create_prepare env (sv_debug s) r fs = (Inr plan, fs')"
    and st: "sandbox_Start (x_vmm env) (cp_opts plan) (sv_sb s) = (None, sb')"
    and task: "create_task env late r plan br (s\<lparr>sv_sb := sb'\<rparr>) = Done (Inr pid, s')"
    by (rule create_started [OF assms(1)])
  obtain p b1 m mo da1 ops bk b2 da' vmState sp where
    sp: "config_spec (x_bundle env) (rq_Bundle r) = Inr sp" "volumes (sp_Mounts (b_Spec b1)) = volumes (sp_Mounts sp)"
    and su: "setupMounts (x_mountutil env) (x_host env) (rq_ID r) (rq_Rootfs r) (b_Rootfs b1)
       (path_join [rq_Bundle r, ''mounts'']) (newDiskAllocator, fs) = (Inr (m, mo), (da1, fs'), ops)"
    and bl: "block_FromBundle (rq_ID r) \<lparr>bk_opts = [], bk_vmMounts = []\<rparr> b1 da1 = ((bk, b2), da')"
    and n: "da_count da' \<le> 25"
    and plan: "plan = \<lparr>cp_providers = p, cp_bundle = b2, cp_rootfs = m, cp_block = bk,
             cp_opts = create_opts (sv_debug s) vmState mo (x_net env) p bk\<rparr>"
    by (rule create_prepare_ok [OF pl])
  have eq: "m = am" "mo = opts" "da1 = da"
    using setupMounts_translated [OF assms(2,3)] su by auto
  obtain cio sh c where sb: "sv_sb s' = sb'"
    and rpc: "x_taskCreate env \<lparr>vc_ID = rq_ID r, vc_Bundle = br, vc_Rootfs = cp_rootfs plan, vc_Stdio = cio,
                 vc_Options = rq_Options r\<rparr> = Inr pid"
    and c: "sv_containers s' = gm_put (rq_ID r) c (sv_containers s)"
    by (rule create_task_ok [OF task]) simp
  note L = letters_name_disks [OF assms(2) bl [unfolded eq]]
  let ?ds = "opt_disks (cp_opts plan)"
  have ds: "?ds = opt_disks (opts @ bk_opts bk)" by (simp add: plan eq)
  have names: "map d_MountPath ?ds = map host_source (filter is_disk (rq_Rootfs r)) @ map sm_Source (volumes (sp_Mounts sp))"
    "map m_Source (filter is_disk am @ bk_vmMounts (cp_block plan)) = guest_devices 97 (length ?ds)" "length ?ds mod 256 \<le> 25"
    using L n by (simp_all only: ds sp(2)) (simp_all add: plan)
  have rpc': "x_taskCreate env \<lparr>vc_ID = rq_ID r, vc_Bundle = br, vc_Rootfs = am, vc_Stdio = cio, vc_Options = rq_Options r\<rparr> = Inr pid"
    using rpc by (simp add: plan eq)
  have reg: "gm_get (sv_containers s') (rq_ID r) \<noteq> None" by (simp add: c)
  show ?thesis
    by (rule that) (rule pl st [folded sb] sp(1) names rpc' reg)+
qed

text \<open>
  C3. A container that was created with its rootfs on disks, that is when the rootfs is not a single
  overlay or bind mount and all its mounts could be translated for the VM (otherwise it is mounted on the
  host, see \<open>fallback_shifts_letters\<close>): the VM instance was given exactly the host files of the rootfs
  disks and, after them, the source files of the ext4 mounts of \<open>config.json\<close>, in the order of the device
  names that the guest's mounts use, at most 25 of them modulo 256; and the task in the VM got these
  mounts.
\<close>

theorem create_disks_in_order:
  assumes "shim_Create env late r (s, fs) = Done (Inr pid, s', fs')"
    and "transformMounts (x_host env) (rq_ID r) (rq_Rootfs r) (newDiskAllocator, fs) = (Inr (am, opts), (da, fs''))"
    and "on_disks (rq_Rootfs r)"
  shows "\<exists>plan ds cs cio br sp.
      create_prepare env (sv_debug s) r fs = (Inr plan, fs')
    \<and> config_spec (x_bundle env) (rq_Bundle r) = Inr sp
    \<and> sb_calls (sv_sb s') = sb_calls (sv_sb s) @ VNewInstance (o_StateDir (apply_opts (cp_opts plan))) # map disk_call ds @ cs
    \<and> (\<forall>bid p ro vmdk. VAddDisk bid p ro vmdk \<notin> set cs)
    \<and> map d_MountPath ds = map host_source (filter is_disk (rq_Rootfs r)) @ map sm_Source (volumes (sp_Mounts sp))
    \<and> map m_Source (filter is_disk am @ bk_vmMounts (cp_block plan)) = guest_devices 97 (length ds)
    \<and> length ds mod 256 \<le> 25
    \<and> x_taskCreate env \<lparr>vc_ID = rq_ID r, vc_Bundle = br, vc_Rootfs = am, vc_Stdio = cio, vc_Options = rq_Options r\<rparr> = Inr pid
    \<and> gm_get (sv_containers s') (rq_ID r) \<noteq> None"
proof -
  obtain plan cio br sp where pl: "create_prepare env (sv_debug s) r fs = (Inr plan, fs')"
    and st: "sandbox_Start (x_vmm env) (cp_opts plan) (sv_sb s) = (None, sv_sb s')"
    and sp: "config_spec (x_bundle env) (rq_Bundle r) = Inr sp"
    and names: "map d_MountPath (opt_disks (cp_opts plan)) =
       map host_source (filter is_disk (rq_Rootfs r)) @ map sm_Source (volumes (sp_Mounts sp))"
      "map m_Source (filter is_disk am @ bk_vmMounts (cp_block plan)) = guest_devices 97 (length (opt_disks (cp_opts plan)))"
      "length (opt_disks (cp_opts plan)) mod 256 \<le> 25"
    and task: "x_taskCreate env \<lparr>vc_ID = rq_ID r, vc_Bundle = br, vc_Rootfs = am, vc_Stdio = cio,
                 vc_Options = rq_Options r\<rparr> = Inr pid"
      "gm_get (sv_containers s') (rq_ID r) \<noteq> None"
    by (rule create_plan_disks [OF assms])
  obtain cs where calls: "sb_calls (sv_sb s') = sb_calls (sv_sb s) @ VNewInstance (o_StateDir (apply_opts (cp_opts plan)))
      # map disk_call (opt_disks (cp_opts plan)) @ cs"
    and others: "\<forall>bid p ro vmdk. VAddDisk bid p ro vmdk \<notin> set cs"
    using sandbox_Start_calls [OF st] by (force simp: fs_call_def nic_call_def)
  show ?thesis
    by (intro exI conjI) (rule pl sp calls others names task)+
qed


section \<open>Calls that leave the service unusable\<close>

text \<open>A running VM takes no second container.\<close>

lemma second_create_refused:
  assumes "sb_instance (sv_sb s) = Some vmi"
  shows "\<exists>e fs'. shim_Create env late r (s, fs) = Done (Inl e, s, fs')
    \<and> (\<forall>plan. fst (create_prepare env (sv_debug s) r fs) = Inr plan \<longrightarrow> e = Errdef ErrFailedPrecondition)"
  using assms vm_sandbox.start_running [of "sv_sb s"]
  by (auto simp: shim_Create_def split: prod.splits sum.splits)

text \<open>
  \<open>Exec\<close> of an unknown container answers "not found" and leaves the service locked: the next
  \<open>Delete\<close> and the shutdown of the shim block for ever.
\<close>

theorem exec_unknown_locks:
  assumes "sb_instance (sv_sb s) = Some vmi" and "\<not> sv_locked s" and "gm_get (sv_containers s) cid = None"
    and "forwardIO io (sandbox_streams ss (sv_sb s)) (cid @ ''-'' @ execID) rio (sv_open s) = (Inr (cio, sh), op)"
  shows "\<exists>e s'. shim_Exec io ss rpc late cid execID rio s = Done (Some e, s') \<and> is_errdef ErrNotFound e
    \<and> service_shutdown env attempts late gl s' = Blocks
    \<and> shim_Delete (Inr d) late cid' x s' = Blocks"
proof -
  have "sandbox_Client (sv_sb s) = Inr vmi" using assms(1) by (simp add: sandbox_Client_def)
  then show ?thesis
    using assms
    by (cases sh) (auto simp: shim_Exec_def with_lock_def call_shutdown_def service_shutdown_def shim_Delete_def
        io_shutdown_run_def)
qed

text \<open>
  \<open>Exec\<close> without standard I/O stores a nil shutdown function: deleting the exec calls it and
  panics, and so does the clean up when the VM refuses the exec.
\<close>

theorem exec_without_io_panics:
  assumes "sb_instance (sv_sb s) = Some vmi" and "\<not> sv_locked s" and "gm_get (sv_containers s) cid = Some c"
    and "stdio_IsNull rio" and "execID \<noteq> []"
  shows "\<exists>s'. shim_Exec io ss (\<lambda>_. None) late cid execID rio s = Done (None, s')
      \<and> shim_Delete (Inr d) late' cid execID s' = Panics
      \<and> (\<forall>e. shim_Exec io ss (\<lambda>_. Some e) late cid execID rio s = Panics)"
proof -
  have "sandbox_Client (sv_sb s) = Inr vmi" using assms(1) by (simp add: sandbox_Client_def)
  then show ?thesis
    using assms(2-) by (auto simp: shim_Exec_def forwardIO_def forwardIO_on_def with_lock_def shim_Delete_def call_shutdown_def)
qed

text \<open>
  C36. The streams of an exec are released. For an exec ID the container does not have yet
  (\<open>duplicate_exec_leaks\<close> is about the other case) and an exec that has I/O to forward, so that \<open>forwardIO\<close>
  gives a shutdown function (\<open>exec_without_io_panics\<close> is about the other case): deleting the exec, or the
  VM refusing it, closes exactly the streams that were opened for it, and the deleted exec is forgotten.
\<close>

theorem exec_io_released:
  assumes "sb_instance (sv_sb s) = Some vmi" and "\<not> sv_locked s" and "gm_get (sv_containers s) cid = Some c"
    and "execID \<noteq> []" and "gm_get (c_execShutdowns c) execID = None"
    and "\<forall>p. se_gen ss p \<notin> set (sv_open s)"
    and "forwardIO io (sandbox_streams ss (sv_sb s)) (cid @ ''-'' @ execID) rio (sv_open s) = (Inr (cio, Some sh), op)"
  shows "\<exists>s1 s2 s3. shim_Exec io ss (\<lambda>_. None) late cid execID rio s = Done (None, s1) \<and> sv_open s1 = op
      \<and> shim_Delete (Inr d) late' cid execID s1 = Done (Inr d, s2) \<and> sv_open s2 = sv_open s
      \<and> shim_Exec io ss (\<lambda>_. Some e) late cid execID rio s = Done (Some e, s3) \<and> sv_open s3 = sv_open s
      \<and> (\<forall>k. map_option (\<lambda>x. gm_get (c_execShutdowns x)) (gm_get (sv_containers s2) k) =
              map_option (\<lambda>x. gm_get (c_execShutdowns x)) (gm_get (sv_containers s) k))"
proof -
  have cl: "sandbox_Client (sv_sb s) = Inr vmi" using assms(1) by (simp add: sandbox_Client_def)
  obtain r1 r2 where "io_shutdown_run late sh op = (r1, sv_open s)" "io_shutdown_run late' sh op = (r2, sv_open s)"
    by (meson exec_io_closes [OF assms(6,7)])
  then show ?thesis
    using assms(2-5,7) cl
    by (auto simp: shim_Exec_def with_lock_def shim_Delete_def call_shutdown_def fun_eq_iff split: prod.splits)
qed

text \<open>
  \<open>Exec\<close> with an id in use, refused by the VM, forgets the shutdown function of the exec that
  has the id: deleting that exec closes no stream.
\<close>

theorem duplicate_exec_leaks:
  assumes "sb_instance (sv_sb s) = Some vmi" and "\<not> sv_locked s" and "gm_get (sv_containers s) cid = Some c"
    and "gm_get (c_execShutdowns c) execID = Some (Some old)" and "execID \<noteq> []"
    and "\<forall>p. se_gen ss p \<notin> set (sv_open s)"
    and "forwardIO io (sandbox_streams ss (sv_sb s)) (cid @ ''-'' @ execID) rio (sv_open s) = (Inr (cio, Some sh), op)"
  shows "\<exists>s1 c1. shim_Exec io ss (\<lambda>_. Some e) late cid execID rio s = Done (Some e, s1)
      \<and> gm_get (sv_containers s1) cid = Some c1 \<and> gm_get (c_execShutdowns c1) execID = None
      \<and> sv_open s1 = sv_open s \<and> shim_Delete (Inr d) late' cid execID s1 = Done (Inr d, s1)"
proof -
  have cl: "sandbox_Client (sv_sb s) = Inr vmi" using assms(1) by (simp add: sandbox_Client_def)
  obtain r1 r2 where "io_shutdown_run late sh op = (r1, sv_open s)" "io_shutdown_run late' sh op = (r2, sv_open s)"
    by (meson exec_io_closes [OF assms(6,7)])
  then show ?thesis
    using assms(2-5,7) cl
    by (auto simp: shim_Exec_def with_lock_def call_shutdown_def shim_Delete_def split: prod.splits)
qed


section \<open>Witnesses\<close>

definition demo_shim :: shim_env where
  "demo_shim = \<lparr>x_bundle = \<lparr>bu_read = (\<lambda>_. Inr ''{}''),
       bu_unmarshal = (\<lambda>_. Inr \<lparr>sp_Root = Some ''rootfs'', sp_Mounts =
         [\<lparr>sm_Destination = ''/data'', sm_Type = ''ext4'', sm_Source = ''/vol.img'', sm_Options = [''ro'']\<rparr>],
         sp_Annotations = [], sp_Other = []\<rparr>), bu_marshal = (\<lambda>_. Inr ''{}'')\<rparr>,
     x_bind = \<lparr>bd_stat = (\<lambda>_. Inr True), bd_sha256 = (\<lambda>_. [0])\<rparr>, x_net = demo_net, x_hostRC = Inl enoent,
     x_nwjson = (\<lambda>_. Inr ''{}''), x_abs = Inr ''/run/vm'', x_mkdir = (\<lambda>_. None), x_mountutil = calm_mountutil,
     x_host = plain_host, x_vmm = calm_vmm, x_ss = calm_ss, x_io = calm_io, x_events = None,
     x_bundleCreate = (\<lambda>_ _. Inr ''/bundle''), x_mountAll = (\<lambda>_. None), x_bindRPC = (\<lambda>_. None),
     x_taskCreate = (\<lambda>_. Inr 42)\<rparr>"

definition demo_request :: CreateTaskRequest where
  "demo_request = \<lparr>rq_ID = ''c1'', rq_Bundle = ''/b'', rq_Rootfs = [ext4_mount ''/root.img''],
     rq_Stdio = \<lparr>Stdin = [], Stdout = [], Stderr = [], Terminal = False\<rparr>, rq_Checkpoint = [], rq_ParentCheckpoint = [],
     rq_Options = []\<rparr>"

definition running_shim :: "string \<Rightarrow> shim_container \<Rightarrow> shim_service" where
  "running_shim cid c = (NewTaskService \<lparr>sb_instance = Some 0, sb_calls = []\<rparr> False)\<lparr>sv_containers := [(cid, c)]\<rparr>"

definition idle_container :: shim_container where
  "idle_container = \<lparr>c_ioShutdown = None, c_forwarder = None, c_execShutdowns = []\<rparr>"

fun created_pid :: "(int result \<times> 'a) go \<Rightarrow> int option" where
  "created_pid (Done (Inr pid, _)) = Some pid"
| "created_pid _ = None"

lemma demo_create:
  "created_pid (shim_Create demo_shim False demo_request (NewTaskService NewVMSandbox False, [])) = Some 42"
  by code_simp

theorem create_disks_in_order_witness:
  "\<exists>s' fs' x ds cs. shim_Create demo_shim False demo_request (NewTaskService NewVMSandbox False, []) = Done (Inr 42, s', fs')
    \<and> sb_calls (sv_sb s') = VNewInstance x # map disk_call ds @ cs
    \<and> map d_MountPath ds = [''/root.img'', ''/vol.img'']
    \<and> gm_get (sv_containers s') ''c1'' \<noteq> None"
proof -
  let ?s = "NewTaskService NewVMSandbox False"
  obtain s' fs' where c: "shim_Create demo_shim False demo_request (?s, []) = Done (Inr 42, s', fs')"
    using demo_create by (auto elim: created_pid.elims)
  obtain am opts da fs'' where t: "transformMounts (x_host demo_shim) (rq_ID demo_request) (rq_Rootfs demo_request)
      (newDiskAllocator, []) = (Inr (am, opts), (da, fs''))"
    by (simp add: transformMounts_def transform_mount_def transform_ext4_def ext4_mount_def da_Next_def
        demo_request_def)
  have sb: "sb_calls (sv_sb ?s) = []" by (simp add: NewTaskService_def NewVMSandbox_def)
  have on: "on_disks (rq_Rootfs demo_request)" by (simp add: on_disks_def demo_request_def ext4_mount_def)
  obtain plan :: create_plan and ds cs sp where d: "sb_calls (sv_sb s') = VNewInstance (o_StateDir (apply_opts (cp_opts plan))) # map disk_call ds @ cs"
      "map d_MountPath ds = map host_source (filter is_disk (rq_Rootfs demo_request)) @ map sm_Source (volumes (sp_Mounts sp))"
      "config_spec (x_bundle demo_shim) (rq_Bundle demo_request) = Inr sp" "gm_get (sv_containers s') (rq_ID demo_request) \<noteq> None"
    using create_disks_in_order [OF c t on] unfolding sb append_Nil by (elim exE conjE) (rule that, assumption+)
  then have "map d_MountPath ds = [''/root.img'', ''/vol.img'']" "gm_get (sv_containers s') ''c1'' \<noteq> None"
    by (auto simp: demo_request_def ext4_mount_def is_disk_def host_source_def config_spec_def demo_shim_def)
  with c d(1) show ?thesis by (intro exI conjI)
qed

theorem unmount_before_stop_witness:
  "\<exists>r guest' n s'. service_shutdown calm_vmm [(Inr (calm_mounts\<lparr>me_unmount := (\<lambda>_. Some (ErrNew ''EBUSY''))\<rparr>), False),
        (Inr calm_mounts, False), (Inr calm_mounts, True)] False ([erofs_mount], []) (running_shim ''c1'' idle_container)
          = Done (r, (guest', replicate (Suc n) AskedUnmountAll @ [AskedStop]), s')
     \<and> sb_calls (sv_sb s') = [VShutdown] \<and> sb_instance (sv_sb s') = None"
proof -
  let ?at = "[(Inr (calm_mounts\<lparr>me_unmount := (\<lambda>_. Some (ErrNew ''EBUSY''))\<rparr>), False), (Inr calm_mounts, False), (Inr calm_mounts, True)]"
  let ?s = "running_shim ''c1'' idle_container"
  have "\<exists>x\<in>set ?at. snd x" "sv_locked ?s = False" "sb_instance (sv_sb ?s) = Some 0"
    "containers_shutdown False (sv_containers ?s) (sv_open ?s) = Done ([], [(''c1'', idle_container)], [])"
    by (simp_all add: running_shim_def NewTaskService_def container_shutdown_def idle_container_def fwd_shutdown_def
        join_errors_def)
  from unmount_before_stop [OF this(1,2,4,3), of calm_vmm "[erofs_mount]"] show ?thesis
    by (auto simp: running_shim_def NewTaskService_def calm_vmm_def simp del: replicate_Suc unmountAllWithRetry.simps)
qed

lemma running_shim_simps:
  "sb_instance (sv_sb (running_shim cid c)) = Some 0" "\<not> sv_locked (running_shim cid c)"
  "gm_get (sv_containers (running_shim cid c)) cid = Some c" "sv_open (running_shim cid c) = []"
  "sv_sb (running_shim cid c) = \<lparr>sb_instance = Some 0, sb_calls = []\<rparr>"
  by (simp_all add: running_shim_def NewTaskService_def)

lemma demo_forward:
  "\<exists>cio sh op. forwardIO fifo_env (sandbox_streams calm_ss (sv_sb (running_shim cid c))) pre fifo_stdio (sv_open (running_shim cid c)) =
     (Inr (cio, Some sh), op) \<and> op \<noteq> []"
  by (simp add: forwardIO_def forwardIO_on_def forward_copy_def createStreams_def create_stdin_def create_stdout_def create_stderr_def
      start_one_def calm_ss_def fifo_stdio_def fifo_env_def calm_io_def stdio_IsNull_def defaultScheme_def
      copyStreams_def new_plan_def copy_one_def Let_def running_shim_simps sandbox_streams_def sandbox_StartStream_def)

theorem exec_io_released_witness:
  "\<exists>s1 s2. shim_Exec fifo_env calm_ss (\<lambda>_. None) False ''c1'' ''x'' fifo_stdio (running_shim ''c1'' idle_container) = Done (None, s1)
     \<and> sv_open s1 \<noteq> [] \<and> shim_Delete (Inr ()) False ''c1'' ''x'' s1 = Done (Inr (), s2) \<and> sv_open s2 = []"
proof -
  obtain cio sh op where f: "forwardIO fifo_env (sandbox_streams calm_ss (sv_sb (running_shim ''c1'' idle_container)))
      (''c1'' @ ''-'' @ ''x'') fifo_stdio (sv_open (running_shim ''c1'' idle_container)) = (Inr (cio, Some sh), op)" "op \<noteq> []"
    using demo_forward by blast
  have h: "gm_get (c_execShutdowns idle_container) ''x'' = None"
    "\<forall>p. se_gen calm_ss p \<notin> set (sv_open (running_shim ''c1'' idle_container))" "''x'' \<noteq> []"
    by (simp_all add: idle_container_def running_shim_simps)
  from exec_io_released [OF running_shim_simps(1-3) h(3,1,2) f(1), of False "()" False "ErrNew ''x''"] f(2) show ?thesis
    by (auto simp: running_shim_simps)
qed

theorem exec_unknown_locks_witness:
  "\<exists>e s'. shim_Exec fifo_env calm_ss (\<lambda>_. None) False ''c2'' ''x'' fifo_stdio (running_shim ''c1'' idle_container) = Done (Some e, s')
    \<and> is_errdef ErrNotFound e \<and> service_shutdown calm_vmm [] False ([], []) s' = Blocks
    \<and> shim_Delete (Inr ()) False ''c1'' [] s' = Blocks"
proof -
  let ?s = "running_shim ''c1'' idle_container"
  obtain cio sh op where f: "forwardIO fifo_env (sandbox_streams calm_ss (sv_sb ?s)) (''c2'' @ ''-'' @ ''x'') fifo_stdio (sv_open ?s) =
      (Inr (cio, Some sh), op)"
    using demo_forward by blast
  have "gm_get (sv_containers ?s) ''c2'' = None" by (simp add: running_shim_def NewTaskService_def)
  from exec_unknown_locks [OF running_shim_simps(1,2) this f] show ?thesis .
qed

theorem exec_without_io_panics_witness:
  "\<exists>s'. shim_Exec calm_io calm_ss (\<lambda>_. None) False ''c1'' ''x'' \<lparr>Stdin = [], Stdout = [], Stderr = [], Terminal = False\<rparr>
      (running_shim ''c1'' idle_container) = Done (None, s') \<and> shim_Delete (Inr ()) False ''c1'' ''x'' s' = Panics"
proof -
  have "stdio_IsNull \<lparr>Stdin = [], Stdout = [], Stderr = [], Terminal = False\<rparr>" "''x'' \<noteq> []"
    by (simp_all add: stdio_IsNull_def)
  from exec_without_io_panics [OF running_shim_simps(1-3) this, where cid = "''c1''" and c = idle_container and
      io = calm_io and ss = calm_ss and late = False and d = "()" and late' = False]
  show ?thesis by blast
qed

definition old_exec :: io_shutdown where
  "old_exec = \<lparr>sh_conns = (None, Some ''old'', None), sh_plan = snd (copyStreams fifo_env [] ''/o'' [])\<rparr>"

theorem duplicate_exec_leaks_witness:
  "\<exists>s1 c1. shim_Exec fifo_env calm_ss (\<lambda>_. Some (Errdef ErrAlreadyExists)) False ''c1'' ''x'' fifo_stdio
       (running_shim ''c1'' (idle_container\<lparr>c_execShutdowns := [(''x'', Some old_exec)]\<rparr>))
       = Done (Some (Errdef ErrAlreadyExists), s1)
     \<and> gm_get (sv_containers s1) ''c1'' = Some c1 \<and> gm_get (c_execShutdowns c1) ''x'' = None"
proof -
  let ?c = "idle_container\<lparr>c_execShutdowns := [(''x'', Some old_exec)]\<rparr>"
  obtain cio sh op where f: "forwardIO fifo_env (sandbox_streams calm_ss (sv_sb (running_shim ''c1'' ?c)))
      (''c1'' @ ''-'' @ ''x'') fifo_stdio (sv_open (running_shim ''c1'' ?c)) = (Inr (cio, Some sh), op)"
    using demo_forward by blast
  have h: "gm_get (c_execShutdowns ?c) ''x'' = Some (Some old_exec)" "''x'' \<noteq> []"
    "\<forall>p. se_gen calm_ss p \<notin> set (sv_open (running_shim ''c1'' ?c))"
    by (simp_all add: running_shim_simps)
  from duplicate_exec_leaks [OF running_shim_simps(1-3) h f, where e = "Errdef ErrAlreadyExists" and late = False
      and d = "()" and late' = False]
  show ?thesis by (elim exE conjE) (intro exI conjI)
qed

end
