(* ===== verification/VM_Instance.thy ===== *)
theory VM_Instance
  imports Networking
begin

text \<open>
  The VM instance of libkrun (\<open>internal/vm/libkrun/instance.go\<close>, \<open>krun.go\<close>, \<open>console_unix.go\<close>) behind the
  interface of \<open>pkg/vm/vm.go\<close>. The functions of the C library are parameters: \<open>krun_lib\<close> gives which of them
  are loaded and the number each call returns. The calls are recorded with their answers, together with
  the closing of the client, the connection and the library.
\<close>

section \<open>Calls to the library\<close>

datatype krun_call =
    KSetVMConfig "32 word" "8 word" "32 word"
  | KSetKernel "32 word" string "32 word" string string
  | KSetExec "32 word" string "string list" "string list"
  | KSetConsole "32 word" string
  | KAddVsockPort "32 word" "32 word" string bool
  | KAddVirtiofs "32 word" string string
  | KAddDisk "32 word" string string bool
  | KAddDisk2 "32 word" string string "32 word" bool
  | KAddNetUnixgram "32 word" string hwaddr "32 word" "32 word"
  | KAddNetUnixstream "32 word" string hwaddr "32 word" "32 word"
  | KStartEnter "32 word"
  | KFreeCtx "32 word"
  | KClientClose
  | KConnClose
  | KDlClose

record krun_lib =
  kl_loaded :: "string \<Rightarrow> bool"
  kl_ret :: "krun_call \<Rightarrow> int"

record vmInstance =
  vi_ctxID :: "32 word"
  vi_state :: string
  vi_kernelPath :: string
  vi_initrdPath :: string
  vi_streamPath :: string
  vi_handler :: nat
  vi_client :: bool
  vi_conn :: bool
  vi_calls :: "(krun_call \<times> int) list"

definition not_loaded :: go_error where
  "not_loaded = ErrNew ''libkrun not loaded''"

text \<open>One call, with the check of the function pointer before it and of the answer after it.\<close>

definition krun :: "krun_lib \<Rightarrow> string \<Rightarrow> string \<Rightarrow> krun_call \<Rightarrow> vmInstance \<Rightarrow> go_error option \<times> vmInstance" where
  "krun lib fn msg c v =
     (if \<not> kl_loaded lib fn then (Some not_loaded, v)
      else let v' = v\<lparr>vi_calls := vi_calls v @ [(c, kl_ret lib c)]\<rparr>
           in (if kl_ret lib c \<noteq> 0 then Some (ErrNew (msg @ '' failed: '' @ show_int (kl_ret lib c))) else None, v'))"

definition vmc_SetCPUAndMemory :: "krun_lib \<Rightarrow> 8 word \<Rightarrow> 32 word \<Rightarrow> vmInstance \<Rightarrow> go_error option \<times> vmInstance" where
  "vmc_SetCPUAndMemory lib cpu ram v = krun lib ''SetVMConfig'' ''krun_set_vm_config'' (KSetVMConfig (vi_ctxID v) cpu ram) v"

definition vmc_SetKernel ::
  "krun_lib \<Rightarrow> string \<Rightarrow> string \<Rightarrow> string \<Rightarrow> string \<Rightarrow> vmInstance \<Rightarrow> go_error option \<times> vmInstance" where
  "vmc_SetKernel lib goarch kernelPath initrdPath cmdline v =
     krun lib ''SetKernel'' ''krun_set_kernel''
       (KSetKernel (vi_ctxID v) kernelPath (if goarch = ''arm64'' then 0 else 1) initrdPath cmdline) v"

text \<open>The arrays of C strings end with a null pointer, and an empty string is passed as one.\<close>

definition cStringArray :: "string list \<Rightarrow> string list" where
  "cStringArray a = takeWhile (\<lambda>s. s \<noteq> []) a"

definition vmc_SetExec :: "krun_lib \<Rightarrow> string \<Rightarrow> string list \<Rightarrow> string list \<Rightarrow> vmInstance \<Rightarrow> go_error option \<times> vmInstance" where
  "vmc_SetExec lib path args envv v =
     krun lib ''SetExec'' ''krun_set_exec'' (KSetExec (vi_ctxID v) path (cStringArray args) (cStringArray envv)) v"

definition vmc_SetConsole :: "krun_lib \<Rightarrow> string \<Rightarrow> vmInstance \<Rightarrow> go_error option \<times> vmInstance" where
  "vmc_SetConsole lib path v = krun lib ''SetConsoleOutput'' ''krun_set_console_output'' (KSetConsole (vi_ctxID v) path) v"

definition vmc_AddVSockPort :: "krun_lib \<Rightarrow> 32 word \<Rightarrow> string \<Rightarrow> vmInstance \<Rightarrow> go_error option \<times> vmInstance" where
  "vmc_AddVSockPort lib port path v =
     krun lib ''AddVsockPort'' ''krun_add_vsock_port'' (KAddVsockPort (vi_ctxID v) port path True) v"

definition vmc_AddVSockPortConnect :: "krun_lib \<Rightarrow> 32 word \<Rightarrow> string \<Rightarrow> vmInstance \<Rightarrow> go_error option \<times> vmInstance" where
  "vmc_AddVSockPortConnect lib port path v =
     krun lib ''AddVsockPort'' ''krun_add_vsock_port'' (KAddVsockPort (vi_ctxID v) port path False) v"

definition vmc_AddVirtiofs :: "krun_lib \<Rightarrow> string \<Rightarrow> string \<Rightarrow> vmInstance \<Rightarrow> go_error option \<times> vmInstance" where
  "vmc_AddVirtiofs lib tag path v = krun lib ''AddVirtiofs'' ''krun_add_virtio_fs'' (KAddVirtiofs (vi_ctxID v) tag path) v"

definition vmc_AddDisk :: "krun_lib \<Rightarrow> string \<Rightarrow> string \<Rightarrow> bool \<Rightarrow> vmInstance \<Rightarrow> go_error option \<times> vmInstance" where
  "vmc_AddDisk lib blockID path ro v = krun lib ''AddDisk'' ''krun_add_disk'' (KAddDisk (vi_ctxID v) blockID path ro) v"

definition vmc_AddDisk2 :: "krun_lib \<Rightarrow> string \<Rightarrow> string \<Rightarrow> 32 word \<Rightarrow> bool \<Rightarrow> vmInstance \<Rightarrow> go_error option \<times> vmInstance" where
  "vmc_AddDisk2 lib blockID path fmt ro v =
     krun lib ''AddDisk2'' ''krun_add_disk2'' (KAddDisk2 (vi_ctxID v) blockID path fmt ro) v"

definition vmc_AddNIC ::
  "krun_lib \<Rightarrow> string \<Rightarrow> hwaddr \<Rightarrow> int \<Rightarrow> 32 word \<Rightarrow> 32 word \<Rightarrow> vmInstance \<Rightarrow> go_error option \<times> vmInstance" where
  "vmc_AddNIC lib endpoint mac mode features flags v =
     (if \<not> kl_loaded lib ''AddNetUnixgram'' \<or> \<not> kl_loaded lib ''AddNetUnixstream'' then (Some not_loaded, v)
      else if mode = 0 then
        krun lib ''AddNetUnixgram'' ''krun_add_net_unixgram'' (KAddNetUnixgram (vi_ctxID v) endpoint mac features flags) v
      else if mode = 1 then
        krun lib ''AddNetUnixstream'' ''krun_add_net_unixstream'' (KAddNetUnixstream (vi_ctxID v) endpoint mac features flags) v
      else (Some (ErrNew (''invalid network mode: '' @ show_int mode)), v))"

definition vmc_Start :: "krun_lib \<Rightarrow> vmInstance \<Rightarrow> go_error option \<times> vmInstance" where
  "vmc_Start lib v = krun lib ''StartEnter'' ''krun_start_enter'' (KStartEnter (vi_ctxID v)) v"

definition vmc_Shutdown :: "krun_lib \<Rightarrow> vmInstance \<Rightarrow> go_error option \<times> vmInstance" where
  "vmc_Shutdown lib v =
     (if vi_ctxID v = 0 then (None, v)
      else let c = KFreeCtx (vi_ctxID v);
               v' = v\<lparr>vi_calls := vi_calls v @ [(c, kl_ret lib c)]\<rparr>
           in if kl_ret lib c \<noteq> 0 then (Some (ErrNew (''krun_free_ctx failed: '' @ show_int (kl_ret lib c))), v')
              else (None, v'\<lparr>vi_ctxID := 0\<rparr>))"

section \<open>Making an instance\<close>

text \<open>A context has the number \<open>krun_create_ctx\<close> returned, unless it is negative.\<close>

definition newvmcontext :: "int \<Rightarrow> 32 word result" where
  "newvmcontext ctxId =
     (if ctxId < 0 then Inl (ErrNew (''krun_create_ctx failed: '' @ show_int ctxId)) else Inr (word_of_int ctxId))"

datatype goos = GoLinux | GoDarwin | GoWindows

definition kernelArch :: "string \<Rightarrow> string" where
  "kernelArch goarch = (if goarch = ''amd64'' then ''x86_64'' else goarch)"

definition shared_names :: "goos \<Rightarrow> string \<Rightarrow> string list" where
  "shared_names os arch =
     (case os of
        GoLinux \<Rightarrow> [''libkrun-'' @ arch @ ''.so'', ''libkrun.so'']
      | GoDarwin \<Rightarrow> [''libkrun-'' @ arch @ ''.dylib'', ''libkrun.dylib'', ''libkrun-efi-'' @ arch @ ''.dylib'', ''libkrun-efi.dylib'']
      | GoWindows \<Rightarrow> [''krun.dll''])"

definition search_path :: "goos \<Rightarrow> string list \<Rightarrow> string list \<Rightarrow> string list" where
  "search_path os p1 p2 =
     p1 @ (if os \<noteq> GoWindows \<and> p2 = [] then [''/usr/local/lib'', ''/usr/local/lib64'', ''/usr/lib'', ''/lib''] else p2)
     @ (if os = GoDarwin then [''/opt/homebrew/lib''] else [])"

text \<open>The first of some names that exists in a directory, unless one was found before.\<close>

definition keep_or_find :: "(string \<Rightarrow> bool) \<Rightarrow> string \<Rightarrow> string list \<Rightarrow> string \<Rightarrow> string" where
  "keep_or_find exists dir names found =
     (if found \<noteq> [] then found
      else case find (\<lambda>name. exists (path_join [dir, name])) names of
             None \<Rightarrow> []
           | Some name \<Rightarrow> path_join [dir, name])"

fun search_loop ::
  "(string \<Rightarrow> bool) \<Rightarrow> string list \<Rightarrow> string list \<Rightarrow> string list \<Rightarrow> string list \<Rightarrow> string \<times> string \<times> string \<Rightarrow>
     string \<times> string \<times> string" where
  "search_loop exists ns ks rs [] found = found"
| "search_loop exists ns ks rs (d # dirs) (a, k, r) =
     (let dir = (if d = [] then ''.'' else d)
      in search_loop exists ns ks rs dirs
           (keep_or_find exists dir ns a, keep_or_find exists dir ks k, keep_or_find exists dir rs r))"

record new_env =
  nv_kvm :: "go_error option"
  nv_goos :: goos
  nv_goarch :: string
  nv_PATH :: "string list"
  nv_LIBKRUN_PATH :: "string list"
  nv_exists :: "string \<Rightarrow> bool"
  nv_open :: "string \<Rightarrow> nat result"
  nv_initLog :: int
  nv_createCtx :: int

definition NewInstance :: "new_env \<Rightarrow> string \<Rightarrow> bool \<Rightarrow> vmInstance result \<times> bool" where
  "NewInstance env state logged =
     (case nv_kvm env of
        Some e \<Rightarrow> (Inl e, logged)
      | None \<Rightarrow>
      let arch = kernelArch (nv_goarch env);
          names = shared_names (nv_goos env) arch;
          (krunPath, kernelPath, initrdPath) =
            search_loop (nv_exists env) names [''nerdbox-kernel-'' @ arch] [''nerdbox-initrd-'' @ arch, ''nerdbox-initrd'']
              (search_path (nv_goos env) (nv_PATH env) (nv_LIBKRUN_PATH env)) ([], [], [])
      in if krunPath = [] then
           (Inl (ErrNew (join_with '' or '' names @ '' not found in PATH or LIBKRUN_PATH'')), logged)
         else if kernelPath = [] then
           (Inl (ErrNew ''nerdbox-kernel not found in PATH or LIBKRUN_PATH''), logged)
         else if initrdPath = [] then
           (Inl (ErrNew (''nerdbox-initrd-'' @ arch @ '' or nerdbox-initrd not found in PATH or LIBKRUN_PATH'')), logged)
         else case nv_open env krunPath of
           Inl e \<Rightarrow> (Inl e, logged)
         | Inr h \<Rightarrow>
             if \<not> logged \<and> nv_initLog env \<noteq> 0 then
               (Inl (ErrNew (''krun_init_log failed: '' @ show_int (nv_initLog env))), True)
             else case newvmcontext (nv_createCtx env) of
               Inl e \<Rightarrow> (Inl e, True)
             | Inr ctxID \<Rightarrow>
                  (Inr \<lparr>vi_ctxID = ctxID, vi_state = state, vi_kernelPath = kernelPath,
                        vi_initrdPath = initrdPath, vi_streamPath = path_join [state, ''streaming.sock''],
                        vi_handler = h, vi_client = False, vi_conn = False, vi_calls = []\<rparr>, True))"

section \<open>Configuration\<close>

type_synonym start_step = "vmInstance \<Rightarrow> go_error option \<times> vmInstance"

definition wrap_step :: "string \<Rightarrow> start_step \<Rightarrow> start_step" where
  "wrap_step msg f v = (case f v of (Some e, v') \<Rightarrow> (Some (ErrWrap msg e), v') | (None, v') \<Rightarrow> (None, v'))"

definition instance_AddFS :: "krun_lib \<Rightarrow> string \<Rightarrow> string \<Rightarrow> bool \<Rightarrow> start_step" where
  "instance_AddFS lib tag mountPath ro =
     wrap_step (''failed to add virtiofs tag:'' @ tag @ '' mount:'' @ mountPath) (vmc_AddVirtiofs lib tag mountPath)"

definition instance_AddDisk :: "krun_lib \<Rightarrow> string \<Rightarrow> string \<Rightarrow> bool \<Rightarrow> bool \<Rightarrow> start_step" where
  "instance_AddDisk lib blockID mountPath ro vmdk =
     wrap_step (''failed to add disk at '' @ [CHR 0x27] @ mountPath @ [CHR 0x27])
       (vmc_AddDisk2 lib blockID mountPath (if vmdk then 2 else 0) ro)"

definition instance_AddNIC :: "krun_lib \<Rightarrow> string \<Rightarrow> hwaddr \<Rightarrow> int \<Rightarrow> 32 word \<Rightarrow> 32 word \<Rightarrow> start_step" where
  "instance_AddNIC lib endpoint mac mode features flags =
     wrap_step ''failed to add nic'' (vmc_AddNIC lib endpoint mac mode features flags)"

definition instance_SetCPUAndMemory :: "krun_lib \<Rightarrow> 8 word \<Rightarrow> 32 word \<Rightarrow> start_step" where
  "instance_SetCPUAndMemory lib cpu ram = wrap_step ''failed to set cpu and memory'' (vmc_SetCPUAndMemory lib cpu ram)"

section \<open>Starting\<close>

text \<open>\<open>filepath.Rel\<close> on Unix: over the elements of the two cleaned paths.\<close>

fun strip_common :: "string list \<Rightarrow> string list \<Rightarrow> string list \<times> string list" where
  "strip_common (x # xs) (y # ys) = (if x = y then strip_common xs ys else (x # xs, y # ys))"
| "strip_common xs ys = (xs, ys)"

definition path_elems :: "string \<Rightarrow> string list" where
  "path_elems p = filter (\<lambda>x. x \<noteq> []) (split_on (CHR ''/'') p)"

definition path_rel :: "string \<Rightarrow> string \<Rightarrow> string result" where
  "path_rel base targ =
     (let b = path_clean base; t = path_clean targ;
          b' = (if b = ''.'' then [] else b);
          err = Inl (ErrNew (''Rel: can'' @ [CHR 0x27] @ ''t make '' @ targ @ '' relative to '' @ base))
      in if t = b then Inr ''.''
         else if path_is_abs b' \<noteq> path_is_abs t then err
         else case strip_common (path_elems b') (path_elems t) of
                (bs, ts) \<Rightarrow>
                  if bs \<noteq> [] \<and> hd bs = ''..'' then err
                  else Inr (join_with ''/'' (map (\<lambda>_. ''..'') bs @ ts)))"

text \<open>What ends the wait for the guest: the VM, the context, the timer, or a connection.\<close>

datatype boot = BootVM "go_error option" | BootContext go_error | BootTimeout | BootAccept "go_error option"

record start_env =
  sn_goos :: goos
  sn_goarch :: string
  sn_fifo :: "go_error option"
  sn_cwd :: "string result"
  sn_remove :: "string \<Rightarrow> go_error option"
  sn_listen :: "string \<Rightarrow> go_error option"
  sn_boot :: boot

definition vsock_args :: "string list" where
  "vsock_args = [''-vsock-rpc-port=1025'', ''-vsock-stream-port=1026'', ''-vsock-cid=3'']"

definition guest_environ :: "string list" where
  "guest_environ = [''TERM=xterm'', ''PATH=/usr/local/sbin:/usr/local/bin:/usr/sbin:/usr/bin:/sbin:/bin'', ''LANG=C.UTF-8'']"

definition setupConsole :: "krun_lib \<Rightarrow> go_error option \<Rightarrow> string \<Rightarrow> vmInstance \<Rightarrow> go_error option \<times> vmInstance" where
  "setupConsole lib fifo path v = (case fifo of Some e \<Rightarrow> (Some e, v) | None \<Rightarrow> vmc_SetConsole lib path v)"

text \<open>The steps of \<open>Start\<close>, each the code up to the next return.\<close>

fun run_steps :: "start_step list \<Rightarrow> start_step" where
  "run_steps [] v = (None, v)"
| "run_steps (f # fs) v = (case f v of (Some e, v') \<Rightarrow> (Some e, v') | (None, v') \<Rightarrow> run_steps fs v')"

definition max_socket_path :: "goos \<Rightarrow> nat" where
  "max_socket_path os = (if os = GoDarwin then 104 else 108)"

text \<open>From the working directory to the two vsock ports.\<close>

definition start_sockets :: "krun_lib \<Rightarrow> start_env \<Rightarrow> start_step" where
  "start_sockets lib env v =
     (case sn_cwd env of
        Inl e \<Rightarrow> (Some (ErrWrap ''failed to get cwd'' e), v)
      | Inr cwd \<Rightarrow>
     (case path_rel cwd (path_join [vi_state v, ''run_vminitd.sock'']) of
        Inl e \<Rightarrow> (Some (ErrWrap ''failed to get relative socket path'' e), v)
      | Inr socketPath \<Rightarrow>
     if length socketPath \<ge> max_socket_path (sn_goos env) then
       (Some (ErrNew (''socket path is too long: '' @ socketPath)), v)
     else case sn_remove env socketPath of
        Some e \<Rightarrow> (Some (ErrWrap ''failed to remove stale socket'' e), v)
      | None \<Rightarrow>
     (case sn_listen env socketPath of
        Some e \<Rightarrow> (Some (ErrWrap ''failed to listen on socket'' e), v)
      | None \<Rightarrow>
     (case wrap_step ''failed to add vsock port'' (vmc_AddVSockPortConnect lib 1025 socketPath) v of
        (Some e, v1) \<Rightarrow> (Some e, v1)
      | (None, v1) \<Rightarrow>
     (case path_rel cwd (vi_streamPath v1) of
        Inl e \<Rightarrow> (Some (ErrWrap ''failed to get relative socket path'' e), v1\<lparr>vi_streamPath := []\<rparr>)
      | Inr sp \<Rightarrow> wrap_step ''failed to add vsock port'' (vmc_AddVSockPort lib 1026 sp) (v1\<lparr>vi_streamPath := sp\<rparr>))))))"

text \<open>The boot: the goroutine that enters the VM and the select over its end and the connection.\<close>

definition start_boot :: "krun_lib \<Rightarrow> boot \<Rightarrow> start_step" where
  "start_boot lib b v =
     (let v1 = snd (vmc_Start lib v)
      in case b of
           BootVM (Some e) \<Rightarrow> (Some (ErrWrap ''failure running vm'' e), v1)
         | BootVM None \<Rightarrow> (Some (ErrNew ''VM exited before connecting''), v1)
         | BootContext e \<Rightarrow> (Some e, v1)
         | BootTimeout \<Rightarrow> (Some (ErrNew ''VM did not connect within 15s''), v1)
         | BootAccept (Some e) \<Rightarrow> (Some (ErrWrap ''failed to accept connection from VM'' e), v1)
         | BootAccept None \<Rightarrow> (None, v1\<lparr>vi_conn := True, vi_client := True\<rparr>))"

definition instance_Start :: "krun_lib \<Rightarrow> start_env \<Rightarrow> string list \<Rightarrow> vmInstance \<Rightarrow> go_error option \<times> vmInstance" where
  "instance_Start lib env initArgs v =
     (if vi_client v then (Some (ErrNew ''VM instance already started''), v)
      else run_steps
        [wrap_step ''failed to set kernel'' (vmc_SetKernel lib (sn_goarch env) (vi_kernelPath v) (vi_initrdPath v) ''console=hvc0''),
         wrap_step ''failed to set exec'' (vmc_SetExec lib ''/sbin/vminitd'' (vsock_args @ initArgs) guest_environ),
         wrap_step ''failed to set up console'' (setupConsole lib (sn_fifo env) ''./krun.fifo''),
         start_sockets lib env, start_boot lib (sn_boot env)] v)"

section \<open>Shutting down\<close>

definition instance_Client :: "vmInstance \<Rightarrow> bool" where
  "instance_Client v = vi_client v"

definition close_client :: "vmInstance \<Rightarrow> vmInstance" where
  "close_client v = (if vi_client v then v\<lparr>vi_client := False, vi_calls := vi_calls v @ [(KClientClose, 0)]\<rparr> else v)"

definition close_conn :: "vmInstance \<Rightarrow> vmInstance" where
  "close_conn v = (if vi_conn v then v\<lparr>vi_conn := False, vi_calls := vi_calls v @ [(KConnClose, 0)]\<rparr> else v)"

definition instance_Shutdown :: "krun_lib \<Rightarrow> go_error option \<Rightarrow> start_step" where
  "instance_Shutdown lib dlclose v =
     (if vi_handler v = 0 then (Some (ErrNew ''libkrun already closed''), v)
      else let v' = snd (vmc_Shutdown lib (close_conn (close_client v)))
           in case dlclose of
                Some e \<Rightarrow> (Some e, v'\<lparr>vi_calls := vi_calls v' @ [(KDlClose, -1)]\<rparr>)
              | None \<Rightarrow> (None, v'\<lparr>vi_calls := vi_calls v' @ [(KDlClose, 0)], vi_handler := 0\<rparr>))"

section \<open>The search for the library and the images\<close>

definition candidates :: "string list \<Rightarrow> string list \<Rightarrow> string list" where
  "candidates dirs names = concat (map (\<lambda>d. map (\<lambda>n. path_join [if d = [] then ''.'' else d, n]) names) dirs)"

definition first_existing :: "(string \<Rightarrow> bool) \<Rightarrow> string list \<Rightarrow> string" where
  "first_existing exists ps = (case find exists ps of None \<Rightarrow> [] | Some p \<Rightarrow> p)"

lemma keep_or_find_first:
  assumes "d' = (if d = [] then ''.'' else d)"
  shows "keep_or_find exists d' names found = (if found \<noteq> [] then found else first_existing exists (candidates [d] names))"
  using assms by (auto simp: keep_or_find_def first_existing_def candidates_def find_map comp_def split: option.splits)

lemma first_existing_Cons:
  "first_existing exists (candidates (d # dirs) names) =
    (if first_existing exists (candidates [d] names) \<noteq> [] then first_existing exists (candidates [d] names)
     else first_existing exists (candidates dirs names))"
proof -
  have "x \<noteq> []" if "find exists (candidates [d] names) = Some x" for x
    using that path_join_nonempty [of "if d = [] then ''.'' else d"] by (auto simp: find_Some_iff candidates_def)
  moreover have "candidates (d # dirs) names = candidates [d] names @ candidates dirs names"
    by (simp add: candidates_def)
  ultimately show ?thesis
    by (cases "find exists (candidates [d] names)") (simp_all add: first_existing_def find_append)
qed

lemma search_loop_first:
  "search_loop exists ns ks rs dirs (a, k, r) =
    ((if a \<noteq> [] then a else first_existing exists (candidates dirs ns)),
     (if k \<noteq> [] then k else first_existing exists (candidates dirs ks)),
     (if r \<noteq> [] then r else first_existing exists (candidates dirs rs)))"
proof (induction dirs arbitrary: a k r)
  case Nil
  then show ?case by (simp add: first_existing_def candidates_def)
next
  case (Cons d dirs)
  show ?case
    by (simp add: Let_def Cons.IH keep_or_find_first [of _ d] first_existing_Cons [of _ d dirs])
qed

lemma NewInstance_finds_first:
  assumes "NewInstance env state logged = (Inr v, l)"
  defines "dirs \<equiv> search_path (nv_goos env) (nv_PATH env) (nv_LIBKRUN_PATH env)"
    and "arch \<equiv> kernelArch (nv_goarch env)"
  shows "vi_kernelPath v = first_existing (nv_exists env) (candidates dirs [''nerdbox-kernel-'' @ arch])
    \<and> vi_initrdPath v = first_existing (nv_exists env) (candidates dirs [''nerdbox-initrd-'' @ arch, ''nerdbox-initrd''])
    \<and> first_existing (nv_exists env) (candidates dirs (shared_names (nv_goos env) arch)) \<noteq> []"
  using assms by (auto simp: NewInstance_def newvmcontext_def search_loop_first Let_def split: option.splits if_splits sum.splits)

section \<open>Contexts of the library\<close>

definition is_free :: "krun_call \<times> int \<Rightarrow> bool" where
  "is_free cr \<longleftrightarrow> (\<exists>n. fst cr = KFreeCtx n)"

definition frees :: "vmInstance \<Rightarrow> (krun_call \<times> int) list" where
  "frees v = filter is_free (vi_calls v)"

definition keeps_ctx :: "vmInstance \<Rightarrow> vmInstance \<Rightarrow> bool" where
  "keeps_ctx v v' \<longleftrightarrow> vi_ctxID v' = vi_ctxID v \<and> frees v' = frees v"

lemma keeps_ctx_refl [simp]: "keeps_ctx v v"
  by (simp add: keeps_ctx_def)

lemma keeps_ctx_trans: "keeps_ctx u v \<Longrightarrow> keeps_ctx v w \<Longrightarrow> keeps_ctx u w"
  by (simp add: keeps_ctx_def)

lemma krun_keeps [simp]: "(\<And>n. c \<noteq> KFreeCtx n) \<Longrightarrow> keeps_ctx v (snd (krun lib fn msg c v))"
  by (simp add: krun_def keeps_ctx_def frees_def is_free_def Let_def)

lemma wrap_step_keeps [simp]: "keeps_ctx v (snd (wrap_step msg f v)) \<longleftrightarrow> keeps_ctx v (snd (f v))"
  by (simp add: wrap_step_def split: prod.splits option.splits)

lemma run_steps_keeps:
  "(\<And>f u. f \<in> set fs \<Longrightarrow> keeps_ctx u (snd (f u))) \<Longrightarrow> keeps_ctx v (snd (run_steps fs v))"
proof (induction fs arbitrary: v)
  case (Cons f fs)
  have "keeps_ctx v (snd (f v))" using Cons.prems by simp
  moreover have "keeps_ctx (snd (f v)) (snd (run_steps fs (snd (f v))))" by (rule Cons.IH) (simp add: Cons.prems)
  ultimately show ?case by (auto split: prod.splits option.splits intro: keeps_ctx_trans)
qed simp

lemmas vmc_defs = vmc_SetCPUAndMemory_def vmc_SetKernel_def vmc_SetExec_def vmc_SetConsole_def vmc_AddVSockPort_def
  vmc_AddVSockPortConnect_def vmc_AddVirtiofs_def vmc_AddDisk_def vmc_AddDisk2_def vmc_AddNIC_def

lemma vmc_keeps [simp]:
  "keeps_ctx v (snd (vmc_SetCPUAndMemory lib cpu ram v))" "keeps_ctx v (snd (vmc_SetKernel lib arch k i c v))"
  "keeps_ctx v (snd (vmc_SetExec lib p args env v))" "keeps_ctx v (snd (vmc_SetConsole lib p v))"
  "keeps_ctx v (snd (vmc_AddVSockPort lib port p v))" "keeps_ctx v (snd (vmc_AddVSockPortConnect lib port p v))"
  "keeps_ctx v (snd (vmc_AddVirtiofs lib tag p v))" "keeps_ctx v (snd (vmc_AddDisk2 lib b p f ro v))"
  "keeps_ctx v (snd (vmc_AddNIC lib ep mac mode fe fl v))"
  by (simp_all add: vmc_defs)

lemma set_streamPath_keeps [simp]: "keeps_ctx u (v\<lparr>vi_streamPath := p\<rparr>) \<longleftrightarrow> keeps_ctx u v"
  by (simp add: keeps_ctx_def frees_def)

lemma start_sockets_keeps: "keeps_ctx v (snd (start_sockets lib env v))"
proof -
  have *: "keeps_ctx v (snd (wrap_step m (vmc_AddVSockPort lib port p) (w\<lparr>vi_streamPath := p\<rparr>)))" if "keeps_ctx v w" for w m port p
    by (rule keeps_ctx_trans [of _ "w\<lparr>vi_streamPath := p\<rparr>"]) (simp_all add: that)
  have "keeps_ctx v (snd (wrap_step ''failed to add vsock port'' (vmc_AddVSockPortConnect lib 1025 p) v))" for p
    by simp
  then show ?thesis
    by (auto simp: start_sockets_def * split: sum.splits option.splits prod.splits simp del: wrap_step_keeps) (metis snd_conv * wrap_step_keeps)+
qed


lemma path_rel_is_relative: "path_rel base targ = Inr p \<Longrightarrow> \<not> path_is_abs p"
proof -
  assume r: "path_rel base targ = Inr p"
  obtain bs ts where st: "strip_common (path_elems (if path_clean base = ''.'' then [] else path_clean base)) (path_elems (path_clean targ)) = (bs, ts)"
    by force
  have sub: "strip_common xs ys = (xs', ys') \<Longrightarrow> set ys' \<subseteq> set ys" for xs ys xs' ys' :: "string list"
    by (induction xs ys rule: strip_common.induct) (auto split: if_splits)
  have "\<forall>x\<in>set (map (\<lambda>_. ''..'') bs @ ts). plain_elem x"
    using sub [OF st] by (auto simp: path_elems_def plain_elem_def dest: split_on_parts)
  from join_plain [OF this] have "\<not> path_is_abs (join_with ''/'' (map (\<lambda>_. ''..'') bs @ ts))" by simp
  moreover have "p = ''.'' \<or> p = join_with ''/'' (map (\<lambda>_. ''..'') bs @ ts)"
    using r unfolding path_rel_def Let_def st by (auto split: if_splits)
  ultimately show ?thesis by (auto simp: path_is_abs_hd)
qed

lemma path_rel_mixed: "path_is_abs base \<Longrightarrow> \<not> path_is_abs targ \<Longrightarrow> \<exists>e. path_rel base targ = Inl e"
  using path_clean_abs [of base] path_clean_abs [of targ]
  by (auto simp: path_rel_def Let_def path_is_abs_hd)

lemma start_boot_keeps: "keeps_ctx v (snd (start_boot lib b v))"
proof -
  have "keeps_ctx v (snd (krun lib ''StartEnter'' ''krun_start_enter'' (KStartEnter (vi_ctxID v)) v))" by simp
  then show ?thesis
    by (auto simp: start_boot_def vmc_Start_def keeps_ctx_def frees_def Let_def split: boot.splits option.splits)
qed

lemma setupConsole_keeps [simp]: "keeps_ctx v (snd (setupConsole lib fifo p v))"
  by (simp add: setupConsole_def split: option.splits)

lemma instance_Start_keeps: "keeps_ctx v (snd (instance_Start lib env args v))"
  unfolding instance_Start_def
  by (cases "vi_client v") (auto intro!: run_steps_keeps simp: start_sockets_keeps start_boot_keeps simp del: run_steps.simps)

lemma instance_add_keeps:
  "keeps_ctx v (snd (instance_AddFS lib tag p ro v))" "keeps_ctx v (snd (instance_AddDisk lib b p ro vmdk v))"
  "keeps_ctx v (snd (instance_AddNIC lib ep mac mode fe fl v))" "keeps_ctx v (snd (instance_SetCPUAndMemory lib cpu ram v))"
  by (simp_all add: instance_AddFS_def instance_AddDisk_def instance_AddNIC_def instance_SetCPUAndMemory_def)

inductive inst_step :: "vmInstance \<Rightarrow> vmInstance \<Rightarrow> bool" where
  addFS: "inst_step v (snd (instance_AddFS lib tag p ro v))"
| addDisk: "inst_step v (snd (instance_AddDisk lib b p ro vmdk v))"
| addNIC: "inst_step v (snd (instance_AddNIC lib ep mac mode fe fl v))"
| resources: "inst_step v (snd (instance_SetCPUAndMemory lib cpu ram v))"
| start: "inst_step v (snd (instance_Start lib env args v))"
| shutdown: "inst_step v (snd (instance_Shutdown lib dl v))"

definition freed :: "vmInstance \<Rightarrow> nat" where
  "freed v = length (filter (\<lambda>cr. snd cr = 0) (frees v))"

definition ctx_inv :: "32 word \<Rightarrow> vmInstance \<Rightarrow> bool" where
  "ctx_inv i v \<longleftrightarrow> (\<forall>cr\<in>set (frees v). i \<noteq> 0 \<and> fst cr = KFreeCtx i) \<and>
     (if vi_ctxID v = i then i = 0 \<or> freed v = 0 else vi_ctxID v = 0 \<and> freed v = 1)"

lemma ctx_inv_keeps: "keeps_ctx v v' \<Longrightarrow> ctx_inv i v \<Longrightarrow> ctx_inv i v'"
  unfolding keeps_ctx_def ctx_inv_def freed_def by metis

lemma vmc_Shutdown_inv: "ctx_inv i v \<Longrightarrow> ctx_inv i (snd (vmc_Shutdown lib v))"
  by (auto simp: vmc_Shutdown_def ctx_inv_def freed_def frees_def is_free_def Let_def split: if_splits)

lemma close_keeps: "keeps_ctx v (close_conn (close_client v))"
  by (simp add: close_conn_def close_client_def keeps_ctx_def frees_def is_free_def)

lemma dlclose_keeps:
  "keeps_ctx v (v\<lparr>vi_calls := vi_calls v @ [(KDlClose, r)]\<rparr>)"
  "keeps_ctx v (v\<lparr>vi_calls := vi_calls v @ [(KDlClose, r)], vi_handler := 0\<rparr>)"
  by (simp_all add: keeps_ctx_def frees_def is_free_def)

lemma instance_Shutdown_inv: "ctx_inv i v \<Longrightarrow> ctx_inv i (snd (instance_Shutdown lib dl v))"
  using vmc_Shutdown_inv [OF ctx_inv_keeps [OF close_keeps], of i v lib]
  by (auto simp: instance_Shutdown_def Let_def split: option.splits intro: ctx_inv_keeps [OF dlclose_keeps(1)] ctx_inv_keeps [OF dlclose_keeps(2)])

lemma inst_step_inv: "inst_step v v' \<Longrightarrow> ctx_inv i v \<Longrightarrow> ctx_inv i v'"
  by (erule inst_step.cases)
     (auto intro: ctx_inv_keeps [OF instance_add_keeps(1)] ctx_inv_keeps [OF instance_add_keeps(2)]
       ctx_inv_keeps [OF instance_add_keeps(3)] ctx_inv_keeps [OF instance_add_keeps(4)]
       ctx_inv_keeps [OF instance_Start_keeps] instance_Shutdown_inv)

lemma inst_reach_inv: "inst_step\<^sup>*\<^sup>* v v' \<Longrightarrow> ctx_inv i v \<Longrightarrow> ctx_inv i v'"
  by (induction rule: rtranclp_induct) (auto intro: inst_step_inv)

text \<open>
  C18. The library's context of a VM is freed at most once, whatever methods are called in whatever
  order; but a context whose number is zero, which \<open>newvmcontext\<close> accepts, is never freed, so its VM
  is never stopped.
\<close>

theorem context_freed_once:
  assumes "NewInstance env state logged = (Inr v, l)" and "inst_step\<^sup>*\<^sup>* v v'"
  shows "freed v' \<le> 1 \<and> (freed v' = 1 \<longleftrightarrow> vi_ctxID v' \<noteq> vi_ctxID v)
    \<and> (\<forall>cr\<in>set (frees v'). fst cr = KFreeCtx (vi_ctxID v))
    \<and> (nv_createCtx env = 0 \<longrightarrow> frees v' = [])"
proof -
  have n: "vi_calls v = []" "vi_ctxID v = word_of_int (nv_createCtx env)"
    using assms(1) by (auto simp: NewInstance_def newvmcontext_def Let_def split: option.splits prod.splits if_splits sum.splits)
  then have "ctx_inv (vi_ctxID v) v" by (simp add: ctx_inv_def freed_def frees_def)
  from inst_reach_inv [OF assms(2) this] n(2) show ?thesis
    by (cases "frees v'") (auto simp: ctx_inv_def freed_def split: if_splits)
qed


section \<open>The command line of the guest\<close>

lemma krun_ok: "krun lib fn m c v = (None, v') \<longleftrightarrow>
    kl_loaded lib fn \<and> kl_ret lib c = 0 \<and> v' = v\<lparr>vi_calls := vi_calls v @ [(c, 0)]\<rparr>"
  by (auto simp: krun_def Let_def)

lemma wrap_step_ok [simp]: "wrap_step m f v = (None, v') \<longleftrightarrow> f v = (None, v')"
  by (auto simp: wrap_step_def split: prod.splits option.splits)

lemma run_steps_ok:
  "run_steps (f # fs) v = (None, v') \<longleftrightarrow> (\<exists>u. f v = (None, u) \<and> run_steps fs u = (None, v'))"
  by (auto split: prod.splits option.splits)

lemma start_sockets_ok:
  assumes "start_sockets lib env v = (None, v')"
  shows "\<exists>cwd p sp. sn_cwd env = Inr cwd \<and> path_rel cwd (path_join [vi_state v, ''run_vminitd.sock'']) = Inr p \<and>
     sn_listen env p = None \<and> length p < max_socket_path (sn_goos env) \<and>
     path_rel cwd (vi_streamPath v) = Inr sp \<and>
     v' = v\<lparr>vi_streamPath := sp, vi_calls := vi_calls v @ [(KAddVsockPort (vi_ctxID v) 1025 p False, 0),
              (KAddVsockPort (vi_ctxID v) 1026 sp True, 0)]\<rparr>"
proof -
  from assms obtain cwd p v1 sp where "sn_cwd env = Inr cwd"
      "path_rel cwd (path_join [vi_state v, ''run_vminitd.sock'']) = Inr p" "sn_listen env p = None"
      "length p < max_socket_path (sn_goos env)" "path_rel cwd (vi_streamPath v1) = Inr sp"
    and 1: "vmc_AddVSockPortConnect lib 1025 p v = (None, v1)"
    and 2: "vmc_AddVSockPort lib 1026 sp (v1\<lparr>vi_streamPath := sp\<rparr>) = (None, v')"
    by (auto simp: start_sockets_def not_le split: sum.splits option.splits prod.splits if_splits)
  then show ?thesis
    by (intro exI [of _ cwd] exI [of _ p] exI [of _ sp])
       (simp add: vmc_AddVSockPortConnect_def vmc_AddVSockPort_def krun_ok)
qed

lemma start_boot_ok:
  assumes "start_boot lib b v = (None, v')"
  shows "b = BootAccept None \<and> vi_client v' \<and> vi_streamPath v' = vi_streamPath v
    \<and> (\<exists>ks. vi_calls v' = vi_calls v @ ks \<and> ks \<in> {[], [(KStartEnter (vi_ctxID v), kl_ret lib (KStartEnter (vi_ctxID v)))]})"
  using assms by (auto simp: start_boot_def vmc_Start_def krun_def Let_def split: boot.splits option.splits if_splits)

lemma instance_Start_calls:
  assumes "instance_Start lib env args v = (None, v')"
  shows "\<exists>cwd p ks. vi_calls v' = vi_calls v @
      [(KSetKernel (vi_ctxID v) (vi_kernelPath v) (if sn_goarch env = ''arm64'' then 0 else 1) (vi_initrdPath v) ''console=hvc0'', 0),
       (KSetExec (vi_ctxID v) ''/sbin/vminitd'' (cStringArray (vsock_args @ args)) (cStringArray guest_environ), 0),
       (KSetConsole (vi_ctxID v) ''./krun.fifo'', 0),
       (KAddVsockPort (vi_ctxID v) 1025 p False, 0), (KAddVsockPort (vi_ctxID v) 1026 (vi_streamPath v') True, 0)] @ ks
    \<and> sn_cwd env = Inr cwd \<and> path_rel cwd (path_join [vi_state v, ''run_vminitd.sock'']) = Inr p \<and> sn_listen env p = None
    \<and> path_rel cwd (vi_streamPath v) = Inr (vi_streamPath v')
    \<and> length p < 108 \<and> vi_client v' \<and> \<not> vi_client v \<and> sn_boot env = BootAccept None"
proof -
  from assms have c: "\<not> vi_client v" by (auto simp: instance_Start_def split: if_splits)
  with assms obtain v1 v2 v3 v4 where
    1: "vmc_SetKernel lib (sn_goarch env) (vi_kernelPath v) (vi_initrdPath v) ''console=hvc0'' v = (None, v1)"
    and 2: "vmc_SetExec lib ''/sbin/vminitd'' (vsock_args @ args) guest_environ v1 = (None, v2)"
    and 3: "setupConsole lib (sn_fifo env) ''./krun.fifo'' v2 = (None, v3)"
    and 4: "start_sockets lib env v3 = (None, v4)" and 5: "start_boot lib (sn_boot env) v4 = (None, v')"
    unfolding instance_Start_def by (auto simp only: run_steps_ok run_steps.simps(1) wrap_step_ok if_False prod.inject)
  from 3 have 3: "vmc_SetConsole lib ''./krun.fifo'' v2 = (None, v3)"
    by (auto simp: setupConsole_def split: option.splits)
  note 4 = start_sockets_ok [OF 4] and 5 = start_boot_ok [OF 5]
  from 4 obtain cwd p sp where p: "length p < max_socket_path (sn_goos env)" and
    paths: "sn_cwd env = Inr cwd" "path_rel cwd (path_join [vi_state v3, ''run_vminitd.sock'']) = Inr p" "sn_listen env p = None"
      "path_rel cwd (vi_streamPath v3) = Inr sp" and
    v4: "v4 = v3\<lparr>vi_streamPath := sp, vi_calls := vi_calls v3 @ [(KAddVsockPort (vi_ctxID v3) 1025 p False, 0),
              (KAddVsockPort (vi_ctxID v3) 1026 sp True, 0)]\<rparr>" by blast
  from p have "length p < 108" by (auto simp: max_socket_path_def split: if_splits)
  with 1 2 3 v4 5 c paths show ?thesis
    by (auto simp: vmc_SetKernel_def vmc_SetExec_def vmc_SetConsole_def krun_ok)
qed


lemma init_args_nonempty: "\<forall>a\<in>set (init_args env debug nws dump). a \<noteq> []"
  by (auto simp: init_args_def networks_InitArgs_def)

definition vsock_Config :: initd_Config where
  "vsock_Config = default_Config\<lparr>ic_RPCPort := 1025, ic_StreamPort := 1026, ic_VSockContextID := 3\<rparr>"

lemma parse_ports:
  "parse_uint ''1025'' 63 = Inr 1025" "parse_uint ''1026'' 63 = Inr 1026" "parse_uint ''3'' 63 = Inr 3"
  by (simp_all add: parse_uint_def digit_val_def)

lemma parse_vsock_args: "ParseFlags env (vsock_args @ args) = parse_flags env args vsock_Config"
  by (simp add: ParseFlags_def vsock_args_def set_flag_def parse_ports vsock_Config_def default_Config_def)

lemma guest_configured_calls:
  assumes "instance_Start lib env (init_args net debug nws dump) v = (None, v')"
    and "netip_law net" and "\<forall>n\<in>set nws. \<exists>s. parseNetwork net s = Inr n"
  shows "\<exists>args cwd p. (KSetExec (vi_ctxID v) ''/sbin/vminitd'' args guest_environ, 0) \<in> set (vi_calls v')
    \<and> (\<forall>c. ParseFlags net args = Inr c \<longleftrightarrow> (\<forall>n\<in>set nws. \<not> addr_conflict n) \<and>
           c = vsock_Config\<lparr>ic_Debug := debug, ic_Networks := map to_vm nws, ic_DumpInfo := dump\<rparr>)
    \<and> sn_cwd env = Inr cwd \<and> path_rel cwd (path_join [vi_state v, ''run_vminitd.sock'']) = Inr p \<and> sn_listen env p = None
    \<and> path_rel cwd (vi_streamPath v) = Inr (vi_streamPath v')
    \<and> (KAddVsockPort (vi_ctxID v) (of_int (ic_RPCPort vsock_Config)) p False, 0) \<in> set (vi_calls v')
    \<and> (KAddVsockPort (vi_ctxID v) (of_int (ic_StreamPort vsock_Config)) (vi_streamPath v') True, 0) \<in> set (vi_calls v')"
proof -
  obtain cwd p ks where c: "vi_calls v' = vi_calls v @
      [(KSetKernel (vi_ctxID v) (vi_kernelPath v) (if sn_goarch env = ''arm64'' then 0 else 1) (vi_initrdPath v) ''console=hvc0'', 0),
       (KSetExec (vi_ctxID v) ''/sbin/vminitd'' (cStringArray (vsock_args @ init_args net debug nws dump)) (cStringArray guest_environ), 0),
       (KSetConsole (vi_ctxID v) ''./krun.fifo'', 0),
       (KAddVsockPort (vi_ctxID v) 1025 p False, 0), (KAddVsockPort (vi_ctxID v) 1026 (vi_streamPath v') True, 0)] @ ks"
    and paths: "sn_cwd env = Inr cwd" "path_rel cwd (path_join [vi_state v, ''run_vminitd.sock'']) = Inr p" "sn_listen env p = None"
      "path_rel cwd (vi_streamPath v) = Inr (vi_streamPath v')"
    using instance_Start_calls [OF assms(1)] by blast
  have args: "cStringArray (vsock_args @ init_args net debug nws dump) = vsock_args @ init_args net debug nws dump"
    "cStringArray guest_environ = guest_environ"
    using init_args_nonempty [of net debug nws dump]
    by (simp_all add: cStringArray_def takeWhile_eq_all_conv vsock_args_def guest_environ_def)
  have "\<not> ic_Debug vsock_Config" "\<not> ic_DumpInfo vsock_Config" "ic_Networks vsock_Config = []"
    "ic_RPCPort vsock_Config = 1025" "ic_StreamPort vsock_Config = 1026"
    by (simp_all add: vsock_Config_def default_Config_def)
  with parse_init_args [OF assms(2,3)] c args paths show ?thesis
    by (intro exI [of _ "vsock_args @ init_args net debug nws dump"] exI [of _ cwd] exI [of _ p]) (simp add: parse_vsock_args)
qed

section \<open>A start cannot be repeated\<close>

lemma krun_path [simp]: "vi_streamPath (snd (krun lib fn m c v)) = vi_streamPath v"
  by (simp add: krun_def Let_def)

lemma wrap_step_snd [simp]: "snd (wrap_step m f v) = snd (f v)"
  by (simp add: wrap_step_def split: prod.splits option.splits)

lemma wrap_step_err: "wrap_step m f v = (Some e, v') \<Longrightarrow> \<exists>e'. e = ErrWrap m e'"
  by (auto simp: wrap_step_def split: prod.splits option.splits)

lemma start_sockets_err:
  "start_sockets lib env v = (Some e, v') \<Longrightarrow> (\<exists>m e'. e = ErrWrap m e') \<or> (\<exists>p. e = ErrNew (''socket path is too long: '' @ p))"
  by (auto simp: start_sockets_def split: sum.splits option.splits prod.splits if_splits dest: wrap_step_err)

lemma start_sockets_path: "start_sockets lib env v = (None, v') \<Longrightarrow> \<not> path_is_abs (vi_streamPath v')"
  by (auto simp: start_sockets_def vmc_AddVSockPort_def krun_ok dest!: path_rel_is_relative
      split: sum.splits option.splits prod.splits if_splits)

lemma start_sockets_fails:
  assumes "sn_cwd env = Inr cwd" and "path_is_abs cwd" and "\<not> path_is_abs (vi_streamPath v)"
  shows "fst (start_sockets lib env v) \<noteq> None"
proof
  assume "fst (start_sockets lib env v) = None"
  then obtain v' where ok: "start_sockets lib env v = (None, v')" by (metis prod.collapse)
  then obtain p v1 sp where v1: "vmc_AddVSockPortConnect lib 1025 p v = (None, v1)" and "path_rel cwd (vi_streamPath v1) = Inr sp"
    using assms(1) by (auto simp: start_sockets_def split: sum.splits option.splits prod.splits if_splits)
  then show False
    using path_rel_mixed [OF assms(2,3)] by (auto simp: vmc_AddVSockPortConnect_def krun_ok)
qed

lemma run_steps_split:
  "run_steps (fs @ gs) v = (case run_steps fs v of (Some e, v') \<Rightarrow> (Some e, v') | (None, v') \<Rightarrow> run_steps gs v')"
  by (induction fs arbitrary: v) (auto split: prod.splits option.splits)

lemma run_steps_path:
  "(\<And>f u. f \<in> set fs \<Longrightarrow> vi_streamPath (snd (f u)) = vi_streamPath u) \<Longrightarrow> vi_streamPath (snd (run_steps fs v)) = vi_streamPath v"
proof (induction fs arbitrary: v)
  case (Cons f fs)
  have "vi_streamPath (snd (f v)) = vi_streamPath v" using Cons.prems by simp
  moreover have "vi_streamPath (snd (run_steps fs (snd (f v)))) = vi_streamPath (snd (f v))"
    by (rule Cons.IH) (simp add: Cons.prems)
  ultimately show ?case by (auto split: prod.splits option.splits)
qed simp

definition start_config :: "krun_lib \<Rightarrow> start_env \<Rightarrow> string list \<Rightarrow> vmInstance \<Rightarrow> start_step list" where
  "start_config lib env args v =
     [wrap_step ''failed to set kernel'' (vmc_SetKernel lib (sn_goarch env) (vi_kernelPath v) (vi_initrdPath v) ''console=hvc0''),
      wrap_step ''failed to set exec'' (vmc_SetExec lib ''/sbin/vminitd'' (vsock_args @ args) guest_environ),
      wrap_step ''failed to set up console'' (setupConsole lib (sn_fifo env) ''./krun.fifo'')]"

lemma start_config_path: "vi_streamPath (snd (run_steps (start_config lib env args v) u)) = vi_streamPath u"
  by (rule run_steps_path)
     (auto simp: start_config_def vmc_SetKernel_def vmc_SetExec_def vmc_SetConsole_def setupConsole_def split: option.splits)

lemma start_config_err: "run_steps (start_config lib env args v) u = (Some e, v') \<Longrightarrow> \<exists>m e'. e = ErrWrap m e'"
  by (auto simp: start_config_def split: prod.splits option.splits dest: wrap_step_err)

lemma instance_Start_split:
  "\<not> vi_client v \<Longrightarrow> instance_Start lib env args v =
     run_steps (start_config lib env args v @ [start_sockets lib env, start_boot lib (sn_boot env)]) v"
  by (simp add: instance_Start_def start_config_def del: run_steps.simps)

lemma instance_Start_timeout:
  assumes "instance_Start lib env args v = (Some (ErrNew ''VM did not connect within 15s''), v')"
  shows "\<not> path_is_abs (vi_streamPath v')"
proof -
  have "\<not> vi_client v" using assms by (auto simp: instance_Start_def split: if_splits)
  then have run: "run_steps (start_config lib env args v @ [start_sockets lib env, start_boot lib (sn_boot env)]) v =
      (Some (ErrNew ''VM did not connect within 15s''), v')"
    using assms instance_Start_split by metis
  obtain r u where u: "run_steps (start_config lib env args v) v = (r, u)" by force
  have "r = None"
    using run u start_config_err by (fastforce simp: run_steps_split split: option.splits)
  with run u obtain r2 w where w: "start_sockets lib env u = (r2, w)"
    and rest: "(case r2 of Some e \<Rightarrow> (Some e, w) | None \<Rightarrow> run_steps [start_boot lib (sn_boot env)] w) =
      (Some (ErrNew ''VM did not connect within 15s''), v')"
    by (auto simp: run_steps_split split: prod.splits option.splits)
  have "r2 = None"
    using rest w start_sockets_err [of lib env u] by (auto split: option.splits)
  with rest have "start_boot lib (sn_boot env) w = (Some (ErrNew ''VM did not connect within 15s''), v')"
    by (auto split: prod.splits option.splits)
  then have "vi_streamPath v' = vi_streamPath w"
    by (auto simp: start_boot_def vmc_Start_def Let_def split: boot.splits option.splits)
  with start_sockets_path w \<open>r2 = None\<close> show ?thesis by auto
qed

text \<open>
  After a start that timed out every later start of the instance fails: the path of the stream
  socket was made relative in place, and cannot be made relative again.
\<close>

theorem timed_out_start_not_repeatable:
  assumes "instance_Start lib env args v = (Some (ErrNew ''VM did not connect within 15s''), v')"
    and "sn_cwd env' = Inr cwd" and "path_is_abs cwd"
  shows "\<exists>e. fst (instance_Start lib' env' args' v') = Some e"
proof (cases "vi_client v'")
  case True
  then show ?thesis by (simp add: instance_Start_def)
next
  case False
  obtain r u where u: "run_steps (start_config lib' env' args' v') v' = (r, u)" by force
  have "\<not> path_is_abs (vi_streamPath u)"
    using start_config_path [of lib' env' args' v' v'] u instance_Start_timeout [OF assms(1)] by simp
  from start_sockets_fails [OF assms(2,3) this, of lib'] show ?thesis
    by (auto simp: instance_Start_split [OF False] run_steps_split u split: option.splits prod.splits)
qed

definition calm_lib :: krun_lib where
  "calm_lib = \<lparr>kl_loaded = (\<lambda>_. True), kl_ret = (\<lambda>_. 0)\<rparr>"

definition calm_start :: start_env where
  "calm_start = \<lparr>sn_goos = GoLinux, sn_goarch = ''amd64'', sn_fifo = None, sn_cwd = Inr ''/w'', sn_remove = (\<lambda>_. None),
     sn_listen = (\<lambda>_. None), sn_boot = BootAccept None\<rparr>"

definition demo_new :: new_env where
  "demo_new = \<lparr>nv_kvm = None, nv_goos = GoLinux, nv_goarch = ''amd64'', nv_PATH = [''/bin''], nv_LIBKRUN_PATH = [],
     nv_exists = (\<lambda>_. True), nv_open = (\<lambda>_. Inr 1), nv_initLog = 0, nv_createCtx = 0\<rparr>"

definition demo_instance :: vmInstance where
  "demo_instance = \<lparr>vi_ctxID = 0, vi_state = ''/w/vm'', vi_kernelPath = ''/bin/nerdbox-kernel-x86_64'',
     vi_initrdPath = ''/bin/nerdbox-initrd-x86_64'', vi_streamPath = ''/w/vm/streaming.sock'', vi_handler = 1,
     vi_client = False, vi_conn = False, vi_calls = []\<rparr>"

lemma demo_new_instance: "fst (NewInstance demo_new ''/w/vm'' False) = Inr demo_instance"
  by code_simp

lemma demo_start: "fst (instance_Start calm_lib calm_start (init_args demo_net True [] False) demo_instance) = None"
  by code_simp

theorem context_freed_once_witness:
  "\<exists>v'. fst (NewInstance demo_new ''/w/vm'' False) = Inr demo_instance \<and> v' = snd (instance_Shutdown calm_lib None demo_instance)
     \<and> vi_handler v' = 0 \<and> frees v' = [] \<and> freed v' \<le> 1"
proof -
  obtain l where n: "NewInstance demo_new ''/w/vm'' False = (Inr demo_instance, l)"
    using demo_new_instance by (metis prod.collapse)
  let ?v = "snd (instance_Shutdown calm_lib None demo_instance)"
  have "inst_step\<^sup>*\<^sup>* demo_instance ?v" by (rule r_into_rtranclp, rule inst_step.shutdown)
  moreover have "nv_createCtx demo_new = 0" "vi_handler ?v = 0"
    by (simp_all add: demo_new_def instance_Shutdown_def demo_instance_def Let_def)
  ultimately show ?thesis
    using context_freed_once [OF n] n by auto
qed


lemma demo_timeout: "fst (instance_Start calm_lib (calm_start\<lparr>sn_boot := BootTimeout\<rparr>) [] demo_instance) =
    Some (ErrNew ''VM did not connect within 15s'')"
  by code_simp

theorem timed_out_start_not_repeatable_witness:
  "\<exists>v' e. instance_Start calm_lib (calm_start\<lparr>sn_boot := BootTimeout\<rparr>) [] demo_instance =
       (Some (ErrNew ''VM did not connect within 15s''), v')
     \<and> fst (instance_Start calm_lib calm_start [] v') = Some e"
proof -
  obtain v' where s: "instance_Start calm_lib (calm_start\<lparr>sn_boot := BootTimeout\<rparr>) [] demo_instance =
       (Some (ErrNew ''VM did not connect within 15s''), v')"
    using demo_timeout by (metis prod.collapse)
  have "sn_cwd calm_start = Inr ''/w''" "path_is_abs ''/w''"
    by (simp_all add: calm_start_def path_is_abs_hd)
  from timed_out_start_not_repeatable [OF s this] s show ?thesis by blast
qed


end
