(* ===== verification/Initd.thy ===== *)
theory Initd
  imports VM_Instance VM_Networking VM_Mounts
begin

text \<open>
  The init daemon of the guest (\<open>pkg/vminit/initd/initd.go\<close>, \<open>listener.go\<close>): the set up of the system, the
  start of the plugins, the listener that dials the host instead of listening, and the main loop. System
  calls, plugins and signals are given.
\<close>

section \<open>The listener\<close>

text \<open>\<open>dl_done\<close> tells that the channel \<open>done\<close> is closed; \<open>dl_dials\<close> counts the calls of \<open>vsock.Dial\<close>.\<close>

record dialBackListener =
  dl_cid :: "32 word"
  dl_port :: "32 word"
  dl_once :: bool
  dl_done :: bool
  dl_dialErr :: "go_error option"
  dl_dials :: "(32 word \<times> 32 word) list"

definition newDialBackListener :: "32 word \<Rightarrow> 32 word \<Rightarrow> dialBackListener" where
  "newDialBackListener cid port = \<lparr>dl_cid = cid, dl_port = port, dl_once = False, dl_done = False, dl_dialErr = None,
     dl_dials = []\<rparr>"

datatype accepted = AcceptConn | AcceptErr go_error | AcceptBlocks | AcceptPanics

text \<open>\<open>Accept\<close> with the outcome of the dial, which is made in the first call only.\<close>

definition dl_Accept :: "go_error option \<Rightarrow> dialBackListener \<Rightarrow> accepted \<times> dialBackListener" where
  "dl_Accept dial l =
     (if \<not> dl_once l then
        let l1 = l\<lparr>dl_once := True, dl_dialErr := dial, dl_dials := dl_dials l @ [(dl_cid l, dl_port l)]\<rparr>
        in case dial of
             None \<Rightarrow> (AcceptConn, l1)
           | Some e \<Rightarrow>
               if dl_done l then (AcceptPanics, l1)
               else (AcceptErr (ErrWrap (''failed to dial host vsock '' @ show_nat (unat (dl_cid l)) @ '':''
                       @ show_nat (unat (dl_port l))) e), l1\<lparr>dl_done := True\<rparr>)
      else if dl_done l then (AcceptErr (Sentinel ''use of closed network connection''), l)
      else (AcceptBlocks, l))"

definition dl_Close :: "dialBackListener \<Rightarrow> dialBackListener" where
  "dl_Close l = l\<lparr>dl_done := True\<rparr>"

section \<open>Set up of the system\<close>

definition sys_mount :: "string \<Rightarrow> string \<Rightarrow> string \<Rightarrow> string list \<Rightarrow> Mount" where
  "sys_mount ty src target opts = \<lparr>m_Type = ty, m_Source = src, m_Target = target, m_Options = opts\<rparr>"

definition systemMounts :: "Mount list" where
  "systemMounts =
     [sys_mount ''proc'' ''proc'' ''/proc'' [''nosuid'', ''noexec'', ''nodev''],
      sys_mount ''sysfs'' ''sysfs'' ''/sys'' [''nosuid'', ''noexec'', ''nodev''],
      sys_mount ''cgroup2'' ''none'' ''/sys/fs/cgroup'' [],
      sys_mount ''tmpfs'' ''tmpfs'' ''/run'' [''nosuid'', ''noexec'', ''nodev''],
      sys_mount ''tmpfs'' ''tmpsfs'' ''/tmp'' [''nosuid'', ''noexec'', ''nodev''],
      sys_mount ''devtmpfs'' ''devtmpsfs'' ''/dev'' [''nosuid'', ''noexec'']]"

record sys_env =
  sy_mountAll :: "Mount list \<Rightarrow> go_error option"
  sy_cgroup :: "string \<Rightarrow> string \<Rightarrow> go_error option"
  sy_mkdirEtc :: "go_error option"
  sy_nl :: nl_env
  sy_showIP :: "ip \<Rightarrow> string"

definition setupCgroupControl :: "sys_env \<Rightarrow> go_error option" where
  "setupCgroupControl env =
     sy_cgroup env ''/sys/fs/cgroup/cgroup.subtree_control'' ''+cpu +cpuset +io +memory +pids''"

text \<open>
  The leases whose renewer it returns; their releaser is the first callback of the shutdown service. The
  callbacks are listed in the order they are registered.
\<close>

datatype shutdown_cb = CbReleaseDHCP "string list" | CbListenerClose | CbServerShutdown

definition systemInit :: "sys_env \<Rightarrow> initd_Config \<Rightarrow> string list result" where
  "systemInit env config =
     (case sy_mountAll env systemMounts of
        Some e \<Rightarrow> Inl e
      | None \<Rightarrow>
          (case setupCgroupControl env of
             Some e \<Rightarrow> Inl e
           | None \<Rightarrow>
               (case sy_mkdirEtc env of
                  Some e \<Rightarrow>
                    if e \<noteq> eexist then Inl (ErrWrap ''failed to create /etc'' e)
                    else fst (SetupVM (sy_nl env) (sy_showIP env) (ic_Networks config))
                | None \<Rightarrow> fst (SetupVM (sy_nl env) (sy_showIP env) (ic_Networks config)))))"

section \<open>The service\<close>

text \<open>A registered plugin: whether it takes vsock addresses, is the streaming plugin, and how it loads.\<close>

datatype loaded = LoadOK bool | LoadSkip | LoadErr go_error

record plugin_reg =
  pg_id :: string
  pg_vsock :: bool
  pg_streaming :: bool
  pg_add :: "go_error option"
  pg_load :: loaded

record initd_service =
  is_listener :: dialBackListener
  is_registered :: "string list"
  is_vsock :: "(string \<times> 32 word \<times> 32 word) list"
  is_callbacks :: "shutdown_cb list"

definition hostCID :: "32 word" where
  "hostCID = 2"

fun load_plugins :: "initd_Config \<Rightarrow> plugin_reg list \<Rightarrow> initd_service \<Rightarrow> initd_service result" where
  "load_plugins config [] s = Inr s"
| "load_plugins config (g # gs) s =
     (let s1 = (if pg_vsock g \<and> pg_streaming g then
                  s\<lparr>is_vsock := is_vsock s @
                     [(pg_id g, word_of_int (ic_VSockContextID config), word_of_int (ic_StreamPort config))]\<rparr>
                else s)
      in case pg_add g of
           Some e \<Rightarrow> Inl (ErrWrap ''could not add plugin result to plugin set'' e)
         | None \<Rightarrow>
             (case pg_load g of
                LoadErr e \<Rightarrow> Inl (ErrWrap (''failed to load plugin '' @ pg_id g) e)
              | LoadSkip \<Rightarrow> load_plugins config gs s1
              | LoadOK ttrpc \<Rightarrow>
                  load_plugins config gs (if ttrpc then s1\<lparr>is_registered := is_registered s1 @ [pg_id g]\<rparr> else s1)))"

definition newService :: "go_error option \<Rightarrow> plugin_reg list \<Rightarrow> initd_Config \<Rightarrow> shutdown_cb list \<Rightarrow> initd_service result" where
  "newService server regs config cbs =
     (let l = newDialBackListener hostCID (word_of_int (ic_RPCPort config))
      in case server of
           Some e \<Rightarrow> Inl e
         | None \<Rightarrow> load_plugins config regs \<lparr>is_listener = l, is_registered = [], is_vsock = [],
                     is_callbacks = cbs @ [CbListenerClose, CbServerShutdown]\<rparr>)"

section \<open>The main loop\<close>

datatype os_signal = SIGKILL | SIGINT | SIGTERM | SIGHUP | SIGQUIT | SIGCHLD

text \<open>\<open>RenewFailed\<close> is the end of the goroutine that renews the leases.\<close>

datatype run_event =
    ShutdownDone "go_error option" | ServiceExited "go_error option" | Signalled os_signal | RenewFailed

record run_state =
  rs_shutdowns :: nat
  rs_reaps :: nat

text \<open>\<open>None\<close> means that the loop still runs after the events given.\<close>

fun run_loop :: "run_event list \<Rightarrow> run_state \<Rightarrow> (go_error option \<times> run_state) option" where
  "run_loop [] s = None"
| "run_loop (ShutdownDone r # evs) s = Some (None, s)"
| "run_loop (ServiceExited r # evs) s = Some (r, s)"
| "run_loop (Signalled sig # evs) s =
     run_loop evs
       (if sig = SIGCHLD then s\<lparr>rs_reaps := rs_reaps s + 1\<rparr>
        else if sig \<in> {SIGKILL, SIGINT, SIGTERM, SIGQUIT} then s\<lparr>rs_shutdowns := rs_shutdowns s + 1\<rparr>
        else s)"
| "run_loop (RenewFailed # evs) s = run_loop evs (s\<lparr>rs_shutdowns := rs_shutdowns s + 1\<rparr>)"

definition initd_Run ::
  "net_env \<Rightarrow> sys_env \<Rightarrow> go_error option \<Rightarrow> plugin_reg list \<Rightarrow> string list \<Rightarrow> run_event list \<Rightarrow>
     (go_error option \<times> initd_service option) option result" where
  "initd_Run net env server regs args evs =
     (case ParseFlags net args of
        Inl e \<Rightarrow> Inl e
      | Inr config \<Rightarrow>
          Inr (case systemInit env config of
                 Inl e \<Rightarrow> Some (Some e, None)
               | Inr leases \<Rightarrow>
                   (case newService server regs config [CbReleaseDHCP leases] of
                      Inl e \<Rightarrow> Some (Some e, None)
                    | Inr svc \<Rightarrow>
                        map_option (\<lambda>(r, s). (r, Some svc)) (run_loop evs \<lparr>rs_shutdowns = 0, rs_reaps = 0\<rparr>))))"

section \<open>The connection to the host\<close>

datatype dl_op = OpAccept "go_error option" | OpClose

fun dl_run :: "dl_op list \<Rightarrow> dialBackListener \<Rightarrow> accepted list \<times> dialBackListener" where
  "dl_run [] l = ([], l)"
| "dl_run (OpClose # ops) l = dl_run ops (dl_Close l)"
| "dl_run (OpAccept d # ops) l =
     (case dl_Accept d l of (r, l') \<Rightarrow> case dl_run ops l' of (rs, l'') \<Rightarrow> (r # rs, l''))"

lemma dl_run_after:
  "dl_once l \<Longrightarrow> dl_run ops l = (rs, l') \<Longrightarrow> dl_dials l' = dl_dials l \<and> AcceptConn \<notin> set rs \<and> AcceptPanics \<notin> set rs"
proof (induction ops arbitrary: l rs)
  case (Cons x ops)
  show ?case
  proof (cases x)
    case (OpAccept d)
    with Cons show ?thesis by (auto simp: dl_Accept_def split: prod.splits if_splits)
  next
    case OpClose
    with Cons.prems Cons.IH [of "dl_Close l" rs] show ?thesis by (simp add: dl_Close_def)
  qed
qed simp

lemma replicate_close_eq:
  "replicate n OpClose @ OpAccept d # xs = replicate m OpClose @ OpAccept d' # ys \<longleftrightarrow> n = m \<and> d = d' \<and> xs = ys"
proof (induction n arbitrary: m)
  case 0
  show ?case by (cases m) auto
next
  case (Suc n)
  show ?case using Suc by (cases m) auto
qed

lemma dl_Close_all: "dl_run (replicate n OpClose @ ops) l = dl_run ops (l\<lparr>dl_done := dl_done l \<or> n > 0\<rparr>)"
  by (induction n arbitrary: l) (auto simp: dl_Close_def)

lemma dl_ops_split:
  obtains n where "ops = replicate n OpClose" | n d rest where "ops = replicate n OpClose @ OpAccept d # rest"
proof (induction ops arbitrary: thesis)
  case Nil
  show ?case using Nil(1) [of 0] by simp
next
  case (Cons x ops)
  show ?case
  proof (cases x)
    case (OpAccept d)
    then show ?thesis using Cons.prems(2) [of 0 d ops] by simp
  next
    case OpClose
    show ?thesis
      by (rule Cons.IH) (use OpClose Cons.prems(1) [of "Suc _"] Cons.prems(2) [of "Suc _"] in auto)
  qed
qed

text \<open>
  Whatever calls a server makes of the listener, it yields at most one connection and dials at most
  once, and only the given address; it panics exactly when it was closed before its first accept and the
  dial of that accept fails.
\<close>

theorem listener_connects_once:
  assumes "dl_run ops (newDialBackListener cid port) = (rs, l)"
  shows "length (filter (\<lambda>r. r = AcceptConn) rs) \<le> 1 \<and> length (dl_dials l) \<le> 1 \<and> set (dl_dials l) \<subseteq> {(cid, port)}
    \<and> (AcceptPanics \<in> set rs \<longleftrightarrow> (\<exists>n e rest. ops = replicate (Suc n) OpClose @ OpAccept (Some e) # rest))"
proof (cases rule: dl_ops_split [of ops])
  case (1 n)
  then have "rs = [] \<and> dl_dials l = []"
    using assms dl_Close_all [of n "[]"] by (auto simp: newDialBackListener_def)
  moreover have "ops \<noteq> replicate (Suc m) OpClose @ OpAccept e # rest" for m e rest
    using 1 by (auto dest!: arg_cong [of _ _ set])
  ultimately show ?thesis by auto
next
  case (2 n d rest)
  let ?l = "(newDialBackListener cid port)\<lparr>dl_done := n > 0\<rparr>"
  obtain r l1 rs1 where a: "dl_Accept d ?l = (r, l1)" and b: "dl_run rest l1 = (rs1, l)" and rs: "rs = r # rs1"
    using assms 2 dl_Close_all [of n "OpAccept d # rest"] by (auto simp: newDialBackListener_def split: prod.splits)
  have once: "dl_once l1" "dl_dials l1 = [(cid, port)]"
    using a by (auto simp: dl_Accept_def newDialBackListener_def Let_def split: option.splits if_splits)
  have "(\<exists>m e rest'. ops = replicate (Suc m) OpClose @ OpAccept (Some e) # rest') \<longleftrightarrow> n > 0 \<and> d \<noteq> None"
    unfolding 2 replicate_close_eq by (cases n) auto
  moreover have "filter (\<lambda>r. r = AcceptConn) rs1 = []" "AcceptPanics \<notin> set rs1" "dl_dials l = [(cid, port)]"
    using dl_run_after [OF once(1) b] once(2) by (auto simp: filter_empty_conv)
  ultimately show ?thesis
    using a rs by (auto simp: dl_Accept_def newDialBackListener_def Let_def simp del: replicate.simps
        split: option.splits if_splits)
qed

theorem listener_connects_once_witness:
  "\<exists>rs l. dl_run [OpAccept None, OpClose, OpAccept None] (newDialBackListener 2 1025) = (rs, l)
     \<and> length (filter (\<lambda>r. r = AcceptConn) rs) \<le> 1 \<and> set (dl_dials l) \<subseteq> {(2, 1025)}"
proof -
  obtain rs l where r: "dl_run [OpAccept None, OpClose, OpAccept None] (newDialBackListener 2 1025) = (rs, l)" by force
  from listener_connects_once [OF r] r show ?thesis by blast
qed

lemma load_plugins_listener:
  "load_plugins config regs s = Inr svc \<Longrightarrow> is_listener svc = is_listener s \<and> is_callbacks svc = is_callbacks s
    \<and> is_vsock svc = is_vsock s @ map (\<lambda>g. (pg_id g, word_of_int (ic_VSockContextID config), word_of_int (ic_StreamPort config)))
          (filter (\<lambda>g. pg_vsock g \<and> pg_streaming g) regs)"
proof (induction regs arbitrary: s)
  case (Cons g gs)
  let ?set = "pg_vsock g \<and> pg_streaming g"
    and ?at = "(pg_id g, word_of_int (ic_VSockContextID config), word_of_int (ic_StreamPort config))"
  obtain s' where "load_plugins config gs s' = Inr svc" "is_listener s' = is_listener s" "is_callbacks s' = is_callbacks s"
    "is_vsock s' = is_vsock s @ (if ?set then [?at] else [])"
    using Cons.prems by (cases ?set) (auto simp: Let_def split: if_splits option.splits loaded.splits)
  with Cons.IH [of s'] show ?case by auto
qed simp

text \<open>
  C17. Host and guest meet: when the instance was started with the arguments the shim makes, the init of
  the guest, run with the command line it was given, dials the host on the port that libkrun connects to
  the very socket the shim listens on, \<open>run_vminitd.sock\<close> in its state directory relative to the working
  directory; and every streaming plugin that takes a vsock address, and no other plugin, is given context
  3 and the port that libkrun leads the shim's stream socket to.
\<close>

theorem guest_dials_host:
  assumes "instance_Start lib env (init_args net debug nws dump) v = (None, v')"
    and "netip_law net" and "\<forall>n\<in>set nws. (\<exists>s. parseNetwork net s = Inr n) \<and> \<not> addr_conflict n"
  shows "\<exists>args config cwd p path sport. (KSetExec (vi_ctxID v) ''/sbin/vminitd'' args guest_environ, 0) \<in> set (vi_calls v')
    \<and> ParseFlags net args = Inr config \<and> ic_Networks config = map to_vm nws
    \<and> sn_cwd env = Inr cwd \<and> path_rel cwd (path_join [vi_state v, ''run_vminitd.sock'']) = Inr path \<and> sn_listen env path = None
    \<and> (KAddVsockPort (vi_ctxID v) p path False, 0) \<in> set (vi_calls v')
    \<and> path_rel cwd (vi_streamPath v) = Inr (vi_streamPath v')
    \<and> (KAddVsockPort (vi_ctxID v) sport (vi_streamPath v') True, 0) \<in> set (vi_calls v')
    \<and> (\<forall>server regs cbs svc. newService server regs config cbs = Inr svc \<longrightarrow>
          fst (dl_Accept None (is_listener svc)) = AcceptConn
        \<and> dl_dials (snd (dl_Accept None (is_listener svc))) = [(hostCID, p)]
        \<and> is_callbacks svc = cbs @ [CbListenerClose, CbServerShutdown]
        \<and> is_vsock svc = map (\<lambda>g. (pg_id g, 3, sport)) (filter (\<lambda>g. pg_vsock g \<and> pg_streaming g) regs))"
proof -
  let ?c = "vsock_Config\<lparr>ic_Debug := debug, ic_Networks := map to_vm nws, ic_DumpInfo := dump\<rparr>"
  have "\<forall>n\<in>set nws. \<exists>s. parseNetwork net s = Inr n" using assms(3) by blast
  from guest_configured_calls [OF assms(1,2) this] obtain args cwd p where
    exec: "(KSetExec (vi_ctxID v) ''/sbin/vminitd'' args guest_environ, 0) \<in> set (vi_calls v')"
    and cfg: "ParseFlags net args = Inr ?c"
    and paths: "sn_cwd env = Inr cwd" "path_rel cwd (path_join [vi_state v, ''run_vminitd.sock'']) = Inr p" "sn_listen env p = None"
      "path_rel cwd (vi_streamPath v) = Inr (vi_streamPath v')"
    and ports: "(KAddVsockPort (vi_ctxID v) (of_int (ic_RPCPort vsock_Config)) p False, 0) \<in> set (vi_calls v')"
      "(KAddVsockPort (vi_ctxID v) (of_int (ic_StreamPort vsock_Config)) (vi_streamPath v') True, 0) \<in> set (vi_calls v')"
    using assms(3) by blast
  have svc: "fst (dl_Accept None (is_listener svc)) = AcceptConn
      \<and> dl_dials (snd (dl_Accept None (is_listener svc))) = [(hostCID, of_int (ic_RPCPort vsock_Config))]
      \<and> is_callbacks svc = cbs @ [CbListenerClose, CbServerShutdown]
      \<and> is_vsock svc = map (\<lambda>g. (pg_id g, 3, of_int (ic_StreamPort vsock_Config)))
            (filter (\<lambda>g. pg_vsock g \<and> pg_streaming g) regs)"
    if "newService server regs ?c cbs = Inr svc" for server regs cbs svc
  proof -
    from that have "load_plugins ?c regs \<lparr>is_listener = newDialBackListener hostCID (word_of_int (ic_RPCPort ?c)),
        is_registered = [], is_vsock = [], is_callbacks = cbs @ [CbListenerClose, CbServerShutdown]\<rparr> = Inr svc"
      by (auto simp: newService_def Let_def split: option.splits)
    from load_plugins_listener [OF this] show ?thesis
      by (auto simp: dl_Accept_def newDialBackListener_def Let_def vsock_Config_def)
  qed
  show ?thesis
    by (intro exI [of _ args] exI [of _ ?c] exI [of _ cwd] exI [of _ "of_int (ic_RPCPort vsock_Config)"] exI [of _ p]
          exI [of _ "of_int (ic_StreamPort vsock_Config)"])
       (use exec cfg paths ports svc in simp)
qed

definition demo_regs :: "plugin_reg list" where
  "demo_regs = [\<lparr>pg_id = ''streaming'', pg_vsock = True, pg_streaming = True, pg_add = None, pg_load = LoadOK False\<rparr>,
     \<lparr>pg_id = ''task'', pg_vsock = False, pg_streaming = False, pg_add = None, pg_load = LoadOK True\<rparr>]"

theorem guest_dials_host_witness:
  "\<exists>v' args config p path sport svc. instance_Start calm_lib calm_start (init_args demo_net True [] False) demo_instance = (None, v')
     \<and> ParseFlags demo_net args = Inr config \<and> (KAddVsockPort 0 p path False, 0) \<in> set (vi_calls v')
     \<and> is_vsock svc = [(''streaming'', 3, sport)]
     \<and> (KAddVsockPort 0 sport (vi_streamPath v') True, 0) \<in> set (vi_calls v')
     \<and> newService None demo_regs config [] = Inr svc \<and> is_registered svc = [''task'']
     \<and> dl_dials (snd (dl_Accept None (is_listener svc))) = [(hostCID, p)]"
proof -
  obtain v' where s: "instance_Start calm_lib calm_start (init_args demo_net True [] False) demo_instance = (None, v')"
    using demo_start by (metis prod.collapse)
  have law: "netip_law demo_net"
    by (auto simp: netip_law_def demo_net_def split: if_splits)
  have ctx: "vi_ctxID demo_instance = 0" by (simp add: demo_instance_def)
  obtain args config p path sport where c: "ParseFlags demo_net args = Inr config"
    and p: "(KAddVsockPort 0 p path False, 0) \<in> set (vi_calls v')"
      "(KAddVsockPort 0 sport (vi_streamPath v') True, 0) \<in> set (vi_calls v')"
    and svc: "\<And>svc. newService None demo_regs config [] = Inr svc \<Longrightarrow>
        dl_dials (snd (dl_Accept None (is_listener svc))) = [(hostCID, p)] \<and>
        is_vsock svc = map (\<lambda>g. (pg_id g, 3, sport)) (filter (\<lambda>g. pg_vsock g \<and> pg_streaming g) demo_regs)"
    using guest_dials_host [OF s law, unfolded ctx] by force
  obtain svc where new: "newService None demo_regs config [] = Inr svc" "is_registered svc = [''task'']"
    by (simp add: newService_def demo_regs_def Let_def)
  have "is_vsock svc = [(''streaming'', 3, sport)]"
    using svc [OF new(1)] by (simp add: demo_regs_def)
  with s c p svc [OF new(1)] new show ?thesis by blast
qed

section \<open>The end of the run\<close>

fun run_ends :: "run_event \<Rightarrow> bool" where
  "run_ends (ShutdownDone _) = True"
| "run_ends (ServiceExited _) = True"
| "run_ends _ = False"

lemma run_loop_find:
  "map_option fst (run_loop evs s) =
     map_option (\<lambda>e. case e of ServiceExited r \<Rightarrow> r | _ \<Rightarrow> None) (find run_ends evs)"
  by (induction evs s rule: run_loop.induct) auto

lemma run_loop_reaps:
  "run_loop evs s = Some (r, s') \<Longrightarrow>
     rs_reaps s' = rs_reaps s + length (filter (\<lambda>e. e = Signalled SIGCHLD) (takeWhile (\<lambda>e. \<not> run_ends e) evs))"
  by (induction evs s rule: run_loop.induct) (auto split: if_splits)

text \<open>
  The init daemon runs until the shutdown is done or the service exits, with an error only in the
  second case: signals and failed lease renewals alone never end it. Until then each \<open>SIGCHLD\<close> is a reap.
\<close>

lemma init_runs_until_shutdown:
  assumes "ParseFlags net args = Inr config" and "systemInit env config = Inr leases"
    and "newService server regs config [CbReleaseDHCP leases] = Inr svc"
  shows "initd_Run net env server regs args evs =
    Inr (map_option (\<lambda>e. (case e of ServiceExited r \<Rightarrow> r | _ \<Rightarrow> None, Some svc)) (find run_ends evs))"
proof -
  have "map_option (\<lambda>(r, s). (r, Some svc)) x = map_option (\<lambda>r. (r, Some svc)) (map_option fst x)" for x :: "(go_error option \<times> run_state) option"
    by (cases x) auto
  then have "initd_Run net env server regs args evs =
      Inr (map_option (\<lambda>r. (r, Some svc)) (map_option fst (run_loop evs \<lparr>rs_shutdowns = 0, rs_reaps = 0\<rparr>)))"
    by (simp add: initd_Run_def assms del: option.map_comp)
  then show ?thesis
    unfolding run_loop_find by (simp add: option.map_comp comp_def)
qed

end
