(* ===== verification/Root_FS.thy ===== *)
theory Root_FS
  imports Go_Strings "HOL-Library.Word" "HOL-Library.List_Lexorder" "HOL-Library.Char_ord"
begin

text \<open>
  Files below a directory as \<open>os.Root\<close> of the Go library shows them. A file system maps names (lists of
  elements) to inodes, so that hard links are two names of one inode. A root is the name of a directory;
  its methods follow symbolic links, refuse absolute links and those that lead out of it, and refuse
  modes beyond the nine permission bits, as the library documents. \<open>fs_fault\<close> gives the errors the
  operating system reports for reasons outside the model (no space, no permission).
\<close>

unbundle bit_operations_syntax

section \<open>Names and inodes\<close>

datatype fkind = FReg string | FDir | FSym string | FFifo | FDev bool | FSock

record inode =
  in_kind :: fkind
  in_mode :: "32 word"
  in_uid :: int
  in_gid :: int

record rfs =
  fs_names :: "(string list, nat) gomap"
  fs_inodes :: "(nat, inode) gomap"
  fs_umask :: "32 word"
  fs_fault :: "string \<Rightarrow> string list \<Rightarrow> go_error option"

definition fs_inode :: "rfs \<Rightarrow> string list \<Rightarrow> inode option" where
  "fs_inode fs p = Option.bind (gm_get (fs_names fs) p) (gm_get (fs_inodes fs))"

definition is_dir :: "rfs \<Rightarrow> string list \<Rightarrow> bool" where
  "is_dir fs p \<longleftrightarrow> (case fs_inode fs p of None \<Rightarrow> False | Some n \<Rightarrow> in_kind n = FDir)"

text \<open>An inode number no name and no inode has.\<close>

definition fresh_ino :: "rfs \<Rightarrow> nat" where
  "fresh_ino fs = Suc (fold max (map fst (fs_inodes fs) @ map snd (fs_names fs)) 0)"

definition add_node :: "string list \<Rightarrow> inode \<Rightarrow> rfs \<Rightarrow> rfs" where
  "add_node p n fs = fs\<lparr>fs_names := gm_put p (fresh_ino fs) (fs_names fs), fs_inodes := gm_put (fresh_ino fs) n (fs_inodes fs)\<rparr>"

definition new_node :: "rfs \<Rightarrow> fkind \<Rightarrow> 32 word \<Rightarrow> inode" where
  "new_node fs k perm = \<lparr>in_kind = k, in_mode = perm AND NOT (fs_umask fs), in_uid = 0, in_gid = 0\<rparr>"

section \<open>Resolution of names\<close>

definition path_escapes :: go_error where
  "path_escapes = ErrNew ''path escapes from parent''"

definition enotdir :: go_error where
  "enotdir = Sentinel ''not a directory''"

definition eisdir :: go_error where
  "eisdir = Sentinel ''is a directory''"

definition eloop :: go_error where
  "eloop = Sentinel ''too many levels of symbolic links''"

definition root_max_symlinks :: nat where
  "root_max_symlinks = 40"

text \<open>
  From the directory \<open>at\<close> below the root \<open>d\<close>, with at most \<open>k\<close> links: the place the name leads to, which
  need not exist itself. The last element is followed only if asked for.
\<close>

function resolve ::
  "rfs \<Rightarrow> string list \<Rightarrow> bool \<Rightarrow> nat \<Rightarrow> string list \<Rightarrow> string list \<Rightarrow> string list result" where
  "resolve fs d follow k at [] = Inr at"
| "resolve fs d follow k at (c # cs) =
     (if c = [] \<or> c = ''.'' then resolve fs d follow k at cs
      else if c = ''..'' then if at = [] then Inl path_escapes else resolve fs d follow k (butlast at) cs
      else case fs_inode fs (d @ at @ [c]) of
        None \<Rightarrow> if cs = [] then Inr (at @ [c]) else Inl enoent
      | Some n \<Rightarrow>
          (case in_kind n of
             FDir \<Rightarrow> resolve fs d follow k (at @ [c]) cs
           | FSym t \<Rightarrow>
               if cs = [] \<and> \<not> follow then Inr (at @ [c])
               else if k = 0 then Inl eloop
               else if t = [] then Inl enoent
               else if path_is_abs t then Inl path_escapes
               else resolve fs d follow (k - 1) at (split_on (CHR ''/'') t @ cs)
           | _ \<Rightarrow> if cs = [] then Inr (at @ [c]) else Inl enotdir))"
  by pat_completeness auto

termination
  by (relation "measures [\<lambda>(fs, d, follow, k, at, cs). k, \<lambda>(fs, d, follow, k, at, cs). length cs]") auto

definition root_path :: "rfs \<Rightarrow> string list \<Rightarrow> bool \<Rightarrow> string \<Rightarrow> string list result" where
  "root_path fs d follow name =
     (if name = [] then Inl (ErrNew ''empty path'')
      else if path_is_abs name then Inl path_escapes
      else resolve fs d follow root_max_symlinks [] (split_on (CHR ''/'') name))"

section \<open>Methods of a root\<close>

definition faulty :: "rfs \<Rightarrow> string \<Rightarrow> string list \<Rightarrow> 'a result \<Rightarrow> 'a result" where
  "faulty fs op p r = (case fs_fault fs op p of Some e \<Rightarrow> Inl e | None \<Rightarrow> r)"

definition root_Lstat :: "rfs \<Rightarrow> string list \<Rightarrow> string \<Rightarrow> inode result" where
  "root_Lstat fs d name =
     (case root_path fs d False name of
        Inl e \<Rightarrow> Inl e
      | Inr r \<Rightarrow> faulty fs ''lstat'' (d @ r) (case fs_inode fs (d @ r) of None \<Rightarrow> Inl enoent | Some n \<Rightarrow> Inr n))"

definition root_Readlink :: "rfs \<Rightarrow> string list \<Rightarrow> string \<Rightarrow> string result" where
  "root_Readlink fs d name =
     (case root_path fs d False name of
        Inl e \<Rightarrow> Inl e
      | Inr r \<Rightarrow> faulty fs ''readlink'' (d @ r)
          (case fs_inode fs (d @ r) of
             None \<Rightarrow> Inl enoent
           | Some n \<Rightarrow> (case in_kind n of FSym t \<Rightarrow> Inr t | _ \<Rightarrow> Inl (Sentinel ''invalid argument''))))"

text \<open>Opening a file and reading all of it.\<close>

definition root_ReadFile :: "rfs \<Rightarrow> string list \<Rightarrow> string \<Rightarrow> string result" where
  "root_ReadFile fs d name =
     (case root_path fs d True name of
        Inl e \<Rightarrow> Inl e
      | Inr r \<Rightarrow> faulty fs ''open'' (d @ r)
          (case fs_inode fs (d @ r) of
             None \<Rightarrow> Inl enoent
           | Some n \<Rightarrow> (case in_kind n of FReg b \<Rightarrow> Inr b | FDir \<Rightarrow> Inl eisdir | _ \<Rightarrow> Inl (Sentinel ''no such device or address''))))"

definition root_OpenRoot :: "rfs \<Rightarrow> string list \<Rightarrow> string \<Rightarrow> string list result" where
  "root_OpenRoot fs d name =
     (case root_path fs d True name of
        Inl e \<Rightarrow> Inl e
      | Inr r \<Rightarrow> faulty fs ''openroot'' (d @ r)
          (case fs_inode fs (d @ r) of
             None \<Rightarrow> Inl enoent
           | Some n \<Rightarrow> if in_kind n = FDir then Inr (d @ r) else Inl enotdir))"

definition perm_ok :: "32 word \<Rightarrow> bool" where
  "perm_ok perm \<longleftrightarrow> perm AND 0x1FF = perm"

definition unsupported_mode :: go_error where
  "unsupported_mode = ErrNew ''unsupported file mode''"

text \<open>
  \<open>MkdirAll\<close> makes the missing directories as it walks. A last element that exists is fine when it is a
  directory or a link that leads to one, and an error \<open>EEXIST\<close> otherwise: a last link is not followed to make
  its target.
\<close>

definition leads_to_dir :: "rfs \<Rightarrow> string list \<Rightarrow> nat \<Rightarrow> string list \<Rightarrow> string list \<Rightarrow> bool" where
  "leads_to_dir fs d k at cs \<longleftrightarrow>
     (case resolve fs d True k at cs of
        Inl e \<Rightarrow> False
      | Inr r \<Rightarrow> fs_fault fs ''stat'' (d @ r) = None \<and> is_dir fs (d @ r))"

function mkdir_all :: "string list \<Rightarrow> 32 word \<Rightarrow> nat \<Rightarrow> string list \<Rightarrow> string list \<Rightarrow> rfs \<Rightarrow> go_error option \<times> rfs" where
  "mkdir_all d perm k at [] fs = (None, fs)"
| "mkdir_all d perm k at (c # cs) fs =
     (if c = [] \<or> c = ''.'' then mkdir_all d perm k at cs fs
      else if c = ''..'' then if at = [] then (Some path_escapes, fs) else mkdir_all d perm k (butlast at) cs fs
      else case fs_inode fs (d @ at @ [c]) of
        None \<Rightarrow>
          (case fs_fault fs ''mkdir'' (d @ at @ [c]) of
             Some e \<Rightarrow> (Some e, fs)
           | None \<Rightarrow> mkdir_all d perm k (at @ [c]) cs (add_node (d @ at @ [c]) (new_node fs FDir perm) fs))
      | Some n \<Rightarrow>
          (case in_kind n of
             FDir \<Rightarrow> mkdir_all d perm k (at @ [c]) cs fs
           | FSym t \<Rightarrow>
               if list_all (\<lambda>x. x = []) cs then
                 (if leads_to_dir fs d k at (c # cs) then (None, fs) else (Some eexist, fs))
               else if k = 0 then (Some eloop, fs)
               else if t = [] then (Some enoent, fs)
               else if path_is_abs t then (Some path_escapes, fs)
               else mkdir_all d perm (k - 1) at (split_on (CHR ''/'') t @ cs) fs
           | _ \<Rightarrow> (Some (if list_all (\<lambda>x. x = []) cs then eexist else enotdir), fs)))"
  by pat_completeness auto

termination
  by (relation "measures [\<lambda>(d, perm, k, at, cs, fs). k, \<lambda>(d, perm, k, at, cs, fs). length cs]") auto

definition root_MkdirAll :: "string list \<Rightarrow> string \<Rightarrow> 32 word \<Rightarrow> rfs \<Rightarrow> go_error option \<times> rfs" where
  "root_MkdirAll d name perm fs =
     (if \<not> perm_ok perm then (Some unsupported_mode, fs)
      else if name = [] then (Some (ErrNew ''empty path''), fs)
      else if path_is_abs name then (Some path_escapes, fs)
      else mkdir_all d perm root_max_symlinks [] (split_on (CHR ''/'') name) fs)"

text \<open>
  \<open>OpenFile\<close> with \<open>O_CREATE|O_WRONLY|O_TRUNC\<close>: the inode of the regular file, or none for a fifo or a
  device, which takes what is written without a change of the tree.
\<close>

definition root_OpenFile :: "string list \<Rightarrow> string \<Rightarrow> 32 word \<Rightarrow> rfs \<Rightarrow> nat option result \<times> rfs" where
  "root_OpenFile d name perm fs =
     (if \<not> perm_ok perm then (Inl unsupported_mode, fs)
      else case root_path fs d True name of
        Inl e \<Rightarrow> (Inl e, fs)
      | Inr r \<Rightarrow>
          (case fs_fault fs ''openfile'' (d @ r) of
             Some e \<Rightarrow> (Inl e, fs)
           | None \<Rightarrow>
               (case gm_get (fs_names fs) (d @ r) of
                  None \<Rightarrow> (Inr (Some (fresh_ino fs)), add_node (d @ r) (new_node fs (FReg []) perm) fs)
                | Some i \<Rightarrow>
                    (case gm_get (fs_inodes fs) i of
                       None \<Rightarrow> (Inl enoent, fs)
                     | Some n \<Rightarrow>
                         (case in_kind n of
                            FReg b \<Rightarrow> (Inr (Some i), fs\<lparr>fs_inodes := gm_put i (n\<lparr>in_kind := FReg []\<rparr>) (fs_inodes fs)\<rparr>)
                          | FDir \<Rightarrow> (Inl eisdir, fs)
                          | FSym t \<Rightarrow> (Inl eloop, fs)
                          | FSock \<Rightarrow> (Inl (Sentinel ''no such device or address''), fs)
                          | _ \<Rightarrow> (Inr None, fs))))))"

definition file_write :: "nat option \<Rightarrow> string \<Rightarrow> rfs \<Rightarrow> rfs" where
  "file_write h b fs =
     (case h of
        None \<Rightarrow> fs
      | Some i \<Rightarrow>
          (case gm_get (fs_inodes fs) i of
             None \<Rightarrow> fs
           | Some n \<Rightarrow> fs\<lparr>fs_inodes := gm_put i (n\<lparr>in_kind := FReg b\<rparr>) (fs_inodes fs)\<rparr>))"

definition root_Symlink :: "string list \<Rightarrow> string \<Rightarrow> string \<Rightarrow> rfs \<Rightarrow> go_error option \<times> rfs" where
  "root_Symlink d old new fs =
     (case root_path fs d False new of
        Inl e \<Rightarrow> (Some e, fs)
      | Inr r \<Rightarrow>
          (case fs_fault fs ''symlink'' (d @ r) of
             Some e \<Rightarrow> (Some e, fs)
           | None \<Rightarrow>
               if old = [] then (Some enoent, fs)
               else if gm_get (fs_names fs) (d @ r) \<noteq> None then (Some eexist, fs)
               else (None, add_node (d @ r) \<lparr>in_kind = FSym old, in_mode = 0x1FF, in_uid = 0, in_gid = 0\<rparr> fs)))"

definition root_Link :: "string list \<Rightarrow> string \<Rightarrow> string \<Rightarrow> rfs \<Rightarrow> go_error option \<times> rfs" where
  "root_Link d old new fs =
     (case root_path fs d False old of
        Inl e \<Rightarrow> (Some e, fs)
      | Inr o1 \<Rightarrow>
          (case root_path fs d False new of
             Inl e \<Rightarrow> (Some e, fs)
           | Inr r \<Rightarrow>
               (case fs_fault fs ''link'' (d @ r) of
                  Some e \<Rightarrow> (Some e, fs)
                | None \<Rightarrow>
                    (case gm_get (fs_names fs) (d @ o1) of
                       None \<Rightarrow> (Some enoent, fs)
                     | Some i \<Rightarrow>
                         if is_dir fs (d @ o1) then (Some (Sentinel ''operation not permitted''), fs)
                         else if gm_get (fs_names fs) (d @ r) \<noteq> None then (Some eexist, fs)
                         else (None, fs\<lparr>fs_names := gm_put (d @ r) i (fs_names fs)\<rparr>)))))"

definition root_Lchown :: "string list \<Rightarrow> string \<Rightarrow> int \<Rightarrow> int \<Rightarrow> rfs \<Rightarrow> go_error option \<times> rfs" where
  "root_Lchown d name uid gid fs =
     (case root_path fs d False name of
        Inl e \<Rightarrow> (Some e, fs)
      | Inr r \<Rightarrow>
          (case fs_fault fs ''lchown'' (d @ r) of
             Some e \<Rightarrow> (Some e, fs)
           | None \<Rightarrow>
               (case gm_get (fs_names fs) (d @ r) of
                  None \<Rightarrow> (Some enoent, fs)
                | Some i \<Rightarrow>
                    (case gm_get (fs_inodes fs) i of
                       None \<Rightarrow> (Some enoent, fs)
                     | Some n \<Rightarrow>
                         (None, fs\<lparr>fs_inodes := gm_put i
                            (n\<lparr>in_uid := (if uid = -1 then in_uid n else uid), in_gid := (if gid = -1 then in_gid n else gid)\<rparr>)
                            (fs_inodes fs)\<rparr>)))))"

text \<open>
  The names of a directory, sorted, and the walk below it, with the error of a directory that cannot be
  read. The fuel is a bound on the depth.
\<close>

definition read_dir :: "rfs \<Rightarrow> string list \<Rightarrow> string list" where
  "read_dir fs p = sort (map last (filter (\<lambda>q. q \<noteq> [] \<and> butlast q = p) (map fst (fs_names fs))))"

fun walk_dir :: "nat \<Rightarrow> rfs \<Rightarrow> string list \<Rightarrow> (string list \<times> go_error option) list" where
  "walk_dir 0 fs p = []"
| "walk_dir (Suc n) fs p =
     (p, None) #
     (if \<not> is_dir fs p then []
      else case fs_fault fs ''readdir'' p of
             Some e \<Rightarrow> [(p, Some e)]
           | None \<Rightarrow> concat (map (\<lambda>c. walk_dir n fs (p @ [c])) (read_dir fs p)))"

definition walk_depth :: "rfs \<Rightarrow> nat" where
  "walk_depth fs = Suc (fold max (map (length \<circ> fst) (fs_names fs)) 0)"

section \<open>Well-formed trees\<close>

definition fs_wf :: "rfs \<Rightarrow> bool" where
  "fs_wf fs \<longleftrightarrow> gm_wf (fs_names fs) \<and> is_dir fs []
     \<and> (\<forall>p i. gm_get (fs_names fs) p = Some i \<longrightarrow> gm_get (fs_inodes fs) i \<noteq> None)
     \<and> (\<forall>p c. gm_get (fs_names fs) (p @ [c]) \<noteq> None \<longrightarrow> is_dir fs p \<and> proper_elem c)
     \<and> (\<forall>p q i. gm_get (fs_names fs) p = Some i \<and> gm_get (fs_names fs) q = Some i \<and> is_dir fs p \<longrightarrow> p = q)"

lemma fold_max_ge: "x \<le> fold max xs x" for x :: nat
proof (induction xs arbitrary: x)
  case (Cons a xs)
  have "x \<le> max a x" by simp
  also have "\<dots> \<le> fold max xs (max a x)" by (rule Cons.IH)
  finally show ?case by simp
qed simp

lemma fold_max_mem: "y \<in> set xs \<Longrightarrow> y \<le> fold max xs x" for x :: nat
proof (induction xs arbitrary: x)
  case (Cons a xs)
  show ?case
  proof (cases "y = a")
    case True
    then have "y \<le> max a x" by simp
    also have "\<dots> \<le> fold max xs (max a x)" by (rule fold_max_ge)
    finally show ?thesis by simp
  next
    case False
    with Cons show ?thesis by simp
  qed
qed simp

lemma fresh_ino_inodes [simp]: "gm_get (fs_inodes fs) (fresh_ino fs) = None"
proof (rule ccontr)
  assume "gm_get (fs_inodes fs) (fresh_ino fs) \<noteq> None"
  then have "fresh_ino fs \<in> set (map fst (fs_inodes fs) @ map snd (fs_names fs))"
    by (force dest: map_of_SomeD)
  from fold_max_mem [OF this, of 0] show False by (simp add: fresh_ino_def)
qed

lemma fresh_ino_names [simp]: "gm_get (fs_names fs) p \<noteq> Some (fresh_ino fs)"
proof
  assume "gm_get (fs_names fs) p = Some (fresh_ino fs)"
  then have "fresh_ino fs \<in> set (map fst (fs_inodes fs) @ map snd (fs_names fs))"
    by (force dest: map_of_SomeD)
  from fold_max_mem [OF this, of 0] show False by (simp add: fresh_ino_def)
qed

lemma fs_inode_add [simp]:
  "fs_inode (add_node p n fs) q = (if q = p then Some n else fs_inode fs q)"
  by (cases "gm_get (fs_names fs) q") (auto simp: fs_inode_def add_node_def)

lemma is_dir_add: "is_dir (add_node p n fs) q \<longleftrightarrow> (if q = p then in_kind n = FDir else is_dir fs q)"
  by (simp add: is_dir_def)

lemma names_add [simp]: "gm_get (fs_names (add_node p n fs)) q = (if q = p then Some (fresh_ino fs) else gm_get (fs_names fs) q)"
  by (simp add: add_node_def)

lemma is_dir_named: "is_dir fs p \<Longrightarrow> gm_get (fs_names fs) p \<noteq> None"
  by (cases "gm_get (fs_names fs) p") (auto simp: is_dir_def fs_inode_def)

lemma fs_wf_parent: "fs_wf fs \<Longrightarrow> gm_get (fs_names fs) p \<noteq> None \<Longrightarrow> p \<noteq> [] \<Longrightarrow> is_dir fs (butlast p) \<and> proper_elem (last p)"
  unfolding fs_wf_def by (metis append_butlast_last_id)

lemma fs_wf_inode: "fs_wf fs \<Longrightarrow> fs_inode fs p = None \<longleftrightarrow> gm_get (fs_names fs) p = None"
  by (cases "gm_get (fs_names fs) p") (auto simp: fs_wf_def fs_inode_def)

lemma fs_wf_add:
  assumes "fs_wf fs" and "gm_get (fs_names fs) p = None" and "is_dir fs (butlast p)" and "proper_elem (last p)" and "p \<noteq> []"
  shows "fs_wf (add_node p n fs)"
proof -
  let ?fs = "add_node p n fs"
  have dir: "is_dir ?fs q" if "is_dir fs q" for q
    using that assms(2) is_dir_named [OF that] by (auto simp: is_dir_add)
  have none: "gm_get (fs_names fs) (p @ [c]) = None" for c
    using assms(1,2) is_dir_named unfolding fs_wf_def by blast
  have "is_dir ?fs q \<and> proper_elem c" if "gm_get (fs_names ?fs) (q @ [c]) \<noteq> None" for q c
  proof (cases "q @ [c] = p")
    case True
    with assms(3,4) dir show ?thesis by (metis butlast_snoc last_snoc)
  next
    case False
    with that have "gm_get (fs_names fs) (q @ [c]) \<noteq> None" by simp
    with assms(1) have "is_dir fs q \<and> proper_elem c" unfolding fs_wf_def by blast
    with dir show ?thesis by blast
  qed
  moreover have "gm_get (fs_inodes ?fs) i \<noteq> None" if "gm_get (fs_names ?fs) q = Some i" for q i
    using that assms(1) by (auto simp: fs_wf_def add_node_def split: if_splits)
  moreover have "q = r" if "gm_get (fs_names ?fs) q = Some i" "gm_get (fs_names ?fs) r = Some i" "is_dir ?fs q" for q r i
  proof (cases "q = p \<or> r = p")
    case True
    with that(1,2) fresh_ino_names [of fs] show ?thesis by (auto split: if_splits)
  next
    case False
    with that have "gm_get (fs_names fs) q = Some i" "gm_get (fs_names fs) r = Some i" "is_dir fs q"
      by (simp_all add: is_dir_add)
    with assms(1) show ?thesis unfolding fs_wf_def by blast
  qed
  moreover have "gm_wf (fs_names ?fs)" "is_dir ?fs []"
    using assms(1) dir by (simp_all add: fs_wf_def add_node_def)
  ultimately show ?thesis unfolding fs_wf_def by blast
qed

text \<open>A change of an inode that keeps what it is.\<close>

definition same_kind :: "inode \<Rightarrow> inode \<Rightarrow> bool" where
  "same_kind n m \<longleftrightarrow> (in_kind n = FDir \<longleftrightarrow> in_kind m = FDir)"

lemma is_dir_put:
  assumes "gm_get (fs_inodes fs) i = Some n" and "same_kind n m"
  shows "is_dir (fs\<lparr>fs_inodes := gm_put i m (fs_inodes fs)\<rparr>) p \<longleftrightarrow> is_dir fs p"
  using assms by (cases "gm_get (fs_names fs) p") (auto simp: is_dir_def fs_inode_def same_kind_def split: option.splits)

lemma fs_wf_put:
  assumes "fs_wf fs" and "gm_get (fs_inodes fs) i = Some n" and "same_kind n m"
  shows "fs_wf (fs\<lparr>fs_inodes := gm_put i m (fs_inodes fs)\<rparr>)"
proof -
  note d = is_dir_put [OF assms(2,3)]
  from assms(1) show ?thesis unfolding fs_wf_def d by auto
qed

lemma fs_wf_link:
  assumes "fs_wf fs" and "gm_get (fs_names fs) q = Some i" and "\<not> is_dir fs q"
    and "gm_get (fs_names fs) p = None" and "is_dir fs (butlast p)" and "proper_elem (last p)" and "p \<noteq> []"
  shows "fs_wf (fs\<lparr>fs_names := gm_put p i (fs_names fs)\<rparr>)" (is "fs_wf ?fs")
proof -
  have dir: "is_dir ?fs r \<longleftrightarrow> is_dir fs r" for r
    using assms(2,3,4) by (auto simp: is_dir_def fs_inode_def)
  have "is_dir fs r \<and> proper_elem c" if "gm_get (fs_names ?fs) (r @ [c]) \<noteq> None" for r c
  proof (cases "r @ [c] = p")
    case True
    with assms(5,6) show ?thesis by (metis butlast_snoc last_snoc)
  next
    case False
    with that assms(1) show ?thesis unfolding fs_wf_def by simp
  qed
  moreover have "r = s" if "gm_get (fs_names ?fs) r = Some j" "gm_get (fs_names ?fs) s = Some j" "is_dir fs r" for r s j
  proof -
    have r: "r \<noteq> p" using that(3) assms(4) is_dir_named by blast
    show ?thesis
    proof (cases "s = p")
      case True
      with that r have "gm_get (fs_names fs) r = Some i" by simp
      with assms(1,2,3) that(3) show ?thesis unfolding fs_wf_def by metis
    next
      case False
      with that r assms(1) show ?thesis unfolding fs_wf_def by simp
    qed
  qed
  moreover have "gm_get (fs_inodes ?fs) j \<noteq> None" if "gm_get (fs_names ?fs) r = Some j" for r j
    using that assms(1,2) by (auto simp: fs_wf_def split: if_splits)
  moreover have "gm_wf (fs_names ?fs)" "is_dir fs []" using assms(1) by (simp_all add: fs_wf_def)
  ultimately show ?thesis unfolding fs_wf_def dir by blast
qed

section \<open>Resolution leads to a place in a directory\<close>

definition in_dir :: "rfs \<Rightarrow> string list \<Rightarrow> string list \<Rightarrow> bool" where
  "in_dir fs d r \<longleftrightarrow> r = [] \<or> is_dir fs (d @ butlast r) \<and> proper_elem (last r)"

definition slash_free :: "string list \<Rightarrow> bool" where
  "slash_free cs \<longleftrightarrow> (\<forall>c\<in>set cs. CHR ''/'' \<notin> set c)"

lemma slash_free_simps [simp]:
  "slash_free []" "slash_free (c # cs) \<longleftrightarrow> CHR ''/'' \<notin> set c \<and> slash_free cs"
  "slash_free (xs @ ys) \<longleftrightarrow> slash_free xs \<and> slash_free ys" "slash_free (split_on (CHR ''/'') s)"
  by (auto simp: slash_free_def dest: split_on_parts)

lemma is_dir_prefix:
  assumes "fs_wf fs" and "is_dir fs (d @ xs)"
  shows "is_dir fs (d @ butlast xs)" and "xs = [] \<or> proper_elem (last xs)"
proof -
  have "xs = [] \<or> is_dir fs (d @ butlast xs) \<and> proper_elem (last xs)"
    using fs_wf_parent [OF assms(1) is_dir_named [OF assms(2)]] by (auto simp: butlast_append)
  with assms(2) show "is_dir fs (d @ butlast xs)" and "xs = [] \<or> proper_elem (last xs)" by auto
qed

lemma in_dir_self: "fs_wf fs \<Longrightarrow> is_dir fs (d @ xs) \<Longrightarrow> in_dir fs d xs"
  unfolding in_dir_def by (blast dest: is_dir_prefix)

lemma resolve_in_dir:
  "fs_wf fs \<Longrightarrow> is_dir fs (d @ at) \<Longrightarrow> slash_free cs \<Longrightarrow> resolve fs d follow k at cs = Inr r \<Longrightarrow> in_dir fs d r"
proof (induction fs d follow k at cs rule: resolve.induct)
  case (1 fs d follow k at)
  then show ?case by (auto intro: in_dir_self)
next
  case (2 fs d follow k at c cs)
  consider "c = [] \<or> c = ''.''" | "c = ''..''" | "proper_elem c"
    using 2 by (auto simp: proper_elem_def)
  then show ?case
  proof cases
    case 1
    with 2 show ?thesis by simp
  next
    case c: 2
    with 2 show ?thesis using is_dir_prefix(1) [of fs d at] by (simp split: if_splits)
  next
    case c: 3
    then have ne: "\<not> (c = [] \<or> c = ''.'')" "c \<noteq> ''..''" by (auto simp: proper_elem_def)
    have leaf: "in_dir fs d (at @ [c])" using c 2 by (simp add: in_dir_def)
    show ?thesis
    proof (cases "fs_inode fs (d @ at @ [c])")
      case None
      with 2 ne leaf show ?thesis by (auto split: if_splits)
    next
      case (Some n)
      have dir: "in_kind n = FDir \<Longrightarrow> is_dir fs (d @ at @ [c])"
        using Some by (simp add: is_dir_def)
      show ?thesis
        using "2.prems" leaf dir ne Some "2.IH"(3,4)
        by (cases "in_kind n") (auto split: if_splits)
    qed
  qed
qed

lemma root_path_in_dir:
  "fs_wf fs \<Longrightarrow> is_dir fs d \<Longrightarrow> root_path fs d follow name = Inr r \<Longrightarrow> in_dir fs d r"
  using resolve_in_dir [of fs d "[]" "split_on (CHR ''/'') name" follow root_max_symlinks r]
  by (simp add: root_path_def split: if_splits)

section \<open>Changes stay below a root\<close>

definition named_under :: "string list \<Rightarrow> rfs \<Rightarrow> nat \<Rightarrow> bool" where
  "named_under d fs i \<longleftrightarrow> (\<exists>r. gm_get (fs_names fs) (d @ r) = Some i)"

definition fs_contained :: "string list \<Rightarrow> rfs \<Rightarrow> rfs \<Rightarrow> bool" where
  "fs_contained d fs fs' \<longleftrightarrow>
     (\<forall>p. \<not> prefix d p \<longrightarrow> gm_get (fs_names fs') p = gm_get (fs_names fs) p)
   \<and> (\<forall>i n. gm_get (fs_inodes fs) i = Some n \<and> \<not> named_under d fs i \<longrightarrow> gm_get (fs_inodes fs') i = Some n)
   \<and> (\<forall>i. named_under d fs' i \<longrightarrow> named_under d fs i \<or> gm_get (fs_inodes fs) i = None)"

lemma contained_refl [simp, intro]: "fs_contained d fs fs"
  by (simp add: fs_contained_def)

lemma contained_trans [trans]: "fs_contained d fs fs' \<Longrightarrow> fs_contained d fs' fs'' \<Longrightarrow> fs_contained d fs fs''"
  unfolding fs_contained_def by (metis not_None_eq)

lemma contained_add [intro]: "fs_contained d fs (add_node (d @ r) n fs)"
  unfolding fs_contained_def named_under_def by (auto simp: add_node_def split: if_splits)

lemma contained_put:
  "gm_get (fs_names fs) (d @ r) = Some i \<Longrightarrow> fs_contained d fs (fs\<lparr>fs_inodes := gm_put i m (fs_inodes fs)\<rparr>)"
  unfolding fs_contained_def named_under_def by auto

lemma contained_link:
  "gm_get (fs_names fs) (d @ q) = Some i \<Longrightarrow> fs_contained d fs (fs\<lparr>fs_names := gm_put (d @ r) i (fs_names fs)\<rparr>)"
  unfolding fs_contained_def named_under_def by (auto split: if_splits)

lemma mkdir_all_contained: "mkdir_all d perm k at cs fs = (e, fs') \<Longrightarrow> fs_contained d fs fs'"
proof (induction d perm k at cs fs arbitrary: e fs' rule: mkdir_all.induct)
  case (2 d perm k at c cs fs)
  show ?case
  proof (cases "c = [] \<or> c = ''.'' \<or> c = ''..''")
    case True
    with 2 show ?thesis by (auto split: if_splits)
  next
    case False
    then have ne: "\<not> (c = [] \<or> c = ''.'')" "c \<noteq> ''..''" by auto
    show ?thesis
    proof (cases "fs_inode fs (d @ at @ [c])")
      case None
      show ?thesis
        using "2.prems" "2.IH"(3) [OF ne None] ne None contained_add [of d fs "at @ [c]"]
        by (auto split: option.splits intro: contained_trans)
    next
      case (Some n)
      then show ?thesis
        using "2.prems" "2.IH"(4,5) [OF ne Some] ne
        by (cases "in_kind n") (auto split: if_splits)
    qed
  qed
qed simp

lemma root_MkdirAll_contained: "root_MkdirAll d name perm fs = (e, fs') \<Longrightarrow> fs_contained d fs fs'"
  by (auto simp: root_MkdirAll_def split: if_splits dest: mkdir_all_contained)

lemma root_OpenFile_contained:
  "root_OpenFile d name perm fs = (h, fs') \<Longrightarrow> fs_contained d fs fs' \<and> (\<forall>i. h = Inr (Some i) \<longrightarrow> named_under d fs' i)"
  by (auto simp: root_OpenFile_def named_under_def split: if_splits sum.splits option.splits fkind.splits
      intro: contained_put)

lemma file_write_contained: "\<forall>i. h = Some i \<longrightarrow> named_under d fs i \<Longrightarrow> fs_contained d fs (file_write h b fs)"
  by (auto simp: file_write_def named_under_def split: option.splits intro: contained_put)

lemma root_Symlink_contained: "root_Symlink d old new fs = (e, fs') \<Longrightarrow> fs_contained d fs fs'"
  by (auto simp: root_Symlink_def split: if_splits sum.splits option.splits)

lemma root_Link_contained: "root_Link d old new fs = (e, fs') \<Longrightarrow> fs_contained d fs fs'"
  by (auto simp: root_Link_def split: if_splits sum.splits option.splits intro: contained_link)

lemma root_Lchown_contained: "root_Lchown d name uid gid fs = (e, fs') \<Longrightarrow> fs_contained d fs fs'"
  by (auto simp: root_Lchown_def split: if_splits sum.splits option.splits intro: contained_put)

section \<open>Changes keep the tree\<close>

text \<open>The tree stays well-formed and directories stay directories.\<close>

definition fs_keeps :: "rfs \<Rightarrow> rfs \<Rightarrow> bool" where
  "fs_keeps fs fs' \<longleftrightarrow> fs_wf fs' \<and> (\<forall>p. is_dir fs p \<longrightarrow> is_dir fs' p)"

lemma fs_keeps_refl [simp]: "fs_keeps fs fs \<longleftrightarrow> fs_wf fs"
  by (simp add: fs_keeps_def)

lemma fs_keeps_trans [trans]: "fs_keeps fs fs' \<Longrightarrow> fs_keeps fs' fs'' \<Longrightarrow> fs_keeps fs fs''"
  by (simp add: fs_keeps_def)

lemma fs_keeps_add:
  assumes "fs_wf fs" and "in_dir fs d r" and "gm_get (fs_names fs) (d @ r) = None" and "is_dir fs d"
  shows "fs_keeps fs (add_node (d @ r) n fs)"
proof -
  have r: "r \<noteq> []" using assms(3,4) is_dir_named [of fs d] by auto
  with assms(2) have "is_dir fs (butlast (d @ r)) \<and> proper_elem (last (d @ r))"
    by (simp add: in_dir_def butlast_append)
  with assms r show ?thesis
    using is_dir_named [of fs "d @ r"] by (auto simp: fs_keeps_def is_dir_add intro!: fs_wf_add)
qed

lemma fs_keeps_put:
  "fs_wf fs \<Longrightarrow> gm_get (fs_inodes fs) i = Some n \<Longrightarrow> same_kind n m \<Longrightarrow> fs_keeps fs (fs\<lparr>fs_inodes := gm_put i m (fs_inodes fs)\<rparr>)"
  by (auto simp: fs_keeps_def is_dir_put intro: fs_wf_put)

lemma fs_keeps_link:
  assumes "fs_wf fs" and "in_dir fs d r" and "is_dir fs d" and "gm_get (fs_names fs) (d @ r) = None"
    and "gm_get (fs_names fs) q = Some i" and "\<not> is_dir fs q"
  shows "fs_keeps fs (fs\<lparr>fs_names := gm_put (d @ r) i (fs_names fs)\<rparr>)"
proof -
  have r: "r \<noteq> []" using assms(3,4) is_dir_named [of fs d] by auto
  with assms(2) have "is_dir fs (butlast (d @ r)) \<and> proper_elem (last (d @ r))"
    by (simp add: in_dir_def butlast_append)
  then have "fs_wf (fs\<lparr>fs_names := gm_put (d @ r) i (fs_names fs)\<rparr>)"
    using assms r by (intro fs_wf_link) auto
  moreover have "is_dir (fs\<lparr>fs_names := gm_put (d @ r) i (fs_names fs)\<rparr>) p" if "is_dir fs p" for p
    using that assms(4) is_dir_named [OF that] by (auto simp: is_dir_def fs_inode_def)
  ultimately show ?thesis by (simp add: fs_keeps_def)
qed

text \<open>\<open>MkdirAll\<close> changes nothing that exists.\<close>

definition fs_grows :: "rfs \<Rightarrow> rfs \<Rightarrow> bool" where
  "fs_grows fs fs' \<longleftrightarrow> (\<forall>p i. gm_get (fs_names fs) p = Some i \<longrightarrow> gm_get (fs_names fs') p = Some i)
     \<and> (\<forall>i n. gm_get (fs_inodes fs) i = Some n \<longrightarrow> gm_get (fs_inodes fs') i = Some n)
     \<and> (\<forall>p. gm_get (fs_names fs) p = None \<and> gm_get (fs_names fs') p \<noteq> None \<longrightarrow> is_dir fs' p)
     \<and> (\<forall>p i. gm_get (fs_names fs') p = Some i \<longrightarrow> gm_get (fs_names fs) p = Some i \<or> gm_get (fs_inodes fs) i = None)"

lemma fs_grows_refl [simp]: "fs_grows fs fs"
  by (auto simp: fs_grows_def)

lemma fs_grows_dir: "fs_grows fs fs' \<Longrightarrow> is_dir fs p \<Longrightarrow> is_dir fs' p"
  by (cases "gm_get (fs_names fs) p") (auto simp: fs_grows_def is_dir_def fs_inode_def split: option.splits)

lemma fs_grows_trans:
  assumes "fs_grows fs fs'" and "fs_grows fs' fs''"
  shows "fs_grows fs fs''"
proof -
  have "is_dir fs'' p" if "gm_get (fs_names fs) p = None" "gm_get (fs_names fs'') p \<noteq> None" for p
    using that assms fs_grows_dir [OF assms(2), of p] by (cases "gm_get (fs_names fs') p") (auto simp: fs_grows_def)
  moreover have "gm_get (fs_names fs) p = Some i \<or> gm_get (fs_inodes fs) i = None" if "gm_get (fs_names fs'') p = Some i" for p i
  proof (cases "gm_get (fs_names fs') p = Some i")
    case True
    with assms(1) show ?thesis by (simp add: fs_grows_def)
  next
    case False
    with that assms(2) have "gm_get (fs_inodes fs') i = None" unfolding fs_grows_def by blast
    with assms(1) show ?thesis unfolding fs_grows_def by (metis not_None_eq)
  qed
  ultimately show ?thesis using assms unfolding fs_grows_def by blast
qed

lemma fs_grows_add:
  assumes "fs_wf fs" and "fs_inode fs p = None"
  shows "fs_grows fs (add_node p (new_node fs FDir perm) fs)"
proof -
  let ?fs = "add_node p (new_node fs FDir perm) fs"
  have "is_dir ?fs p" by (simp add: is_dir_add new_node_def)
  moreover have "gm_get (fs_inodes ?fs) i = Some n" if "gm_get (fs_inodes fs) i = Some n" for i n
    using that by (auto simp: add_node_def)
  moreover have "gm_get (fs_names fs) p = None" using assms by (simp add: fs_wf_inode)
  ultimately show ?thesis by (auto simp: fs_grows_def split: if_splits)
qed

text \<open>Both in one induction.\<close>

definition mkdir_rel :: "rfs \<Rightarrow> rfs \<Rightarrow> bool" where
  "mkdir_rel fs fs' \<longleftrightarrow> fs_keeps fs fs' \<and> fs_grows fs fs'"

lemma mkdir_rel_trans: "mkdir_rel fs fs' \<Longrightarrow> mkdir_rel fs' fs'' \<Longrightarrow> mkdir_rel fs fs''"
  unfolding mkdir_rel_def using fs_keeps_trans fs_grows_trans by blast

lemma mkdir_all_rel:
  "mkdir_all d perm k at cs fs = (e, fs') \<Longrightarrow> fs_wf fs \<Longrightarrow> is_dir fs d \<Longrightarrow> is_dir fs (d @ at) \<Longrightarrow> slash_free cs \<Longrightarrow> mkdir_rel fs fs'"
proof (induction d perm k at cs fs arbitrary: e fs' rule: mkdir_all.induct)
  case (1 d perm k at fs)
  then show ?case by (simp add: mkdir_rel_def)
next
  case (2 d perm k at c cs fs)
  consider "c = [] \<or> c = ''.''" | "c = ''..''" | "proper_elem c"
    using 2 by (auto simp: proper_elem_def)
  then show ?case
  proof cases
    case 1
    with 2 show ?thesis by simp
  next
    case c: 2
    with 2 show ?thesis using is_dir_prefix(1) [of fs d at] by (simp add: mkdir_rel_def split: if_splits)
  next
    case c: 3
    then have ne: "\<not> (c = [] \<or> c = ''.'')" "c \<noteq> ''..''" by (auto simp: proper_elem_def)
    show ?thesis
    proof (cases "fs_inode fs (d @ at @ [c])")
      case None
      let ?fs = "add_node (d @ at @ [c]) (new_node fs FDir perm) fs"
      have "fs_keeps fs ?fs"
        using "2.prems" c None by (intro fs_keeps_add) (simp_all add: in_dir_def fs_wf_inode)
      then have rel: "mkdir_rel fs ?fs" "fs_wf ?fs" "is_dir ?fs d" "is_dir ?fs (d @ at @ [c])"
        using fs_grows_add [OF "2.prems"(2) None] "2.prems"(3)
        by (simp_all add: mkdir_rel_def fs_keeps_def is_dir_add new_node_def)
      show ?thesis
      proof (cases "fs_fault fs ''mkdir'' (d @ at @ [c])")
        case fault: None
        with "2.prems" ne None have "mkdir_all d perm k (at @ [c]) cs ?fs = (e, fs')" by simp
        with "2.IH"(3) [OF ne None fault] rel "2.prems"(5) show ?thesis
          by (auto intro: mkdir_rel_trans)
      qed (use "2.prems" ne None in \<open>simp add: mkdir_rel_def\<close>)
    next
      case (Some n)
      have "in_kind n = FDir \<Longrightarrow> is_dir fs (d @ at @ [c])"
        using Some by (simp add: is_dir_def)
      then show ?thesis
        using "2.prems" "2.IH"(4,5) [OF ne Some] ne Some
        by (cases "in_kind n") (auto simp: mkdir_rel_def split: if_splits)
    qed
  qed
qed

lemma root_MkdirAll_rel:
  "root_MkdirAll d name perm fs = (e, fs') \<Longrightarrow> fs_wf fs \<Longrightarrow> is_dir fs d \<Longrightarrow> mkdir_rel fs fs'"
  using mkdir_all_rel [of d perm root_max_symlinks "[]" "split_on (CHR ''/'') name" fs e fs']
  by (auto simp: root_MkdirAll_def mkdir_rel_def split: if_splits)

lemma root_MkdirAll_keeps:
  "root_MkdirAll d name perm fs = (e, fs') \<Longrightarrow> fs_wf fs \<Longrightarrow> is_dir fs d \<Longrightarrow> fs_keeps fs fs'"
  using root_MkdirAll_rel mkdir_rel_def by blast

lemma root_OpenFile_keeps:
  assumes "root_OpenFile d name perm fs = (h, fs')" and "fs_wf fs" and "is_dir fs d"
  shows "fs_keeps fs fs'" and "h = Inr (Some i) \<Longrightarrow> \<exists>n b. gm_get (fs_inodes fs') i = Some n \<and> in_kind n = FReg b"
proof -
  note d = root_path_in_dir [OF assms(2,3)]
  show "fs_keeps fs fs'"
    using assms(1,2) fs_keeps_add [OF assms(2) d _ assms(3)]
    by (auto simp: root_OpenFile_def same_kind_def split: if_splits sum.splits option.splits fkind.splits intro: fs_keeps_put)
  show "\<exists>n b. gm_get (fs_inodes fs') i = Some n \<and> in_kind n = FReg b" if "h = Inr (Some i)"
    using assms(1) that
    by (auto simp: root_OpenFile_def add_node_def new_node_def split: if_splits sum.splits option.splits fkind.splits)
qed

lemma file_write_keeps:
  "fs_wf fs \<Longrightarrow> \<forall>i. h = Some i \<longrightarrow> (\<exists>n b. gm_get (fs_inodes fs) i = Some n \<and> in_kind n = FReg b) \<Longrightarrow> fs_keeps fs (file_write h b fs)"
  by (auto simp: file_write_def same_kind_def split: option.splits intro!: fs_keeps_put)

lemma root_Symlink_keeps:
  assumes "root_Symlink d old new fs = (e, fs')" and "fs_wf fs" and "is_dir fs d"
  shows "fs_keeps fs fs'"
  using assms(1,2) fs_keeps_add [OF assms(2) root_path_in_dir [OF assms(2,3)] _ assms(3)]
  by (auto simp: root_Symlink_def split: if_splits sum.splits option.splits)

lemma root_Link_keeps:
  assumes "root_Link d old new fs = (e, fs')" and "fs_wf fs" and "is_dir fs d"
  shows "fs_keeps fs fs'"
  using assms(1,2) fs_keeps_link [OF assms(2) root_path_in_dir [OF assms(2,3)] assms(3)]
  by (auto simp: root_Link_def split: if_splits sum.splits option.splits)

lemma root_Lchown_keeps:
  "root_Lchown d name uid gid fs = (e, fs') \<Longrightarrow> fs_wf fs \<Longrightarrow> fs_keeps fs fs'"
  by (auto simp: root_Lchown_def same_kind_def split: if_splits sum.splits option.splits intro!: fs_keeps_put)

section \<open>Methods of a root\<close>

text \<open>What all of them promise, and what follows for a sequence of them and for one below a new destination.\<close>

definition root_step :: "string list \<Rightarrow> rfs \<Rightarrow> rfs \<Rightarrow> bool" where
  "root_step d fs fs' \<longleftrightarrow> fs_contained d fs fs' \<and> (fs_wf fs \<and> is_dir fs d \<longrightarrow> fs_keeps fs fs')"

lemma root_step_refl [simp]: "root_step d fs fs"
  by (simp add: root_step_def)

lemma root_step_trans: "root_step d fs fs' \<Longrightarrow> root_step d fs' fs'' \<Longrightarrow> root_step d fs fs''"
  using contained_trans fs_keeps_trans by (auto simp: root_step_def fs_keeps_def)

lemma root_OpenRoot_dir: "root_OpenRoot fs d name = Inr p \<Longrightarrow> is_dir fs p \<and> prefix d p"
  by (auto simp: root_OpenRoot_def faulty_def is_dir_def split: sum.splits option.splits if_splits)

locale root_method =
  fixes run :: "string list \<Rightarrow> rfs \<Rightarrow> go_error option \<times> rfs"
  assumes stays: "run d fs = (e, fs') \<Longrightarrow> fs_contained d fs fs'"
    and keeps: "run d fs = (e, fs') \<Longrightarrow> fs_wf fs \<Longrightarrow> is_dir fs d \<Longrightarrow> fs_keeps fs fs'"
begin

lemma step: "run d fs = (e, fs') \<Longrightarrow> root_step d fs fs'"
  using stays keeps by (auto simp: root_step_def)

lemma below_destination:
  assumes "fs_wf fs" and "is_dir fs root" and "root_MkdirAll root name perm fs = (None, fs1)"
    and "root_OpenRoot fs1 root name = Inr dst" and "run dst fs1 = (e, fs')"
  shows "prefix root dst \<and> mkdir_rel fs fs1 \<and> fs_contained root fs fs1 \<and> fs_contained dst fs1 fs' \<and> fs_keeps fs1 fs'"
proof -
  note m = root_MkdirAll_rel [OF assms(3,1,2)] and d = root_OpenRoot_dir [OF assms(4)]
  then have "fs_wf fs1" by (simp add: mkdir_rel_def fs_keeps_def)
  with m d root_MkdirAll_contained [OF assms(3)] stays [OF assms(5)] keeps [OF assms(5)] show ?thesis by simp
qed

end

interpretation mkdir: root_method "\<lambda>d. root_MkdirAll d name perm" for name perm
  by unfold_locales (auto intro: root_MkdirAll_contained root_MkdirAll_keeps)

interpretation symlink: root_method "\<lambda>d. root_Symlink d old new" for old new
  by unfold_locales (auto intro: root_Symlink_contained root_Symlink_keeps)

interpretation link: root_method "\<lambda>d. root_Link d old new" for old new
  by unfold_locales (auto intro: root_Link_contained root_Link_keeps)

interpretation lchown: root_method "\<lambda>d. root_Lchown d name uid gid" for name uid gid
  by unfold_locales (auto intro: root_Lchown_contained root_Lchown_keeps)

lemma root_OpenFile_step: "root_OpenFile d name perm fs = (h, fs') \<Longrightarrow> root_step d fs fs'"
  using root_OpenFile_contained root_OpenFile_keeps(1) by (auto simp: root_step_def)

lemma root_OpenFile_write:
  assumes "root_OpenFile d name perm fs = (Inr f, fs')"
  shows "root_step d fs (file_write f b fs')"
proof -
  have "fs_contained d fs' (file_write f b fs')"
    using root_OpenFile_contained [OF assms] by (auto intro: file_write_contained)
  moreover have "fs_keeps fs' (file_write f b fs')" if "fs_wf fs" "is_dir fs d"
    using root_OpenFile_keeps [OF assms that] by (intro file_write_keeps) (auto simp: fs_keeps_def)
  ultimately show ?thesis
    using root_OpenFile_step [OF assms] contained_trans fs_keeps_trans by (auto simp: root_step_def)
qed

section \<open>The walk\<close>

text \<open>A list of names in which each comes after its parent, or the parent is known.\<close>

fun parents_first :: "string list set \<Rightarrow> string list list \<Rightarrow> bool" where
  "parents_first S [] = True"
| "parents_first S (x # xs) = (butlast x \<in> S \<and> parents_first (insert x S) xs)"

lemma parents_first_mono: "parents_first S xs \<Longrightarrow> S \<subseteq> T \<Longrightarrow> parents_first T xs"
proof (induction xs arbitrary: S T)
  case (Cons x xs)
  then show ?case using Cons.IH [of "insert x S" "insert x T"] by auto
qed simp

lemma parents_first_append: "parents_first S (xs @ ys) \<longleftrightarrow> parents_first S xs \<and> parents_first (S \<union> set xs) ys"
  by (induction xs arbitrary: S) auto

lemma parents_first_concat: "(\<And>c. c \<in> set cs \<Longrightarrow> parents_first S (f c)) \<Longrightarrow> parents_first S (concat (map f cs))"
proof (induction cs)
  case (Cons c cs)
  then have "parents_first (S \<union> set (f c)) (concat (map f cs))"
    by (auto intro: parents_first_mono [of S])
  with Cons show ?case by (simp add: parents_first_append)
qed simp

lemma read_dir_set: "c \<in> set (read_dir fs p) \<longleftrightarrow> gm_get (fs_names fs) (p @ [c]) \<noteq> None"
proof -
  have "c \<in> set (read_dir fs p) \<longleftrightarrow> p @ [c] \<in> fst ` set (fs_names fs)"
    by (force simp: read_dir_def image_iff)
  also have "\<dots> \<longleftrightarrow> gm_get (fs_names fs) (p @ [c]) \<noteq> None"
    by (simp add: map_of_eq_None_iff)
  finally show ?thesis .
qed

lemma read_dir_distinct:
  assumes "gm_wf (fs_names fs)"
  shows "distinct (read_dir fs p)"
proof -
  have "inj_on last {q. q \<noteq> [] \<and> butlast q = p}"
    by (rule inj_onI) (metis (mono_tags, lifting) append_butlast_last_id mem_Collect_eq)
  then have "inj_on last (set (filter (\<lambda>q. q \<noteq> [] \<and> butlast q = p) (map fst (fs_names fs))))"
    by (rule inj_on_subset) auto
  with assms show ?thesis by (simp add: read_dir_def gm_wf_def distinct_map)
qed

definition below :: "rfs \<Rightarrow> string list \<Rightarrow> string list set" where
  "below fs p = {x. prefix p x \<and> gm_get (fs_names fs) x \<noteq> None}"

lemma named_prefix:
  assumes "fs_wf fs"
  shows "gm_get (fs_names fs) (p @ c # q) \<noteq> None \<Longrightarrow> is_dir fs p \<and> gm_get (fs_names fs) (p @ [c]) \<noteq> None"
proof (induction q rule: rev_induct)
  case Nil
  with assms show ?case by (auto simp: fs_wf_def)
next
  case (snoc x q)
  then have "is_dir fs (p @ c # q)"
    using fs_wf_parent [OF assms, of "p @ c # q @ [x]"] by (simp add: butlast_append)
  with snoc.IH is_dir_named show ?case by blast
qed

lemma below_split:
  assumes "fs_wf fs" and "gm_get (fs_names fs) p \<noteq> None"
  shows "below fs p = insert p (if is_dir fs p then (\<Union>c\<in>set (read_dir fs p). below fs (p @ [c])) else {})"
proof -
  have "x = p \<or> is_dir fs p \<and> (\<exists>c\<in>set (read_dir fs p). x \<in> below fs (p @ [c]))" if x: "x \<in> below fs p" for x
  proof -
    obtain q where q: "x = p @ q" using x by (auto simp: below_def elim: prefixE)
    show ?thesis
    proof (cases q)
      case (Cons c q')
      with x q named_prefix [OF assms(1), of p c q'] show ?thesis
        by (auto simp: below_def read_dir_set)
    qed (simp add: q)
  qed
  moreover have "x \<in> below fs p" if "x \<in> below fs (p @ [c])" for x c
    using that by (auto simp: below_def dest: append_prefixD)
  moreover have "p \<in> below fs p" using assms(2) by (simp add: below_def)
  ultimately show ?thesis by (auto split: if_splits)
qed

lemma distinct_concat_map:
  "distinct cs \<Longrightarrow> \<forall>c\<in>set cs. distinct (f c) \<Longrightarrow>
     \<forall>c\<in>set cs. \<forall>c'\<in>set cs. c \<noteq> c' \<longrightarrow> set (f c) \<inter> set (f c') = {} \<Longrightarrow> distinct (concat (map f cs))"
proof (induction cs)
  case (Cons c cs)
  then have "set (f c) \<inter> set (concat (map f cs)) = {}" by fastforce
  with Cons show ?case by simp
qed simp

lemma walk_dir_ok:
  assumes "fs_wf fs" and "\<And>p. fs_fault fs ''readdir'' p = None"
  shows "gm_get (fs_names fs) p \<noteq> None \<Longrightarrow> \<forall>x\<in>below fs p. length x < length p + n \<Longrightarrow>
    \<exists>ws. walk_dir n fs p = map (\<lambda>x. (x, None)) (p # ws) \<and> distinct (p # ws) \<and> set (p # ws) = below fs p \<and> parents_first {p} ws"
proof (induction n arbitrary: p)
  case 0
  then show ?case by (auto simp: below_def)
next
  case (Suc n)
  note split = below_split [OF assms(1) Suc.prems(1)]
  show ?case
  proof (cases "is_dir fs p")
    case False
    with split show ?thesis by (intro exI [of _ "[]"]) simp
  next
    case True
    have sub: "below fs (p @ [c]) \<subseteq> below fs p" if "c \<in> set (read_dir fs p)" for c
      using that split True by auto
    have "\<exists>ws. walk_dir n fs (p @ [c]) = map (\<lambda>x. (x, None)) ws \<and> distinct ws \<and> set ws = below fs (p @ [c]) \<and> parents_first {p} ws"
      if c: "c \<in> set (read_dir fs p)" for c
    proof -
      have "\<forall>x\<in>below fs (p @ [c]). length x < length (p @ [c]) + n"
        using Suc.prems(2) sub [OF c] by auto
      with Suc.IH [of "p @ [c]"] c obtain ws where ws: "walk_dir n fs (p @ [c]) = map (\<lambda>x. (x, None)) ((p @ [c]) # ws)"
        "distinct ((p @ [c]) # ws)" "set ((p @ [c]) # ws) = below fs (p @ [c])" "parents_first {p @ [c]} ws"
        by (auto simp: read_dir_set)
      from ws(4) have "parents_first {p} ((p @ [c]) # ws)" by (auto intro: parents_first_mono)
      with ws show ?thesis by blast
    qed
    then obtain f where f: "\<And>c. c \<in> set (read_dir fs p) \<Longrightarrow> walk_dir n fs (p @ [c]) = map (\<lambda>x. (x, None)) (f c) \<and> distinct (f c)
        \<and> set (f c) = below fs (p @ [c]) \<and> parents_first {p} (f c)"
      by metis
    let ?ws = "concat (map f (read_dir fs p))"
    have "walk_dir (Suc n) fs p = map (\<lambda>x. (x, None)) (p # ?ws)"
      using True assms(2) f by (simp add: map_concat comp_def cong: map_cong)
    moreover have "set (p # ?ws) = below fs p"
      using split True f by auto
    moreover have "parents_first {p} ?ws"
      using f by (intro parents_first_concat) blast
    moreover have "distinct (p # ?ws)"
    proof -
      have dj: "set (f c) \<inter> set (f c') = {}" if "c \<in> set (read_dir fs p)" "c' \<in> set (read_dir fs p)" "c \<noteq> c'" for c c'
        using that f by (auto simp: below_def prefix_def)
      have "p \<notin> set (f c)" if "c \<in> set (read_dir fs p)" for c
        using that f by (auto simp: below_def prefix_def)
      moreover have "distinct ?ws"
        using dj f read_dir_distinct assms(1) by (intro distinct_concat_map) (auto simp: fs_wf_def)
      ultimately show ?thesis by auto
    qed
    ultimately show ?thesis by blast
  qed
qed

lemma walk_depth_enough: "gm_get (fs_names fs) x \<noteq> None \<Longrightarrow> length x < walk_depth fs"
proof -
  assume "gm_get (fs_names fs) x \<noteq> None"
  then have "length x \<in> set (map (length \<circ> fst) (fs_names fs))" by (force dest: map_of_SomeD)
  from fold_max_mem [OF this, of 0] show ?thesis by (simp add: walk_depth_def)
qed

lemma walk_all:
  assumes "fs_wf fs" and "\<And>p. fs_fault fs ''readdir'' p = None" and "gm_get (fs_names fs) p \<noteq> None"
  obtains ws where "walk_dir (walk_depth fs) fs p = map (\<lambda>x. (x, None)) (p # ws)" and "distinct (p # ws)"
    and "set (p # ws) = below fs p" and "parents_first {p} ws"
proof -
  have "\<forall>x\<in>below fs p. length x < length p + walk_depth fs"
    using walk_depth_enough by (fastforce simp: below_def)
  from walk_dir_ok [OF assms(1,2,3) this] that show ?thesis by blast
qed

end
