(* ===== verification/Container_Transfer.thy ===== *)
theory Container_Transfer
  imports Root_FS
begin

text \<open>
  Copying into and out of containers (\<open>internal/transfer\<close>, \<open>plugins/services/transfer/service.go\<close>). A tar
  archive is the list of its entries; a stream carries an archive and the error that ends it, if it does
  not end well. Opening the root of a container by its path is a parameter.
\<close>

section \<open>Requests\<close>

record ContainerPath =
  cp_ContainerID :: string
  cp_Path :: string
  cp_NoWalk :: bool
  cp_PreserveOwnership :: bool

record 's ReadStream =
  rd_MediaType :: string
  rd_stream :: 's

record 's WriteStream =
  wr_MediaType :: string
  wr_stream :: 's

text \<open>The messages: a path, or the id of a stream and its media type.\<close>

definition ContainerPath_UnmarshalAny :: "ContainerPath result \<Rightarrow> ContainerPath result" where
  "ContainerPath_UnmarshalAny p =
     (case p of
        Inl e \<Rightarrow> Inl e
      | Inr m \<Rightarrow> Inr \<lparr>cp_ContainerID = cp_ContainerID m, cp_Path = cp_Path m, cp_NoWalk = cp_NoWalk m,
                   cp_PreserveOwnership = cp_PreserveOwnership m\<rparr>)"

definition ReadStream_MarshalAny :: "(string \<Rightarrow> 's result) \<Rightarrow> string \<Rightarrow> string \<Rightarrow> (string \<times> string) result" where
  "ReadStream_MarshalAny create sid mediaType =
     (case create sid of Inl e \<Rightarrow> Inl e | Inr stream \<Rightarrow> Inr (sid, mediaType))"

definition ReadStream_UnmarshalAny :: "(string \<Rightarrow> 's result) \<Rightarrow> (string \<times> string) result \<Rightarrow> 's ReadStream result" where
  "ReadStream_UnmarshalAny get a =
     (case a of
        Inl e \<Rightarrow> Inl e
      | Inr (sid, mediaType) \<Rightarrow>
          (case get sid of Inl e \<Rightarrow> Inl e | Inr s \<Rightarrow> Inr \<lparr>rd_MediaType = mediaType, rd_stream = s\<rparr>))"

definition WriteStream_MarshalAny :: "(string \<Rightarrow> 's result) \<Rightarrow> string \<Rightarrow> string \<Rightarrow> (string \<times> string) result" where
  "WriteStream_MarshalAny create sid mediaType =
     (case create sid of Inl e \<Rightarrow> Inl e | Inr stream \<Rightarrow> Inr (sid, mediaType))"

definition WriteStream_UnmarshalAny :: "(string \<Rightarrow> 's result) \<Rightarrow> (string \<times> string) result \<Rightarrow> 's WriteStream result" where
  "WriteStream_UnmarshalAny get a =
     (case a of
        Inl e \<Rightarrow> Inl e
      | Inr (sid, mediaType) \<Rightarrow>
          (case get sid of Inl e \<Rightarrow> Inl e | Inr s \<Rightarrow> Inr \<lparr>wr_MediaType = mediaType, wr_stream = s\<rparr>))"

section \<open>Archives\<close>

datatype tar_type = TypeReg | TypeDir | TypeSymlink | TypeLink | TypeChar | TypeBlock | TypeFifo | TypeOther

record tar_entry =
  te_Name :: string
  te_Typeflag :: tar_type
  te_Mode :: "32 word"
  te_Uid :: int
  te_Gid :: int
  te_Linkname :: string
  te_data :: string
  te_dataErr :: "go_error option"

record tar_stream =
  ts_entries :: "tar_entry list"
  ts_end :: "go_error option"

definition mediaTypeTar :: string where
  "mediaTypeTar = ''application/x-tar''"

definition unexpected_eof :: go_error where
  "unexpected_eof = Sentinel ''unexpected EOF''"

text \<open>\<open>tar.FileInfoHeader\<close>.\<close>

definition tar_flag :: "fkind \<Rightarrow> tar_type result" where
  "tar_flag k =
     (case k of
        FReg b \<Rightarrow> Inr TypeReg
      | FDir \<Rightarrow> Inr TypeDir
      | FSym t \<Rightarrow> Inr TypeSymlink
      | FFifo \<Rightarrow> Inr TypeFifo
      | FDev block \<Rightarrow> Inr (if block then TypeBlock else TypeChar)
      | FSock \<Rightarrow> Inl (ErrNew ''archive/tar: sockets not supported''))"

definition FileInfoHeader :: "inode \<Rightarrow> tar_entry result" where
  "FileInfoHeader n =
     map_sum id (\<lambda>f. \<lparr>te_Name = [], te_Typeflag = f, te_Mode = in_mode n AND 0xFFF, te_Uid = in_uid n, te_Gid = in_gid n,
        te_Linkname = [], te_data = [], te_dataErr = None\<rparr>) (tar_flag (in_kind n))"

section \<open>Copying out\<close>

definition rootRel :: "string \<Rightarrow> string" where
  "rootRel p =
     (let q = trim_prefix (path_clean (CHR ''/'' # p)) ''/'' in if q = [] then ''.'' else q)"

record xfer_env =
  xe_openRoot :: "string \<Rightarrow> string list result"
  xe_writeHeader :: "tar_entry \<Rightarrow> go_error option"

definition writeTarEntry ::
  "xfer_env \<Rightarrow> rfs \<Rightarrow> string list \<Rightarrow> string \<Rightarrow> inode \<Rightarrow> string \<Rightarrow> go_error option \<times> tar_entry list" where
  "writeTarEntry env fs root srcPath fi name =
     (case FileInfoHeader fi of
        Inl e \<Rightarrow> (Some e, [])
      | Inr h \<Rightarrow>
     (case (case in_kind fi of
              FSym _ \<Rightarrow> map_sum id (\<lambda>link. h\<lparr>te_Name := name, te_Linkname := link\<rparr>) (root_Readlink fs root srcPath)
            | _ \<Rightarrow> Inr (h\<lparr>te_Name := name\<rparr>)) of
        Inl e \<Rightarrow> (Some e, [])
      | Inr header \<Rightarrow>
     (case xe_writeHeader env header of
        Some e \<Rightarrow> (Some e, [])
      | None \<Rightarrow>
     (case in_kind fi of
        FReg _ \<Rightarrow>
          (case root_ReadFile fs root srcPath of
             Inl e \<Rightarrow> (Some e, [header\<lparr>te_dataErr := Some unexpected_eof\<rparr>])
           | Inr b \<Rightarrow> (None, [header\<lparr>te_data := b\<rparr>]))
      | _ \<Rightarrow> (None, [header])))))"

text \<open>The path of a visit of the walk, and the name of its entry.\<close>

definition walk_path :: "string \<Rightarrow> string list \<Rightarrow> string" where
  "walk_path relPath q = fold (\<lambda>c n. path_join [n, c]) q relPath"

definition entry_name :: "string \<Rightarrow> string \<Rightarrow> string \<Rightarrow> string" where
  "entry_name relPath baseName walkPath =
     (let rel = (if walkPath = relPath then []
                 else if relPath = ''.'' then walkPath
                 else trim_prefix walkPath (relPath @ ''/''))
      in if rel = [] then baseName else path_join [baseName, rel])"

fun write_walk ::
  "xfer_env \<Rightarrow> rfs \<Rightarrow> string list \<Rightarrow> string \<Rightarrow> string \<Rightarrow> nat \<Rightarrow> (string list \<times> go_error option) list \<Rightarrow>
     go_error option \<times> tar_entry list" where
  "write_walk env fs root relPath baseName k [] = (None, [])"
| "write_walk env fs root relPath baseName k ((p, Some e) # ws) = (Some e, [])"
| "write_walk env fs root relPath baseName k ((p, None) # ws) =
     (let walkPath = walk_path relPath (drop k p)
      in case faulty fs ''lstat'' p (case fs_inode fs p of None \<Rightarrow> Inl enoent | Some n \<Rightarrow> Inr n) of
           Inl e \<Rightarrow> (Some e, [])
         | Inr info \<Rightarrow>
             (case writeTarEntry env fs root walkPath info (entry_name relPath baseName walkPath) of
                (Some e, es) \<Rightarrow> (Some e, es)
              | (None, es) \<Rightarrow>
                  (case write_walk env fs root relPath baseName k ws of (r, es') \<Rightarrow> (r, es @ es'))))"

definition writePath ::
  "xfer_env \<Rightarrow> rfs \<Rightarrow> string \<Rightarrow> string \<Rightarrow> string \<Rightarrow> bool \<Rightarrow> go_error option \<times> tar_entry list" where
  "writePath env fs rootfs src mediaType noWalk =
     (if mediaType \<noteq> mediaTypeTar then
        (Some (ErrWrap (''unsupported media type '' @ [CHR 0x22] @ mediaType @ [CHR 0x22]) (Errdef ErrNotImplemented)), [])
      else case xe_openRoot env rootfs of
        Inl e \<Rightarrow> (Some (ErrWrap ''failed to open rootfs'' e), [])
      | Inr root \<Rightarrow>
          let relPath = rootRel src
          in (case root_Lstat fs root relPath of
                Inl e \<Rightarrow> (Some (ErrWrap (''failed to stat '' @ src) e), [])
              | Inr fi \<Rightarrow>
                  let baseName = path_base relPath
                  in if in_kind fi \<noteq> FDir \<or> noWalk then writeTarEntry env fs root relPath fi baseName
                     else case root_OpenRoot fs root relPath of
                            Inl e \<Rightarrow> (Some e, [])
                          | Inr base \<Rightarrow>
                              write_walk env fs root relPath baseName (length base) (walk_dir (walk_depth fs) fs base)))"

section \<open>Copying in\<close>

definition extractTarEntry :: "string list \<Rightarrow> string \<Rightarrow> tar_entry \<Rightarrow> bool \<Rightarrow> rfs \<Rightarrow> go_error option \<times> rfs" where
  "extractTarEntry dst target header preserveOwnership fs =
     (case (case te_Typeflag header of
              TypeDir \<Rightarrow> root_MkdirAll dst target (te_Mode header) fs
            | TypeReg \<Rightarrow>
                (case root_MkdirAll dst (path_dir target) 0x1ED fs of
                   (Some e, fs1) \<Rightarrow> (Some e, fs1)
                 | (None, fs1) \<Rightarrow>
                     (case root_OpenFile dst target (te_Mode header) fs1 of
                        (Inl e, fs2) \<Rightarrow> (Some e, fs2)
                      | (Inr f, fs2) \<Rightarrow> (te_dataErr header, file_write f (te_data header) fs2)))
            | TypeSymlink \<Rightarrow>
                (case root_MkdirAll dst (path_dir target) 0x1ED fs of
                   (Some e, fs1) \<Rightarrow> (Some e, fs1)
                 | (None, fs1) \<Rightarrow> root_Symlink dst (te_Linkname header) target fs1)
            | TypeLink \<Rightarrow>
                (case root_MkdirAll dst (path_dir target) 0x1ED fs of
                   (Some e, fs1) \<Rightarrow> (Some e, fs1)
                 | (None, fs1) \<Rightarrow>
                     root_Link dst (trim_prefix (path_clean (CHR ''/'' # te_Linkname header)) ''/'') target fs1)
            | _ \<Rightarrow> (None, fs)) of
        (Some e, fs3) \<Rightarrow> (Some e, fs3)
      | (None, fs3) \<Rightarrow>
          if preserveOwnership then
            (case root_Lchown dst target (te_Uid header) (te_Gid header) fs3 of
               (Some e, fs4) \<Rightarrow> (Some (ErrWrap (''failed to chown '' @ target) e), fs4)
             | (None, fs4) \<Rightarrow> (None, fs4))
          else (None, fs3))"

fun read_entries :: "string list \<Rightarrow> bool \<Rightarrow> tar_entry list \<Rightarrow> go_error option \<Rightarrow> rfs \<Rightarrow> go_error option \<times> rfs" where
  "read_entries dst own [] end fs =
     (case end of None \<Rightarrow> (None, fs) | Some e \<Rightarrow> (Some (ErrWrap ''failed to read tar header'' e), fs))"
| "read_entries dst own (h # hs) end fs =
     (let entryName = trim_prefix (path_clean (CHR ''/'' # te_Name h)) ''/''
      in if entryName = [] then read_entries dst own hs end fs
         else case extractTarEntry dst entryName h own fs of
                (Some e, fs1) \<Rightarrow> (Some e, fs1)
              | (None, fs1) \<Rightarrow> read_entries dst own hs end fs1)"

definition readPath ::
  "xfer_env \<Rightarrow> tar_stream \<Rightarrow> string \<Rightarrow> string \<Rightarrow> string \<Rightarrow> bool \<Rightarrow> rfs \<Rightarrow> go_error option \<times> rfs" where
  "readPath env r rootfs dstPath mediaType preserveOwnership fs =
     (if mediaType \<noteq> mediaTypeTar then
        (Some (ErrWrap (''unsupported media type '' @ [CHR 0x22] @ mediaType @ [CHR 0x22]) (Errdef ErrNotImplemented)), fs)
      else case xe_openRoot env rootfs of
        Inl e \<Rightarrow> (Some (ErrWrap ''failed to open rootfs'' e), fs)
      | Inr root \<Rightarrow>
          let relDst = rootRel dstPath
          in if relDst = ''.'' then read_entries root preserveOwnership (ts_entries r) (ts_end r) fs
             else case root_MkdirAll root relDst 0x1ED fs of
                    (Some e, fs1) \<Rightarrow> (Some (ErrWrap ''failed to create destination'' e), fs1)
                  | (None, fs1) \<Rightarrow>
                      (case root_OpenRoot fs1 root relDst of
                         Inl e \<Rightarrow> (Some (ErrWrap ''failed to open destination'' e), fs1)
                       | Inr dst \<Rightarrow> read_entries dst preserveOwnership (ts_entries r) (ts_end r) fs1))"

section \<open>Transfers\<close>

text \<open>
  A stream to read from carries an archive; of a stream to write to, what was written and how often it
  was closed is kept. Echoing copies what the stream carries up to its end.
\<close>

datatype xfer_obj = OContainerPath ContainerPath | OReadStream "tar_stream ReadStream" | OWriteStream "unit WriteStream" | OOther

record xfer =
  x_fs :: rfs
  x_written :: "tar_entry list"
  x_closes :: nat

definition containerFS_Transfer :: "xfer_env \<Rightarrow> string \<Rightarrow> xfer_obj \<Rightarrow> xfer_obj \<Rightarrow> xfer \<Rightarrow> go_error option \<times> xfer" where
  "containerFS_Transfer env bundleDir src dst x =
     (case (src, dst) of
        (OContainerPath s, OWriteStream d) \<Rightarrow>
          (case writePath env (x_fs x) (path_join [bundleDir, cp_ContainerID s, ''rootfs'']) (cp_Path s) (wr_MediaType d) (cp_NoWalk s) of
             (r, es) \<Rightarrow> (r, x\<lparr>x_written := x_written x @ es, x_closes := Suc (x_closes x)\<rparr>))
      | (OReadStream s, OContainerPath d) \<Rightarrow>
          (case readPath env (rd_stream s) (path_join [bundleDir, cp_ContainerID d, ''rootfs'']) (cp_Path d) (rd_MediaType s)
                  (cp_PreserveOwnership d) (x_fs x) of
             (r, fs) \<Rightarrow> (r, x\<lparr>x_fs := fs\<rparr>))
      | _ \<Rightarrow> (Some (Errdef ErrNotImplemented), x))"

definition echo_Transfer :: "xfer_obj \<Rightarrow> xfer_obj \<Rightarrow> xfer \<Rightarrow> go_error option \<times> xfer" where
  "echo_Transfer src dst x =
     (case (src, dst) of
        (OReadStream s, OWriteStream d) \<Rightarrow>
          (ts_end (rd_stream s), x\<lparr>x_written := x_written x @ ts_entries (rd_stream s), x_closes := Suc (x_closes x)\<rparr>)
      | _ \<Rightarrow> (Some (Errdef ErrNotImplemented), x))"

fun try_transferrers :: "(xfer \<Rightarrow> go_error option \<times> xfer) list \<Rightarrow> xfer \<Rightarrow> go_error option \<times> xfer" where
  "try_transferrers [] x = (Some (Errdef ErrNotImplemented), x)"
| "try_transferrers (t # ts) x =
     (case t x of
        (None, x') \<Rightarrow> (None, x')
      | (Some e, x') \<Rightarrow> if is_errdef ErrNotImplemented e then try_transferrers ts x' else (Some e, x'))"

definition service_Transfer ::
  "xfer_env \<Rightarrow> string \<Rightarrow> xfer_obj result \<Rightarrow> xfer_obj result \<Rightarrow> xfer \<Rightarrow> go_error option \<times> xfer" where
  "service_Transfer env bundleDir source destination x =
     (case source of
        Inl e \<Rightarrow> (Some e, x)
      | Inr src \<Rightarrow>
          (case destination of
             Inl e \<Rightarrow> (Some e, x)
           | Inr dst \<Rightarrow> try_transferrers [containerFS_Transfer env bundleDir src dst, echo_Transfer src dst] x))"

text \<open>The shim passes a request on to the VM (\<open>plugins/shim/transfer/plugin.go\<close>).\<close>

definition shim_Transfer :: "'c result \<Rightarrow> ('c \<Rightarrow> 'r \<Rightarrow> go_error option) \<Rightarrow> 'r \<Rightarrow> go_error option" where
  "shim_Transfer client call req =
     (case client of Inl e \<Rightarrow> Some (ErrWrap ''failed to get vminitd client'' e) | Inr c \<Rightarrow> call c req)"

section \<open>Names from requests and archives\<close>

text \<open>Cleaning a name relative to the root leaves proper elements only.\<close>

lemma trim_clean:
  obtains es where "trim_prefix (path_clean (CHR ''/'' # p)) ''/'' = join_with ''/'' es" and "\<forall>e\<in>set es. proper_elem e"
proof -
  obtain es where "path_clean (CHR ''/'' # p) = CHR ''/'' # join_with ''/'' es" "\<forall>e\<in>set es. proper_elem e"
    using path_clean_rooted by blast
  then show ?thesis by (intro that [of es]) (simp_all add: trim_prefix_def)
qed

lemma proper_plain: "proper_elem e \<Longrightarrow> plain_elem e"
  by (simp add: proper_elem_def plain_elem_def)

lemma join_proper_eq_Nil: "\<forall>e\<in>set es. proper_elem e \<Longrightarrow> join_with ''/'' es = [] \<longleftrightarrow> es = []"
  using join_plain [of es] proper_plain by auto

lemma split_clean:
  assumes "trim_prefix (path_clean (CHR ''/'' # p)) ''/'' = name" and "name \<noteq> []"
  shows "\<not> path_is_abs name \<and> (\<forall>e\<in>set (split_on (CHR ''/'') name). proper_elem e)"
proof -
  obtain es where es: "name = join_with ''/'' es" "\<forall>e\<in>set es. proper_elem e"
    using trim_clean assms(1) by metis
  with assms(2) have "es \<noteq> []" by auto
  with es show ?thesis
    using join_plain [of es] proper_plain by (auto simp: split_join_proper)
qed

lemma rootRel_elems:
  obtains es where "\<forall>e\<in>set es. proper_elem e" and "rootRel p = (if es = [] then ''.'' else join_with ''/'' es)"
proof -
  obtain es where "trim_prefix (path_clean (CHR ''/'' # p)) ''/'' = join_with ''/'' es" "\<forall>e\<in>set es. proper_elem e"
    using trim_clean by blast
  then show ?thesis by (intro that [of es]) (simp_all add: rootRel_def join_proper_eq_Nil)
qed

lemma clean_join_proper:
  assumes "\<forall>e\<in>set es. proper_elem e"
  shows "path_clean (CHR ''/'' # join_with ''/'' es) = CHR ''/'' # join_with ''/'' es"
proof (cases "es = []")
  case False
  have "split_on (CHR ''/'') (CHR ''/'' # join_with ''/'' es) = [] # es"
    using split_join_proper [OF False assms] by simp
  with assms show ?thesis
    by (simp add: path_clean_def clean_elems_fixed clean_step.simps)
qed (simp add: path_clean_def clean_step.simps)

text \<open>
  Whatever path a request names, \<open>rootRel\<close> makes of it a relative path without \<open>..\<close> (or the root
  itself), and leaves such a path as it is.
\<close>

theorem rootRel_inside:
  "\<not> path_is_abs (rootRel p) \<and> rootRel p \<noteq> [] \<and> rootRel (rootRel p) = rootRel p
    \<and> (rootRel p = ''.'' \<or> (\<forall>e\<in>set (split_on (CHR ''/'') (rootRel p)). proper_elem e))"
proof -
  obtain es where es: "\<forall>e\<in>set es. proper_elem e" "rootRel p = (if es = [] then ''.'' else join_with ''/'' es)"
    using rootRel_elems by blast
  show ?thesis
  proof (cases "es = []")
    case True
    with es(2) have "rootRel p = ''.''" by simp
    moreover have "rootRel ''.'' = ''.''" by code_simp
    moreover have "\<not> path_is_abs ''.''" by code_simp
    ultimately show ?thesis by simp
  next
    case False
    with es have "rootRel p = join_with ''/'' es" by simp
    moreover have "rootRel (join_with ''/'' es) = join_with ''/'' es"
      using es(1) False by (simp add: rootRel_def clean_join_proper trim_prefix_def join_proper_eq_Nil)
    ultimately show ?thesis
      using es(1) False join_plain [of es] proper_plain by (auto simp: split_join_proper)
  qed
qed

theorem rootRel_inside_witness:
  "rootRel ''../../etc//passwd'' = ''etc/passwd'' \<and> list_all proper_elem (split_on (CHR ''/'') ''etc/passwd'')"
proof -
  have "rootRel ''../../etc//passwd'' = ''etc/passwd''" by code_simp
  with rootRel_inside [of "''../../etc//passwd''"] show ?thesis by (simp add: list_all_iff)
qed

section \<open>Extraction stays below its destination\<close>

text \<open>Extracting one entry is a sequence of methods of the destination's root.\<close>

lemma extractTarEntry_root:
  assumes "extractTarEntry dst target h own fs = (e, fs')"
  shows "fs_contained dst fs fs'" and "fs_wf fs \<Longrightarrow> is_dir fs dst \<Longrightarrow> fs_keeps fs fs'"
proof -
  have written: "root_step dst fs1 (file_write f b fs2)" if "root_OpenFile dst t m fs1 = (Inr f, fs2)" for t m fs1 fs2 f b
    using root_OpenFile_write [OF that] .
  have opened: "root_step dst fs1 fs2" if "root_OpenFile dst t m fs1 = (Inl r, fs2)" for t m fs1 fs2 r
    using root_OpenFile_step [OF that] .
  have "root_step dst fs fs'"
    using assms
    by (auto simp: extractTarEntry_def split: tar_type.splits prod.splits option.splits sum.splits if_splits
        dest!: mkdir.step symlink.step link.step lchown.step written opened intro: root_step_trans)
  then show "fs_contained dst fs fs'" and "fs_wf fs \<Longrightarrow> is_dir fs dst \<Longrightarrow> fs_keeps fs fs'"
    by (simp_all add: root_step_def)
qed

interpretation extraction: root_method "\<lambda>d. extractTarEntry d target h own" for target h own
  by unfold_locales (auto intro: extractTarEntry_root)

lemma read_entries_step: "read_entries dst own hs end fs = (e, fs') \<Longrightarrow> root_step dst fs fs'"
  by (induction dst own hs "end" fs rule: read_entries.induct)
     (auto simp: Let_def split: option.splits if_splits prod.splits dest: extraction.step intro: root_step_trans)

interpretation entries: root_method "\<lambda>d. read_entries d own hs fin" for own hs fin
  by unfold_locales (auto simp: root_step_def dest: read_entries_step)

text \<open>The directory an archive is extracted to, if the copy gets that far, and the paths inside it.\<close>

definition destination :: "string list \<Rightarrow> string \<Rightarrow> rfs \<Rightarrow> string list option" where
  "destination root dstPath fs =
     (if rootRel dstPath = ''.'' then Some root
      else case root_MkdirAll root (rootRel dstPath) 0x1ED fs of
             (Some e, fs1) \<Rightarrow> None
           | (None, fs1) \<Rightarrow> (case root_OpenRoot fs1 root (rootRel dstPath) of Inl e \<Rightarrow> None | Inr dst \<Rightarrow> Some dst))"

definition in_destination :: "string list \<Rightarrow> string \<Rightarrow> rfs \<Rightarrow> string list \<Rightarrow> bool" where
  "in_destination root dstPath fs p \<longleftrightarrow> (case destination root dstPath fs of None \<Rightarrow> False | Some dst \<Rightarrow> prefix dst p)"

lemma destination_below_root: "destination root dstPath fs = Some dst \<Longrightarrow> prefix root dst"
  using root_OpenRoot_dir by (auto simp: destination_def split: if_splits prod.splits option.splits sum.splits)

text \<open>The two parts of a copy into a container: making the destination, and extracting below it.\<close>

lemma readPath_parts:
  assumes "readPath env r rootfs dstPath mt own fs = (e, fs')" and "xe_openRoot env rootfs = Inr root"
    and "fs_wf fs" and "is_dir fs root"
  obtains (made) "mkdir_rel fs fs'" and "fs_contained root fs fs'"
  | (extracted) dst fs1 where "destination root dstPath fs = Some dst" and "mkdir_rel fs fs1" and "fs_contained root fs fs1"
    and "fs_contained dst fs1 fs'" and "fs_keeps fs1 fs'"
proof -
  have refl: "mkdir_rel fs fs" using assms(3) by (simp add: mkdir_rel_def)
  consider "fs' = fs" | "rootRel dstPath = ''.''" "read_entries root own (ts_entries r) (ts_end r) fs = (e, fs')"
    | r1 where "root_MkdirAll root (rootRel dstPath) 0x1ED fs = (r1, fs')"
    | fs1 dst where "rootRel dstPath \<noteq> ''.''" "root_MkdirAll root (rootRel dstPath) 0x1ED fs = (None, fs1)"
        "root_OpenRoot fs1 root (rootRel dstPath) = Inr dst" "read_entries dst own (ts_entries r) (ts_end r) fs1 = (e, fs')"
    using assms(1,2) by (auto simp: readPath_def Let_def split: if_splits prod.splits option.splits sum.splits)
  then show ?thesis
  proof cases
    case 1
    with refl show ?thesis by (intro made) simp_all
  next
    case 2
    with refl assms(3,4) entries.stays entries.keeps show ?thesis
      by (intro extracted [of root fs]) (auto simp: destination_def)
  next
    case 3
    from root_MkdirAll_rel [OF 3 assms(3,4)] root_MkdirAll_contained [OF 3] show ?thesis by (rule made)
  next
    case (4 fs1 dst)
    have "destination root dstPath fs = Some dst" using 4 by (simp add: destination_def)
    with entries.below_destination [OF assms(3,4) 4(2-4)] show ?thesis by (intro extracted [of dst fs1]) auto
  qed
qed

lemma contained_keeps_outside:
  assumes g: "fs_grows fs fs1" and x: "fs_contained dst fs1 fs'"
    and p: "\<not> prefix dst p" "gm_get (fs_names fs) p = Some i" "gm_get (fs_inodes fs) i = Some n" "\<not> named_under dst fs i"
  shows "gm_get (fs_names fs') p = Some i \<and> gm_get (fs_inodes fs') i = Some n"
proof -
  have "\<not> named_under dst fs1 i"
  proof
    assume "named_under dst fs1 i"
    then obtain q where "gm_get (fs_names fs1) (dst @ q) = Some i" by (auto simp: named_under_def)
    with g p(3) have "gm_get (fs_names fs) (dst @ q) = Some i" unfolding fs_grows_def by (metis option.distinct(1))
    with p(4) show False by (auto simp: named_under_def)
  qed
  moreover have "gm_get (fs_inodes fs1) i = Some n" "gm_get (fs_names fs1) p = Some i"
    using g p(2,3) by (simp_all add: fs_grows_def)
  ultimately show ?thesis using x p(1) by (simp add: fs_contained_def)
qed

text \<open>
  C9. Copying an archive into a container, whatever its entries and whatever links are in the tree, changes
  nothing outside the destination: below the root of the container all that exists outside it keeps
  its name, content and owner, unless it is a hard link of a file inside, and only directories are
  made; outside the root no name changes at all.
\<close>

theorem extraction_contained:
  assumes "readPath env r rootfs dstPath mt own fs = (e, fs')" and "xe_openRoot env rootfs = Inr root"
    and "fs_wf fs" and "is_dir fs root"
  shows "(\<forall>p i n. \<not> in_destination root dstPath fs p \<and> gm_get (fs_names fs) p = Some i \<and> gm_get (fs_inodes fs) i = Some n
          \<and> (\<forall>q. in_destination root dstPath fs q \<longrightarrow> gm_get (fs_names fs) q \<noteq> Some i) \<longrightarrow>
          gm_get (fs_names fs') p = Some i \<and> gm_get (fs_inodes fs') i = Some n)
    \<and> (\<forall>p. \<not> in_destination root dstPath fs p \<and> gm_get (fs_names fs) p = None \<and> gm_get (fs_names fs') p \<noteq> None \<longrightarrow> is_dir fs' p)
    \<and> (\<forall>p. \<not> prefix root p \<longrightarrow> gm_get (fs_names fs') p = gm_get (fs_names fs) p)"
  using assms
proof (cases rule: readPath_parts)
  case made
  then show ?thesis unfolding mkdir_rel_def fs_grows_def fs_contained_def by blast
next
  case (extracted dst fs1)
  have g: "fs_grows fs fs1" using extracted(2) by (simp add: mkdir_rel_def)
  have ins: "in_destination root dstPath fs p \<longleftrightarrow> prefix dst p" for p
    using extracted(1) by (simp add: in_destination_def)
  have out: "gm_get (fs_names fs') p = gm_get (fs_names fs1) p" if "\<not> prefix dst p" for p
    using extracted(4) that by (simp add: fs_contained_def)
  have "gm_get (fs_names fs') p = Some i \<and> gm_get (fs_inodes fs') i = Some n"
    if "\<not> prefix dst p" "gm_get (fs_names fs) p = Some i" "gm_get (fs_inodes fs) i = Some n"
      "\<forall>q. prefix dst q \<longrightarrow> gm_get (fs_names fs) q \<noteq> Some i" for p i n
    using contained_keeps_outside [OF g extracted(4) that(1-3)] that(4) by (auto simp: named_under_def)
  moreover have "is_dir fs' p" if "\<not> prefix dst p" "gm_get (fs_names fs) p = None" "gm_get (fs_names fs') p \<noteq> None" for p
    using g extracted(5) out that by (auto simp: fs_grows_def fs_keeps_def)
  moreover have "gm_get (fs_names fs') p = gm_get (fs_names fs) p" if "\<not> prefix root p" for p
    using that extracted(3) out [of p] destination_below_root [OF extracted(1)]
    by (auto simp: fs_contained_def dest: prefix_order.trans)
  ultimately show ?thesis unfolding ins by blast
qed

section \<open>What cannot be copied in\<close>

text \<open>
  An entry of the archive that \<open>writePath\<close> makes for a file or directory with a set-id or sticky bit
  is refused when it is read: such a tree cannot be copied into a container.
\<close>

theorem special_mode_refused:
  assumes "FileInfoHeader n = Inr h" and "in_kind n = FDir \<or> in_kind n = FReg b" and "\<not> perm_ok (in_mode n AND 0xFFF)"
    and "trim_prefix (path_clean (CHR ''/'' # name)) ''/'' \<noteq> []"
  shows "\<exists>e fs'. read_entries dst own (h\<lparr>te_Name := name, te_data := b\<rparr> # hs) end fs = (Some e, fs')"
proof -
  have "te_Typeflag h = TypeDir \<or> te_Typeflag h = TypeReg" "te_Mode h = in_mode n AND 0xFFF"
    using assms(1,2) by (auto simp: FileInfoHeader_def tar_flag_def)
  then have "\<exists>e fs'. extractTarEntry dst t (h\<lparr>te_Name := name, te_data := b\<rparr>) own fs = (Some e, fs')" for t
    using assms(3) by (auto simp: extractTarEntry_def root_MkdirAll_def root_OpenFile_def split: prod.splits option.splits)
  then obtain e fs' where "extractTarEntry dst (trim_prefix (path_clean (CHR ''/'' # name)) ''/'')
      (h\<lparr>te_Name := name, te_data := b\<rparr>) own fs = (Some e, fs')" by blast
  with assms(4) show ?thesis by simp
qed

text \<open>A file below an absolute link is refused, although the comment of \<open>readPath\<close> says it resolves inside.\<close>

lemma absolute_link_refused:
  assumes "fs_inode fs (dst @ [c]) = Some n" and "in_kind n = FSym t" and "path_is_abs t" and "proper_elem c" and "x \<noteq> []"
    and "te_Typeflag h = TypeReg" and "proper_elem x" and "path_dir (c @ ''/'' @ x) = c"
  shows "extractTarEntry dst (c @ ''/'' @ x) h own fs = (Some eexist, fs)"
proof -
  have c: "c \<noteq> []" "\<not> path_is_abs c" "split_on (CHR ''/'') c = [c]"
    using assms(4) by (cases c; auto simp: proper_elem_def path_is_abs_hd split_on_no_sep)+
  have "t \<noteq> []" using assms(3) by (auto simp: path_is_abs_hd)
  then have "root_MkdirAll dst c 0x1ED fs = (Some eexist, fs)"
    using c assms(1-4)
    by (simp add: root_MkdirAll_def perm_ok_def proper_elem_def root_max_symlinks_def leads_to_dir_def)
  with assms(6,8) show ?thesis by (simp add: extractTarEntry_def)
qed

text \<open>Fifos and devices are skipped, but with ownership asked for the skipped file is missed.\<close>

lemma special_file_chown_fails:
  assumes "te_Typeflag h \<in> {TypeFifo, TypeChar, TypeBlock}" and "root_path fs dst False target = Inr r"
    and "gm_get (fs_names fs) (dst @ r) = None" and "fs_fault fs ''lchown'' (dst @ r) = None"
  shows "extractTarEntry dst target h True fs = (Some (ErrWrap (''failed to chown '' @ target) enoent), fs)"
    and "extractTarEntry dst target h False fs = (None, fs)"
  using assms by (auto simp: extractTarEntry_def root_Lchown_def)

section \<open>Examples\<close>

definition demo_node :: "fkind \<Rightarrow> 32 word \<Rightarrow> inode" where
  "demo_node k m = \<lparr>in_kind = k, in_mode = m, in_uid = 7, in_gid = 8\<rparr>"

text \<open>Two containers; the first has a directory with a file and a link to it.\<close>

definition demo_tree :: rfs where
  "demo_tree = \<lparr>
     fs_names = [([], 0), ([''c''], 1), ([''e''], 2), ([''c'', ''a''], 3), ([''c'', ''a'', ''f''], 4), ([''c'', ''a'', ''l''], 5)],
     fs_inodes = [(0, demo_node FDir 0x1ED), (1, demo_node FDir 0x1ED), (2, demo_node FDir 0x1ED), (3, demo_node FDir 0x1ED),
       (4, demo_node (FReg ''hi'') 0x1B4), (5, demo_node (FSym ''f'') 0x1FF)],
     fs_umask = 0x12, fs_fault = (\<lambda>_ _. None)\<rparr>"

definition demo_xenv :: xfer_env where
  "demo_xenv = \<lparr>xe_openRoot = (\<lambda>p. if p = ''/run/bundles/c/rootfs'' then Inr [''c'']
       else if p = ''/run/bundles/e/rootfs'' then Inr [''e''] else Inl enoent),
     xe_writeHeader = (\<lambda>_. None)\<rparr>"

lemma demo_tree_wf: "fs_wf demo_tree"
  unfolding fs_wf_def
proof (intro conjI allI impI)
  show "gm_wf (fs_names demo_tree)" by code_simp
  show "is_dir demo_tree []" by code_simp
  show "gm_get (fs_inodes demo_tree) i \<noteq> None" if "gm_get (fs_names demo_tree) p = Some i" for p i
    using that by (auto simp: demo_tree_def split: if_splits)
  have el: "proper_elem ''a''" "proper_elem ''c''" "proper_elem ''e''" "proper_elem ''f''" "proper_elem ''l''"
    by code_simp+
  have dirs: "is_dir demo_tree []" "is_dir demo_tree [''c'']" "is_dir demo_tree [''c'', ''a'']"
    by code_simp+
  show "is_dir demo_tree p" "proper_elem c" if "gm_get (fs_names demo_tree) (p @ [c]) \<noteq> None" for p c
    using that el dirs by (auto simp: demo_tree_def append_eq_Cons_conv split: if_splits)
  show "p = q" if "gm_get (fs_names demo_tree) p = Some i \<and> gm_get (fs_names demo_tree) q = Some i \<and> is_dir demo_tree p" for p q i
    using that by (auto simp: demo_tree_def split: if_splits)
qed


definition demo_evil :: tar_stream where
  "demo_evil = \<lparr>ts_entries = [\<lparr>te_Name = ''../../e/x'', te_Typeflag = TypeReg, te_Mode = 0x1A4, te_Uid = 0, te_Gid = 0,
      te_Linkname = [], te_data = ''bad'', te_dataErr = None\<rparr>], ts_end = None\<rparr>"

text \<open>An archive that tries to leave \<open>/a\<close> changes neither another container nor a file beside \<open>/a\<close>.\<close>

lemma demo_destination: "destination [''c''] ''/a'' demo_tree = Some [''c'', ''a'']"
  by code_simp

theorem extraction_contained_witness:
  "\<exists>e fs'. readPath demo_xenv demo_evil ''/run/bundles/c/rootfs'' ''/a'' mediaTypeTar False demo_tree = (e, fs')
     \<and> gm_get (fs_names fs') [''c''] = gm_get (fs_names demo_tree) [''c'']
     \<and> gm_get (fs_names fs') [''e'', ''x''] = None"
proof -
  obtain e fs' where r: "readPath demo_xenv demo_evil ''/run/bundles/c/rootfs'' ''/a'' mediaTypeTar False demo_tree = (e, fs')" by force
  have o: "xe_openRoot demo_xenv ''/run/bundles/c/rootfs'' = Inr [''c'']" by (simp add: demo_xenv_def)
  have d: "is_dir demo_tree [''c'']" by code_simp
  note x = extraction_contained [OF r o demo_tree_wf d]
  obtain i n where c: "gm_get (fs_names demo_tree) [''c''] = Some i" "gm_get (fs_inodes demo_tree) i = Some n"
    "\<forall>q. prefix [''c'', ''a''] q \<longrightarrow> gm_get (fs_names demo_tree) q \<noteq> Some i"
    by (auto simp: demo_tree_def prefix_def)
  have "\<not> in_destination [''c''] ''/a'' demo_tree [''c'']" by (simp add: in_destination_def demo_destination)
  moreover have "\<forall>q. in_destination [''c''] ''/a'' demo_tree q \<longrightarrow> gm_get (fs_names demo_tree) q \<noteq> Some i"
    using c(3) by (simp add: in_destination_def demo_destination)
  ultimately have "gm_get (fs_names fs') [''c''] = Some i" using x c(1,2) by blast
  moreover have "gm_get (fs_names fs') [''e'', ''x''] = gm_get (fs_names demo_tree) [''e'', ''x'']"
    using x by (simp add: prefix_def)
  ultimately show ?thesis using r c(1) by (auto simp: demo_tree_def)
qed

theorem special_mode_refused_witness:
  "\<exists>h e fs'. FileInfoHeader (demo_node FDir 0x3FF) = Inr h
     \<and> read_entries [''e''] False [h\<lparr>te_Name := ''tmp'', te_data := []\<rparr>] None demo_tree = (Some e, fs')"
proof -
  obtain h where h: "FileInfoHeader (demo_node FDir 0x3FF) = Inr h"
    by (simp add: FileInfoHeader_def tar_flag_def demo_node_def)
  have k: "in_kind (demo_node FDir 0x3FF) = FDir \<or> in_kind (demo_node FDir 0x3FF) = FReg []" by (simp add: demo_node_def)
  have m: "\<not> perm_ok (in_mode (demo_node FDir 0x3FF) AND 0xFFF)" by (simp add: demo_node_def perm_ok_def)
  have n: "trim_prefix (path_clean (CHR ''/'' # ''tmp'')) ''/'' \<noteq> []" by code_simp
  from special_mode_refused [OF h k m n] h show ?thesis by blast
qed

end
