(* ===== verification/Transfer_Copy.thy ===== *)
theory Transfer_Copy
  imports Container_Transfer
begin

text \<open>
  Copying a directory out of a container and into another gives the same tree. The archive lists the
  names below the directory, parents first; extracting makes each of them, in that order.
\<close>

section \<open>Names without links\<close>

lemma is_dir_up: "fs_wf fs \<Longrightarrow> is_dir fs (p @ q) \<Longrightarrow> is_dir fs p"
proof (induction q rule: rev_induct)
  case (snoc x q)
  then show ?case using is_dir_prefix(1) [of fs p "q @ [x]"] by simp
qed simp

lemma resolve_dirs:
  "fs_wf fs \<Longrightarrow> is_dir fs (d @ at @ qs) \<Longrightarrow> \<forall>e\<in>set qs. proper_elem e \<Longrightarrow>
     resolve fs d f k at (qs @ rest) = resolve fs d f k (at @ qs) rest"
proof (induction qs arbitrary: at)
  case (Cons c qs)
  have "is_dir fs (d @ at @ [c])" using is_dir_up [of fs "d @ at @ [c]" qs] Cons.prems by simp
  then obtain n where "fs_inode fs (d @ at @ [c]) = Some n" "in_kind n = FDir"
    by (auto simp: is_dir_def split: option.splits)
  with Cons show ?case by (auto simp: proper_elem_def)
qed simp

definition is_sym :: "rfs \<Rightarrow> string list \<Rightarrow> bool" where
  "is_sym fs p \<longleftrightarrow> (case fs_inode fs p of None \<Rightarrow> False | Some n \<Rightarrow> (case in_kind n of FSym _ \<Rightarrow> True | _ \<Rightarrow> False))"

lemma resolve_leaf:
  assumes "fs_wf fs" and "is_dir fs (d @ at @ qs)" and "\<forall>e\<in>set (qs @ [c]). proper_elem e" and "f \<longrightarrow> \<not> is_sym fs (d @ at @ qs @ [c])"
  shows "resolve fs d f k at (qs @ [c]) = Inr (at @ qs @ [c])"
proof -
  have "resolve fs d f k at (qs @ [c]) = resolve fs d f k (at @ qs) [c]"
    using assms by (intro resolve_dirs) auto
  also have "\<dots> = Inr (at @ qs @ [c])"
    using assms(3,4) by (auto simp: proper_elem_def is_sym_def split: option.splits fkind.splits)
  finally show ?thesis .
qed

lemma resolve_append:
  "resolve fs d True k at cs = Inr r \<Longrightarrow> is_dir fs (d @ r) \<Longrightarrow> rest \<noteq> [] \<Longrightarrow>
     \<exists>k'. resolve fs d f k at (cs @ rest) = resolve fs d f k' r rest"
proof (induction fs d True k at cs rule: resolve.induct)
  case (2 fs d k at c cs)
  show ?case
  proof (cases "c = [] \<or> c = ''.'' \<or> c = ''..''")
    case True
    with 2 show ?thesis by (auto split: if_splits)
  next
    case False
    then have ne: "\<not> (c = [] \<or> c = ''.'')" "c \<noteq> ''..''" by auto
    obtain n where n: "fs_inode fs (d @ at @ [c]) = Some n"
      using "2.prems" ne by (cases "fs_inode fs (d @ at @ [c])") (auto simp: is_dir_def split: if_splits)
    show ?thesis
      using "2.prems" "2.hyps"(3,4) [OF ne n] ne n
      by (cases "in_kind n") (auto simp: is_dir_def split: if_splits)
  qed
qed auto

section \<open>Names as text\<close>

definition pstr :: "string list \<Rightarrow> string" where
  "pstr xs = (if xs = [] then ''.'' else join_with ''/'' xs)"

abbreviation proper :: "string list \<Rightarrow> bool" where
  "proper xs \<equiv> \<forall>e\<in>set xs. proper_elem e"

lemma split_pstr: "proper xs \<Longrightarrow> split_on (CHR ''/'') (pstr xs) = (if xs = [] then [''.''] else xs)"
  by (simp add: pstr_def split_join_proper)

lemma pstr_inj: "proper xs \<Longrightarrow> proper ys \<Longrightarrow> pstr xs = pstr ys \<Longrightarrow> xs = ys"
proof -
  assume p: "proper xs" "proper ys" and eq: "pstr xs = pstr ys"
  have "(if xs = [] then [''.''] else xs) = (if ys = [] then [''.''] else ys)"
    using split_pstr [OF p(1)] split_pstr [OF p(2)] eq by metis
  moreover have "zs \<noteq> [''.'']" if "proper zs" for zs
  proof
    assume "zs = [''.'']"
    with that have "proper_elem ''.''" by simp
    then show False by (simp add: proper_elem_def)
  qed
  ultimately show ?thesis using p by (metis)
qed

lemma pstr_text: "proper xs \<Longrightarrow> pstr xs \<noteq> [] \<and> \<not> path_is_abs (pstr xs)"
  using join_plain [of xs] proper_plain by (auto simp: pstr_def path_is_abs_hd)

lemma root_path_pstr: "proper xs \<Longrightarrow> root_path fs d f (pstr xs) = resolve fs d f root_max_symlinks [] xs"
  by (auto simp: root_path_def pstr_text split_pstr)

lemma split_on_sep: "split_on c (s @ c # t) = split_on c s @ split_on c t"
proof (induction s)
  case (Cons x s)
  then show ?case by (cases "split_on c s") (auto simp: split_on_nonempty)
qed simp

lemma clean_elems_dot: "clean_elems r st (''.'' # es) = clean_elems r st es"
  by (simp add: clean_step.simps)

lemma clean_elems_app: "clean_elems r st (xs @ ys) = clean_elems r (rev (clean_elems r st xs)) ys"
  by (induction xs arbitrary: st) auto

lemma path_join_pstr:
  assumes "proper xs" and "proper ys"
  shows "path_join [pstr xs, pstr ys] = pstr (xs @ ys)"
proof -
  let ?el = "\<lambda>zs. if zs = [] then [''.''] else zs"
  have el: "clean_elems False st (?el zs) = rev st @ zs" if "proper zs" for st zs
    using that by (auto simp: clean_elems_fixed clean_step.simps)
  have tx: "pstr xs \<noteq> []" "pstr ys \<noteq> []" "hd (pstr xs) \<noteq> CHR ''/''"
    using pstr_text assms by (auto simp: path_is_abs_hd)
  then have "path_join [pstr xs, pstr ys] = path_clean (pstr xs @ CHR ''/'' # pstr ys)"
    by (simp add: path_join_def)
  moreover have "clean_elems False [] (split_on (CHR ''/'') (pstr xs @ CHR ''/'' # pstr ys)) = xs @ ys"
    using assms el [of xs "[]"] el [of ys "rev xs"] by (simp add: split_on_sep split_pstr clean_elems_app)
  ultimately show ?thesis
    using tx by (auto simp: path_clean_def pstr_def Let_def)
qed

lemma pstr_single [simp]: "pstr [x] = x"
  by (simp add: pstr_def)

lemma rootRel_pstr: obtains es where "proper es" and "rootRel p = pstr es"
  using rootRel_elems [of p] by (auto simp: pstr_def)

lemma walk_path_pstr: "proper es \<Longrightarrow> proper q \<Longrightarrow> walk_path (pstr es) q = pstr (es @ q)"
proof (induction q arbitrary: es)
  case (Cons c q)
  have "path_join [pstr es, c] = pstr (es @ [c])" using path_join_pstr [of es "[c]"] Cons.prems by simp
  with Cons.IH [of "es @ [c]"] Cons.prems show ?case by (simp add: walk_path_def)
qed (simp add: walk_path_def)

lemma join_snoc: "xs \<noteq> [] \<Longrightarrow> join_with sep (xs @ [x]) = join_with sep xs @ sep @ x"
  by (induction xs rule: induct_list012) auto

lemma join_append: "xs \<noteq> [] \<Longrightarrow> ys \<noteq> [] \<Longrightarrow> join_with sep (xs @ ys) = join_with sep xs @ sep @ join_with sep ys"
proof (induction xs rule: induct_list012)
  case (2 x)
  then show ?case by (cases ys) auto
qed auto

definition base_elems :: "string list \<Rightarrow> string list" where
  "base_elems es = (if es = [] then [] else [last es])"

lemma path_base_pstr: "proper es \<Longrightarrow> path_base (pstr es) = pstr (base_elems es)"
proof (cases es rule: rev_cases)
  case Nil
  have "path_base ''.'' = ''.''" by code_simp
  with Nil show ?thesis by (simp add: pstr_def base_elems_def)
next
  case (snoc xs x)
  assume "proper es"
  with snoc have x: "x \<noteq> []" "CHR ''/'' \<notin> set x" by (auto simp: proper_elem_def)
  obtain s where s: "pstr es = s @ x" "s = [] \<or> last s = CHR ''/''"
    using snoc by (cases "xs = []") (auto simp: pstr_def join_snoc)
  have d: "dropWhile (\<lambda>c. c = CHR ''/'') (rev (s @ x)) = rev (s @ x)"
    using x by (cases x rule: rev_cases) auto
  have "takeWhile (\<lambda>c. c \<noteq> CHR ''/'') (rev (s @ x)) = rev x"
    using s(2) x(2) by (cases s rule: rev_cases) (auto simp: takeWhile_append)
  with d s(1) x(1) snoc show ?thesis by (simp add: path_base_def base_elems_def Let_def)
qed

lemma entry_name_pstr:
  assumes "proper es" and "proper q"
  shows "entry_name (pstr es) (path_base (pstr es)) (pstr (es @ q)) = pstr (base_elems es @ q)"
proof (cases "q = []")
  case False
  have ne: "pstr (es @ q) \<noteq> pstr es"
    using pstr_inj [of "es @ q" es] assms False by auto
  have q: "pstr q \<noteq> []" using pstr_text assms(2) by blast
  have b: "proper (base_elems es)" using assms(1) by (simp add: base_elems_def)
  show ?thesis
  proof (cases "es = []")
    case True
    have "pstr [] = ''.''" by (simp add: pstr_def)
    with True ne q path_join_pstr [of "[]" q] path_base_pstr [of "[]"] assms(2) show ?thesis
      by (simp add: entry_name_def base_elems_def)
  next
    case es: False
    have "pstr es \<noteq> ''.''" using pstr_inj [of es "[]"] assms(1) es by (auto simp: pstr_def)
    moreover have "trim_prefix (pstr (es @ q)) (pstr es @ ''/'') = pstr q"
      using es False by (simp add: pstr_def join_append trim_prefix_def)
    ultimately show ?thesis
      using ne q path_join_pstr [OF b assms(2)] assms(1) by (simp add: entry_name_def path_base_pstr)
  qed
qed (use assms in \<open>simp add: entry_name_def path_base_pstr\<close>)

section \<open>Copying out\<close>

text \<open>What can be copied: files, directories and links, with permission bits only.\<close>

definition copyable :: "inode \<Rightarrow> bool" where
  "copyable n \<longleftrightarrow> in_uid n \<ge> 0 \<and> in_gid n \<ge> 0 \<and>
     (case in_kind n of FReg _ \<Rightarrow> perm_ok (in_mode n) | FDir \<Rightarrow> perm_ok (in_mode n) | FSym t \<Rightarrow> t \<noteq> [] | _ \<Rightarrow> False)"

definition faultless :: "rfs \<Rightarrow> bool" where
  "faultless fs \<longleftrightarrow> (\<forall>op p. fs_fault fs op p = None)"

definition tar_entry_of :: "inode \<Rightarrow> string \<Rightarrow> tar_entry" where
  "tar_entry_of n name =
     \<lparr>te_Name = name, te_Typeflag = (case in_kind n of FDir \<Rightarrow> TypeDir | FSym _ \<Rightarrow> TypeSymlink | _ \<Rightarrow> TypeReg),
      te_Mode = in_mode n AND 0xFFF, te_Uid = in_uid n, te_Gid = in_gid n,
      te_Linkname = (case in_kind n of FSym t \<Rightarrow> t | _ \<Rightarrow> []), te_data = (case in_kind n of FReg b \<Rightarrow> b | _ \<Rightarrow> []),
      te_dataErr = None\<rparr>"

lemma writeTarEntry_ok:
  assumes "copyable n" and "faultless fs" and "\<And>h. xe_writeHeader env h = None" and "fs_inode fs (root @ r) = Some n"
    and "\<And>f. in_kind n \<noteq> FDir \<Longrightarrow> f \<longrightarrow> \<not> is_sym fs (root @ r) \<Longrightarrow> root_path fs root f srcPath = Inr r"
  shows "writeTarEntry env fs root srcPath n name = (None, [tar_entry_of n name])"
  using assms
  by (auto simp: writeTarEntry_def FileInfoHeader_def tar_flag_def tar_entry_of_def copyable_def faultless_def faulty_def
      root_Readlink_def root_ReadFile_def is_sym_def split: fkind.splits)

lemma named_proper: "fs_wf fs \<Longrightarrow> gm_get (fs_names fs) (b @ q) \<noteq> None \<Longrightarrow> proper q"
proof (induction q rule: rev_induct)
  case (snoc x q)
  then have "is_dir fs (b @ q) \<and> proper_elem x"
    using fs_wf_parent [of fs "b @ q @ [x]"] by (simp add: butlast_append)
  with snoc is_dir_named [of fs "b @ q"] show ?case by auto
qed simp

lemma walked_path:
  assumes "fs_wf fs" and "resolve fs root True root_max_symlinks [] es = Inr r" and "is_dir fs (root @ r)" and "proper es"
    and "gm_get (fs_names fs) (root @ r @ q @ [c]) \<noteq> None" and "f \<longrightarrow> \<not> is_sym fs (root @ r @ q @ [c])"
  shows "root_path fs root f (pstr (es @ q @ [c])) = Inr (r @ q @ [c])"
proof -
  have q: "proper (q @ [c])"
    using named_proper [OF assms(1), of "root @ r" "q @ [c]"] assms(5) by simp
  have dir: "is_dir fs (root @ r @ q)"
    using fs_wf_parent [OF assms(1,5)] by (simp add: butlast_append)
  obtain k where "resolve fs root f root_max_symlinks [] (es @ q @ [c]) = resolve fs root f k r (q @ [c])"
    using resolve_append [OF assms(2,3), of "q @ [c]" f] by auto
  moreover have "proper (es @ q @ [c])" using assms(4) q by auto
  ultimately show ?thesis
    using resolve_leaf [OF assms(1) dir q assms(6)] by (simp only: root_path_pstr)
qed

definition entry_elems :: "string list \<Rightarrow> string list \<Rightarrow> string list \<Rightarrow> string list" where
  "entry_elems es b p = base_elems es @ drop (length b) p"

definition entry_of :: "rfs \<Rightarrow> string list \<Rightarrow> string list \<Rightarrow> string list \<Rightarrow> tar_entry" where
  "entry_of fs es b p = tar_entry_of (the (fs_inode fs p)) (pstr (entry_elems es b p))"

lemma write_walk_ok:
  assumes "fs_wf fs" and "faultless fs" and "\<And>h. xe_writeHeader env h = None" and "proper es"
    and "resolve fs root True root_max_symlinks [] es = Inr r" and "is_dir fs (root @ r)"
    and "\<forall>p\<in>below fs (root @ r). \<forall>n. fs_inode fs p = Some n \<longrightarrow> copyable n"
  shows "set ws \<subseteq> below fs (root @ r) \<Longrightarrow>
    write_walk env fs root (pstr es) (path_base (pstr es)) (length (root @ r)) (map (\<lambda>x. (x, None)) ws) =
      (None, map (entry_of fs es (root @ r)) ws)"
proof (induction ws)
  case (Cons p ws)
  then have p: "p \<in> below fs (root @ r)" by simp
  then obtain q where q: "p = root @ r @ q" by (auto simp: below_def elim: prefixE)
  obtain n where n: "fs_inode fs p = Some n"
    using p fs_wf_inode [OF assms(1)] by (cases "fs_inode fs p") (auto simp: below_def)
  have c: "copyable n" using p n assms(7) by blast
  have pq: "proper q" using named_proper [OF assms(1), of "root @ r" q] p q by (simp add: below_def)
  have w: "writeTarEntry env fs root (pstr (es @ q)) n nm = (None, [tar_entry_of n nm])" for nm
  proof (rule writeTarEntry_ok [OF c assms(2,3)])
    show "fs_inode fs (root @ r @ q) = Some n" using n q by simp
    fix f assume k: "in_kind n \<noteq> FDir" and f: "f \<longrightarrow> \<not> is_sym fs (root @ r @ q)"
    then have "q \<noteq> []" using assms(6) n q by (auto simp: is_dir_def)
    then obtain q' x where "q = q' @ [x]" by (cases q rule: rev_cases) auto
    with walked_path [OF assms(1,5,6,4)] f p q show "root_path fs root f (pstr (es @ q)) = Inr (r @ q)"
      by (simp add: below_def)
  qed
  have "faulty fs ''lstat'' p (Inr n) = Inr n" using assms(2) by (simp add: faulty_def faultless_def)
  with Cons w q n pq assms(4) show ?case
    by (simp add: walk_path_pstr entry_name_pstr entry_of_def entry_elems_def Let_def)
qed simp

section \<open>Copying in\<close>

lemma mkdir_dirs:
  "fs_wf fs \<Longrightarrow> is_dir fs (d @ at @ qs) \<Longrightarrow> proper qs \<Longrightarrow>
     mkdir_all d perm k at (qs @ rest) fs = mkdir_all d perm k (at @ qs) rest fs"
proof (induction qs arbitrary: at)
  case (Cons c qs)
  have "is_dir fs (d @ at @ [c])" using is_dir_up [of fs "d @ at @ [c]" qs] Cons.prems by simp
  then obtain n where "fs_inode fs (d @ at @ [c]) = Some n" "in_kind n = FDir"
    by (auto simp: is_dir_def split: option.splits)
  with Cons show ?case by (auto simp: proper_elem_def)
qed simp

lemma root_MkdirAll_pstr:
  assumes "proper xs" and "perm_ok m"
  shows "root_MkdirAll d (pstr xs) m fs = mkdir_all d m root_max_symlinks [] xs fs"
  using assms by (auto simp: root_MkdirAll_def pstr_text split_pstr)

lemma MkdirAll_exists:
  "fs_wf fs \<Longrightarrow> is_dir fs (d @ t) \<Longrightarrow> proper t \<Longrightarrow> perm_ok m \<Longrightarrow> root_MkdirAll d (pstr t) m fs = (None, fs)"
  using mkdir_dirs [of fs d "[]" t m root_max_symlinks "[]"] by (simp add: root_MkdirAll_pstr)

lemma path_dir_pstr:
  assumes "proper (t @ [c])"
  shows "path_dir (pstr (t @ [c])) = pstr t"
proof -
  have c: "CHR ''/'' \<notin> set c" using assms by (auto simp: proper_elem_def)
  show ?thesis
  proof (cases "t = []")
    case True
    have "upto_last_slash c = []" using c by (auto simp: upto_last_slash_def)
    with True show ?thesis by (simp add: path_dir_def pstr_def path_clean_def)
  next
    case False
    have "upto_last_slash (pstr (t @ [c])) = pstr t @ ''/''"
      using False c by (auto simp: upto_last_slash_def pstr_def join_snoc dropWhile_append3)
    moreover have "path_clean (pstr t @ ''/'') = pstr t"
    proof -
      have "split_on (CHR ''/'') (pstr t @ [CHR ''/'']) = t @ [[]]"
        using False assms split_pstr [of t] by (simp add: split_on_sep)
      moreover have "clean_elems False [] (t @ [[]]) = t"
        using assms by (simp add: clean_elems_app clean_elems_fixed clean_step.simps)
      moreover have "pstr t \<noteq> []" "hd (pstr t) \<noteq> CHR ''/''"
        using pstr_text [of t] assms by (auto simp: path_is_abs_hd)
      ultimately show ?thesis using False by (simp add: path_clean_def pstr_def Let_def)
    qed
    ultimately show ?thesis by (simp add: path_dir_def)
  qed
qed

definition copied :: "32 word \<Rightarrow> bool \<Rightarrow> inode \<Rightarrow> inode" where
  "copied um own n =
     \<lparr>in_kind = in_kind n, in_mode = (case in_kind n of FSym _ \<Rightarrow> 0x1FF | _ \<Rightarrow> in_mode n AND NOT um),
      in_uid = (if own then in_uid n else 0), in_gid = (if own then in_gid n else 0)\<rparr>"

lemma add_put: "fs_inodes (add_node p n fs) = gm_put (fresh_ino fs) n (fs_inodes fs)"
  by (simp add: add_node_def)

lemma file_write_add: "file_write (Some (fresh_ino fs)) b (add_node p n fs) = add_node p (n\<lparr>in_kind := FReg b\<rparr>) fs"
  by (simp add: file_write_def add_node_def)

lemma perm_ok_mask: "perm_ok m \<Longrightarrow> m AND 0xFFF = m"
proof -
  assume "perm_ok m"
  then have m: "m AND 0x1FF = m" by (simp add: perm_ok_def)
  have "m AND 0xFFF = (m AND 0x1FF) AND 0xFFF" using m by simp
  also have "\<dots> = m AND 0x1FF" by (simp add: and.assoc)
  finally show ?thesis using m by simp
qed

text \<open>One entry, extracted to a new place in a directory.\<close>

lemma extract_new:
  assumes "fs_wf fs" and "faultless fs" and "is_dir fs (d @ t)" and "proper (t @ [c])" and "copyable n"
    and "gm_get (fs_names fs) (d @ t @ [c]) = None"
  shows "extractTarEntry d (pstr (t @ [c])) (tar_entry_of n nm) own fs =
    (None, add_node (d @ t @ [c]) (copied (fs_umask fs) own n) fs)"
proof -
  let ?p = "d @ t @ [c]"
  have none: "fs_inode fs ?p = None" using assms(1,6) by (simp add: fs_wf_inode)
  have path: "root_path fs d f (pstr (t @ [c])) = Inr (t @ [c])" for f
    using resolve_leaf [OF assms(1), of d "[]" t c f root_max_symlinks] assms(3,4) none
    by (simp only: root_path_pstr) (simp add: is_sym_def)
  have mk: "root_MkdirAll d (path_dir (pstr (t @ [c]))) 0x1ED fs = (None, fs)"
    using MkdirAll_exists [OF assms(1,3)] assms(4) by (simp add: path_dir_pstr perm_ok_def)
  have mkd: "root_MkdirAll d (pstr (t @ [c])) m fs = (None, add_node ?p (new_node fs FDir m) fs)" if "perm_ok m" for m
  proof -
    have "root_MkdirAll d (pstr (t @ [c])) m fs = mkdir_all d m root_max_symlinks [] (t @ [c]) fs"
      using assms(4) that by (rule root_MkdirAll_pstr)
    also have "\<dots> = mkdir_all d m root_max_symlinks t [c] fs"
      using mkdir_dirs [OF assms(1), of d "[]" t] assms(3,4) by simp
    finally show ?thesis
      using none assms(2,4) by (auto simp: proper_elem_def faultless_def)
  qed
  have own: "root_Lchown d (pstr (t @ [c])) u g (add_node ?p x fs) = (None, add_node ?p (x\<lparr>in_uid := u, in_gid := g\<rparr>) fs)"
    if "u \<ge> 0" "g \<ge> 0" for u g x
  proof -
    let ?fs = "add_node ?p x fs"
    have k: "fs_keeps fs ?fs"
      using assms(3,4,6) is_dir_up [OF assms(1,3)] by (intro fs_keeps_add [OF assms(1)]) (simp_all add: in_dir_def)
    then have "root_path ?fs d False (pstr (t @ [c])) = Inr (t @ [c])"
      using resolve_leaf [of ?fs d "[]" t c False root_max_symlinks] assms(3,4)
      by (simp only: root_path_pstr) (simp add: fs_keeps_def)
    moreover have "fs_fault ?fs = fs_fault fs" by (simp add: add_node_def)
    ultimately show ?thesis
      using that assms(2) by (simp add: root_Lchown_def faultless_def add_put) (simp add: add_node_def)
  qed
  show ?thesis
  proof (cases "in_kind n")
    case (FReg b)
    then have "perm_ok (in_mode n)" using assms(5) by (simp add: copyable_def)
    with FReg mk path own assms(2,5,6) show ?thesis
      by (simp add: extractTarEntry_def tar_entry_of_def root_OpenFile_def faultless_def perm_ok_mask file_write_add
          copied_def copyable_def new_node_def)
  next
    case FDir
    then have "perm_ok (in_mode n)" using assms(5) by (simp add: copyable_def)
    with FDir mkd own assms(5) show ?thesis
      by (simp add: extractTarEntry_def tar_entry_of_def perm_ok_mask copied_def copyable_def new_node_def)
  next
    case (FSym l)
    with mk path own assms(2,5,6) show ?thesis
      by (simp add: extractTarEntry_def tar_entry_of_def root_Symlink_def faultless_def copied_def copyable_def)
  qed (use assms(5) in \<open>simp_all add: copyable_def\<close>)
qed

section \<open>The copy\<close>

text \<open>The destination holds the entries of \<open>S\<close>, with the nodes \<open>E\<close> gives, and nothing else.\<close>

definition copy_inv :: "string list \<Rightarrow> (string list \<Rightarrow> inode) \<Rightarrow> 32 word \<Rightarrow> string list set \<Rightarrow> rfs \<Rightarrow> bool" where
  "copy_inv d E um S fs \<longleftrightarrow> fs_wf fs \<and> faultless fs \<and> is_dir fs d \<and> fs_umask fs = um
     \<and> (\<forall>t. t \<noteq> [] \<longrightarrow> fs_inode fs (d @ t) = (if t \<in> S then Some (E t) else None))"

lemma copy_step:
  assumes "copy_inv d E um S fs" and "proper (t @ [c])" and "t @ [c] \<notin> S" and "copyable n"
    and "t = [] \<or> t \<in> S \<and> in_kind (E t) = FDir" and "E (t @ [c]) = copied um own n"
  shows "\<exists>fs'. extractTarEntry d (pstr (t @ [c])) (tar_entry_of n nm) own fs = (None, fs') \<and> copy_inv d E um (insert (t @ [c]) S) fs'"
proof -
  have wf: "fs_wf fs" "faultless fs" "is_dir fs d" "fs_umask fs = um"
    and nodes: "\<And>t. t \<noteq> [] \<Longrightarrow> fs_inode fs (d @ t) = (if t \<in> S then Some (E t) else None)"
    using assms(1) by (auto simp: copy_inv_def)
  have dir: "is_dir fs (d @ t)" using assms(5) wf(3) nodes [of t] by (cases "t = []") (auto simp: is_dir_def)
  have none: "gm_get (fs_names fs) (d @ t @ [c]) = None"
    using nodes [of "t @ [c]"] assms(3) wf(1) by (simp add: fs_wf_inode)
  let ?fs = "add_node (d @ t @ [c]) (copied um own n) fs"
  have "fs_keeps fs ?fs"
    using wf none dir assms(2) by (intro fs_keeps_add) (simp_all add: in_dir_def)
  then have "copy_inv d E um (insert (t @ [c]) S) ?fs"
    using wf nodes assms(6) by (auto simp: copy_inv_def fs_keeps_def faultless_def) (simp_all add: add_node_def)
  with extract_new [OF wf(1,2) dir assms(2,4) none, of nm own] wf(4) show ?thesis by auto
qed

text \<open>A directory that can be copied, the path it is named by, and the nodes its copy has.\<close>

definition copy_source :: "rfs \<Rightarrow> string list \<Rightarrow> string list \<Rightarrow> bool" where
  "copy_source fs0 b es \<longleftrightarrow> fs_wf fs0 \<and> is_dir fs0 b \<and> proper es \<and>
     (\<forall>p\<in>below fs0 b. \<forall>n. fs_inode fs0 p = Some n \<longrightarrow> copyable n)"

definition copy_node :: "rfs \<Rightarrow> string list \<Rightarrow> string list \<Rightarrow> 32 word \<Rightarrow> bool \<Rightarrow> string list \<Rightarrow> inode" where
  "copy_node fs0 b es um own t = copied um own (the (fs_inode fs0 (b @ drop (length (base_elems es)) t)))"

lemma below_node: "copy_source fs0 b es \<Longrightarrow> p \<in> below fs0 b \<Longrightarrow> \<exists>n. fs_inode fs0 p = Some n \<and> copyable n"
  by (cases "fs_inode fs0 p") (auto simp: copy_source_def below_def fs_wf_inode)

lemma copy_node_at: "p \<in> below fs0 b \<Longrightarrow> copy_node fs0 b es um own (entry_elems es b p) = copied um own (the (fs_inode fs0 p))"
  by (auto simp: copy_node_def entry_elems_def below_def elim: prefixE)

lemma entry_elems_inj: "p \<in> below fs0 b \<Longrightarrow> p' \<in> below fs0 b \<Longrightarrow> entry_elems es b p = entry_elems es b p' \<Longrightarrow> p = p'"
  by (auto simp: entry_elems_def below_def elim!: prefixE)

lemma read_step:
  assumes "copy_source fs0 b es" and "copy_inv d (copy_node fs0 b es um own) um (entry_elems es b ` P) fs" and "P \<subseteq> below fs0 b"
    and "b \<in> P" and "p \<in> below fs0 b" and "p \<notin> P" and "butlast p \<in> P"
  shows "\<exists>fs'. read_entries d own (entry_of fs0 es b p # hs) None fs = read_entries d own hs None fs'
    \<and> copy_inv d (copy_node fs0 b es um own) um (entry_elems es b ` insert p P) fs'"
proof -
  have wf: "fs_wf fs0" "proper es" using assms(1) by (simp_all add: copy_source_def)
  have "p \<noteq> b" using assms(4,6) by blast
  then obtain q c where p: "p = b @ q @ [c]"
    using assms(5) by (auto simp: below_def elim!: prefixE) (metis append_Nil2 rev_exhaust)
  let ?t = "base_elems es @ q"
  let ?E = "copy_node fs0 b es um own"
  have t: "entry_elems es b p = ?t @ [c]" by (simp add: p entry_elems_def)
  have parent: "b @ q \<in> P" using assms(7) p by (simp add: butlast_append)
  have tq: "entry_elems es b (b @ q) = ?t" by (simp add: entry_elems_def)
  have pq: "proper (?t @ [c])"
    using named_proper [OF wf(1), of b "q @ [c]"] assms(5) wf(2) p by (auto simp: below_def base_elems_def)
  have "is_dir fs0 (b @ q)"
    using fs_wf_parent [OF wf(1), of p] assms(5) p by (auto simp: below_def butlast_append)
  then have "in_kind (?E ?t) = FDir"
    using copy_node_at [of "b @ q" fs0 b es um own] parent assms(3) tq by (auto simp: copied_def is_dir_def split: option.splits)
  then have dir: "?t = [] \<or> ?t \<in> entry_elems es b ` P \<and> in_kind (?E ?t) = FDir"
    using parent tq by force
  have new: "?t @ [c] \<notin> entry_elems es b ` P"
  proof
    assume "?t @ [c] \<in> entry_elems es b ` P"
    then obtain x where "x \<in> P" "entry_elems es b p = entry_elems es b x" using t by auto
    with entry_elems_inj [of p fs0 b x es] assms(3,5,6) show False by blast
  qed
  obtain n where n: "fs_inode fs0 p = Some n" "copyable n" using below_node assms(1,5) by blast
  have E: "?E (?t @ [c]) = copied um own n" using copy_node_at [OF assms(5), of es um own] t n by simp
  from copy_step [OF assms(2) pq new n(2) dir E] obtain fs' where
    x: "extractTarEntry d (pstr (?t @ [c])) (entry_of fs0 es b p) own fs = (None, fs')"
    and inv: "copy_inv d ?E um (insert (?t @ [c]) (entry_elems es b ` P)) fs'"
    unfolding entry_of_def using n(1) by force
  have "trim_prefix (path_clean (CHR ''/'' # te_Name (entry_of fs0 es b p))) ''/'' = pstr (?t @ [c])"
    using pq t clean_join_proper [of "?t @ [c]"] by (simp add: entry_of_def tar_entry_of_def pstr_def trim_prefix_def)
  with x inv t pstr_text [OF pq] show ?thesis by (intro exI [of _ fs']) simp
qed

lemma read_walk:
  assumes "copy_source fs0 b es"
  shows "parents_first P ws \<Longrightarrow> distinct ws \<Longrightarrow> set ws \<subseteq> below fs0 b \<Longrightarrow> P \<subseteq> below fs0 b \<Longrightarrow> set ws \<inter> P = {} \<Longrightarrow> b \<in> P \<Longrightarrow>
   copy_inv d (copy_node fs0 b es um own) um (entry_elems es b ` P) fs \<Longrightarrow>
     \<exists>fs'. read_entries d own (map (entry_of fs0 es b) ws) None fs = (None, fs')
       \<and> copy_inv d (copy_node fs0 b es um own) um (entry_elems es b ` (P \<union> set ws)) fs'"
proof (induction ws arbitrary: P fs)
  case (Cons p ws)
  have p: "p \<in> below fs0 b" "p \<notin> P" "butlast p \<in> P" using Cons.prems by auto
  obtain fs1 where 1: "read_entries d own (entry_of fs0 es b p # map (entry_of fs0 es b) ws) None fs =
      read_entries d own (map (entry_of fs0 es b) ws) None fs1"
    and inv: "copy_inv d (copy_node fs0 b es um own) um (entry_elems es b ` insert p P) fs1"
    using read_step [OF assms Cons.prems(7,4,6) p] by blast
  have "parents_first (insert p P) ws" "distinct ws" "set ws \<subseteq> below fs0 b" "insert p P \<subseteq> below fs0 b"
    "set ws \<inter> insert p P = {}" "b \<in> insert p P"
    using Cons.prems by auto
  from Cons.IH [OF this inv] 1 show ?case by (simp del: read_entries.simps)
qed simp

text \<open>The entry of the directory itself: its base name, or none for the root.\<close>

lemma read_first:
  assumes "copy_source fs0 b es" and "copy_inv d (copy_node fs0 b es um own) um {} fs"
  shows "\<exists>fs'. read_entries d own (entry_of fs0 es b b # hs) None fs = read_entries d own hs None fs'
    \<and> copy_inv d (copy_node fs0 b es um own) um (entry_elems es b ` {b}) fs'"
proof (cases "es = []")
  case True
  have "trim_prefix (path_clean (CHR ''/'' # ''.'')) ''/'' = []" by code_simp
  moreover have "te_Name (entry_of fs0 es b b) = ''.''" "entry_elems es b b = []"
    using True by (simp_all add: entry_of_def tar_entry_of_def entry_elems_def base_elems_def pstr_def)
  ultimately show ?thesis
    using assms(2) by (intro exI [of _ fs]) (auto simp: copy_inv_def)
next
  case False
  let ?c = "last es"
  let ?E = "copy_node fs0 b es um own"
  have t: "entry_elems es b b = [?c]" using False by (simp add: entry_elems_def base_elems_def)
  have b: "b \<in> below fs0 b" using is_dir_named [of fs0 b] assms(1) by (simp add: below_def copy_source_def)
  obtain n where n: "fs_inode fs0 b = Some n" "copyable n" using below_node assms(1) b by blast
  have pc: "proper ([] @ [?c])" using assms(1) False by (simp add: copy_source_def)
  have E: "?E ([] @ [?c]) = copied um own n" using copy_node_at [OF b, of es um own] t n by simp
  from copy_step [OF assms(2) pc _ n(2) _ E] obtain fs' where
    x: "extractTarEntry d (pstr [?c]) (entry_of fs0 es b b) own fs = (None, fs')"
    and inv: "copy_inv d ?E um {[?c]} fs'"
    unfolding entry_of_def using n(1) by force
  have "trim_prefix (path_clean (CHR ''/'' # te_Name (entry_of fs0 es b b))) ''/'' = pstr [?c]"
    using pc t clean_join_proper [of "[?c]"] by (simp add: entry_of_def tar_entry_of_def trim_prefix_def)
  with x inv t pstr_text [OF pc] show ?thesis by (intro exI [of _ fs']) simp
qed

lemma read_all:
  assumes "copy_source fs0 b es" and "copy_inv d (copy_node fs0 b es um own) um {} fs" and "distinct (b # ws)"
    and "set (b # ws) = below fs0 b" and "parents_first {b} ws"
  shows "\<exists>fs'. read_entries d own (map (entry_of fs0 es b) (b # ws)) None fs = (None, fs')
    \<and> copy_inv d (copy_node fs0 b es um own) um (entry_elems es b ` below fs0 b) fs'"
proof -
  obtain fs1 where 1: "read_entries d own (entry_of fs0 es b b # map (entry_of fs0 es b) ws) None fs =
      read_entries d own (map (entry_of fs0 es b) ws) None fs1"
    and inv: "copy_inv d (copy_node fs0 b es um own) um (entry_elems es b ` {b}) fs1"
    using read_first [OF assms(1,2)] by blast
  have "distinct ws" "set ws \<subseteq> below fs0 b" "{b} \<subseteq> below fs0 b" "set ws \<inter> {b} = {}" "b \<in> {b}"
    using assms(3,4) by auto
  from read_walk [OF assms(1,5) this inv] have "\<exists>fs'. read_entries d own (map (entry_of fs0 es b) ws) None fs1 = (None, fs')
      \<and> copy_inv d (copy_node fs0 b es um own) um (entry_elems es b ` below fs0 b) fs'"
    by (simp only: assms(4) [symmetric] set_simps insert_is_Un [symmetric])
  with 1 show ?thesis by (simp del: read_entries.simps)
qed

lemma mkdir_all_env: "mkdir_all d perm k at cs fs = (e, fs') \<Longrightarrow> fs_umask fs' = fs_umask fs \<and> fs_fault fs' = fs_fault fs"
proof (induction d perm k at cs fs arbitrary: e fs' rule: mkdir_all.induct)
  case (2 d perm k at c cs fs)
  show ?case
  proof (cases "c = [] \<or> c = ''.'' \<or> c = ''..''")
    case True
    with 2 show ?thesis by (auto split: if_splits)
  next
    case False
    then have ne: "\<not> (c = [] \<or> c = ''.'')" "c \<noteq> ''..''" by auto
    show ?thesis
    proof (cases "fs_inode fs (d @ at @ [c])")
      case None
      then show ?thesis
        using "2.prems" "2.IH"(3) [OF ne None] ne by (auto simp: add_node_def split: option.splits)
    next
      case (Some n)
      then show ?thesis
        using "2.prems" "2.IH"(4,5) [OF ne Some] ne by (cases "in_kind n") (auto split: if_splits)
    qed
  qed
qed simp

lemma root_MkdirAll_env:
  "root_MkdirAll d name perm fs = (e, fs') \<Longrightarrow> fs_umask fs' = fs_umask fs \<and> fs_fault fs' = fs_fault fs"
  by (auto simp: root_MkdirAll_def split: if_splits dest: mkdir_all_env)

lemma root_OpenRoot_path: "root_OpenRoot fs d name = Inr p \<Longrightarrow> \<exists>r. root_path fs d True name = Inr r \<and> p = d @ r"
  by (auto simp: root_OpenRoot_def faulty_def split: sum.splits option.splits if_splits)

lemma writePath_dir:
  assumes "faultless fs0" and "\<And>h. xe_writeHeader env h = None" and "xe_openRoot env rootfs = Inr root"
    and "root_Lstat fs0 root (rootRel src) = Inr fi" and "in_kind fi = FDir"
    and "root_OpenRoot fs0 root (rootRel src) = Inr b" and "rootRel src = pstr es" and "copy_source fs0 b es"
  shows "\<exists>ws. writePath env fs0 rootfs src mediaTypeTar False = (None, map (entry_of fs0 es b) (b # ws))
    \<and> distinct (b # ws) \<and> set (b # ws) = below fs0 b \<and> parents_first {b} ws"
proof -
  have wf: "fs_wf fs0" "is_dir fs0 b" "proper es" using assms(8) by (simp_all add: copy_source_def)
  obtain r where r: "resolve fs0 root True root_max_symlinks [] es = Inr r" "b = root @ r"
    using root_OpenRoot_path [OF assms(6)] assms(7) wf(3) by (auto simp: root_path_pstr)
  obtain ws where ws: "walk_dir (walk_depth fs0) fs0 b = map (\<lambda>x. (x, None)) (b # ws)" "distinct (b # ws)"
    "set (b # ws) = below fs0 b" "parents_first {b} ws"
    using walk_all [OF wf(1) _ is_dir_named [OF wf(2)]] assms(1) by (auto simp: faultless_def)
  have "write_walk env fs0 root (pstr es) (path_base (pstr es)) (length b) (map (\<lambda>x. (x, None)) (b # ws)) =
      (None, map (entry_of fs0 es b) (b # ws))"
    unfolding r(2) using wf(2) assms(8) ws(3) r(2)
    by (intro write_walk_ok [OF wf(1) assms(1,2) wf(3) r(1)]) (simp_all add: copy_source_def)
  with assms ws(1) have "writePath env fs0 rootfs src mediaTypeTar False = (None, map (entry_of fs0 es b) (b # ws))"
    by (simp add: writePath_def Let_def)
  with ws(2-4) show ?thesis by blast
qed

lemma readPath_fresh:
  assumes "xe_openRoot env rootfs = Inr root" and "root_MkdirAll root (rootRel dst) 0x1ED fs = (None, fs1)"
    and "root_OpenRoot fs1 root (rootRel dst) = Inr d"
  shows "readPath env r rootfs dst mediaTypeTar own fs = read_entries d own (ts_entries r) (ts_end r) fs1"
proof (cases "rootRel dst = ''.''")
  case True
  have "root_MkdirAll root ''.'' 0x1ED fs = (None, fs)"
    using root_MkdirAll_pstr [where xs = "[]" and m = "0x1ED" and d = root and fs = fs] by (simp add: pstr_def perm_ok_def)
  moreover have "root_path fs root True ''.'' = Inr []"
    using root_path_pstr [where xs = "[]" and fs = fs and d = root and f = True] by (simp add: pstr_def)
  ultimately have "fs1 = fs" "d = root"
    using True assms(2,3) root_OpenRoot_path by fastforce+
  with True assms(1) show ?thesis by (simp add: readPath_def)
qed (use assms in \<open>simp add: readPath_def\<close>)

lemma base_of_path:
  assumes "proper ns"
  shows "(if pstr ns = ''.'' then [] else [path_base (pstr ns)]) = base_elems ns"
proof (cases "ns = []")
  case False
  have "pstr ns \<noteq> pstr []" using pstr_inj [OF assms, of "[]"] False by (metis empty_iff empty_set)
  then have "pstr ns \<noteq> ''.''" by (simp add: pstr_def)
  with False path_base_pstr [OF assms] show ?thesis by (simp add: base_elems_def)
qed (simp add: base_elems_def pstr_def)

lemma entry_elems_image:
  "fs_wf fs0 \<Longrightarrow> t \<in> entry_elems ns b ` below fs0 b \<longleftrightarrow> (\<exists>q. t = base_elems ns @ q \<and> fs_inode fs0 (b @ q) \<noteq> None)"
proof
  assume "t \<in> entry_elems ns b ` below fs0 b" and wf: "fs_wf fs0"
  then obtain p where p: "p \<in> below fs0 b" "t = entry_elems ns b p" by blast
  then obtain q where "p = b @ q" by (auto simp: below_def elim: prefixE)
  with p have "b @ q \<in> below fs0 b" "t = base_elems ns @ q" by (simp_all add: entry_elems_def)
  with wf show "\<exists>q. t = base_elems ns @ q \<and> fs_inode fs0 (b @ q) \<noteq> None"
    by (auto simp: below_def fs_wf_inode)
next
  assume "\<exists>q. t = base_elems ns @ q \<and> fs_inode fs0 (b @ q) \<noteq> None" and wf: "fs_wf fs0"
  then obtain q where "t = entry_elems ns b (b @ q)" "b @ q \<in> below fs0 b"
    by (auto simp: entry_elems_def below_def fs_wf_inode)
  then show "t \<in> entry_elems ns b ` below fs0 b" by blast
qed

lemma copied_tree:
  assumes "copy_inv d (copy_node fs0 b ns um own) um (entry_elems ns b ` below fs0 b) fs'" and "fs_wf fs0" and "t \<noteq> []"
  shows "fs_inode fs' (d @ t) = (if prefix (base_elems ns) t then
    map_option (copied um own) (fs_inode fs0 (b @ drop (length (base_elems ns)) t)) else None)"
proof -
  have node: "fs_inode fs' (d @ t) = (if t \<in> entry_elems ns b ` below fs0 b then Some (copy_node fs0 b ns um own t) else None)"
    using assms(1,3) by (simp add: copy_inv_def)
  show ?thesis
  proof (cases "prefix (base_elems ns) t")
    case True
    then obtain q where q: "t = base_elems ns @ q" by (auto elim: prefixE)
    with node entry_elems_image [OF assms(2), of t ns b] show ?thesis
      by (cases "fs_inode fs0 (b @ q)") (auto simp: copy_node_def)
  next
    case False
    with node entry_elems_image [OF assms(2), of t ns b] show ?thesis by (auto simp: prefix_def)
  qed
qed

text \<open>
  C8. A directory whose tree holds only regular files, directories and links, none with a set-id or sticky
  bit (\<open>copyable\<close>; \<open>special_mode_refused\<close> and \<open>special_file_chown_fails\<close> are about other trees), copied out of
  one container and into an empty directory of another, where no call of the file system fails, arrives
  complete: each name below it, prefixed by the base name of the requested path, has the same content, link
  target, permissions less the umask and, if asked for, owner; and nothing else is there. Hard links
  arrive as separate files.
\<close>

theorem copy_roundtrip:
  assumes "writePath env fs0 rootfs src mediaTypeTar False = (r, es)"
    and "fs_wf fs0" and "faultless fs0" and "\<forall>h. xe_writeHeader env h = None" and "xe_openRoot env rootfs = Inr root"
    and "root_Lstat fs0 root (rootRel src) = Inr fi" and "in_kind fi = FDir" and "root_OpenRoot fs0 root (rootRel src) = Inr b"
    and "\<forall>p\<in>below fs0 b. \<forall>n. fs_inode fs0 p = Some n \<longrightarrow> copyable n"
    and "fs_wf fs" and "faultless fs" and "xe_openRoot env' rootfs' = Inr root'" and "is_dir fs root'"
    and "root_MkdirAll root' (rootRel dst) 0x1ED fs = (None, fs1)" and "root_OpenRoot fs1 root' (rootRel dst) = Inr d"
    and "\<forall>t. t \<noteq> [] \<longrightarrow> fs_inode fs1 (d @ t) = None"
  shows "\<exists>fs'. r = None \<and> readPath env' \<lparr>ts_entries = es, ts_end = None\<rparr> rootfs' dst mediaTypeTar own fs = (None, fs')
    \<and> (\<forall>t. t \<noteq> [] \<longrightarrow> fs_inode fs' (d @ t) =
          (let base = (if rootRel src = ''.'' then [] else [path_base (rootRel src)])
           in if prefix base t then map_option (copied (fs_umask fs) own) (fs_inode fs0 (b @ drop (length base) t)) else None))"
proof -
  obtain ns where ns: "proper ns" "rootRel src = pstr ns" using rootRel_pstr by blast
  have source: "copy_source fs0 b ns"
    using assms(2,9) ns(1) root_OpenRoot_dir [OF assms(8)] by (simp add: copy_source_def)
  obtain ws where w: "r = None" "es = map (entry_of fs0 ns b) (b # ws)"
    and ws: "distinct (b # ws)" "set (b # ws) = below fs0 b" "parents_first {b} ws"
    using writePath_dir [OF assms(3) _ assms(5-8) ns(2) source] assms(1,4) by auto
  let ?E = "copy_node fs0 b ns (fs_umask fs) own"
  have "fs_wf fs1" "fs_umask fs1 = fs_umask fs" "faultless fs1"
    using root_MkdirAll_rel [OF assms(14,10,13)] root_MkdirAll_env [OF assms(14)] assms(11)
    by (auto simp: mkdir_rel_def fs_keeps_def faultless_def)
  then have "copy_inv d ?E (fs_umask fs) {} fs1"
    using assms(16) root_OpenRoot_dir [OF assms(15)] by (simp add: copy_inv_def)
  from read_all [OF source this ws] obtain fs' where
    x: "read_entries d own es None fs1 = (None, fs')" and inv: "copy_inv d ?E (fs_umask fs) (entry_elems ns b ` below fs0 b) fs'"
    using w(2) by blast
  have "fs_inode fs' (d @ t) = (if prefix (base_elems ns) t then
      map_option (copied (fs_umask fs) own) (fs_inode fs0 (b @ drop (length (base_elems ns)) t)) else None)" if "t \<noteq> []" for t
    by (rule copied_tree [OF inv assms(2) that])
  moreover have "readPath env' \<lparr>ts_entries = es, ts_end = None\<rparr> rootfs' dst mediaTypeTar own fs = (None, fs')"
    using x readPath_fresh [OF assms(12,14,15)] by simp
  ultimately show ?thesis
    unfolding Let_def ns(2) base_of_path [OF ns(1)] using w(1) by blast
qed

section \<open>An example\<close>

lemma demo_below: "below demo_tree [''c'', ''a''] = {[''c'', ''a''], [''c'', ''a'', ''f''], [''c'', ''a'', ''l'']}"
  by (auto simp: below_def demo_tree_def split: if_splits)

theorem copy_roundtrip_witness:
  "\<exists>fs'. readPath demo_xenv \<lparr>ts_entries = snd (writePath demo_xenv demo_tree ''/run/bundles/c/rootfs'' ''/a'' mediaTypeTar False),
       ts_end = None\<rparr> ''/run/bundles/e/rootfs'' ''/'' mediaTypeTar True demo_tree = (None, fs')
     \<and> fs_inode fs' [''e'', ''a'', ''f''] = Some \<lparr>in_kind = FReg ''hi'', in_mode = 0x1A4, in_uid = 7, in_gid = 8\<rparr>"
proof -
  obtain r es where w: "writePath demo_xenv demo_tree ''/run/bundles/c/rootfs'' ''/a'' mediaTypeTar False = (r, es)" by force
  have src: "rootRel ''/a'' = ''a''" "rootRel ''/'' = ''.''" "path_base ''a'' = ''a''" by code_simp+
  have fl: "faultless demo_tree" by (simp add: faultless_def demo_tree_def)
  have hd: "\<forall>h. xe_writeHeader demo_xenv h = None" by (simp add: demo_xenv_def)
  have rt: "xe_openRoot demo_xenv ''/run/bundles/c/rootfs'' = Inr [''c'']" "xe_openRoot demo_xenv ''/run/bundles/e/rootfs'' = Inr [''e'']"
    by (simp_all add: demo_xenv_def)
  have st: "root_Lstat demo_tree [''c''] (rootRel ''/a'') = Inr (demo_node FDir 0x1ED)"
    "root_OpenRoot demo_tree [''c''] (rootRel ''/a'') = Inr [''c'', ''a'']"
    "root_OpenRoot demo_tree [''e''] (rootRel ''/'') = Inr [''e'']"
    unfolding src by code_simp+
  have mk: "root_MkdirAll [''e''] (rootRel ''/'') 0x1ED demo_tree = (None, demo_tree)"
    unfolding src using root_MkdirAll_pstr [where xs = "[]" and m = "0x1ED" and d = "[''e'']" and fs = demo_tree]
    by (simp add: pstr_def perm_ok_def)
  have k: "in_kind (demo_node FDir 0x1ED) = FDir" by (simp add: demo_node_def)
  have cp: "\<forall>p\<in>below demo_tree [''c'', ''a'']. \<forall>n. fs_inode demo_tree p = Some n \<longrightarrow> copyable n"
    unfolding demo_below by (simp add: fs_inode_def demo_tree_def demo_node_def copyable_def perm_ok_def)
  have emp: "\<forall>t. t \<noteq> [] \<longrightarrow> fs_inode demo_tree ([''e''] @ t) = None"
    by (simp add: fs_inode_def demo_tree_def)
  have dir: "is_dir demo_tree [''e'']" by code_simp
  obtain fs' where c: "readPath demo_xenv \<lparr>ts_entries = es, ts_end = None\<rparr> ''/run/bundles/e/rootfs'' ''/'' mediaTypeTar True demo_tree = (None, fs')"
    and t: "\<forall>t. t \<noteq> [] \<longrightarrow> fs_inode fs' ([''e''] @ t) =
          (let base = (if rootRel ''/a'' = ''.'' then [] else [path_base (rootRel ''/a'')])
           in if prefix base t then map_option (copied (fs_umask demo_tree) True) (fs_inode demo_tree ([''c'', ''a''] @ drop (length base) t)) else None)"
    using copy_roundtrip [OF w demo_tree_wf fl hd rt(1) st(1) k st(2) cp demo_tree_wf fl rt(2) dir mk st(3) emp, of True] by blast
  have "copied (fs_umask demo_tree) True (demo_node (FReg ''hi'') 0x1B4) = \<lparr>in_kind = FReg ''hi'', in_mode = 0x1A4, in_uid = 7, in_gid = 8\<rparr>"
    by code_simp
  moreover have "fs_inode demo_tree [''c'', ''a'', ''f''] = Some (demo_node (FReg ''hi'') 0x1B4)" by (simp add: fs_inode_def demo_tree_def)
  ultimately have "fs_inode fs' [''e'', ''a'', ''f''] = Some \<lparr>in_kind = FReg ''hi'', in_mode = 0x1A4, in_uid = 7, in_gid = 8\<rparr>"
    using t [rule_format, of "[''a'', ''f'']"] by (simp add: src)
  with c w show ?thesis by simp
qed

end
