(* ===== verification/Events.thy ===== *)
theory Events
  imports Go_Strings
begin

text \<open>
  The event exchange of the VM (\<open>internal/events/exchange.go\<close>) and its stream to the host
  (\<open>internal/vminit/events/service.go\<close>), on the broadcaster of the vendored \<open>go-events\<close>. A subscription
  has an unbounded queue, which the goroutine of \<open>Subscribe\<close> empties into the subscriber's channel.
\<close>

section \<open>Identifiers, topics and envelopes\<close>

record envelope =
  en_Timestamp :: nat
  en_Namespace :: string
  en_Topic :: string
  en_Event :: string

definition alphanum :: "char \<Rightarrow> bool" where
  "alphanum c \<longleftrightarrow>
     (let n = of_char c :: nat in 48 \<le> n \<and> n \<le> 57 \<or> 65 \<le> n \<and> n \<le> 90 \<or> 97 \<le> n \<and> n \<le> 122)"

definition separator :: "char \<Rightarrow> bool" where
  "separator c \<longleftrightarrow> c \<in> {CHR ''.'', CHR ''_'', CHR ''-''}"

text \<open>The pattern \<open>^[A-Za-z0-9]+(?:[._-](?:[A-Za-z0-9]+))*$\<close>; the flag tells that an alphanumeric was read last.\<close>

fun ident_match :: "bool \<Rightarrow> string \<Rightarrow> bool" where
  "ident_match al [] = al"
| "ident_match al (c # cs) = (if alphanum c then ident_match True cs else al \<and> separator c \<and> ident_match False cs)"

definition identifiers_Validate :: "string \<Rightarrow> go_error option" where
  "identifiers_Validate s =
     (if s = [] then Some (ErrWrap ''identifier must not be empty'' (Errdef ErrInvalidArgument))
      else if length s > 76 then Some (ErrWrap ''identifier greater than maximum length'' (Errdef ErrInvalidArgument))
      else if \<not> ident_match False s then Some (ErrWrap ''identifier must match'' (Errdef ErrInvalidArgument))
      else None)"

fun validate_components :: "string list \<Rightarrow> go_error option" where
  "validate_components [] = None"
| "validate_components (c # cs) =
     (case identifiers_Validate c of
        Some e \<Rightarrow> Some (ErrWrap (''failed validation on component '' @ c) e)
      | None \<Rightarrow> validate_components cs)"

definition validateTopic :: "string \<Rightarrow> go_error option" where
  "validateTopic topic =
     (if topic = [] then Some (ErrWrap ''must not be empty'' (Errdef ErrInvalidArgument))
      else if hd topic \<noteq> CHR ''/'' then Some (ErrWrap ''must start with /'' (Errdef ErrInvalidArgument))
      else if length topic = 1 then Some (ErrWrap ''must have at least one component'' (Errdef ErrInvalidArgument))
      else validate_components (split_on (CHR ''/'') (tl topic)))"

definition validateEnvelope :: "envelope \<Rightarrow> go_error option" where
  "validateEnvelope env =
     (case identifiers_Validate (en_Namespace env) of
        Some e \<Rightarrow> Some (ErrWrap ''event envelope has invalid namespace'' e)
      | None \<Rightarrow>
     (case validateTopic (en_Topic env) of
        Some e \<Rightarrow> Some (ErrWrap (''envelope topic '' @ en_Topic env) e)
      | None \<Rightarrow>
          if en_Timestamp env = 0 then
            Some (ErrWrap ''timestamp must be set on forwarded event'' (Errdef ErrInvalidArgument))
          else None))"

section \<open>The exchange\<close>

text \<open>
  A subscription: its filter, the queue, whether the queue is closed, what the subscriber has got, and
  what is on its channel of errors.
\<close>

record subscription =
  sb_match :: "envelope \<Rightarrow> bool"
  sb_queue :: "envelope list"
  sb_closed :: bool
  sb_got :: "envelope list"
  sb_errq :: "go_error option list"
  sb_done :: bool

text \<open>The sinks of the broadcaster name subscriptions.\<close>

record exchange =
  ex_sinks :: "nat list"
  ex_subs :: "(nat, subscription) gomap"

definition NewExchange :: exchange where
  "NewExchange = \<lparr>ex_sinks = [], ex_subs = []\<rparr>"

text \<open>
  \<open>remove\<close> of the broadcaster works in place: the array keeps its length, its tail beyond the slice stays.
\<close>

definition arr_remove :: "'a \<Rightarrow> 'a list \<times> nat \<Rightarrow> 'a list \<times> nat" where
  "arr_remove t a =
     (case a of (arr, len) \<Rightarrow>
        (case index_func (\<lambda>s. s = t) (take len arr) of
           None \<Rightarrow> (arr, len)
         | Some j \<Rightarrow> (take j arr @ drop (Suc j) (take len arr) @ drop (len - 1) arr, len - 1)))"

text \<open>The loop over the sinks ranges over the slice as it was, whose array \<open>remove\<close> changes.\<close>

fun broadcast :: "envelope \<Rightarrow> nat list \<Rightarrow> nat list \<times> nat \<Rightarrow> (nat, subscription) gomap \<Rightarrow> (nat list \<times> nat) \<times> (nat, subscription) gomap" where
  "broadcast ev [] a subs = (a, subs)"
| "broadcast ev (i # is) a subs =
     (case gm_get subs (fst a ! i) of
        None \<Rightarrow> broadcast ev is a subs
      | Some s \<Rightarrow>
          if \<not> sb_match s ev then broadcast ev is a subs
          else if sb_closed s then broadcast ev is (arr_remove (fst a ! i) a) subs
          else broadcast ev is a (gm_put (fst a ! i) (s\<lparr>sb_queue := sb_queue s @ [ev]\<rparr>) subs))"

definition broadcaster_Write :: "envelope \<Rightarrow> exchange \<Rightarrow> exchange" where
  "broadcaster_Write ev x =
     (case broadcast ev [0..<length (ex_sinks x)] (ex_sinks x, length (ex_sinks x)) (ex_subs x) of
        ((arr, len), subs) \<Rightarrow> x\<lparr>ex_sinks := take len arr, ex_subs := subs\<rparr>)"

definition exchange_Forward :: "envelope \<Rightarrow> exchange \<Rightarrow> go_error option \<times> exchange" where
  "exchange_Forward env x =
     (case validateEnvelope env of Some e \<Rightarrow> (Some e, x) | None \<Rightarrow> (None, broadcaster_Write env x))"

definition exchange_Publish ::
  "string option \<Rightarrow> nat \<Rightarrow> string \<Rightarrow> string result \<Rightarrow> exchange \<Rightarrow> go_error option \<times> exchange" where
  "exchange_Publish ns now topic encoded x =
     (case validateTopic topic of
        Some e \<Rightarrow> (Some (ErrWrap (''envelope topic '' @ topic) e), x)
      | None \<Rightarrow>
     (case encoded of
        Inl e \<Rightarrow> (Some e, x)
      | Inr ev \<Rightarrow>
          (None, broadcaster_Write \<lparr>en_Timestamp = now, en_Namespace = (case ns of None \<Rightarrow> [] | Some n \<Rightarrow> n),
                   en_Topic = topic, en_Event = ev\<rparr> x)))"

text \<open>\<open>Subscribe\<close> with the filter its strings parse to; \<open>i\<close> names the subscription.\<close>

definition exchange_Subscribe :: "nat \<Rightarrow> (envelope \<Rightarrow> bool) option result \<Rightarrow> exchange \<Rightarrow> exchange" where
  "exchange_Subscribe i fs x =
     (let sub = \<lambda>m. \<lparr>sb_match = m, sb_queue = [], sb_closed = False, sb_got = [], sb_errq = [], sb_done = False\<rparr>
      in case fs of
           Inl e \<Rightarrow>
             x\<lparr>ex_subs := gm_put i ((sub (\<lambda>_. True))\<lparr>sb_closed := True, sb_done := True,
                 sb_errq := [Some (ErrWrap ''failed parsing subscription filters'' e)]\<rparr>) (ex_subs x)\<rparr>
         | Inr f \<Rightarrow>
             x\<lparr>ex_subs := gm_put i (sub (case f of None \<Rightarrow> \<lambda>_. True | Some m \<Rightarrow> m)) (ex_subs x),
               ex_sinks := (if i \<in> set (ex_sinks x) then ex_sinks x else ex_sinks x @ [i])\<rparr>)"

text \<open>The goroutine hands one event of the queue to the subscriber.\<close>

definition sub_deliver :: "nat \<Rightarrow> exchange \<Rightarrow> exchange" where
  "sub_deliver i x =
     (case gm_get (ex_subs x) i of
        None \<Rightarrow> x
      | Some s \<Rightarrow>
          (case sb_queue s of
             [] \<Rightarrow> x
           | ev # evs \<Rightarrow>
               if sb_done s then x
               else x\<lparr>ex_subs := gm_put i (s\<lparr>sb_queue := evs, sb_got := sb_got s @ [ev]\<rparr>) (ex_subs x)\<rparr>))"

text \<open>
  The end of the context: the goroutine leaves its loop, reports, and \<open>closeAll\<close> first closes the channel
  and the queue, which drops what is left, and then removes the sink; broadcasts may come between.
\<close>

definition canceled :: go_error where
  "canceled = Sentinel ''context canceled''"

definition sub_cancel :: "nat \<Rightarrow> go_error \<Rightarrow> exchange \<Rightarrow> exchange" where
  "sub_cancel i cerr x =
     (case gm_get (ex_subs x) i of
        None \<Rightarrow> x
      | Some s \<Rightarrow>
          if sb_done s then x
          else x\<lparr>ex_subs := gm_put i (s\<lparr>sb_queue := [], sb_closed := True, sb_done := True,
                   sb_errq := [if cerr = canceled then None else Some cerr]\<rparr>) (ex_subs x)\<rparr>)"

definition sub_remove :: "nat \<Rightarrow> exchange \<Rightarrow> exchange" where
  "sub_remove i x = x\<lparr>ex_sinks := remove1 i (ex_sinks x)\<rparr>"

section \<open>The stream to the host\<close>

text \<open>What the select of \<open>Stream\<close> takes next.\<close>

datatype stream_in = SIEvent envelope "go_error option" | SIErr "go_error option" | SIDone go_error

text \<open>\<open>toProto\<close> keeps the fields of an envelope.\<close>

definition toProto :: "envelope \<Rightarrow> nat \<times> string \<times> string \<times> string" where
  "toProto env = (en_Timestamp env, en_Namespace env, en_Topic env, en_Event env)"

text \<open>The messages sent, and the result; \<open>None\<close> while the loop runs.\<close>

fun stream_loop :: "stream_in list \<Rightarrow> (nat \<times> string \<times> string \<times> string) list \<Rightarrow>
    go_error option option \<times> (nat \<times> string \<times> string \<times> string) list" where
  "stream_loop [] sent = (None, sent)"
| "stream_loop (SIEvent env r # ins) sent =
     (case r of Some e \<Rightarrow> (Some (Some e), sent) | None \<Rightarrow> stream_loop ins (sent @ [toProto env]))"
| "stream_loop (SIErr e # ins) sent = (Some e, sent)"
| "stream_loop (SIDone e # ins) sent = (Some (Some e), sent)"

section \<open>Topics\<close>

lemma validate_components_None: "validate_components cs = None \<longleftrightarrow> (\<forall>c\<in>set cs. identifiers_Validate c = None)"
  by (induction cs) (auto split: option.splits)

lemma ident_no_slash: "ident_match al s \<Longrightarrow> CHR ''/'' \<notin> set s"
proof (induction al s rule: ident_match.induct)
  case (2 al c cs)
  have "\<not> alphanum (CHR ''/'')" "\<not> separator (CHR ''/'')" by code_simp+
  with 2 show ?case by (auto split: if_splits)
qed simp

lemma valid_ident: "identifiers_Validate c = None \<Longrightarrow> c \<noteq> [] \<and> length c \<le> 76 \<and> CHR ''/'' \<notin> set c"
  using ident_no_slash by (auto simp: identifiers_Validate_def split: if_splits)

text \<open>
  The topics the exchange accepts are exactly a slash followed by valid identifiers joined by slashes,
  at least one of them.
\<close>

theorem topic_grammar:
  "validateTopic topic = None \<longleftrightarrow>
     (\<exists>cs. cs \<noteq> [] \<and> (\<forall>c\<in>set cs. identifiers_Validate c = None) \<and> topic = CHR ''/'' # join_with ''/'' cs)"
proof
  assume ok: "validateTopic topic = None"
  let ?cs = "split_on (CHR ''/'') (tl topic)"
  have "\<forall>c\<in>set ?cs. identifiers_Validate c = None" "topic \<noteq> []" "hd topic = CHR ''/''"
    using ok by (auto simp: validateTopic_def validate_components_None split: if_splits)
  then show "\<exists>cs. cs \<noteq> [] \<and> (\<forall>c\<in>set cs. identifiers_Validate c = None) \<and> topic = CHR ''/'' # join_with ''/'' cs"
    by (intro exI [of _ ?cs]) (metis join_split_on list.collapse split_on_nonempty)
next
  assume "\<exists>cs. cs \<noteq> [] \<and> (\<forall>c\<in>set cs. identifiers_Validate c = None) \<and> topic = CHR ''/'' # join_with ''/'' cs"
  then obtain cs where cs: "cs \<noteq> []" "\<forall>c\<in>set cs. identifiers_Validate c = None" "topic = CHR ''/'' # join_with ''/'' cs" by blast
  have "split_on (CHR ''/'') (join_with ''/'' cs) = cs"
    using cs(1,2) valid_ident by (intro split_on_join) blast+
  moreover have "join_with ''/'' cs \<noteq> []"
    using cs(1,2) valid_ident by (cases cs rule: remdups_adj.cases) auto
  ultimately show "validateTopic topic = None"
    using cs(2,3) by (auto simp: validateTopic_def validate_components_None)
qed

theorem topic_grammar_witness:
  "validateTopic (CHR ''/'' # join_with ''/'' [''tasks'', ''exec-started'']) = None"
proof -
  have "identifiers_Validate ''tasks'' = None" "identifiers_Validate ''exec-started'' = None" by code_simp+
  then show ?thesis by (subst topic_grammar) (intro exI [of _ "[''tasks'', ''exec-started'']"], simp)
qed

section \<open>Delivery\<close>

text \<open>The sinks are the open subscriptions, and those whose end is not complete.\<close>

definition ex_inv :: "exchange \<Rightarrow> bool" where
  "ex_inv x \<longleftrightarrow> distinct (ex_sinks x)
     \<and> (\<forall>i\<in>set (ex_sinks x). gm_get (ex_subs x) i \<noteq> None)
     \<and> (\<forall>i s. gm_get (ex_subs x) i = Some s \<longrightarrow> sb_closed s = sb_done s \<and> (\<not> sb_closed s \<longrightarrow> i \<in> set (ex_sinks x)))"

definition none_closing :: "exchange \<Rightarrow> bool" where
  "none_closing x \<longleftrightarrow> (\<forall>i\<in>set (ex_sinks x). \<forall>s. gm_get (ex_subs x) i = Some s \<longrightarrow> \<not> sb_closed s)"

text \<open>The specification: each open subscription with its filter and the events that are for it, in order.\<close>

type_synonym ex_spec = "nat \<Rightarrow> ((envelope \<Rightarrow> bool) \<times> envelope list) option"

definition ex_abs :: "exchange \<Rightarrow> ex_spec" where
  "ex_abs x i =
     (case gm_get (ex_subs x) i of
        None \<Rightarrow> None
      | Some s \<Rightarrow> if sb_done s then None else Some (sb_match s, sb_got s @ sb_queue s))"

definition spec_write :: "envelope \<Rightarrow> ex_spec \<Rightarrow> ex_spec" where
  "spec_write ev a i = map_option (\<lambda>(m, evs). (m, if m ev then evs @ [ev] else evs)) (a i)"

definition put_event :: "envelope \<Rightarrow> subscription \<Rightarrow> subscription" where
  "put_event ev s = (if sb_match s ev then s\<lparr>sb_queue := sb_queue s @ [ev]\<rparr> else s)"

lemma broadcast_open:
  assumes "\<forall>i\<in>set is. gm_get subs (arr ! i) \<noteq> None \<and> (\<forall>s. gm_get subs (arr ! i) = Some s \<longrightarrow> \<not> sb_closed s)" and "distinct (map (nth arr) is)"
  shows "\<exists>subs'. broadcast ev is (arr, len) subs = ((arr, len), subs')
    \<and> (\<forall>j. gm_get subs' j = (if j \<in> (nth arr) ` set is then map_option (put_event ev) (gm_get subs j) else gm_get subs j))"
  using assms
proof (induction "is" arbitrary: subs)
  case (Cons i "is")
  obtain s where s: "gm_get subs (arr ! i) = Some s" "\<not> sb_closed s" using Cons.prems(1) by auto
  let ?subs = "if sb_match s ev then gm_put (arr ! i) (s\<lparr>sb_queue := sb_queue s @ [ev]\<rparr>) subs else subs"
  have b: "broadcast ev (i # is) (arr, len) subs = broadcast ev is (arr, len) ?subs" using s by simp
  have get: "gm_get ?subs j = (if j = arr ! i then Some (put_event ev s) else gm_get subs j)" for j
    using s by (simp add: put_event_def)
  have "\<forall>j\<in>set is. gm_get ?subs (arr ! j) \<noteq> None \<and> (\<forall>s. gm_get ?subs (arr ! j) = Some s \<longrightarrow> \<not> sb_closed s)"
    using Cons.prems s unfolding get by (auto simp: put_event_def)
  from Cons.IH [OF this] Cons.prems(2) obtain subs' where
    1: "broadcast ev is (arr, len) ?subs = ((arr, len), subs')" and
    2: "\<forall>j. gm_get subs' j = (if j \<in> (nth arr) ` set is then map_option (put_event ev) (gm_get ?subs j) else gm_get ?subs j)"
    by auto
  have "gm_get subs' j = (if j \<in> (nth arr) ` set (i # is) then map_option (put_event ev) (gm_get subs j) else gm_get subs j)" for j
    using 2 Cons.prems(2) s(1) unfolding get by auto
  with 1 b show ?case by auto
qed simp

lemma broadcaster_Write_open:
  assumes "ex_inv x" and "none_closing x"
  shows "\<exists>subs'. broadcaster_Write ev x = x\<lparr>ex_subs := subs'\<rparr>
    \<and> (\<forall>j. gm_get subs' j = (if j \<in> set (ex_sinks x) then map_option (put_event ev) (gm_get (ex_subs x) j) else gm_get (ex_subs x) j))"
proof -
  let ?is = "[0..<length (ex_sinks x)]"
  have m: "map (nth (ex_sinks x)) ?is = ex_sinks x" by (rule map_nth)
  have "\<forall>i\<in>set ?is. gm_get (ex_subs x) (ex_sinks x ! i) \<noteq> None \<and> (\<forall>s. gm_get (ex_subs x) (ex_sinks x ! i) = Some s \<longrightarrow> \<not> sb_closed s)"
    using assms by (auto simp: ex_inv_def none_closing_def)
  moreover have "distinct (map (nth (ex_sinks x)) ?is)" using assms(1) m by (simp add: ex_inv_def)
  moreover have "(nth (ex_sinks x)) ` set ?is = set (ex_sinks x)" using m by (metis set_map)
  ultimately show ?thesis
    using broadcast_open [of ?is "ex_subs x" "ex_sinks x" ev "length (ex_sinks x)"]
    by (auto simp: broadcaster_Write_def)
qed

text \<open>
  The operations. An ending is two of them, the cancellation, which closes the queue, and the removal of
  the sink from the broadcaster: others may come between.
\<close>

datatype ex_op =
    XWrite envelope
  | XDeliver nat
  | XSubscribe nat "(envelope \<Rightarrow> bool) option result"
  | XCancel nat go_error
  | XRemove nat

fun ex_step :: "ex_op \<Rightarrow> exchange \<Rightarrow> exchange" where
  "ex_step (XWrite ev) x = broadcaster_Write ev x"
| "ex_step (XDeliver i) x = sub_deliver i x"
| "ex_step (XSubscribe i fs) x = exchange_Subscribe i fs x"
| "ex_step (XCancel i e) x = sub_cancel i e x"
| "ex_step (XRemove i) x = sub_remove i x"

fun spec_step :: "ex_op \<Rightarrow> ex_spec \<Rightarrow> ex_spec" where
  "spec_step (XWrite ev) a = spec_write ev a"
| "spec_step (XDeliver i) a = a"
| "spec_step (XSubscribe i fs) a =
     (case fs of Inl e \<Rightarrow> a | Inr None \<Rightarrow> a(i \<mapsto> (\<lambda>_. True, [])) | Inr (Some m) \<Rightarrow> a(i \<mapsto> (m, [])))"
| "spec_step (XCancel i e) a = a(i := None)"
| "spec_step (XRemove i) a = a"

text \<open>Subscriptions are new objects, and a sink is removed after its queue was closed, as \<open>closeAll\<close> does.\<close>

fun fresh_op :: "ex_op \<Rightarrow> exchange \<Rightarrow> bool" where
  "fresh_op (XSubscribe i fs) x = (gm_get (ex_subs x) i = None)"
| "fresh_op (XRemove i) x = (case gm_get (ex_subs x) i of None \<Rightarrow> True | Some s \<Rightarrow> sb_closed s)"
| "fresh_op _ x = True"

text \<open>No event is broadcast while a subscription is between the two parts of its ending.\<close>

fun undisturbed :: "ex_op \<Rightarrow> exchange \<Rightarrow> bool" where
  "undisturbed (XWrite ev) x = none_closing x"
| "undisturbed _ x = True"

fun ex_run :: "ex_op list \<Rightarrow> exchange \<Rightarrow> exchange" where
  "ex_run [] x = x"
| "ex_run (op # ops) x = ex_run ops (ex_step op x)"

fun run_all :: "(ex_op \<Rightarrow> exchange \<Rightarrow> bool) \<Rightarrow> ex_op list \<Rightarrow> exchange \<Rightarrow> bool" where
  "run_all P [] x = True"
| "run_all P (op # ops) x = (P op x \<and> run_all P ops (ex_step op x))"

text \<open>A change of queues only keeps the invariant.\<close>

lemma ex_inv_queues:
  assumes "ex_inv x" and sinks: "ex_sinks y = ex_sinks x"
    and same: "\<And>j. map_option (\<lambda>s. (sb_closed s, sb_done s)) (gm_get (ex_subs y) j) = map_option (\<lambda>s. (sb_closed s, sb_done s)) (gm_get (ex_subs x) j)"
  shows "ex_inv y"
proof -
  have sub: "\<exists>t. gm_get (ex_subs x) j = Some t \<and> sb_closed s = sb_closed t \<and> sb_done s = sb_done t"
    if "gm_get (ex_subs y) j = Some s" for j s
    using same [of j] that by (cases "gm_get (ex_subs x) j") auto
  have "gm_get (ex_subs y) j \<noteq> None" if "j \<in> set (ex_sinks x)" for j
    using assms(1) same [of j] that by (cases "gm_get (ex_subs y) j") (auto simp: ex_inv_def)
  moreover have "sb_closed s = sb_done s \<and> (\<not> sb_closed s \<longrightarrow> j \<in> set (ex_sinks x))" if "gm_get (ex_subs y) j = Some s" for j s
    using sub [OF that] assms(1) by (auto simp: ex_inv_def)
  ultimately show ?thesis using assms(1) by (simp add: ex_inv_def sinks)
qed

lemma ex_step_write:
  assumes "ex_inv x" and "none_closing x"
  shows "ex_inv (broadcaster_Write ev x) \<and> ex_abs (broadcaster_Write ev x) = spec_write ev (ex_abs x)"
proof -
  obtain subs' where w: "broadcaster_Write ev x = x\<lparr>ex_subs := subs'\<rparr>" and
    get: "\<And>j. gm_get subs' j = (if j \<in> set (ex_sinks x) then map_option (put_event ev) (gm_get (ex_subs x) j) else gm_get (ex_subs x) j)"
    using broadcaster_Write_open [OF assms] by blast
  have flags: "sb_closed (put_event ev s) = sb_closed s" "sb_done (put_event ev s) = sb_done s" for s
    by (simp_all add: put_event_def)
  have "ex_inv (x\<lparr>ex_subs := subs'\<rparr>)"
    by (rule ex_inv_queues [OF assms(1)]) (simp_all add: get option.map_comp comp_def flags)
  moreover have "ex_abs (x\<lparr>ex_subs := subs'\<rparr>) j = spec_write ev (ex_abs x) j" for j
  proof (cases "gm_get (ex_subs x) j")
    case (Some s)
    moreover have "sb_done s" if "j \<notin> set (ex_sinks x)"
      using assms(1) that Some by (auto simp: ex_inv_def)
    ultimately show ?thesis by (simp add: ex_abs_def spec_write_def get put_event_def)
  qed (simp add: ex_abs_def spec_write_def get)
  ultimately show ?thesis unfolding w by blast
qed

lemma ex_step_deliver:
  assumes "ex_inv x"
  shows "ex_inv (sub_deliver i x) \<and> ex_abs (sub_deliver i x) = ex_abs x"
proof -
  have "ex_sinks (sub_deliver i x) = ex_sinks x"
    by (simp add: sub_deliver_def split: option.split list.split)
  moreover have "map_option (\<lambda>s. (sb_closed s, sb_done s)) (gm_get (ex_subs (sub_deliver i x)) j)
      = map_option (\<lambda>s. (sb_closed s, sb_done s)) (gm_get (ex_subs x) j)" for j
    by (simp add: sub_deliver_def split: option.split list.split)
  moreover have "ex_abs (sub_deliver i x) j = ex_abs x j" for j
  proof (cases "gm_get (ex_subs x) i")
    case (Some s)
    then show ?thesis by (cases "sb_queue s") (simp_all add: sub_deliver_def ex_abs_def)
  qed (simp add: sub_deliver_def)
  ultimately show ?thesis using ex_inv_queues [OF assms] by blast
qed

lemma ex_step_subscribe:
  assumes "ex_inv x" and "gm_get (ex_subs x) i = None"
  shows "ex_inv (exchange_Subscribe i fs x) \<and> ex_abs (exchange_Subscribe i fs x) = spec_step (XSubscribe i fs) (ex_abs x)"
proof -
  have "i \<notin> set (ex_sinks x)" using assms by (auto simp: ex_inv_def)
  with assms have "ex_inv (exchange_Subscribe i fs x)"
    by (cases fs) (auto simp: exchange_Subscribe_def ex_inv_def split: if_splits)
  moreover have "ex_abs (exchange_Subscribe i fs x) j = spec_step (XSubscribe i fs) (ex_abs x) j" for j
    using assms(2) by (simp add: exchange_Subscribe_def ex_abs_def split: sum.split option.split)
  ultimately show ?thesis by blast
qed

definition sub_end :: "go_error \<Rightarrow> subscription \<Rightarrow> subscription" where
  "sub_end e s = (if sb_done s then s else s\<lparr>sb_queue := [], sb_closed := True, sb_done := True,
     sb_errq := [if e = canceled then None else Some e]\<rparr>)"

lemma sub_cancel_get:
  "ex_sinks (sub_cancel i e x) = ex_sinks x"
  "gm_get (ex_subs (sub_cancel i e x)) j = (if j = i then map_option (sub_end e) (gm_get (ex_subs x) i) else gm_get (ex_subs x) j)"
  by (simp_all add: sub_cancel_def sub_end_def split: option.split)

lemma ex_step_cancel:
  assumes "ex_inv x"
  shows "ex_inv (sub_cancel i e x) \<and> ex_abs (sub_cancel i e x) = (ex_abs x)(i := None)"
proof -
  have fin: "sb_done (sub_end e s)" for s by (simp add: sub_end_def)
  have "sb_closed (sub_end e s)" if "gm_get (ex_subs x) i = Some s" for s
    using assms that by (simp add: sub_end_def ex_inv_def)
  with assms fin have "ex_inv (sub_cancel i e x)" unfolding ex_inv_def sub_cancel_get by auto
  moreover have "ex_abs (sub_cancel i e x) j = ((ex_abs x)(i := None)) j" for j
    using fin by (simp add: ex_abs_def sub_cancel_get split: option.split)
  ultimately show ?thesis by blast
qed

lemma ex_step_remove:
  assumes "ex_inv x" and "fresh_op (XRemove i) x"
  shows "ex_inv (sub_remove i x) \<and> ex_abs (sub_remove i x) = ex_abs x"
proof -
  have "ex_inv (sub_remove i x)"
    using assms by (auto simp: ex_inv_def sub_remove_def split: option.splits)
  moreover have "ex_abs (sub_remove i x) j = ex_abs x j" for j by (simp add: ex_abs_def sub_remove_def)
  ultimately show ?thesis by blast
qed

lemma ex_step_refines:
  assumes "ex_inv x" and "fresh_op op x" and "undisturbed op x"
  shows "ex_inv (ex_step op x) \<and> ex_abs (ex_step op x) = spec_step op (ex_abs x)"
  using assms
  by (cases op) (simp_all add: ex_step_write ex_step_deliver ex_step_subscribe ex_step_cancel ex_step_remove
      del: fresh_op.simps(2) spec_step.simps(3))

text \<open>
  C10. The exchange refines a table of open subscriptions: whatever the order of publications, deliveries,
  new subscriptions and endings, provided that no event is published between the cancellation of a
  subscription and the removal of its sink (C40 is what happens then), what a subscriber has got and what
  waits for it are exactly the events published since it subscribed that match its filter, once each and
  in order.
\<close>

theorem exchange_refines:
  "run_all fresh_op ops NewExchange \<Longrightarrow> run_all undisturbed ops NewExchange \<Longrightarrow>
     ex_abs (ex_run ops NewExchange) = fold spec_step ops (\<lambda>_. None)"
proof -
  have "ex_abs (ex_run ops x) = fold spec_step ops (ex_abs x)"
    if "ex_inv x" "run_all fresh_op ops x" "run_all undisturbed ops x" for x
    using that
  proof (induction ops arbitrary: x)
    case (Cons op ops)
    with ex_step_refines [of x op] show ?case by simp
  qed simp
  moreover have "ex_inv NewExchange" by (simp add: ex_inv_def NewExchange_def)
  moreover have "ex_abs NewExchange = (\<lambda>_. None)" by (auto simp: ex_abs_def NewExchange_def)
  ultimately show "run_all fresh_op ops NewExchange \<Longrightarrow> run_all undisturbed ops NewExchange \<Longrightarrow> ?thesis" by metis
qed

definition sample_event :: envelope where
  "sample_event = \<lparr>en_Timestamp = 1, en_Namespace = ''default'', en_Topic = ''/tasks/start'', en_Event = []\<rparr>"

definition sample_ops :: "ex_op list" where
  "sample_ops = [XSubscribe 1 (Inr None), XSubscribe 2 (Inr (Some (\<lambda>e. en_Topic e = ''/tasks/exit''))), XSubscribe 3 (Inr None),
     XCancel 3 canceled, XRemove 3, XWrite sample_event, XDeliver 1]"

theorem exchange_refines_witness:
  "map_option snd (ex_abs (ex_run sample_ops NewExchange) 1) = Some [sample_event]
     \<and> map_option snd (ex_abs (ex_run sample_ops NewExchange) 2) = Some []
     \<and> ex_abs (ex_run sample_ops NewExchange) 3 = None"
proof -
  have "run_all fresh_op sample_ops NewExchange" "run_all undisturbed sample_ops NewExchange"
    by (simp_all add: sample_ops_def NewExchange_def exchange_Subscribe_def sub_cancel_def sub_remove_def none_closing_def)
  from exchange_refines [OF this] show ?thesis
    by (simp add: sample_ops_def sample_event_def spec_write_def)
qed

section \<open>A broadcast during an ending\<close>

lemma broadcast_append:
  "broadcast ev (is @ js) a subs = (case broadcast ev is a subs of (a', subs') \<Rightarrow> broadcast ev js a' subs')"
proof (induction "is" arbitrary: a subs)
  case (Cons i "is")
  then show ?case by (simp split: option.split)
qed simp

lemma drop_last: "drop (length post) (a # post) = [last (a # post)]"
  by (induction post arbitrary: a) auto

lemma arr_remove_middle:
  assumes "a \<notin> set pre"
  shows "arr_remove a (pre @ a # post, length (pre @ a # post)) = (pre @ post @ [last (a # post)], length (pre @ post))"
proof -
  have "index_func (\<lambda>s. s = a) (pre @ a # post) = Some (length pre)"
    using assms by (induction pre) (auto simp: index_func.simps)
  moreover have "drop (length pre + length post) (pre @ a # post) = [last (a # post)]"
    using drop_last [of post a] by simp
  ultimately show ?thesis by (simp add: arr_remove_def)
qed

lemma broadcast_one:
  assumes "gm_get subs (arr ! k) = Some s" and "\<not> sb_closed s"
  shows "\<exists>subs'. broadcast ev [k] (arr, len) subs = ((arr, len), subs')
    \<and> (\<forall>j. gm_get subs' j = (if j = arr ! k then map_option (put_event ev) (gm_get subs j) else gm_get subs j))"
  using assms by (simp add: put_event_def)

text \<open>The turns of the loop after the closing sink: its array has moved up by one, its last element is there twice.\<close>

lemma broadcast_rest:
  assumes "\<forall>i\<in>set (mid @ [c]). \<exists>s. gm_get subs i = Some s \<and> \<not> sb_closed s" and "distinct (mid @ [c])"
  shows "\<exists>subs'. broadcast ev [length pre..<length pre + length mid + 2] (pre @ mid @ [c, c], len) subs = ((pre @ mid @ [c, c], len), subs')
    \<and> (\<forall>j. gm_get subs' j = (if j = c then map_option (put_event ev \<circ> put_event ev) (gm_get subs c)
         else if j \<in> set mid then map_option (put_event ev) (gm_get subs j) else gm_get subs j))"
proof -
  let ?arr = "pre @ mid @ [c, c]" and ?is = "[length pre..<length pre + length mid + 1]"
  have m: "map (nth ?arr) ?is = mid @ [c]"
  proof (rule nth_equalityI)
    fix i assume "i < length (map (nth ?arr) ?is)"
    then have "i < length mid + 1" by simp
    then show "map (nth ?arr) ?is ! i = (mid @ [c]) ! i" by (simp add: nth_append del: upt_Suc)
  qed simp
  have "(nth ?arr) ` set ?is = set (map (nth ?arr) ?is)" by (simp only: list.set_map)
  also have "\<dots> = insert c (set mid)" unfolding m by simp
  finally have im: "(nth ?arr) ` set ?is = insert c (set mid)" .
  have "\<forall>i\<in>set ?is. gm_get subs (?arr ! i) \<noteq> None \<and> (\<forall>s. gm_get subs (?arr ! i) = Some s \<longrightarrow> \<not> sb_closed s)"
  proof
    fix i assume "i \<in> set ?is"
    then have "?arr ! i \<in> (nth ?arr) ` set ?is" by (rule imageI)
    then have "?arr ! i \<in> set (mid @ [c])" unfolding im by simp
    with assms(1) have "\<exists>s. gm_get subs (?arr ! i) = Some s \<and> \<not> sb_closed s" by blast
    then show "gm_get subs (?arr ! i) \<noteq> None \<and> (\<forall>s. gm_get subs (?arr ! i) = Some s \<longrightarrow> \<not> sb_closed s)" by auto
  qed
  moreover have "distinct (map (nth ?arr) ?is)" unfolding m by (rule assms(2))
  ultimately obtain subs1 where
    1: "broadcast ev ?is (?arr, len) subs = ((?arr, len), subs1)"
    and g1: "\<And>j. gm_get subs1 j = (if j \<in> insert c (set mid) then map_option (put_event ev) (gm_get subs j) else gm_get subs j)"
    using broadcast_open [of ?is subs ?arr ev len] unfolding im by blast
  let ?k = "length pre + length mid + 1"
  have k: "?arr ! ?k = c" by (simp add: nth_append)
  obtain s where s: "gm_get subs c = Some s" "\<not> sb_closed s" using assms(1) by auto
  then have s1: "gm_get subs1 c = Some (put_event ev s)" "\<not> sb_closed (put_event ev s)"
    by (simp_all add: g1 put_event_def)
  obtain subs' where 2: "broadcast ev [?k] (?arr, len) subs1 = ((?arr, len), subs')"
    and g2: "\<And>j. gm_get subs' j = (if j = c then map_option (put_event ev) (gm_get subs1 j) else gm_get subs1 j)"
    using broadcast_one [of subs1 ?arr ?k, unfolded k, OF s1, of ev len] by blast
  have "[length pre..<length pre + length mid + 2] = ?is @ [?k]" by simp
  then have "broadcast ev [length pre..<length pre + length mid + 2] (?arr, len) subs = ((?arr, len), subs')"
    by (simp only: broadcast_append 1 2 prod.case)
  moreover have "gm_get subs' j = (if j = c then map_option (put_event ev \<circ> put_event ev) (gm_get subs c)
       else if j \<in> set mid then map_option (put_event ev) (gm_get subs j) else gm_get subs j)" for j
    by (simp add: g1 g2 option.map_comp)
  ultimately show ?thesis by blast
qed

lemma broadcast_past_closed:
  assumes sinks: "ex_sinks x = pre @ a # b # mid @ [c]" and dist: "distinct (ex_sinks x)"
    and a: "gm_get (ex_subs x) a = Some sa" "sb_match sa ev" "sb_closed sa"
    and others: "\<forall>i\<in>set (ex_sinks x) - {a}. \<exists>s. gm_get (ex_subs x) i = Some s \<and> \<not> sb_closed s"
  shows "\<forall>j. j \<noteq> a \<longrightarrow> gm_get (ex_subs (broadcaster_Write ev x)) j =
      (if j = c then map_option (put_event ev \<circ> put_event ev) (gm_get (ex_subs x) c)
       else if j \<in> set pre \<union> set mid then map_option (put_event ev) (gm_get (ex_subs x) j) else gm_get (ex_subs x) j)"
proof -
  let ?arr = "pre @ a # b # mid @ [c]" and ?n = "length pre"
  have m: "map (nth ?arr) [0..<?n] = pre" by (rule nth_equalityI) (simp_all add: nth_append)
  then have im: "(nth ?arr) ` set [0..<?n] = set pre" by (metis list.set_map)
  have pre: "a \<notin> set pre" using dist sinks by auto
  have "\<forall>i\<in>set [0..<?n]. gm_get (ex_subs x) (?arr ! i) \<noteq> None \<and> (\<forall>s. gm_get (ex_subs x) (?arr ! i) = Some s \<longrightarrow> \<not> sb_closed s)"
  proof
    fix i assume "i \<in> set [0..<?n]"
    with im have "?arr ! i \<in> set pre" by blast
    with pre sinks have "?arr ! i \<in> set (ex_sinks x) - {a}" by auto
    with others have "\<exists>s. gm_get (ex_subs x) (?arr ! i) = Some s \<and> \<not> sb_closed s" by blast
    then show "gm_get (ex_subs x) (?arr ! i) \<noteq> None \<and> (\<forall>s. gm_get (ex_subs x) (?arr ! i) = Some s \<longrightarrow> \<not> sb_closed s)"
      by auto
  qed
  moreover have "distinct (map (nth ?arr) [0..<?n])" unfolding m using dist sinks by simp
  ultimately obtain subs1 where
    1: "broadcast ev [0..<?n] (?arr, length ?arr) (ex_subs x) = ((?arr, length ?arr), subs1)"
    and g1: "\<And>j. gm_get subs1 j = (if j \<in> set pre then map_option (put_event ev) (gm_get (ex_subs x) j) else gm_get (ex_subs x) j)"
    using broadcast_open [of "[0..<?n]" "ex_subs x" ?arr ev "length ?arr"] unfolding im by blast
  have "gm_get subs1 a = Some sa" using a(1) pre by (simp add: g1)
  with a(2,3) have 2: "broadcast ev [?n] (?arr, length ?arr) subs1 = (arr_remove a (?arr, length ?arr), subs1)" by simp
  have rem: "arr_remove a (?arr, length ?arr) = ((pre @ [b]) @ mid @ [c, c], length (pre @ b # mid @ [c]))"
    using arr_remove_middle [OF pre, of "b # mid @ [c]"] by simp
  have "\<forall>i\<in>set (mid @ [c]). \<exists>s. gm_get subs1 i = Some s \<and> \<not> sb_closed s"
  proof
    fix i assume i: "i \<in> set (mid @ [c])"
    then have "i \<in> set (ex_sinks x) - {a}" "i \<notin> set pre" using dist sinks by auto
    with others show "\<exists>s. gm_get subs1 i = Some s \<and> \<not> sb_closed s" by (simp add: g1)
  qed
  moreover have "distinct (mid @ [c])" using dist sinks by simp
  ultimately obtain subs' where
    3: "broadcast ev [length (pre @ [b])..<length (pre @ [b]) + length mid + 2]
          ((pre @ [b]) @ mid @ [c, c], length (pre @ b # mid @ [c])) subs1 =
        (((pre @ [b]) @ mid @ [c, c], length (pre @ b # mid @ [c])), subs')"
    and g2: "\<And>j. gm_get subs' j = (if j = c then map_option (put_event ev \<circ> put_event ev) (gm_get subs1 c)
         else if j \<in> set mid then map_option (put_event ev) (gm_get subs1 j) else gm_get subs1 j)"
    using broadcast_rest [of mid c subs1 ev "pre @ [b]" "length (pre @ b # mid @ [c])"] by blast
  have n: "length ?arr = ?n + (length mid + 3)" by simp
  have "[0..<length ?arr] = [0..<?n] @ [?n..<length ?arr]" unfolding n by (rule upt_add_eq_append) simp
  also have "[?n..<length ?arr] = ?n # [Suc ?n..<length ?arr]" by (rule upt_conv_Cons) simp
  finally have "[0..<length ?arr] = [0..<?n] @ [?n] @ [length (pre @ [b])..<length (pre @ [b]) + length mid + 2]"
    by (simp del: upt_Suc)
  then have "broadcast ev [0..<length ?arr] (?arr, length ?arr) (ex_subs x) =
      (((pre @ [b]) @ mid @ [c, c], length (pre @ b # mid @ [c])), subs')"
    by (simp only: broadcast_append 1 2 rem 3 prod.case)
  then have "ex_subs (broadcaster_Write ev x) = subs'"
    by (simp only: broadcaster_Write_def sinks prod.case) simp
  moreover have "c \<notin> set pre" "set pre \<inter> set mid = {}" using dist sinks by auto
  ultimately show ?thesis by (auto simp: g2 g1)
qed

text \<open>
  C40. A subscription that has been canceled, but is not removed yet, disturbs a broadcast of an event
  that matches its filter, when at least two sinks come after it in the broadcaster and these and the
  others are open: the sink after it is skipped and loses the event, the last one gets it twice, and
  the others once.
\<close>

theorem closing_sink_loses_event:
  assumes "ex_sinks x = pre @ a # b # mid @ [c]" and "distinct (ex_sinks x)"
    and "gm_get (ex_subs x) a = Some sa" and "sb_match sa ev" and "\<not> sb_done sa"
    and "\<forall>i\<in>set (ex_sinks x) - {a}. \<exists>s. gm_get (ex_subs x) i = Some s \<and> \<not> sb_closed s"
  shows "gm_get (ex_subs (broadcaster_Write ev (sub_cancel a e x))) b = gm_get (ex_subs x) b
    \<and> gm_get (ex_subs (broadcaster_Write ev (sub_cancel a e x))) c = map_option (put_event ev \<circ> put_event ev) (gm_get (ex_subs x) c)
    \<and> (\<forall>j\<in>set pre \<union> set mid. gm_get (ex_subs (broadcaster_Write ev (sub_cancel a e x))) j
         = map_option (put_event ev) (gm_get (ex_subs x) j))"
proof -
  let ?x = "sub_cancel a e x"
  have "gm_get (ex_subs ?x) a = Some (sub_end e sa)" "sb_match (sub_end e sa) ev" "sb_closed (sub_end e sa)"
    using assms(3-5) by (simp_all add: sub_cancel_get sub_end_def)
  moreover have "ex_sinks ?x = pre @ a # b # mid @ [c]" "distinct (ex_sinks ?x)"
    "\<forall>i\<in>set (ex_sinks ?x) - {a}. \<exists>s. gm_get (ex_subs ?x) i = Some s \<and> \<not> sb_closed s"
    using assms(1,2,6) by (simp_all add: sub_cancel_get)
  ultimately have "\<forall>j. j \<noteq> a \<longrightarrow> gm_get (ex_subs (broadcaster_Write ev ?x)) j =
      (if j = c then map_option (put_event ev \<circ> put_event ev) (gm_get (ex_subs ?x) c)
       else if j \<in> set pre \<union> set mid then map_option (put_event ev) (gm_get (ex_subs ?x) j) else gm_get (ex_subs ?x) j)"
    by (intro broadcast_past_closed)
  moreover have "b \<noteq> a" "c \<noteq> a" "b \<noteq> c" "b \<notin> set pre \<union> set mid" "c \<notin> set pre \<union> set mid" "a \<notin> set pre \<union> set mid"
    using assms(1,2) by auto
  ultimately show ?thesis by (auto simp: sub_cancel_get)
qed

definition sample_three :: exchange where
  "sample_three = ex_run [XSubscribe 1 (Inr None), XSubscribe 2 (Inr None), XSubscribe 3 (Inr None)] NewExchange"

theorem closing_sink_loses_event_witness:
  "map_option sb_queue (gm_get (ex_subs (broadcaster_Write sample_event (sub_cancel 1 canceled sample_three))) 2) = Some []
   \<and> map_option sb_queue (gm_get (ex_subs (broadcaster_Write sample_event (sub_cancel 1 canceled sample_three))) 3)
       = Some [sample_event, sample_event]"
proof -
  have sinks: "ex_sinks sample_three = [] @ 1 # 2 # [] @ [3]" "distinct (ex_sinks sample_three)"
    by (simp_all add: sample_three_def exchange_Subscribe_def NewExchange_def)
  have subs: "\<exists>s. gm_get (ex_subs sample_three) i = Some s \<and> sb_match s sample_event \<and> \<not> sb_done s \<and> \<not> sb_closed s \<and> sb_queue s = []"
    if "i \<in> {1, 2, 3}" for i
    using that by (auto simp: sample_three_def exchange_Subscribe_def NewExchange_def)
  obtain s1 s2 s3 where s: "gm_get (ex_subs sample_three) 1 = Some s1" "sb_match s1 sample_event" "\<not> sb_done s1"
    "gm_get (ex_subs sample_three) 2 = Some s2" "sb_queue s2 = []"
    "gm_get (ex_subs sample_three) 3 = Some s3" "sb_match s3 sample_event" "sb_queue s3 = []"
    using subs [of 1] subs [of 2] subs [of 3] by auto
  have "\<forall>i\<in>set (ex_sinks sample_three) - {1}. \<exists>s. gm_get (ex_subs sample_three) i = Some s \<and> \<not> sb_closed s"
    using subs by (auto simp: sinks(1))
  from closing_sink_loses_event [OF sinks s(1-3) this, of canceled] s show ?thesis by (simp add: put_event_def)
qed

text \<open>The stream sends the events it receives, in order, up to the first that cannot be sent or the end.\<close>

lemma stream_loop_sends:
  "stream_loop (map (\<lambda>env. SIEvent env None) evs @ ins) sent = stream_loop ins (sent @ map toProto evs)"
  by (induction evs arbitrary: sent) simp_all

lemma stream_ends_with_first_error:
  assumes "\<And>env. i \<noteq> SIEvent env None"
  shows "snd (stream_loop (map (\<lambda>env. SIEvent env None) evs @ i # ins) []) = map toProto evs
    \<and> fst (stream_loop (map (\<lambda>env. SIEvent env None) evs @ i # ins) []) \<noteq> None"
  using assms by (cases i) (auto simp: stream_loop_sends split: option.split)

end
