(* ===== verification/Console_Platform.thy ===== *)
theory Console_Platform
  imports Process
begin

text \<open>
  The console of a process with a terminal (\<open>internal/vminit/runc/platform.go\<close>): the copies between
  the console and the ends its stdio names, the files they hold, and the wait group of the process. The
  wait for the copies to have started ends at once, as each of them first signals that it runs.
\<close>

section \<open>Files and copies\<close>

datatype 'c con_file =
  CStream 'c | CFifo string fifo_mode | OutR | OutW | ErrR | ErrW | ReadyR | ReadyW

text \<open>
  The files open in this process, the source of the copy into the console, the files the copy out of it
  closes at its end, the wait group, whether the console was shut down and whether a logger runs.
\<close>

record 'c con =
  cn_files :: "'c con_file list"
  cn_in :: "'c con_file option"
  cn_out :: "'c con_file list option"
  cn_wg :: nat
  cn_shut :: bool
  cn_logger :: bool

definition con_open :: "'c con_file list \<Rightarrow> 'c con \<Rightarrow> 'c con" where
  "con_open fs c = c\<lparr>cn_files := fs @ cn_files c\<rparr>"

definition CloseFiles :: "'c con_file list \<Rightarrow> 'c con \<Rightarrow> 'c con" where
  "CloseFiles fs c = c\<lparr>cn_files := filter (\<lambda>f. f \<notin> set fs) (cn_files c)\<rparr>"

definition start_in :: "'c con_file \<Rightarrow> 'c con \<Rightarrow> 'c con" where
  "start_in f c = (con_open [f] c)\<lparr>cn_in := Some f\<rparr>"

definition start_out :: "'c con_file list \<Rightarrow> 'c con \<Rightarrow> 'c con" where
  "start_out fs c = c\<lparr>cn_out := Some fs, cn_wg := Suc (cn_wg c)\<rparr>"

section \<open>CopyConsole\<close>

definition console_stdin ::
  "io_env \<Rightarrow> (string \<Rightarrow> 's \<Rightarrow> 'c result \<times> 's) \<Rightarrow> string \<Rightarrow> 's \<Rightarrow> 'c con \<Rightarrow> 'c con_file option result \<times> 's \<times> 'c con" where
  "console_stdin env get stdin sm c =
     (if stdin = [] then (Inr None, sm, c)
      else if has_prefix stdin ''stream://'' then
        (case get (drop 9 stdin) sm of
           (Inl e, sm') \<Rightarrow> (Inl e, sm', c)
         | (Inr s, sm') \<Rightarrow> (Inr (Some (CStream s)), sm', start_in (CStream s) c))
      else case ie_open_fifo env stdin O_RDONLY_NONBLOCK of
        Some e \<Rightarrow> (Inl e, sm, c)
      | None \<Rightarrow> let f = CFifo stdin O_RDONLY_NONBLOCK in (Inr (Some f), sm, start_in f c))"

definition console_stream ::
  "(string \<Rightarrow> 's \<Rightarrow> 'c result \<times> 's) \<Rightarrow> string \<Rightarrow> 's \<Rightarrow> 'c con \<Rightarrow> go_error option \<times> 's \<times> 'c con" where
  "console_stream get stdout sm c =
     (case get (trim_prefix stdout ''stream://'') sm of
        (Inl e, sm') \<Rightarrow> (Some e, sm', c)
      | (Inr s, sm') \<Rightarrow> (None, sm', start_out [CStream s] (con_open [CStream s] c)))"

text \<open>The files that are closed when the start of a logging binary fails are the read ends.\<close>

definition console_binary :: "bin_env \<Rightarrow> 'c con \<Rightarrow> go_error option \<times> 'c con" where
  "console_binary env c =
     (case be_namespace env of Some e \<Rightarrow> (Some e, c) | None \<Rightarrow>
     (case be_out_pipe env of
        Some e \<Rightarrow> (Some (ErrWrap ''failed to create stdout pipes'' e), c)
      | None \<Rightarrow> let c1 = con_open [OutR, OutW] c in
     (case be_err_pipe env of
        Some e \<Rightarrow> (Some (ErrWrap ''failed to create stderr pipes'' e), CloseFiles [OutR] c1)
      | None \<Rightarrow> let c2 = con_open [ErrR, ErrW] c1 in
     (case be_pipe env of
        Some e \<Rightarrow> (Some e, CloseFiles [OutR, ErrR] c2)
      | None \<Rightarrow> let c3 = start_out [OutW] (con_open [ReadyR, ReadyW] c2); failed = CloseFiles [OutR, ErrR, ReadyR] in
     (case be_start env of
        Some e \<Rightarrow> (Some (ErrWrap ''failed to start logging binary process'' e), failed c3)
      | None \<Rightarrow> let c4 = CloseFiles [ReadyW] (c3\<lparr>cn_logger := True\<rparr>) in
     (case be_wclose env of
        Some e \<Rightarrow> (Some (ErrWrap ''failed to close write pipe after start'' e), failed c4)
      | None \<Rightarrow>
     (case be_read env of
        Some e \<Rightarrow> if e \<noteq> err_eof then (Some (ErrWrap ''failed to read from logging binary'' e), failed c4) else (None, c4)
      | None \<Rightarrow> (None, c4))))))))"

definition console_fifo :: "io_env \<Rightarrow> string \<Rightarrow> 'c con \<Rightarrow> go_error option \<times> 'c con" where
  "console_fifo env stdout c =
     (case ie_open_fifo env stdout O_WRONLY of
        Some e \<Rightarrow> (Some e, c)
      | None \<Rightarrow>
          let c1 = con_open [CFifo stdout O_WRONLY] c
          in (case ie_open_fifo env stdout O_RDONLY of
                Some e \<Rightarrow> (Some e, c1)
              | None \<Rightarrow> (None, start_out [CFifo stdout O_WRONLY, CFifo stdout O_RDONLY] (con_open [CFifo stdout O_RDONLY] c1))))"

definition console_stdout ::
  "io_env \<Rightarrow> (string \<Rightarrow> 's \<Rightarrow> 'c result \<times> 's) \<Rightarrow> string \<Rightarrow> 's \<Rightarrow> 'c con \<Rightarrow> go_error option \<times> 's \<times> 'c con" where
  "console_stdout env get stdout sm c =
     (case ie_url_parse env stdout of
        Inl e \<Rightarrow> (Some (ErrWrap ''unable to parse stdout uri'' e), sm, c)
      | Inr (scheme, _) \<Rightarrow>
          if scheme = ''stream'' then console_stream get stdout sm c
          else if scheme = ''binary'' then (case console_binary (ie_binary_io env) c of (r, c') \<Rightarrow> (r, sm, c'))
          else (case console_fifo env stdout c of (r, c') \<Rightarrow> (r, sm, c')))"

text \<open>The console that is returned: with a closer for standard input when there is one.\<close>

datatype 'c console_kind = EpollConsole | ClosingConsole "'c con_file"

record plat =
  pl_epoller :: bool
  pl_add :: "go_error option"
  pl_close_console :: "go_error option"
  pl_epoll_close :: "go_error option"

definition CopyConsole ::
  "plat \<Rightarrow> io_env \<Rightarrow> (string \<Rightarrow> 's \<Rightarrow> 'c result \<times> 's) \<Rightarrow> string \<Rightarrow> string \<Rightarrow> 's \<Rightarrow> 'c con \<Rightarrow> 'c console_kind result \<times> 's \<times> 'c con" where
  "CopyConsole pl env get stdin stdout sm c =
     (if \<not> pl_epoller pl then (Inl (ErrNew ''uninitialized epoller''), sm, c)
      else case pl_add pl of
        Some e \<Rightarrow> (Inl e, sm, c)
      | None \<Rightarrow>
     (case console_stdin env get stdin sm c of
        (Inl e, sm1, c1) \<Rightarrow> (Inl e, sm1, c1)
      | (Inr cstdin, sm1, c1) \<Rightarrow>
     (case console_stdout env get stdout sm1 c1 of
        (Some e, sm2, c2) \<Rightarrow> (Inl e, sm2, c2)
      | (None, sm2, c2) \<Rightarrow>
          (Inr (case cstdin of Some f \<Rightarrow> ClosingConsole f | None \<Rightarrow> EpollConsole), sm2, c2))))"

fun StdinCloser :: "'c console_kind \<Rightarrow> 'c con_file option" where
  "StdinCloser EpollConsole = None"
| "StdinCloser (ClosingConsole f) = Some f"

text \<open>A console that did not come from \<open>CopyConsole\<close> cannot be shut down.\<close>

definition ShutdownConsole_p :: "plat \<Rightarrow> 'c console_kind option \<Rightarrow> 'c con \<Rightarrow> go_error option \<times> 'c con" where
  "ShutdownConsole_p pl cons c =
     (if \<not> pl_epoller pl then (Some (ErrNew ''uninitialized epoller''), c)
      else case cons of
        None \<Rightarrow> (Some (ErrNew ''expected EpollConsole''), c)
      | Some _ \<Rightarrow> (pl_close_console pl, c\<lparr>cn_shut := True\<rparr>))"

definition platform_Close :: "plat \<Rightarrow> go_error option" where
  "platform_Close pl = pl_epoll_close pl"

section \<open>The ends of the copies\<close>

text \<open>Standard input ends: the console is shut down. Its file is closed by the closer of the process.\<close>

definition end_in :: "'c con \<Rightarrow> 'c con" where
  "end_in c = (case cn_in c of None \<Rightarrow> c | Some _ \<Rightarrow> c\<lparr>cn_in := None, cn_shut := True\<rparr>)"

definition end_out :: "'c con \<Rightarrow> 'c con" where
  "end_out c = (case cn_out c of None \<Rightarrow> c | Some fs \<Rightarrow> (CloseFiles fs c)\<lparr>cn_out := None, cn_wg := cn_wg c - 1\<rparr>)"

definition close_stdin :: "'c console_kind \<Rightarrow> 'c con \<Rightarrow> 'c con" where
  "close_stdin cons c = (case StdinCloser cons of None \<Rightarrow> c | Some f \<Rightarrow> CloseFiles [f] c)"

datatype console_end = EIn | EOut | EStdin

fun con_event :: "'c console_kind \<Rightarrow> console_end \<Rightarrow> 'c con \<Rightarrow> 'c con" where
  "con_event cons EIn c = end_in c"
| "con_event cons EOut c = end_out c"
| "con_event cons EStdin c = close_stdin cons c"

definition out_files :: "'c con \<Rightarrow> 'c con_file list" where
  "out_files c = (case cn_out c of None \<Rightarrow> [] | Some fs \<Rightarrow> fs)"

lemmas con_defs = con_open_def CloseFiles_def start_in_def start_out_def

lemma con_run:
  "cn_files (fold (con_event cons) es c) = filter (\<lambda>f. (EOut \<in> set es \<longrightarrow> f \<notin> set (out_files c))
       \<and> (EStdin \<in> set es \<longrightarrow> f \<notin> set_option (StdinCloser cons))) (cn_files c)
   \<and> cn_wg (fold (con_event cons) es c) = (if EOut \<in> set es \<and> cn_out c \<noteq> None then cn_wg c - 1 else cn_wg c)"
proof (induction es arbitrary: c)
  case (Cons e es)
  show ?case
    using Cons.IH [of "con_event cons e c"]
    by (cases e; cases "cn_in c"; cases "cn_out c"; cases "StdinCloser cons")
       (simp_all add: end_in_def end_out_def close_stdin_def CloseFiles_def out_files_def conj_commute cong: conj_cong filter_cong)
qed simp

section \<open>What CopyConsole leaves\<close>

definition leftovers :: "string \<Rightarrow> 'c con_file set" where
  "leftovers scheme = (if scheme = ''binary'' then {OutR, ErrR, ErrW, ReadyR} else {})"

lemma console_stdin_effect:
  assumes "console_stdin env get stdin sm c = (r, sm', c')"
  shows "cn_out c' = cn_out c" and "cn_wg c' = cn_wg c"
    and "r = Inr cstdin \<Longrightarrow> set (cn_files c') = set (cn_files c) \<union> set_option cstdin"
    and "r = Inr cstdin \<Longrightarrow> set_option cstdin \<inter> {OutR, OutW, ErrR, ErrW, ReadyR, ReadyW} = {}"
  using assms by (auto simp: console_stdin_def con_defs Let_def split: if_splits option.splits sum.splits prod.splits)

text \<open>What an attempt to start the copy out of the console does, with the files nobody closes.\<close>

definition output_effect :: "'c con \<Rightarrow> go_error option \<Rightarrow> 'c con \<Rightarrow> 'c con_file set \<Rightarrow> bool" where
  "output_effect c r c' rest \<longleftrightarrow>
     cn_wg c' = cn_wg c + (if cn_out c' = None then 0 else 1)
     \<and> (r = None \<longrightarrow> ReadyW \<notin> set (cn_files c) \<longrightarrow>
          set (cn_files c') = set (cn_files c) \<union> set (out_files c') \<union> rest \<and> set (out_files c') \<inter> rest = {})"

lemma console_binary_effect:
  "console_binary env c = (r, c') \<Longrightarrow> cn_out c = None \<Longrightarrow> output_effect c r c' {OutR, ErrR, ErrW, ReadyR}"
  by (auto simp: console_binary_def con_defs output_effect_def out_files_def Let_def split: if_splits option.splits)

lemma console_fifo_effect:
  "console_fifo env stdout c = (r, c') \<Longrightarrow> cn_out c = None \<Longrightarrow> output_effect c r c' {}"
  by (auto simp: console_fifo_def con_defs output_effect_def out_files_def Let_def split: if_splits option.splits)

lemma console_stream_effect:
  "console_stream get stdout sm c = (r, sm', c') \<Longrightarrow> cn_out c = None \<Longrightarrow> output_effect c r c' {}"
  by (auto simp: console_stream_def con_defs output_effect_def out_files_def split: prod.splits sum.splits)

lemma console_stdout_effect:
  assumes "console_stdout env get stdout sm c = (r, sm', c')" and "cn_out c = None"
  shows "case ie_url_parse env stdout of Inl _ \<Rightarrow> r \<noteq> None \<and> c' = c | Inr (scheme, _) \<Rightarrow> output_effect c r c' (leftovers scheme)"
proof (cases "ie_url_parse env stdout")
  case (Inr u)
  obtain scheme path where u: "u = (scheme, path)" by (cases u)
  consider "scheme = ''stream''" | "scheme = ''binary''" | "scheme \<noteq> ''stream''" "scheme \<noteq> ''binary''" by blast
  then show ?thesis
  proof cases
    case 1
    with assms Inr u console_stream_effect [of get stdout sm c r sm' c'] show ?thesis
      by (simp add: console_stdout_def leftovers_def)
  next
    case 2
    with assms Inr u have "console_binary (ie_binary_io env) c = (r, c')"
      by (simp add: console_stdout_def split: prod.splits)
    from console_binary_effect [OF this assms(2)] 2 Inr u show ?thesis by (simp add: leftovers_def)
  next
    case 3
    with assms Inr u have "console_fifo env stdout c = (r, c')"
      by (simp add: console_stdout_def split: prod.splits)
    from console_fifo_effect [OF this assms(2)] 3 Inr u show ?thesis by (simp add: leftovers_def)
  qed
qed (use assms in \<open>auto simp: console_stdout_def\<close>)

text \<open>The call, in its two parts.\<close>

lemma CopyConsole_parts:
  assumes "CopyConsole pl env get stdin stdout sm c = (r, sm', c')"
  obtains (early) e where "r = Inl e" "cn_out c' = cn_out c" "cn_wg c' = cn_wg c"
  | (late) cstdin sm1 c1 r' where "console_stdin env get stdin sm c = (Inr cstdin, sm1, c1)"
      "console_stdout env get stdout sm1 c1 = (r', sm', c')"
      "r = (case r' of Some e \<Rightarrow> Inl e | None \<Rightarrow> Inr (case cstdin of Some f \<Rightarrow> ClosingConsole f | None \<Rightarrow> EpollConsole))"
  using assms console_stdin_effect(1,2) [of env get stdin sm c]
  by (fastforce simp: CopyConsole_def split: if_splits option.splits sum.splits prod.splits)

lemma CopyConsole_wg:
  assumes "CopyConsole pl env get stdin stdout sm c = (r, sm', c')" and new: "cn_out c = None"
  shows "cn_wg c' = cn_wg c + (if cn_out c' = None then 0 else 1)"
  using assms(1)
proof (cases rule: CopyConsole_parts)
  case (late cstdin sm1 c1 r')
  note one = console_stdin_effect [OF late(1)]
  have "cn_out c1 = None" using one(1) new by simp
  from console_stdout_effect [OF late(2) this] one(1,2) new show ?thesis
    by (auto simp: output_effect_def split: sum.splits prod.splits)
qed (use new in simp)

lemma CopyConsole_files:
  assumes "CopyConsole pl env get stdin stdout sm c = (Inr cons, sm', c')" and new: "cn_files c = []" "cn_out c = None"
  shows "\<exists>scheme path. ie_url_parse env stdout = Inr (scheme, path)
      \<and> set (cn_files c') = set_option (StdinCloser cons) \<union> set (out_files c') \<union> leftovers scheme
      \<and> (\<forall>f\<in>leftovers scheme. f \<notin> set (out_files c') \<and> f \<notin> set_option (StdinCloser cons))"
  using assms(1)
proof (cases rule: CopyConsole_parts)
  case (late cstdin sm1 c1 r')
  note one = console_stdin_effect [OF late(1)]
  have "cn_out c1 = None" using one(1) new by simp
  note two = console_stdout_effect [OF late(2) this]
  have files: "set (cn_files c1) = set_option cstdin" "ReadyW \<notin> set (cn_files c1)"
    using one(3) [of cstdin] one(4) [of cstdin] new by auto
  have r': "r' = None" and closer: "set_option (StdinCloser cons) = set_option cstdin"
    using late(3) by (auto split: option.splits)
  obtain scheme path where u: "ie_url_parse env stdout = Inr (scheme, path)"
    using two r' by (cases "ie_url_parse env stdout") auto
  with two r' files have "set (cn_files c') = set_option cstdin \<union> set (out_files c') \<union> leftovers scheme"
    "set (out_files c') \<inter> leftovers scheme = {}"
    by (simp_all add: output_effect_def)
  moreover have "set_option cstdin \<inter> leftovers scheme = {}"
    using one(4) [of cstdin] by (auto simp: leftovers_def)
  ultimately show ?thesis using u closer by blast
qed simp

text \<open>
  C30. The copies of a console are accounted for: once the copy out of the console has ended, the wait
  group of the process is back where it was, whether \<open>CopyConsole\<close> succeeded or failed, so the wait of a
  deletion ends; and after a successful call, when standard input is closed too, in any order, the only
  files left are three read ends and a write end of the pipes to a logging binary.
\<close>

theorem console_copies_end:
  assumes "CopyConsole pl env get stdin stdout sm c = (r, sm', c')"
    and "cn_files c = []" and "cn_out c = None" and "EOut \<in> set es" and "EStdin \<in> set es"
  shows "cn_wg (fold (con_event cons) es c') = cn_wg c
    \<and> (r = Inr cons \<longrightarrow> (\<exists>scheme path. ie_url_parse env stdout = Inr (scheme, path)
         \<and> set (cn_files (fold (con_event cons) es c')) = leftovers scheme))"
proof
  note run = con_run [of cons es c']
  show "cn_wg (fold (con_event cons) es c') = cn_wg c"
    using CopyConsole_wg [OF assms(1,3)] run assms(4) by simp
  show "r = Inr cons \<longrightarrow> (\<exists>scheme path. ie_url_parse env stdout = Inr (scheme, path)
      \<and> set (cn_files (fold (con_event cons) es c')) = leftovers scheme)"
  proof
    assume "r = Inr cons"
    with assms(1) have "CopyConsole pl env get stdin stdout sm c = (Inr cons, sm', c')" by simp
    from CopyConsole_files [OF this assms(2,3)] obtain scheme path where
      u: "ie_url_parse env stdout = Inr (scheme, path)" and
      f: "set (cn_files c') = set_option (StdinCloser cons) \<union> set (out_files c') \<union> leftovers scheme"
        "\<forall>f\<in>leftovers scheme. f \<notin> set (out_files c') \<and> f \<notin> set_option (StdinCloser cons)"
      by blast
    have "set (cn_files (fold (con_event cons) es c'))
        = {f \<in> set (cn_files c'). f \<notin> set (out_files c') \<and> f \<notin> set_option (StdinCloser cons)}"
      using run assms(4,5) by (simp del: elem_set)
    also have "\<dots> = leftovers scheme" using f by blast
    finally show "\<exists>scheme path. ie_url_parse env stdout = Inr (scheme, path)
        \<and> set (cn_files (fold (con_event cons) es c')) = leftovers scheme"
      using u by blast
  qed
qed

section \<open>The console of init and exec processes\<close>

definition no_copies :: "nat con" where
  "no_copies = \<lparr>cn_files = [], cn_in = None, cn_out = None, cn_wg = 0, cn_shut = False, cn_logger = False\<rparr>"

fun process_closer :: "nat con_file \<Rightarrow> nat closer option" where
  "process_closer (CStream s) = Some (StreamCloser s)"
| "process_closer (CFifo p m) = Some (FifoCloser p)"
| "process_closer _ = None"

text \<open>
  The environment of a process whose platform is this one. The console that \<open>CopyConsole\<close> returns is not
  the master it is given; only the former has a closer for standard input.
\<close>

definition with_platform :: "plat \<Rightarrow> string \<Rightarrow> string \<Rightarrow> stream_service \<Rightarrow> nat \<Rightarrow> proc_env \<Rightarrow> proc_env" where
  "with_platform pl stdin stdout sm master env =
     (let r = fst (CopyConsole pl (x_io env) stream_Get stdin stdout sm no_copies)
      in env\<lparr>x_receive_master := Inr master,
             x_copy_console := (\<lambda>m. map_sum id (\<lambda>_. Suc m) r),
             x_stdin_closer := (\<lambda>k. case r of
                Inr cons \<Rightarrow> if k = Suc master then Option.bind (StdinCloser cons) process_closer else None
              | Inl _ \<Rightarrow> None)\<rparr>)"

lemma CopyConsole_stream_closer:
  assumes "CopyConsole pl env stream_Get stdin stdout sm c = (Inr cons, sm', c')" and "has_prefix stdin ''stream://''"
  shows "\<exists>s. gm_get (ss_streams sm) (drop 9 stdin) = Some s \<and> StdinCloser cons = Some (CStream s)"
  using assms(1)
proof (cases rule: CopyConsole_parts)
  case (late cstdin sm1 c1 r')
  have "stdin \<noteq> []" using assms(2) by (auto simp: has_prefix_def)
  then obtain s where s: "stream_Get (drop 9 stdin) sm = (Inr s, sm1)" "cstdin = Some (CStream s)"
    using late(1) assms(2) by (auto simp: console_stdin_def split: prod.splits sum.splits)
  moreover have "StdinCloser cons = cstdin" using late(3) by (auto split: option.splits)
  ultimately show ?thesis using streams.get_result [OF s(1)] by simp
qed simp

text \<open>
  When the console of an init process with a stream as its standard input is connected, the closer
  that \<open>CloseIO\<close> will use is that stream, taken from the registry of streams. For an exec process it is
  not: the closer is asked of the wrong console, and nothing is recorded.
\<close>

theorem terminal_stdin_closer:
  assumes "has_prefix stdin ''stream://''"
    and "init_console (with_platform pl stdin stdout sm master env) p = (None, p')"
    and "exec_console (with_platform pl stdin stdout sm master env) e = (None, e')"
  shows "(\<exists>s. gm_get (ss_streams sm) (drop 9 stdin) = Some s \<and> ip_stdin p' = Some (StreamCloser s)
      \<and> ip_closers p' = ip_closers p @ [StreamCloser s])
    \<and> ep_stdin e' = ep_stdin e \<and> ep_closers e' = ep_closers e"
proof -
  obtain r sm' c' where r: "CopyConsole pl (x_io env) stream_Get stdin stdout sm no_copies = (r, sm', c')"
    using prod_cases3 by blast
  with assms(2) obtain cons where cons: "r = Inr cons"
    by (cases r) (simp_all add: init_console_def with_platform_def)
  obtain s where s: "gm_get (ss_streams sm) (drop 9 stdin) = Some s" "StdinCloser cons = Some (CStream s)"
    using CopyConsole_stream_closer [OF _ assms(1)] r cons by blast
  show ?thesis
    using assms(2,3) r cons s by (auto simp: init_console_def exec_console_def with_platform_def Let_def)
qed

section \<open>Instances\<close>

definition two_streams :: stream_service where
  "two_streams = one_conn\<lparr>ss_streams := [(''in'', 3), (''out'', 4)]\<rparr>"

definition ready_plat :: plat where
  "ready_plat = \<lparr>pl_epoller = True, pl_add = None, pl_close_console = None, pl_epoll_close = None\<rparr>"

definition copying :: "nat con" where
  "copying = no_copies\<lparr>cn_files := [CStream 4, CStream 3], cn_in := Some (CStream 3), cn_out := Some [CStream 4], cn_wg := 1\<rparr>"

lemma two_streams_copied:
  "CopyConsole ready_plat calm_io stream_Get ''stream://in'' ''stream://out'' two_streams no_copies
     = (Inr (ClosingConsole (CStream 3)), two_streams\<lparr>ss_streams := []\<rparr>, copying)"
  by (simp add: CopyConsole_def console_stdin_def console_stdout_def console_stream_def ready_plat_def calm_io_def
      two_streams_def stream_Get_def has_prefix_def trim_prefix_def con_defs no_copies_def copying_def)

theorem console_copies_end_witness:
  "cn_wg (fold (con_event (ClosingConsole (CStream 3))) [EStdin, EOut] copying) = 0
   \<and> set (cn_files (fold (con_event (ClosingConsole (CStream 3))) [EStdin, EOut] copying)) = {}"
proof -
  have "cn_files no_copies = []" "cn_out no_copies = None" "cn_wg no_copies = 0" by (simp_all add: no_copies_def)
  moreover have "ie_url_parse calm_io ''stream://out'' = Inr (''stream'', ''out'')"
    by (simp add: calm_io_def has_prefix_def)
  moreover have "leftovers ''stream'' = {}" by (simp add: leftovers_def)
  ultimately show ?thesis
    using console_copies_end [OF two_streams_copied, of "[EStdin, EOut]" "ClosingConsole (CStream 3)"] by auto
qed

theorem terminal_stdin_closer_witness:
  "(\<exists>p'. init_console (with_platform ready_plat ''stream://in'' ''stream://out'' two_streams 5 calm_env) new_init = (None, p')
      \<and> ip_stdin p' = Some (StreamCloser 3))
   \<and> (\<exists>e'. exec_console (with_platform ready_plat ''stream://in'' ''stream://out'' two_streams 5 calm_env) new_exec = (None, e')
      \<and> ep_stdin e' = None)"
proof -
  let ?env = "with_platform ready_plat ''stream://in'' ''stream://out'' two_streams 5 calm_env"
  have io: "x_io calm_env = calm_io" by (simp add: calm_env_def)
  obtain p' where p': "init_console ?env new_init = (None, p')"
    by (simp add: init_console_def with_platform_def io two_streams_copied)
  obtain e' where e': "exec_console ?env new_exec = (None, e')"
    by (simp add: exec_console_def with_platform_def io two_streams_copied)
  have "has_prefix ''stream://in'' ''stream://''" by (simp add: has_prefix_def)
  from terminal_stdin_closer [OF this p' e'] p' e' show ?thesis
    by (simp add: two_streams_def new_exec_def)
qed

end
