(* ===== verification/VM_Library.thy ===== *)
theory VM_Library
  imports VM_Instance
begin

text \<open>
  What surrounds the VM instance: the check for KVM (\<open>internal/kvm/kvm_linux.go\<close>), the loading of the C
  library and its symbols (\<open>openLibkrun\<close> in \<open>internal/vm/libkrun/krun.go\<close>, \<open>dlfcn_windows.go\<close>), the options
  of \<open>pkg/vm/vm.go\<close> through which the sandbox configures an instance, and the console on Windows
  (\<open>console_windows.go\<close>). The calls the sandbox makes are replayed on the instance, so that the two
  models meet.
\<close>

section \<open>KVM\<close>

record kvm_env =
  kvm_fd :: "nat result"
  kvm_ioctl :: "nat \<Rightarrow> 64 word result"

definition expectedKVMAPIVersion :: "64 word" where
  "expectedKVMAPIVersion = 12"

text \<open>The error and the descriptors closed.\<close>

definition CheckKVM :: "kvm_env \<Rightarrow> go_error option \<times> nat list" where
  "CheckKVM env =
     (case kvm_fd env of
        Inl e \<Rightarrow> (Some (ErrSuffix (ErrWrap ''failed to open /dev/kvm'' e)
             ''. Your system may lack KVM support or you may have insufficient permissions''), [])
      | Inr fd \<Rightarrow>
          (case kvm_ioctl env fd of
             Inl errno \<Rightarrow> (Some (ErrSuffix (ErrWrap ''failed to get KVM API version'' errno)
                  ''. You may have insufficient permissions''), [fd])
           | Inr apiVersion \<Rightarrow>
               if apiVersion \<noteq> expectedKVMAPIVersion then
                 (Some (ErrNew (''KVM API version mismatch; expected 12, got '' @ show_nat (unat apiVersion))), [fd])
               else (None, [fd])))"

lemma CheckKVM_ok:
  "fst (CheckKVM env) = None \<longleftrightarrow> (\<exists>fd. kvm_fd env = Inr fd \<and> kvm_ioctl env fd = Inr 12)"
  by (auto simp: CheckKVM_def expectedKVMAPIVersion_def split: sum.splits)

lemma CheckKVM_closes: "snd (CheckKVM env) = (case kvm_fd env of Inl _ \<Rightarrow> [] | Inr fd \<Rightarrow> [fd])"
  by (auto simp: CheckKVM_def split: sum.splits)

section \<open>Loading the library\<close>

text \<open>The fields of \<open>libkrun\<close> with the names in their tags, in the order of the declaration.\<close>

definition krun_symbols :: "(string \<times> string) list" where
  "krun_symbols =
     [(''SetLogLevel'', ''krun_set_log_level''),
      (''InitLog'', ''krun_init_log''),
      (''CreateCtx'', ''krun_create_ctx''),
      (''FreeCtx'', ''krun_free_ctx''),
      (''SetVMConfig'', ''krun_set_vm_config''),
      (''SetKernel'', ''krun_set_kernel''),
      (''SetExec'', ''krun_set_exec''),
      (''SetConsoleOutput'', ''krun_set_console_output''),
      (''StartEnter'', ''krun_start_enter''),
      (''AddVsockPort'', ''krun_add_vsock_port2''),
      (''AddVirtiofs'', ''krun_add_virtiofs''),
      (''GetShutdownEventfd'', ''krun_get_shutdown_eventfd''),
      (''SetGpuOptions'', ''krun_set_gpu_options''),
      (''SetGvproxyPath'', ''krun_set_gvproxy_path''),
      (''SetNetMac'', ''krun_set_net_mac''),
      (''AddDisk'', ''krun_add_disk''),
      (''AddDisk2'', ''krun_add_disk2''),
      (''AddNetUnixstream'', ''krun_add_net_unixstream''),
      (''AddNetUnixgram'', ''krun_add_net_unixgram'')]"

text \<open>What a panic carries: an error or another value, printed.\<close>

datatype panic_value = PanicErr go_error | PanicStr string

record dl_env =
  dl_open :: "string \<Rightarrow> nat result"
  dl_symbol :: "nat \<Rightarrow> string \<Rightarrow> panic_value option"
  dl_close :: "nat \<Rightarrow> go_error option"

text \<open>On Windows a missing symbol panics with a text, and the library is never unloaded.\<close>

definition registerLibFunc_windows :: "(nat \<Rightarrow> string \<Rightarrow> go_error option) \<Rightarrow> nat \<Rightarrow> string \<Rightarrow> panic_value option" where
  "registerLibFunc_windows getProc h name =
     map_option (\<lambda>e. PanicStr (''failed to find '' @ name @ '': '' @ err_msg e)) (getProc h name)"

definition dlClose_windows :: "nat \<Rightarrow> go_error option" where
  "dlClose_windows h = None"

text \<open>The loop over the fields: the fields set so far and the panic that ended it.\<close>

fun register_all :: "dl_env \<Rightarrow> nat \<Rightarrow> (string \<times> string) list \<Rightarrow> string list \<Rightarrow> string list \<times> panic_value option" where
  "register_all env f [] k = (k, None)"
| "register_all env f ((field, cName) # fs) k =
     (case dl_symbol env f cName of
        Some p \<Rightarrow> (k, Some p)
      | None \<Rightarrow> register_all env f fs (k @ [field]))"

fun recovered :: "panic_value \<Rightarrow> go_error" where
  "recovered (PanicErr e) = e"
| "recovered (PanicStr s) = ErrNew (''panic while loading libkrun: '' @ s)"

text \<open>
  The library with the fields that are set and its handle, and the handles closed on the way. A failure
  to close is added to the text of the error, not to its class.
\<close>

definition openLibkrun :: "dl_env \<Rightarrow> string \<Rightarrow> (string list \<times> nat) result \<times> nat list" where
  "openLibkrun env path =
     (case dl_open env path of
        Inl e \<Rightarrow> (Inl e, [])
      | Inr f \<Rightarrow>
          (case register_all env f krun_symbols [] of
             (k, None) \<Rightarrow> (Inr (k, f), [])
           | (k, Some p) \<Rightarrow>
               (case dl_close env f of
                  None \<Rightarrow> (Inl (recovered p), [f])
                | Some cerr \<Rightarrow>
                    (Inl (ErrSuffix (recovered p) (''; additionally, failed to close libkrun handle: '' @ err_msg cerr)), [f]))))"

lemma register_all_ok:
  "register_all env f fs k = (k', None) \<longleftrightarrow>
     k' = k @ map fst fs \<and> list_all (\<lambda>s. dl_symbol env f (snd s) = None) fs"
  by (induction fs arbitrary: k) (auto split: option.splits)

lemma register_all_panic:
  "(\<exists>k' p. register_all env f fs k = (k', Some p)) \<longleftrightarrow> list_ex (\<lambda>s. dl_symbol env f (snd s) \<noteq> None) fs"
  by (induction fs arbitrary: k) (auto split: option.splits)

text \<open>The fields of the structure \<open>libkrun\<close>.\<close>

definition libkrun_fields :: "string list" where
  "libkrun_fields = [''SetLogLevel'', ''InitLog'', ''CreateCtx'', ''FreeCtx'', ''SetVMConfig'', ''SetKernel'', ''SetExec'',
     ''SetConsoleOutput'', ''StartEnter'', ''AddVsockPort'', ''AddVirtiofs'', ''GetShutdownEventfd'', ''SetGpuOptions'',
     ''SetGvproxyPath'', ''SetNetMac'', ''AddDisk'', ''AddDisk2'', ''AddNetUnixstream'', ''AddNetUnixgram'']"

text \<open>
  The functions of the library the program calls: \<open>NewInstance\<close> the first two, \<open>Shutdown\<close> the third, without
  a test for nil, and the other methods of a VM context the rest, each after such a test.
\<close>

definition used_functions :: "string list" where
  "used_functions = [''InitLog'', ''CreateCtx'', ''FreeCtx'', ''SetVMConfig'', ''SetKernel'', ''SetExec'', ''SetConsoleOutput'', ''AddVsockPort'', ''AddVirtiofs'',
     ''AddDisk'', ''AddDisk2'', ''AddNetUnixgram'', ''AddNetUnixstream'', ''StartEnter'']"

definition loads :: "string list \<Rightarrow> krun_lib \<Rightarrow> bool" where
  "loads k lib \<longleftrightarrow> (\<forall>fn. kl_loaded lib fn \<longleftrightarrow> fn \<in> set k)"

text \<open>A predicate on the outcome of a method: it does not fail for want of the library.\<close>

definition finds_function :: "go_error option \<times> vmInstance \<Rightarrow> bool" where
  "finds_function r \<longleftrightarrow> fst r \<noteq> Some not_loaded"

lemma krun_finds: "kl_loaded lib fn \<Longrightarrow> msg \<noteq> [] \<Longrightarrow> hd msg = CHR ''k'' \<Longrightarrow> finds_function (krun lib fn msg c v)"
  by (cases msg) (auto simp: krun_def finds_function_def not_loaded_def Let_def)

lemma used_loaded: "list_all (\<lambda>fn. fn \<in> set (map fst krun_symbols)) used_functions"
  by (simp add: used_functions_def krun_symbols_def)

lemma vmc_finds_function:
  assumes "loads (map fst krun_symbols) lib"
  shows "finds_function (vmc_SetCPUAndMemory lib cpu ram v)" "finds_function (vmc_SetKernel lib arch kp ip cl v)"
    "finds_function (vmc_SetExec lib p args envv v)" "finds_function (vmc_SetConsole lib p v)"
    "finds_function (vmc_AddVSockPort lib port p v)" "finds_function (vmc_AddVSockPortConnect lib port p v)"
    "finds_function (vmc_AddVirtiofs lib tag p v)" "finds_function (vmc_AddDisk lib b p ro v)"
    "finds_function (vmc_AddDisk2 lib b p fmt ro v)" "finds_function (vmc_AddNIC lib ep mac mode fe fl v)"
    "finds_function (vmc_Start lib v)"
proof -
  have l: "kl_loaded lib fn" if "fn \<in> set used_functions" for fn
    using assms used_loaded that by (simp add: loads_def list_all_iff)
  note f = krun_finds [OF l]
  show "finds_function (vmc_SetCPUAndMemory lib cpu ram v)" "finds_function (vmc_SetKernel lib arch kp ip cl v)"
    "finds_function (vmc_SetExec lib p args envv v)" "finds_function (vmc_SetConsole lib p v)"
    "finds_function (vmc_AddVSockPort lib port p v)" "finds_function (vmc_AddVSockPortConnect lib port p v)"
    "finds_function (vmc_AddVirtiofs lib tag p v)" "finds_function (vmc_AddDisk lib b p ro v)"
    "finds_function (vmc_AddDisk2 lib b p fmt ro v)" "finds_function (vmc_Start lib v)"
    by (simp_all add: vmc_defs vmc_Start_def f used_functions_def)
  show "finds_function (vmc_AddNIC lib ep mac mode fe fl v)"
    using f [of "''AddNetUnixgram''" "''krun_add_net_unixgram''"] f [of "''AddNetUnixstream''" "''krun_add_net_unixstream''"]
      l [of "''AddNetUnixgram''"] l [of "''AddNetUnixstream''"]
    by (simp add: vmc_AddNIC_def used_functions_def) (simp add: finds_function_def not_loaded_def)
qed

lemma openLibkrun_ok:
  "openLibkrun env path = (Inr (k, f), closed) \<Longrightarrow> k = map fst krun_symbols \<and> closed = [] \<and> dl_open env path = Inr f
     \<and> list_all (\<lambda>s. dl_symbol env f (snd s) = None) krun_symbols"
  by (auto simp: openLibkrun_def register_all_ok split: sum.splits prod.splits option.splits)

lemma openLibkrun_err:
  assumes "openLibkrun env path = (Inl e, closed)" and "dl_open env path = Inr f"
  shows "closed = [f] \<and> list_ex (\<lambda>s. dl_symbol env f (snd s) \<noteq> None) krun_symbols"
  using assms register_all_panic [of env f krun_symbols "[]"]
  by (auto simp: openLibkrun_def split: prod.splits option.splits)

text \<open>Every field of the structure has a tag.\<close>

lemma fields_of_symbols: "map fst krun_symbols = libkrun_fields"
  by (simp add: krun_symbols_def libkrun_fields_def)

text \<open>
  C27. Loading the library is all or nothing. It succeeds exactly when the file opens and every symbol
  is found; then nothing is closed, every field of the structure is set, in order, all functions that the
  program calls among them, and no method of a VM context fails for want of the library. Otherwise the
  handle that was opened is closed, once.
\<close>

theorem library_all_or_nothing:
  "case openLibkrun env path of
     (Inr (k, f), closed) \<Rightarrow> dl_open env path = Inr f \<and> closed = [] \<and> k = libkrun_fields
       \<and> list_all (\<lambda>fn. fn \<in> set k) used_functions
       \<and> list_all (\<lambda>s. dl_symbol env f (snd s) = None) krun_symbols
       \<and> (\<forall>lib. loads k lib \<longrightarrow>
            finds_function (vmc_SetCPUAndMemory lib cpu ram v) \<and> finds_function (vmc_SetKernel lib arch kp ip cl v)
          \<and> finds_function (vmc_SetExec lib p args envv v) \<and> finds_function (vmc_SetConsole lib p v)
          \<and> finds_function (vmc_AddVSockPort lib port p v) \<and> finds_function (vmc_AddVSockPortConnect lib port p v)
          \<and> finds_function (vmc_AddVirtiofs lib tag p v) \<and> finds_function (vmc_AddDisk lib b p ro v)
          \<and> finds_function (vmc_AddDisk2 lib b p fmt ro v) \<and> finds_function (vmc_AddNIC lib ep mac mode fe fl v)
          \<and> finds_function (vmc_Start lib v))
   | (Inl e, closed) \<Rightarrow>
       (case dl_open env path of
          Inl e' \<Rightarrow> closed = [] \<and> e = e'
        | Inr f \<Rightarrow> closed = [f] \<and> list_ex (\<lambda>s. dl_symbol env f (snd s) \<noteq> None) krun_symbols)"
proof -
  obtain r closed where o: "openLibkrun env path = (r, closed)" by force
  show ?thesis
  proof (cases r)
    case (Inl e)
    show ?thesis
    proof (cases "dl_open env path")
      case (Inr f)
      with o \<open>r = Inl e\<close> openLibkrun_err show ?thesis by simp
    qed (simp add: openLibkrun_def)
  next
    case (Inr kf)
    then obtain k f where "r = Inr (k, f)" by (cases kf) auto
    with o openLibkrun_ok [of env path k f closed] used_loaded vmc_finds_function show ?thesis
      by (simp add: fields_of_symbols)
  qed
qed

definition demo_dl :: dl_env where
  "demo_dl = \<lparr>dl_open = (\<lambda>_. Inr 5),
     dl_symbol = (\<lambda>_ s. if s = ''krun_add_disk2'' then Some (PanicErr (ErrNew ''undefined symbol: krun_add_disk2'')) else None),
     dl_close = (\<lambda>_. Some (ErrNew ''busy''))\<rparr>"

lemma demo_dl_missing: "openLibkrun demo_dl path =
    (Inl (ErrSuffix (ErrNew ''undefined symbol: krun_add_disk2'') ''; additionally, failed to close libkrun handle: busy''), [5])"
  by (simp add: openLibkrun_def demo_dl_def krun_symbols_def)

text \<open>Both ways: a library without one symbol, and one that has them all.\<close>

theorem library_all_or_nothing_witness:
  "\<exists>e. openLibkrun demo_dl ''/lib/libkrun.so'' = (Inl e, [5])
     \<and> openLibkrun (demo_dl\<lparr>dl_symbol := (\<lambda>_ _. None)\<rparr>) ''/lib/libkrun.so'' = (Inr (libkrun_fields, 5), [])
     \<and> loads libkrun_fields (calm_lib\<lparr>kl_loaded := (\<lambda>fn. fn \<in> set libkrun_fields)\<rparr>)
     \<and> finds_function (vmc_AddDisk2 (calm_lib\<lparr>kl_loaded := (\<lambda>fn. fn \<in> set libkrun_fields)\<rparr>) ''b'' ''/p'' 0 False demo_instance)"
proof -
  let ?ok = "demo_dl\<lparr>dl_symbol := (\<lambda>_ _. None)\<rparr>"
  have ok: "openLibkrun ?ok ''/lib/libkrun.so'' = (Inr (libkrun_fields, 5), [])"
    by (simp add: openLibkrun_def demo_dl_def krun_symbols_def libkrun_fields_def)
  have l: "loads libkrun_fields (calm_lib\<lparr>kl_loaded := (\<lambda>fn. fn \<in> set libkrun_fields)\<rparr>)"
    by (simp add: loads_def)
  from library_all_or_nothing [of ?ok "''/lib/libkrun.so''"] ok l demo_dl_missing show ?thesis by auto
qed

section \<open>Options of an instance\<close>

record MountConfig =
  mc_Readonly :: bool
  mc_Vmdk :: bool

datatype MountOpt = WithReadOnly | WithVmdk

fun apply_MountOpt :: "MountOpt \<Rightarrow> MountConfig \<Rightarrow> MountConfig" where
  "apply_MountOpt WithReadOnly o1 = o1\<lparr>mc_Readonly := True\<rparr>"
| "apply_MountOpt WithVmdk o1 = o1\<lparr>mc_Vmdk := True\<rparr>"

record NetworkOpts =
  no_Features :: "32 word"
  no_Flags :: "32 word"

datatype NetworkOpt = WithNICFeatures "32 word" | WithNICFlags "32 word"

fun apply_NetworkOpt :: "NetworkOpt \<Rightarrow> NetworkOpts \<Rightarrow> NetworkOpts" where
  "apply_NetworkOpt (WithNICFeatures x) o1 = o1\<lparr>no_Features := x\<rparr>"
| "apply_NetworkOpt (WithNICFlags x) o1 = o1\<lparr>no_Flags := x\<rparr>"

text \<open>The console writer is a file or nil.\<close>

record StartOpts =
  so_InitArgs :: "string list"
  so_ConsoleWriter :: "nat option"

datatype StartOpt = StartInitArgs "string list" | WithConsoleWriter "nat option"

fun apply_StartOpt :: "StartOpt \<Rightarrow> StartOpts \<Rightarrow> StartOpts" where
  "apply_StartOpt (StartInitArgs args) o1 = o1\<lparr>so_InitArgs := so_InitArgs o1 @ args\<rparr>"
| "apply_StartOpt (WithConsoleWriter w) o1 = o1\<lparr>so_ConsoleWriter := w\<rparr>"

text \<open>The methods of the instance resolve their options in order; \<open>AddFS\<close> does not look at them.\<close>

definition AddDisk_opts :: "krun_lib \<Rightarrow> string \<Rightarrow> string \<Rightarrow> MountOpt list \<Rightarrow> start_step" where
  "AddDisk_opts lib blockID mountPath opts =
     (let mc = fold apply_MountOpt opts \<lparr>mc_Readonly = False, mc_Vmdk = False\<rparr>
      in instance_AddDisk lib blockID mountPath (mc_Readonly mc) (mc_Vmdk mc))"

definition AddFS_opts :: "krun_lib \<Rightarrow> string \<Rightarrow> string \<Rightarrow> MountOpt list \<Rightarrow> start_step" where
  "AddFS_opts lib tag mountPath opts = instance_AddFS lib tag mountPath False"

definition AddNIC_opts :: "krun_lib \<Rightarrow> string \<Rightarrow> hwaddr \<Rightarrow> int \<Rightarrow> NetworkOpt list \<Rightarrow> start_step" where
  "AddNIC_opts lib endpoint mac mode opts =
     (let no = fold apply_NetworkOpt opts \<lparr>no_Features = 0, no_Flags = 0\<rparr>
      in instance_AddNIC lib endpoint mac mode (no_Features no) (no_Flags no))"

definition resolve_start :: "StartOpt list \<Rightarrow> StartOpts" where
  "resolve_start opts = fold apply_StartOpt opts \<lparr>so_InitArgs = vsock_args, so_ConsoleWriter = None\<rparr>"

definition Start_opts :: "krun_lib \<Rightarrow> start_env \<Rightarrow> StartOpt list \<Rightarrow> start_step" where
  "Start_opts lib env opts = instance_Start lib env (drop (length vsock_args) (so_InitArgs (resolve_start opts)))"

text \<open>The options the sandbox passes.\<close>

definition disk_opts :: "bool \<Rightarrow> bool \<Rightarrow> MountOpt list" where
  "disk_opts ro vmdk = (if ro then [WithReadOnly] else []) @ (if vmdk then [WithVmdk] else [])"

definition fs_opts :: "bool \<Rightarrow> MountOpt list" where
  "fs_opts ro = (if ro then [WithReadOnly] else [])"

definition nic_opts :: "32 word \<Rightarrow> 32 word \<Rightarrow> NetworkOpt list" where
  "nic_opts features flags = [WithNICFeatures features, WithNICFlags flags]"

definition start_opts :: "string list \<Rightarrow> StartOpt list" where
  "start_opts args = (if args \<noteq> [] then [StartInitArgs args] else [])"

lemma disk_opts_resolve: "AddDisk_opts lib b p (disk_opts ro vmdk) = instance_AddDisk lib b p ro vmdk"
  by (simp add: AddDisk_opts_def disk_opts_def)

lemma nic_opts_resolve: "AddNIC_opts lib ep mac mode (nic_opts fe fl) = instance_AddNIC lib ep mac mode fe fl"
  by (simp add: AddNIC_opts_def nic_opts_def)

lemma start_opts_resolve: "Start_opts lib env (start_opts args) = instance_Start lib env args"
  by (simp add: Start_opts_def resolve_start_def start_opts_def)

lemma resolve_start_args:
  "so_InitArgs (resolve_start opts) = vsock_args @ concat (map (\<lambda>o1. case o1 of StartInitArgs a \<Rightarrow> a | _ \<Rightarrow> []) opts)"
proof -
  have "so_InitArgs (fold apply_StartOpt opts o1) =
      so_InitArgs o1 @ concat (map (\<lambda>o1. case o1 of StartInitArgs a \<Rightarrow> a | _ \<Rightarrow> []) opts)" for o1
  proof (induction opts arbitrary: o1)
    case (Cons a opts)
    then show ?case by (cases a) auto
  qed simp
  then show ?thesis by (simp add: resolve_start_def)
qed

section \<open>The console on Windows\<close>

definition console_pipe :: "nat \<Rightarrow> nat \<Rightarrow> string" where
  "console_pipe pid n = [CHR 0x5C, CHR 0x5C, CHR ''.'', CHR 0x5C] @ ''pipe'' @ [CHR 0x5C] @ ''krun-console-'' @ show_nat pid @ ''-'' @ show_nat n"

text \<open>The error, the instance and the counter of the pipes, which every call advances.\<close>

definition setupConsole_windows ::
  "krun_lib \<Rightarrow> nat \<Rightarrow> nat \<Rightarrow> vmInstance \<Rightarrow> (go_error option \<times> vmInstance) \<times> nat" where
  "setupConsole_windows lib pid counter v = (vmc_SetConsole lib (console_pipe pid (Suc counter)) v, Suc counter)"

text \<open>
  The loop that dials the pipe until libkrun has made it: the \<open>k\<close>-th pause is \<open>10 * 2 ^ k\<close> milliseconds.
  A dial gives what the console writes until its end; the result has the pauses made as well.
\<close>

function dial_console :: "(nat \<Rightarrow> string result) \<Rightarrow> nat \<Rightarrow> string option \<times> nat list" where
  "dial_console dial k =
     (if 10 * 2 ^ k < (5000 :: nat) then
        (case dial k of
           Inr c \<Rightarrow> (Some c, [])
         | Inl e \<Rightarrow> (case dial_console dial (Suc k) of (r, ds) \<Rightarrow> (r, 10 * 2 ^ k # ds)))
      else (None, []))"
  by pat_completeness auto
termination
proof (relation "measure (\<lambda>(dial, k). 5000 - k)")
  fix dial :: "nat \<Rightarrow> string result" and k e
  assume "10 * 2 ^ k < (5000 :: nat)"
  then have "2 ^ k < (5000 :: nat)" by simp
  with less_exp [of k] have "k < 5000" by (rule less_trans)
  then show "((dial, Suc k), (dial, k)) \<in> measure (\<lambda>(dial, k). 5000 - k)" by simp
qed simp

declare dial_console.simps [simp del]

text \<open>What reaches the reader of the console before its pipe is closed, and the pauses.\<close>

definition connectAndCopyConsole :: "(nat \<Rightarrow> string result) \<Rightarrow> string \<times> nat list" where
  "connectAndCopyConsole dial = (case dial_console dial 0 of (None, ds) \<Rightarrow> ([], ds) | (Some c, ds) \<Rightarrow> (c, ds))"

definition first_ok :: "'a result list \<Rightarrow> 'a option" where
  "first_ok rs = (case dropWhile isl rs of [] \<Rightarrow> None | r # _ \<Rightarrow> Some (projr r))"

lemma first_ok_simps [simp]:
  "first_ok [] = None" "first_ok (Inl e # rs) = first_ok rs" "first_ok (Inr x # rs) = Some x"
  by (simp_all add: first_ok_def)

lemma dial_console_prefix:
  "k \<le> 9 \<Longrightarrow> fst (dial_console dial k) = first_ok (map dial [k..<9])
     \<and> prefix (snd (dial_console dial k)) (map (\<lambda>j. 10 * 2 ^ j) [k..<9])"
proof (induction "9 - k" arbitrary: k)
  case 0
  then have "k = 9" by simp
  then show ?case by (simp add: dial_console.simps [of _ 9])
next
  case (Suc n)
  then have k: "k < 9" by simp
  then have "(2 :: nat) ^ k \<le> 2 ^ 8" by (intro power_increasing) simp_all
  then have d: "10 * 2 ^ k < (5000 :: nat)" by simp
  have u: "[k..<9] = k # [Suc k..<9]" using k by (simp add: upt_conv_Cons)
  have "fst (dial_console dial (Suc k)) = first_ok (map dial [Suc k..<9])
     \<and> prefix (snd (dial_console dial (Suc k))) (map (\<lambda>j. 10 * 2 ^ j) [Suc k..<9])"
    using Suc.hyps k by simp
  then show ?case
    using d unfolding u by (subst (1 2) dial_console.simps) (auto split: sum.splits prod.splits)
qed

text \<open>
  The copy of the console on Windows always comes to an end of its dials: after at most nine, with
  pauses that double from 10 milliseconds. The reader gets the output of the first dial that succeeds.
\<close>

lemma console_dials_end:
  "fst (connectAndCopyConsole dial) = (case first_ok (map dial [0..<9]) of None \<Rightarrow> [] | Some c \<Rightarrow> c)
    \<and> prefix (snd (connectAndCopyConsole dial)) [10, 20, 40, 80, 160, 320, 640, 1280, 2560]"
proof -
  have "[0..<9] = [0, 1, 2, 3, 4, 5, 6, 7, 8 :: nat]" by (simp add: upt_conv_Cons)
  then show ?thesis
    using dial_console_prefix [of 0 dial]
    by (auto simp: connectAndCopyConsole_def split: prod.splits option.splits)
qed

section \<open>The calls of the sandbox on an instance\<close>

fun instance_call :: "krun_lib \<Rightarrow> start_env \<Rightarrow> vm_call \<Rightarrow> start_step" where
  "instance_call lib env (VAddDisk b p ro vmdk) = AddDisk_opts lib b p (disk_opts ro vmdk)"
| "instance_call lib env (VAddFS tag p ro) = AddFS_opts lib tag p (fs_opts ro)"
| "instance_call lib env (VAddNIC ep mac mode fe fl) = AddNIC_opts lib ep mac mode (nic_opts fe fl)"
| "instance_call lib env (VSetCPUAndMemory cpu ram) = instance_SetCPUAndMemory lib cpu ram"
| "instance_call lib env (VStart args) = Start_opts lib env (start_opts args)"
| "instance_call lib env c = Pair None"

text \<open>The call of the library that a configuration call of the sandbox comes down to.\<close>

fun krun_of :: "32 word \<Rightarrow> vm_call \<Rightarrow> krun_call option" where
  "krun_of ctx (VAddDisk b p ro vmdk) = Some (KAddDisk2 ctx b p (if vmdk then 2 else 0) ro)"
| "krun_of ctx (VAddFS tag p ro) = Some (KAddVirtiofs ctx tag p)"
| "krun_of ctx (VAddNIC ep mac mode fe fl) =
     (if mode = 0 then Some (KAddNetUnixgram ctx ep mac fe fl)
      else if mode = 1 then Some (KAddNetUnixstream ctx ep mac fe fl) else None)"
| "krun_of ctx (VSetCPUAndMemory cpu ram) = Some (KSetVMConfig ctx cpu ram)"
| "krun_of ctx c = None"

fun config_call :: "vm_call \<Rightarrow> bool" where
  "config_call (VStart args) = False"
| "config_call (VNewInstance s) = False"
| "config_call VShutdown = False"
| "config_call c = True"

lemma config_call_ok:
  assumes "config_call c" and "instance_call lib env c v = (None, v')"
  shows "\<exists>k. krun_of (vi_ctxID v) c = Some k \<and> kl_ret lib k = 0 \<and> v' = v\<lparr>vi_calls := vi_calls v @ [(k, 0)]\<rparr>"
  using assms
  by (cases c) (auto simp: disk_opts_resolve nic_opts_resolve instance_AddDisk_def AddFS_opts_def instance_AddFS_def
      instance_AddNIC_def instance_SetCPUAndMemory_def vmc_defs krun_ok split: if_splits)

text \<open>The answer to a configuration call depends on the instance only through its context.\<close>

lemma config_call_same:
  "config_call c \<Longrightarrow> vi_ctxID u = vi_ctxID v \<Longrightarrow> fst (instance_call lib env c u) = fst (instance_call lib env c v)"
  by (cases c) (simp_all add: disk_opts_resolve nic_opts_resolve instance_AddDisk_def AddFS_opts_def instance_AddFS_def
      instance_AddNIC_def instance_SetCPUAndMemory_def vmc_defs krun_def wrap_step_def Let_def)

lemma config_calls_ok:
  assumes "list_all config_call cs" and "list_all (\<lambda>c. fst (instance_call lib env c v) = None) cs"
  shows "\<exists>ks. map (krun_of (vi_ctxID v)) cs = map Some ks \<and>
    run_steps (map (instance_call lib env) cs) v = (None, v\<lparr>vi_calls := vi_calls v @ map (\<lambda>k. (k, 0)) ks\<rparr>)"
  using assms
proof (induction cs arbitrary: v)
  case (Cons c cs)
  then obtain v1 where v1: "instance_call lib env c v = (None, v1)" by (cases "instance_call lib env c v") auto
  then obtain k where k: "krun_of (vi_ctxID v) c = Some k" "v1 = v\<lparr>vi_calls := vi_calls v @ [(k, 0)]\<rparr>"
    using config_call_ok Cons.prems by fastforce
  have "list_all (\<lambda>c. fst (instance_call lib env c v1) = None) cs"
    using Cons.prems config_call_same [of _ v1 v lib env] by (simp add: list_all_iff k)
  with Cons.IH [of v1] Cons.prems obtain ks where "map (krun_of (vi_ctxID v1)) cs = map Some ks"
    "run_steps (map (instance_call lib env) cs) v1 = (None, v1\<lparr>vi_calls := vi_calls v1 @ map (\<lambda>k. (k, 0)) ks\<rparr>)"
    by auto
  with v1 k show ?case by (intro exI [of _ "k # ks"]) simp
qed simp

text \<open>
  The instance as the VM manager of the sandbox: the outcomes \<open>vmm_env\<close> of the sandbox's calls are those of
  the instance that \<open>NewInstance\<close> returned, and \<open>Start\<close> is called on it as the calls before leave it.
\<close>

definition config_calls :: "sb_options \<Rightarrow> vm_call list" where
  "config_calls o1 = map disk_call (o_Disks o1) @ map fs_call (o_Filesystems o1) @ map nic_call (o_NICs o1)
     @ (if o_CPU o1 > 0 \<and> o_Memory o1 > 0 then [VSetCPUAndMemory (o_CPU o1) (o_Memory o1)] else [])"

definition krun_vmm :: "krun_lib \<Rightarrow> start_env \<Rightarrow> vmInstance \<Rightarrow> sb_options \<Rightarrow> vmm_env" where
  "krun_vmm lib env v o1 =
     (let call = (\<lambda>c. fst (instance_call lib env c v))
      in \<lparr>ve_new = (\<lambda>_. Inr (vi_handler v)),
          ve_disk = call \<circ> disk_call, ve_fs = call \<circ> fs_call, ve_nic = call \<circ> nic_call,
          ve_resources = call (VSetCPUAndMemory (o_CPU o1) (o_Memory o1)),
          ve_start = fst (instance_call lib env (VStart (o_InitArgs o1))
                            (snd (run_steps (map (instance_call lib env) (config_calls o1)) v))),
          ve_shutdown = None\<rparr>)"

lemma call_each_None: "fst (call_each f g xs) = None \<longleftrightarrow> list_all (\<lambda>x. f x = None) xs"
  by (induction xs) (auto split: option.splits prod.splits)

lemma config_calls_config: "list_all config_call (config_calls o1)"
  by (auto simp: config_calls_def disk_call_def fs_call_def nic_call_def list_all_iff)

lemma configure_on_instance:
  assumes "configure (krun_vmm lib env v o1) o1 = (None, cs)"
  shows "cs = config_calls o1 @ [VStart (o_InitArgs o1)]
    \<and> list_all (\<lambda>c. fst (instance_call lib env c v) = None) (config_calls o1)
    \<and> ve_start (krun_vmm lib env v o1) = None"
proof -
  let ?env = "krun_vmm lib env v o1"
  let ?rs = "[call_each (ve_disk ?env) disk_call (o_Disks o1), call_each (ve_fs ?env) fs_call (o_Filesystems o1),
    call_each (ve_nic ?env) nic_call (o_NICs o1), resources_calls ?env o1, (ve_start ?env, [VStart (o_InitArgs o1)])]"
  have ok: "fst (seq_calls ?rs) = None" and cs: "cs = snd (seq_calls ?rs)"
    using assms by (simp_all add: configure_def)
  have each: "fst (call_each (ve_disk ?env) disk_call (o_Disks o1)) = None"
    "fst (call_each (ve_fs ?env) fs_call (o_Filesystems o1)) = None"
    "fst (call_each (ve_nic ?env) nic_call (o_NICs o1)) = None"
    "fst (resources_calls ?env o1) = None" "ve_start ?env = None"
    using ok unfolding seq_calls_ok by simp_all
  have "cs = map disk_call (o_Disks o1) @ map fs_call (o_Filesystems o1) @ map nic_call (o_NICs o1)
      @ snd (resources_calls ?env o1) @ [VStart (o_InitArgs o1)]"
    unfolding cs seq_calls_all [OF ok] using each by (simp add: call_each_ok)
  moreover have "snd (resources_calls ?env o1) =
      (if o_CPU o1 > 0 \<and> o_Memory o1 > 0 then [VSetCPUAndMemory (o_CPU o1) (o_Memory o1)] else [])"
    by (simp add: resources_calls_def)
  moreover have "list_all (\<lambda>c. fst (instance_call lib env c v) = None) (config_calls o1)"
    using each by (auto simp: call_each_None config_calls_def list_all_iff krun_vmm_def resources_calls_def Let_def
        split: if_splits)
  ultimately show ?thesis using each(5) by (simp add: config_calls_def)
qed

text \<open>
  The sandbox started on an instance: its calls, replayed on the instance, succeed and leave it
  running, and the library was called once for each of them, in their order.
\<close>

lemma sandbox_Start_configure:
  assumes "sandbox_Start vmm opts s = (None, s')"
  shows "sb_instance s = None \<and> (\<exists>cs. configure vmm (apply_opts opts) = (None, cs)
    \<and> sb_calls s' = sb_calls s @ VNewInstance (o_StateDir (apply_opts opts)) # cs)"
  using assms by (auto simp: sandbox_Start_def Let_def split: if_splits sum.splits prod.splits option.splits)

lemma sandbox_replay:
  assumes "sandbox_Start (krun_vmm lib env v (apply_opts opts)) opts s = (None, s')"
  shows "\<exists>ks v1 v'. sb_calls s' = sb_calls s @ VNewInstance (o_StateDir (apply_opts opts))
        # config_calls (apply_opts opts) @ [VStart (o_InitArgs (apply_opts opts))]
    \<and> map (krun_of (vi_ctxID v)) (config_calls (apply_opts opts)) = map Some ks
    \<and> v1 = v\<lparr>vi_calls := vi_calls v @ map (\<lambda>k. (k, 0)) ks\<rparr>
    \<and> instance_Start lib env (o_InitArgs (apply_opts opts)) v1 = (None, v')
    \<and> run_steps (map (instance_call lib env) (config_calls (apply_opts opts) @ [VStart (o_InitArgs (apply_opts opts))])) v
        = (None, v')"
proof -
  let ?o = "apply_opts opts"
  from sandbox_Start_configure [OF assms] obtain cs where cs: "configure (krun_vmm lib env v ?o) ?o = (None, cs)"
    and calls: "sb_calls s' = sb_calls s @ VNewInstance (o_StateDir ?o) # cs" by blast
  note on = configure_on_instance [OF cs]
  from config_calls_ok [OF config_calls_config] on obtain ks where
    ks: "map (krun_of (vi_ctxID v)) (config_calls ?o) = map Some ks"
    and run: "run_steps (map (instance_call lib env) (config_calls ?o)) v =
      (None, v\<lparr>vi_calls := vi_calls v @ map (\<lambda>k. (k, 0)) ks\<rparr>)" by blast
  let ?v1 = "v\<lparr>vi_calls := vi_calls v @ map (\<lambda>k. (k, 0)) ks\<rparr>"
  obtain v' where v': "instance_Start lib env (o_InitArgs ?o) ?v1 = (None, v')"
    using on run by (cases "instance_Start lib env (o_InitArgs ?o) ?v1") (auto simp: krun_vmm_def start_opts_resolve Let_def)
  have "run_steps (map (instance_call lib env) (config_calls ?o @ [VStart (o_InitArgs ?o)])) v = (None, v')"
    using run v' by (simp add: run_steps_split start_opts_resolve)
  with calls on ks v' show ?thesis by blast
qed

section \<open>What the library is told\<close>

definition disk_krun :: "32 word \<Rightarrow> Disk \<Rightarrow> krun_call" where
  "disk_krun ctx d = KAddDisk2 ctx (d_BlockID d) (d_MountPath d) (if d_Flags d AND DiskFlagVMDK \<noteq> 0 then 2 else 0)
     (d_Flags d AND DiskFlagReadonly \<noteq> 0)"

definition fs_krun :: "32 word \<Rightarrow> Filesystem \<Rightarrow> krun_call" where
  "fs_krun ctx f = KAddVirtiofs ctx (fs_Tag f) (fs_MountPath f)"

definition nic_krun :: "32 word \<Rightarrow> NIC \<Rightarrow> krun_call" where
  "nic_krun ctx n =
     (if nic_Mode n = 0 then KAddNetUnixgram ctx (nic_Endpoint n) (nic_MAC n) (nic_Features n) (nic_Flags n)
      else KAddNetUnixstream ctx (nic_Endpoint n) (nic_MAC n) (nic_Features n) (nic_Flags n))"

definition resources_krun :: "32 word \<Rightarrow> sb_options \<Rightarrow> krun_call list" where
  "resources_krun ctx o1 =
     (if o_CPU o1 > 0 \<and> o_Memory o1 > 0 then [KSetVMConfig ctx (o_CPU o1) (o_Memory o1)] else [])"

definition config_krun :: "32 word \<Rightarrow> sb_options \<Rightarrow> krun_call list" where
  "config_krun ctx o1 = map (disk_krun ctx) (o_Disks o1) @ map (fs_krun ctx) (o_Filesystems o1)
     @ map (nic_krun ctx) (o_NICs o1) @ resources_krun ctx o1"

lemma map_eq_map_Some: "(map f xs = map Some ks) \<longleftrightarrow> list_all (\<lambda>x. f x \<noteq> None) xs \<and> ks = map (the \<circ> f) xs"
  by (induction xs arbitrary: ks) (auto simp: Cons_eq_map_conv)

lemma config_krun_calls:
  assumes "map (krun_of ctx) (config_calls o1) = map Some ks"
  shows "ks = config_krun ctx o1"
proof -
  have "list_all (\<lambda>n. krun_of ctx (nic_call n) \<noteq> None) (o_NICs o1)" and ks: "ks = map (the \<circ> krun_of ctx) (config_calls o1)"
    using assms unfolding map_eq_map_Some by (simp_all add: config_calls_def list_all_iff)
  then have "map (the \<circ> krun_of ctx \<circ> nic_call) (o_NICs o1) = map (nic_krun ctx) (o_NICs o1)"
    by (auto simp: nic_krun_def nic_call_def list_all_iff split: if_splits)
  moreover have "the \<circ> krun_of ctx \<circ> disk_call = disk_krun ctx" "the \<circ> krun_of ctx \<circ> fs_call = fs_krun ctx"
    by (auto simp: fun_eq_iff disk_call_def disk_krun_def fs_call_def fs_krun_def)
  ultimately show ?thesis
    by (simp add: ks config_calls_def config_krun_def resources_krun_def)
qed

end
