(* ===== verification/Shim_Manager.thy ===== *)
theory Shim_Manager
  imports Go_Strings
begin

text \<open>
  The manager that starts and stops the shim process (\<open>pkg/shim/manager/manager.go\<close>, \<open>manager_unix.go\<close>,
  \<open>mount_linux.go\<close>). The state keeps what a start can leave behind: socket files, the temporary and the
  final pid file, running shims, and the processes that hold the lock of the pid file. Calls into
  containerd's shim library and the operating system are outcomes.
\<close>

section \<open>State and outcomes\<close>

text \<open>Process 0 is the manager; the lock is held as long as a process has the locked file open.\<close>

record mg_state =
  ms_sockets :: "string list"
  ms_temp :: bool
  ms_pidfile :: "string option"
  ms_live :: "nat list"
  ms_holders :: "nat list"

record mg_env =
  me_namespace :: "string result"
  me_self :: "string result"
  me_cwd :: "string result"
  me_environ :: "string list"
  me_spec :: "(string, string) gomap result"
  me_address :: "string \<Rightarrow> string \<Rightarrow> string \<Rightarrow> bool \<Rightarrow> string result"
  me_mkdir :: "string \<Rightarrow> go_error option"
  me_bind :: "string \<Rightarrow> go_error option"
  me_canConnect :: "string \<Rightarrow> bool"
  me_unlink :: "string \<Rightarrow> go_error option"
  me_file :: "string \<Rightarrow> go_error option"
  me_abs :: "go_error option"
  me_createTemp :: "go_error option"
  me_flock :: "go_error option"
  me_restrict :: "string result"
  me_profile :: "string result"
  me_arg0 :: string
  me_start :: "bool \<Rightarrow> nat result"
  me_again :: "go_error option"
  me_oom :: "go_error option"
  me_write :: "go_error option"
  me_sync :: "go_error option"
  me_close :: "go_error option"
  me_rename :: "go_error option"

section \<open>The command\<close>

definition groupLabels :: "string list" where
  "groupLabels = [''io.containerd.runc.v2.group'', ''io.kubernetes.cri.sandbox-id'']"

fun grouping_of :: "string list \<Rightarrow> (string, string) gomap \<Rightarrow> string \<Rightarrow> string" where
  "grouping_of [] ann grp = grp"
| "grouping_of (g # gs) ann grp = (case gm_get ann g of Some groupID \<Rightarrow> groupID | None \<Rightarrow> grouping_of gs ann grp)"

record mg_cmd =
  mc_path :: string
  mc_args :: "string list"
  mc_dir :: string
  mc_env :: "string list"
  mc_extra :: "string list"
  mc_userns :: bool

definition newCommand :: "mg_env \<Rightarrow> string \<Rightarrow> string \<Rightarrow> bool \<Rightarrow> mg_cmd result" where
  "newCommand env iid containerdAddress debug =
     (case me_namespace env of
        Inl e \<Rightarrow> Inl e
      | Inr ns \<Rightarrow>
     (case me_self env of
        Inl e \<Rightarrow> Inl e
      | Inr self \<Rightarrow>
     (case me_cwd env of
        Inl e \<Rightarrow> Inl e
      | Inr cwd \<Rightarrow>
          Inr \<lparr>mc_path = self,
               mc_args = [''-namespace'', ns, ''-id'', iid, ''-address'', containerdAddress] @ (if debug then [''-debug''] else []),
               mc_dir = cwd,
               mc_env = me_environ env @ [''GOMAXPROCS=4'', ''OTEL_SERVICE_NAME=containerd-shim-'' @ iid],
               mc_extra = [], mc_userns = False\<rparr>)))"

section \<open>Sockets\<close>

definition RemoveSocket :: "mg_env \<Rightarrow> string \<Rightarrow> mg_state \<Rightarrow> go_error option \<times> mg_state" where
  "RemoveSocket env addr st =
     (case me_unlink env addr of
        Some e \<Rightarrow> (Some e, st)
      | None \<Rightarrow> (None, st\<lparr>ms_sockets := removeAll addr (ms_sockets st)\<rparr>))"

text \<open>\<open>shim.NewSocket\<close>: binding a name that is taken fails with \<open>EADDRINUSE\<close>.\<close>

definition eaddrinuse :: go_error where
  "eaddrinuse = Sentinel ''address already in use''"

definition NewSocket :: "mg_env \<Rightarrow> string \<Rightarrow> mg_state \<Rightarrow> go_error option \<times> mg_state" where
  "NewSocket env addr st =
     (case me_bind env addr of
        Some e \<Rightarrow> (Some e, st)
      | None \<Rightarrow>
          if addr \<in> set (ms_sockets st) then (Some eaddrinuse, st)
          else (None, st\<lparr>ms_sockets := addr # ms_sockets st\<rparr>))"

definition shimSocket_Close :: "mg_env \<Rightarrow> string \<Rightarrow> mg_state \<Rightarrow> mg_state" where
  "shimSocket_Close env addr st = snd (RemoveSocket env addr st)"

datatype new_socket = SockOK string | SockExists string | SockErr go_error

definition socket_file :: "mg_env \<Rightarrow> string \<Rightarrow> mg_state \<Rightarrow> new_socket \<times> mg_state" where
  "socket_file env addr st =
     (case me_file env addr of
        Some e \<Rightarrow> (SockErr e, shimSocket_Close env addr st)
      | None \<Rightarrow> (SockOK addr, st))"

definition newShimSocket :: "mg_env \<Rightarrow> string \<Rightarrow> string \<Rightarrow> string \<Rightarrow> bool \<Rightarrow> mg_state \<Rightarrow> new_socket \<times> mg_state" where
  "newShimSocket env root path grp debug st =
     (case me_address env root path grp debug of
        Inl e \<Rightarrow> (SockErr e, st)
      | Inr address \<Rightarrow>
     (case me_mkdir env (path_dir (trim_prefix address ''unix://'')) of
        Some e \<Rightarrow> (SockErr (ErrWrap ''create socket directory'' e), st)
      | None \<Rightarrow>
     (case NewSocket env address st of
        (None, st1) \<Rightarrow> socket_file env address st1
      | (Some e, st1) \<Rightarrow>
          if e \<noteq> eaddrinuse then (SockErr (ErrWrap ''create new shim socket'' e), st1)
          else if \<not> debug \<and> me_canConnect env address then (SockExists address, st1)
          else case RemoveSocket env address st1 of
                 (Some e', st2) \<Rightarrow> (SockErr (ErrWrap ''remove pre-existing socket'' e'), st2)
               | (None, st2) \<Rightarrow>
                   (case NewSocket env address st2 of
                      (Some e', st3) \<Rightarrow> (SockErr (ErrWrap ''try create new shim socket 2x'' e'), st3)
                    | (None, st3) \<Rightarrow> socket_file env address st3))))"

section \<open>Namespaces\<close>

definition runningUnderCustomProfile :: "mg_env \<Rightarrow> bool" where
  "runningUnderCustomProfile env =
     (case me_profile env of Inl _ \<Rightarrow> False | Inr d \<Rightarrow> contains (trim_space d) (path_base (me_arg0 env)))"

definition apparmorRestrictsUserns :: "mg_env \<Rightarrow> bool result" where
  "apparmorRestrictsUserns env =
     (case me_restrict env of
        Inl e \<Rightarrow> if e = enoent then Inr False else Inl e
      | Inr d \<Rightarrow> if trim_space d = ''1'' then Inr (\<not> runningUnderCustomProfile env) else Inr False)"

definition cloneMntNs :: "mg_env \<Rightarrow> mg_cmd \<Rightarrow> bool \<times> mg_cmd" where
  "cloneMntNs env cmd =
     (case apparmorRestrictsUserns env of
        Inl e \<Rightarrow> (False, cmd)
      | Inr restricted \<Rightarrow> if restricted then (False, cmd) else (True, cmd\<lparr>mc_userns := True\<rparr>))"

section \<open>Starting\<close>

record bootstrap =
  bp_InstanceID :: string
  bp_LogLevel :: int
  bp_ContainerdGrpcAddress :: string
  bp_SocketDir :: string

record boot_result =
  br_Version :: nat
  br_Address :: string
  br_Protocol :: string

definition boot_ok :: "string \<Rightarrow> boot_result" where
  "boot_ok addr = \<lparr>br_Version = 3, br_Address = addr, br_Protocol = ''ttrpc''\<rparr>"

text \<open>A started process inherits the pid file and with it the lock.\<close>

definition cmd_Start :: "mg_env \<Rightarrow> mg_cmd \<Rightarrow> mg_state \<Rightarrow> nat result \<times> mg_state" where
  "cmd_Start env cmd st =
     (case me_start env (mc_userns cmd) of
        Inl e \<Rightarrow> (Inl e, st)
      | Inr pid \<Rightarrow>
          (Inr pid, st\<lparr>ms_live := pid # ms_live st,
                       ms_holders := (if ''pid'' \<in> set (mc_extra cmd) then pid # ms_holders st else ms_holders st)\<rparr>))"

definition process_Kill :: "nat \<Rightarrow> mg_state \<Rightarrow> mg_state" where
  "process_Kill pid st = st\<lparr>ms_live := removeAll pid (ms_live st), ms_holders := removeAll pid (ms_holders st)\<rparr>"

definition close_temp :: "mg_state \<Rightarrow> mg_state" where
  "close_temp st = st\<lparr>ms_holders := removeAll 0 (ms_holders st)\<rparr>"

text \<open>The deferred removal of the temporary pid file.\<close>

definition drop_temp :: "mg_state \<Rightarrow> mg_state" where
  "drop_temp st = (close_temp st)\<lparr>ms_temp := False\<rparr>"

definition close_sockets :: "mg_env \<Rightarrow> string list \<Rightarrow> mg_state \<Rightarrow> mg_state" where
  "close_sockets env socks st = fold (shimSocket_Close env) socks st"

text \<open>From the running process to the final pid file; on failure the process is killed.\<close>

definition publish_pid :: "mg_env \<Rightarrow> nat \<Rightarrow> mg_state \<Rightarrow> go_error option \<times> mg_state" where
  "publish_pid env pid st =
     (case (case me_oom env of
              Some e \<Rightarrow> (Some (ErrWrap ''failed to adjust OOM score for shim'' e), st)
            | None \<Rightarrow>
           (case me_write env of
              Some e \<Rightarrow> (Some (ErrWrap ''write pid'' e), st)
            | None \<Rightarrow>
           (case me_sync env of
              Some e \<Rightarrow> (Some (ErrWrap ''sync pid file'' e), st)
            | None \<Rightarrow>
           (case me_close env of
              Some e \<Rightarrow> (Some (ErrWrap ''close pid file'' e), close_temp st)
            | None \<Rightarrow>
           (case me_rename env of
              Some e \<Rightarrow> (Some (ErrWrap ''rename pid file'' e), close_temp st)
            | None \<Rightarrow> (None, (close_temp st)\<lparr>ms_temp := False, ms_pidfile := Some (show_nat pid)\<rparr>)))))) of
        (Some e, st1) \<Rightarrow> (Some e, process_Kill pid st1)
      | (None, st1) \<Rightarrow> (None, st1))"

text \<open>From the temporary pid file to the running process, with the second attempt outside a namespace.\<close>

definition launch :: "mg_env \<Rightarrow> bootstrap \<Rightarrow> bool \<Rightarrow> mg_cmd \<Rightarrow> string list \<Rightarrow> mg_state \<Rightarrow> go_error option \<times> mg_state" where
  "launch env bp debug cmd socks st =
     (case me_flock env of
        Some e \<Rightarrow> (Some (ErrWrap ''acquire flock on pid file'' e), st)
      | None \<Rightarrow>
          let st1 = st\<lparr>ms_holders := 0 # ms_holders st\<rparr>;
              (userns, cmd1) = cloneMntNs env (cmd\<lparr>mc_extra := mc_extra cmd @ [''pid'']\<rparr>)
          in (case cmd_Start env cmd1 st1 of
                (Inr pid, st2) \<Rightarrow> publish_pid env pid st2
              | (Inl startErr, st2) \<Rightarrow>
                  if \<not> userns then (Some startErr, st2)
                  else case me_again env of
                    Some e \<Rightarrow> (Some e, st2)
                  | None \<Rightarrow>
                      (case newCommand env (bp_InstanceID bp) (bp_ContainerdGrpcAddress bp) debug of
                         Inl e \<Rightarrow> (Some e, st2)
                       | Inr cmd2 \<Rightarrow>
                           (case cmd_Start env (cmd2\<lparr>mc_extra := socks @ [''pid'']\<rparr>) st2 of
                              (Inl e, st3) \<Rightarrow> (Some (ErrSuffix (ErrWrap ''retry without userns failed'' e)
                                  ('' (original error: '' @ err_msg startErr @ '')'')), st3)
                            | (Inr pid, st3) \<Rightarrow> publish_pid env pid st3))))"

definition with_temp :: "mg_env \<Rightarrow> bootstrap \<Rightarrow> bool \<Rightarrow> mg_cmd \<Rightarrow> string list \<Rightarrow> mg_state \<Rightarrow> go_error option \<times> mg_state" where
  "with_temp env bp debug cmd socks st =
     (case me_abs env of
        Some e \<Rightarrow> (Some (ErrWrap ''shim.pid abs path'' e), st)
      | None \<Rightarrow>
     (case me_createTemp env of
        Some e \<Rightarrow> (Some (ErrWrap ''create pid temp file'' e), st)
      | None \<Rightarrow>
     (case launch env bp debug cmd socks (st\<lparr>ms_temp := True\<rparr>) of
        (Some e, st1) \<Rightarrow> (Some e, drop_temp st1)
      | (None, st1) \<Rightarrow> (None, st1))))"

text \<open>The debug socket, which is never found connectable.\<close>

definition debug_socket ::
  "mg_env \<Rightarrow> string \<Rightarrow> bootstrap \<Rightarrow> string \<Rightarrow> bool \<Rightarrow> mg_state \<Rightarrow> string list result \<times> mg_state" where
  "debug_socket env socketDir bp grp debug st =
     (if \<not> debug then (Inr [], st)
      else case newShimSocket env socketDir (bp_ContainerdGrpcAddress bp) grp True st of
             (SockOK addr, st1) \<Rightarrow> (Inr [addr], st1)
           | (SockExists addr, st1) \<Rightarrow> (Inl (Errdef ErrAlreadyExists), st1)
           | (SockErr e, st1) \<Rightarrow> (Inl e, st1))"

definition manager_Start :: "mg_env \<Rightarrow> bootstrap \<Rightarrow> mg_state \<Rightarrow> boot_result result \<times> mg_state" where
  "manager_Start env bp st =
     (let debug = (bp_LogLevel bp \<le> -4)
      in case newCommand env (bp_InstanceID bp) (bp_ContainerdGrpcAddress bp) debug of
        Inl e \<Rightarrow> (Inl e, st)
      | Inr cmd \<Rightarrow>
     (case me_spec env of
        Inl e \<Rightarrow> (Inl e, st)
      | Inr ann \<Rightarrow>
          let grp = grouping_of groupLabels ann (bp_InstanceID bp);
              socketDir = (if bp_SocketDir bp = [] then ''/run/containerd/s'' else bp_SocketDir bp)
          in (case newShimSocket env socketDir (bp_ContainerdGrpcAddress bp) grp False st of
                (SockErr e, st1) \<Rightarrow> (Inl e, st1)
              | (SockExists addr, st1) \<Rightarrow> (Inr (boot_ok addr), st1)
              | (SockOK addr, st1) \<Rightarrow>
                  (case debug_socket env socketDir bp grp debug st1 of
                     (Inl e, st2) \<Rightarrow> (Inl e, close_sockets env [addr] st2)
                   | (Inr extra, st2) \<Rightarrow>
                       (case with_temp env bp debug (cmd\<lparr>mc_extra := addr # extra\<rparr>) (addr # extra) st2 of
                          (Some e, st3) \<Rightarrow> (Inl e, close_sockets env (addr # extra) st3)
                        | (None, st3) \<Rightarrow> (Inr (boot_ok addr), st3))))))"

section \<open>Stopping\<close>

text \<open>\<open>strconv.Atoi\<close> on 64 bits.\<close>

definition atoi :: "string \<Rightarrow> int result" where
  "atoi s =
     (if s \<noteq> [] \<and> hd s = CHR ''-'' then
        (case parse_uint (tl s) 64 of
           Inl e \<Rightarrow> Inl e
         | Inr n \<Rightarrow> if n \<le> 2 ^ 63 then Inr (- int n) else Inl (ErrNew ''value out of range''))
      else map_sum id int (parse_uint (if s \<noteq> [] \<and> hd s = CHR ''+'' then tl s else s) 63))"

record stop_env =
  se_open :: "go_error option"
  se_read :: "go_error option"
  se_try :: "go_error option"
  se_kill :: "go_error option"
  se_wait :: "go_error option"

definition sys_kill :: "int \<Rightarrow> mg_state \<Rightarrow> mg_state" where
  "sys_kill pid st = (if pid > 0 then process_Kill (nat pid) st else st)"

text \<open>\<open>None\<close> stands for a wait that never ends: the lock is still held after the kill.\<close>

definition waitForShimPidLock :: "stop_env \<Rightarrow> mg_state \<Rightarrow> int result option \<times> mg_state" where
  "waitForShimPidLock env st =
     (case (se_open env, ms_pidfile st) of
        (Some e, _) \<Rightarrow> (Some (Inl e), st)
      | (None, None) \<Rightarrow> (Some (Inl enoent), st)
      | (None, Some content) \<Rightarrow>
     (case se_read env of
        Some e \<Rightarrow> (Some (Inl e), st)
      | None \<Rightarrow>
     (case atoi (trim_space content) of
        Inl e \<Rightarrow> (Some (Inl e), st)
      | Inr pid \<Rightarrow>
     (case se_try env of
        Some e \<Rightarrow> (Some (Inl (ErrWrap ''flock shim.pid'' e)), st)
      | None \<Rightarrow>
          if ms_holders st = [] then (Some (Inr pid), st)
          else case se_kill env of
            Some e \<Rightarrow> (Some (Inl (ErrWrap ''kill shim'' e)), st)
          | None \<Rightarrow>
              let st1 = sys_kill pid st
              in (case se_wait env of
                    Some e \<Rightarrow> (Some (Inl (ErrWrap ''flock shim.pid (wait)'' e)), st1)
                  | None \<Rightarrow> if ms_holders st1 = [] then (Some (Inr pid), st1) else (None, st1))))))"

record stop_status =
  ss_Pid :: int
  ss_ExitStatus :: nat

definition manager_Stop :: "stop_env \<Rightarrow> mg_state \<Rightarrow> stop_status result option \<times> mg_state" where
  "manager_Stop env st =
     (case waitForShimPidLock env st of
        (None, st1) \<Rightarrow> (None, st1)
      | (Some (Inl e), st1) \<Rightarrow> (Some (Inl e), st1)
      | (Some (Inr pid), st1) \<Rightarrow> (Some (Inr \<lparr>ss_Pid = pid, ss_ExitStatus = 128 + 9\<rparr>), st1))"

section \<open>What a start leaves behind\<close>

text \<open>The state apart from the sockets.\<close>

definition same_rest :: "mg_state \<Rightarrow> mg_state \<Rightarrow> bool" where
  "same_rest st st' \<longleftrightarrow> ms_temp st' = ms_temp st \<and> ms_pidfile st' = ms_pidfile st \<and> ms_live st' = ms_live st \<and> ms_holders st' = ms_holders st"

lemma same_rest_refl [simp]: "same_rest st st"
  by (simp add: same_rest_def)

lemma same_rest_trans: "same_rest st st' \<Longrightarrow> same_rest st' st'' \<Longrightarrow> same_rest st st''"
  by (simp add: same_rest_def)

lemma RemoveSocket_state:
  "RemoveSocket env addr st = (r, st') \<Longrightarrow> same_rest st st' \<and> set (ms_sockets st') \<subseteq> set (ms_sockets st)
     \<and> (me_unlink env addr = None \<longrightarrow> addr \<notin> set (ms_sockets st'))"
  by (auto simp: RemoveSocket_def same_rest_def split: option.splits)

lemma NewSocket_state:
  "NewSocket env addr st = (r, st') \<Longrightarrow> same_rest st st' \<and> (r = None \<longrightarrow> set (ms_sockets st') = insert addr (set (ms_sockets st)))
     \<and> (r \<noteq> None \<longrightarrow> st' = st)"
  by (auto simp: NewSocket_def same_rest_def split: option.splits if_splits)

lemma close_sockets_state:
  "same_rest st (close_sockets env socks st) \<and> set (ms_sockets (close_sockets env socks st)) \<subseteq> set (ms_sockets st)
     \<and> ((\<forall>a. me_unlink env a = None) \<longrightarrow> set socks \<inter> set (ms_sockets (close_sockets env socks st)) = {})"
proof (induction socks arbitrary: st)
  case (Cons a socks)
  obtain r st1 where st1: "RemoveSocket env a st = (r, st1)" by force
  have c: "close_sockets env (a # socks) st = close_sockets env socks st1"
    by (simp add: close_sockets_def shimSocket_Close_def st1)
  from Cons [of st1] RemoveSocket_state [OF st1] show ?case
    unfolding c by (auto intro: same_rest_trans)
qed (simp add: close_sockets_def)

text \<open>A socket that is not made leaves at most fewer names, one that is made adds its own.\<close>

definition socket_effect :: "new_socket \<Rightarrow> mg_state \<Rightarrow> mg_state \<Rightarrow> bool" where
  "socket_effect r st st' \<longleftrightarrow> same_rest st st' \<and>
     (case r of
        SockOK a \<Rightarrow> a \<in> set (ms_sockets st') \<and> set (ms_sockets st') \<subseteq> insert a (set (ms_sockets st))
      | SockExists a \<Rightarrow> st' = st \<and> a \<in> set (ms_sockets st)
      | SockErr e \<Rightarrow> set (ms_sockets st') \<subseteq> set (ms_sockets st))"

lemma socket_file_effect:
  assumes "socket_file env a st1 = (r, st')" and "same_rest st st1" and "set (ms_sockets st1) \<subseteq> insert a (set (ms_sockets st))"
    and "a \<in> set (ms_sockets st1)" and "me_unlink env a = None"
  shows "socket_effect r st st'"
proof (cases "me_file env a")
  case None
  with assms show ?thesis by (auto simp: socket_file_def socket_effect_def)
next
  case (Some e)
  obtain r1 st2 where st2: "RemoveSocket env a st1 = (r1, st2)" by force
  with Some assms(1) have "r = SockErr e" "st' = st2" by (simp_all add: socket_file_def shimSocket_Close_def)
  moreover have "same_rest st st2" using RemoveSocket_state [OF st2] assms(2) same_rest_trans by blast
  moreover have "set (ms_sockets st2) \<subseteq> set (ms_sockets st)" using RemoveSocket_state [OF st2] assms(3,5) by blast
  ultimately show ?thesis by (simp add: socket_effect_def)
qed

lemma newShimSocket_effect:
  assumes new: "newShimSocket env root path grp debug st = (r, st')" and rm: "\<forall>a. me_unlink env a = None"
    and bind: "\<forall>a. me_bind env a \<noteq> Some eaddrinuse"
  shows "socket_effect r st st'"
proof (cases "\<exists>a. me_address env root path grp debug = Inr a \<and> me_mkdir env (path_dir (trim_prefix a ''unix://'')) = None")
  case False
  with new have "\<exists>e. r = SockErr e" "st' = st"
    by (auto simp: newShimSocket_def split: sum.splits option.splits)
  then show ?thesis by (auto simp: socket_effect_def)
next
  case True
  then obtain a where a: "me_address env root path grp debug = Inr a" "me_mkdir env (path_dir (trim_prefix a ''unix://'')) = None" by blast
  obtain r1 st1 where n1: "NewSocket env a st = (r1, st1)" by force
  note s1 = NewSocket_state [OF n1]
  show ?thesis
  proof (cases r1)
    case None
    with new a n1 have "socket_file env a st1 = (r, st')" by (simp add: newShimSocket_def)
    with s1 None rm show ?thesis by (intro socket_file_effect) auto
  next
    case (Some e)
    obtain st2 where r2: "RemoveSocket env a st1 = (None, st2)" using rm by (auto simp: RemoveSocket_def)
    obtain r3 st3 where n3: "NewSocket env a st2 = (r3, st3)" by force
    note s2 = RemoveSocket_state [OF r2] and s3 = NewSocket_state [OF n3]
    have st1: "st1 = st" and used: "e = eaddrinuse \<Longrightarrow> a \<in> set (ms_sockets st)"
      using s1 Some n1 bind by (auto simp: NewSocket_def split: option.splits if_splits)
    consider e' where "r = SockErr e'" "st' = st" | "r = SockExists a" "st' = st" "e = eaddrinuse"
      | e' where "r3 = Some e'" "r = SockErr (ErrWrap ''try create new shim socket 2x'' e')" "st' = st3"
      | "r3 = None" "socket_file env a st3 = (r, st')"
      using new by (cases r3) (simp_all add: newShimSocket_def a n1 Some r2 n3 split: if_splits, auto simp: st1)
    then show ?thesis
    proof cases
      case 3
      with s2 s3 st1 show ?thesis by (auto simp: socket_effect_def)
    next
      case 4
      have "same_rest st st3" using s2 s3 st1 same_rest_trans by blast
      with 4 s2 s3 st1 rm show ?thesis by (intro socket_file_effect) auto
    qed (auto simp: socket_effect_def used)
  qed
qed

text \<open>The numbers of processes that could be started are not in use, and no start is under way.\<close>

definition quiet :: "mg_env \<Rightarrow> mg_state \<Rightarrow> bool" where
  "quiet env st \<longleftrightarrow> \<not> ms_temp st \<and> 0 \<notin> set (ms_holders st)
     \<and> (\<forall>b p. me_start env b = Inr p \<longrightarrow> p \<noteq> 0 \<and> p \<notin> set (ms_live st) \<and> p \<notin> set (ms_holders st))"

definition started :: "nat \<Rightarrow> mg_state \<Rightarrow> mg_state" where
  "started pid st = st\<lparr>ms_live := pid # ms_live st, ms_holders := pid # ms_holders st, ms_pidfile := Some (show_nat pid)\<rparr>"

text \<open>The state in which a process has been started and its number is not yet published.\<close>

definition running :: "nat \<Rightarrow> mg_state \<Rightarrow> mg_state" where
  "running pid st = st\<lparr>ms_temp := True, ms_live := pid # ms_live st, ms_holders := pid # 0 # ms_holders st\<rparr>"

lemma publish_pid_effect:
  assumes "publish_pid env pid (running pid st) = (r, st')" and "\<not> ms_temp st" and "0 \<notin> set (ms_holders st)"
    and "pid \<noteq> 0" and "pid \<notin> set (ms_live st)" and "pid \<notin> set (ms_holders st)"
  shows "if r = None then st' = started pid st else drop_temp st' = st"
  using assms
  by (auto simp: publish_pid_def running_def started_def drop_temp_def close_temp_def process_Kill_def split: option.splits)

lemma cmd_Start_effect:
  "cmd_Start env (cmd\<lparr>mc_extra := xs @ [''pid''], mc_userns := u\<rparr>) (st\<lparr>ms_temp := True, ms_holders := 0 # ms_holders st\<rparr>) =
     (case me_start env u of
        Inl e \<Rightarrow> (Inl e, st\<lparr>ms_temp := True, ms_holders := 0 # ms_holders st\<rparr>)
      | Inr pid \<Rightarrow> (Inr pid, running pid st))"
  by (auto simp: cmd_Start_def running_def split: sum.splits)

lemma cloneMntNs_cmd: "\<not> mc_userns c \<Longrightarrow> \<exists>u. cloneMntNs env c = (u, c\<lparr>mc_userns := u\<rparr>)"
  by (cases c; cases "apparmorRestrictsUserns env") (auto simp: cloneMntNs_def)

lemma launch_effect:
  assumes "launch env bp debug cmd socks (st\<lparr>ms_temp := True\<rparr>) = (r, st')" and "quiet env st" and "\<not> mc_userns cmd"
  shows "if r = None then \<exists>pid u. me_start env u = Inr pid \<and> st' = started pid st else drop_temp st' = st"
proof -
  let ?st = "st\<lparr>ms_temp := True, ms_holders := 0 # ms_holders st\<rparr>"
  have q: "\<not> ms_temp st" "0 \<notin> set (ms_holders st)"
    and p: "\<And>u p. me_start env u = Inr p \<Longrightarrow> p \<noteq> 0 \<and> p \<notin> set (ms_live st) \<and> p \<notin> set (ms_holders st)"
    using assms(2) by (auto simp: quiet_def)
  have drop: "drop_temp ?st = st" "drop_temp (st\<lparr>ms_temp := True\<rparr>) = st"
    using q by (simp_all add: drop_temp_def close_temp_def)
  have pub: "if r' = None then \<exists>pid u. me_start env u = Inr pid \<and> s = started pid st else drop_temp s = st"
    if "me_start env u = Inr pid" "publish_pid env pid (running pid st) = (r', s)" for u pid r' s
    using publish_pid_effect [OF that(2) q] p [OF that(1)] that(1) by (auto split: if_splits)
  obtain u where u: "cloneMntNs env (cmd\<lparr>mc_extra := mc_extra cmd @ [''pid'']\<rparr>) =
      (u, cmd\<lparr>mc_extra := mc_extra cmd @ [''pid''], mc_userns := u\<rparr>)"
    using cloneMntNs_cmd [of "cmd\<lparr>mc_extra := mc_extra cmd @ [''pid'']\<rparr>" env] assms(3) by auto
  have cmd2: "\<not> mc_userns c" if "newCommand env i a debug = Inr c" for c i a
    using that by (auto simp: newCommand_def split: sum.splits)
  have again: "cmd_Start env (c\<lparr>mc_extra := socks @ [''pid'']\<rparr>) ?st =
      (case me_start env False of Inl e \<Rightarrow> (Inl e, ?st) | Inr pid \<Rightarrow> (Inr pid, running pid st))"
    if "\<not> mc_userns c" for c
    using cmd_Start_effect [where env = env and cmd = c and xs = socks and u = False and st = st] that by (cases c) simp
  show ?thesis
    using assms(1) drop
    by (auto simp: launch_def u cmd_Start_effect again cmd2 Let_def split: option.splits sum.splits if_splits dest: pub)
qed

lemma with_temp_effect:
  assumes "with_temp env bp debug cmd socks st = (r, st')" and "quiet env st" and "\<not> mc_userns cmd"
  shows "if r = None then \<exists>pid u. me_start env u = Inr pid \<and> st' = started pid st else st' = st"
  using assms(1) launch_effect [OF _ assms(2,3), of bp debug socks]
  by (fastforce simp: with_temp_def split: option.splits prod.splits if_splits)

lemma newCommand_plain: "newCommand env i a debug = Inr c \<Longrightarrow> \<not> mc_userns c"
  by (auto simp: newCommand_def split: sum.splits)

lemma debug_socket_effect:
  assumes "debug_socket env dir bp grp debug st = (r, st')" and "\<forall>a. me_unlink env a = None" and "\<forall>a. me_bind env a \<noteq> Some eaddrinuse"
  shows "same_rest st st' \<and>
    (case r of Inl e \<Rightarrow> set (ms_sockets st') \<subseteq> set (ms_sockets st) | Inr xs \<Rightarrow> set (ms_sockets st') \<subseteq> set xs \<union> set (ms_sockets st))"
  using assms newShimSocket_effect [OF _ assms(2,3)]
  by (fastforce simp: debug_socket_def socket_effect_def split: if_splits prod.splits new_socket.splits)

lemma quiet_same: "same_rest st st' \<Longrightarrow> quiet env st \<Longrightarrow> quiet env st'"
  by (simp add: quiet_def same_rest_def)

text \<open>The two ways a start ends: as if it had not been made, or with a shim that serves the group.\<close>

lemma manager_Start_cases:
  assumes "manager_Start env bp st = (r, st')" and "quiet env st"
    and "\<forall>a. me_unlink env a = None" and "\<forall>a. me_bind env a \<noteq> Some eaddrinuse"
  shows "case r of
      Inl e \<Rightarrow> same_rest st st' \<and> set (ms_sockets st') \<subseteq> set (ms_sockets st)
    | Inr b \<Rightarrow> st' = st \<and> br_Address b \<in> set (ms_sockets st) \<and> me_canConnect env (br_Address b)
        \<or> (\<exists>pid u st1. me_start env u = Inr pid \<and> same_rest st st1 \<and> st' = started pid st1)"
proof -
  let ?debug = "bp_LogLevel bp \<le> -4"
  show ?thesis
  proof (cases "\<exists>cmd ann. newCommand env (bp_InstanceID bp) (bp_ContainerdGrpcAddress bp) ?debug = Inr cmd \<and> me_spec env = Inr ann")
    case False
    with assms(1) show ?thesis by (auto simp: manager_Start_def Let_def split: sum.splits)
  next
    case True
    then obtain cmd ann where c: "newCommand env (bp_InstanceID bp) (bp_ContainerdGrpcAddress bp) ?debug = Inr cmd" "me_spec env = Inr ann"
      by blast
    define grp where "grp = grouping_of groupLabels ann (bp_InstanceID bp)"
    define dir where "dir = (if bp_SocketDir bp = [] then ''/run/containerd/s'' else bp_SocketDir bp)"
    obtain s1 st1 where n: "newShimSocket env dir (bp_ContainerdGrpcAddress bp) grp False st = (s1, st1)" by force
    note e1 = newShimSocket_effect [OF n assms(3,4)]
    show ?thesis
    proof (cases s1)
      case (SockErr e)
      with assms(1) c n e1 show ?thesis
        by (auto simp: manager_Start_def Let_def grp_def dir_def socket_effect_def)
    next
      case (SockExists a)
      then have "me_canConnect env a"
        using n by (auto simp: newShimSocket_def socket_file_def split: sum.splits option.splits prod.splits if_splits)
      with SockExists assms(1) c n e1 show ?thesis
        by (auto simp: manager_Start_def Let_def grp_def dir_def socket_effect_def boot_ok_def)
    next
      case (SockOK a)
      obtain r2 st2 where d: "debug_socket env dir bp grp ?debug st1 = (r2, st2)" by force
      note e2 = debug_socket_effect [OF d assms(3,4)]
      from e1 SockOK have s1: "same_rest st st1" "set (ms_sockets st1) \<subseteq> insert a (set (ms_sockets st))"
        by (auto simp: socket_effect_def)
      with e2 have s2: "same_rest st st2" using same_rest_trans by blast
      have start: "(r, st') = (case r2 of Inl e \<Rightarrow> (Inl e, close_sockets env [a] st2)
          | Inr xs \<Rightarrow> (case with_temp env bp ?debug (cmd\<lparr>mc_extra := a # xs\<rparr>) (a # xs) st2 of
                (Some e, st3) \<Rightarrow> (Inl e, close_sockets env (a # xs) st3) | (None, st3) \<Rightarrow> (Inr (boot_ok a), st3)))"
        using assms(1) c n d SockOK by (simp add: manager_Start_def Let_def grp_def dir_def)
      show ?thesis
      proof (cases r2)
        case (Inl e)
        with start e2 s1 s2 close_sockets_state [of st2 env "[a]"] assms(3) show ?thesis
          by (auto intro: same_rest_trans)
      next
        case (Inr xs)
        obtain r3 st3 where w: "with_temp env bp ?debug (cmd\<lparr>mc_extra := a # xs\<rparr>) (a # xs) st2 = (r3, st3)" by force
        have "if r3 = None then \<exists>pid u. me_start env u = Inr pid \<and> st3 = started pid st2 else st3 = st2"
          using with_temp_effect [OF w quiet_same [OF s2 assms(2)]] newCommand_plain [OF c(1)] by simp
        with start w Inr e2 s1 s2 close_sockets_state [of st2 env "a # xs"] assms(3) show ?thesis
          by (cases r3) (auto intro: same_rest_trans)
      qed
    qed
  qed
qed

text \<open>
  C24. A start of the shim that fails leaves nothing behind: no socket it made, no pid file, no process and
  no lock, whichever step failed.
\<close>

theorem failed_start_leaves_nothing:
  assumes "manager_Start env bp st = (Inl e, st')" and "quiet env st"
    and "\<forall>a. me_unlink env a = None" and "\<forall>a. me_bind env a \<noteq> Some eaddrinuse"
  shows "set (ms_sockets st') \<subseteq> set (ms_sockets st) \<and> ms_live st' = ms_live st \<and> ms_holders st' = ms_holders st
    \<and> ms_pidfile st' = ms_pidfile st \<and> \<not> ms_temp st'"
  using manager_Start_cases [OF assms] assms(2) by (simp add: same_rest_def quiet_def)

section \<open>Stopping what was started\<close>

lemma show_nat_digits: "c \<in> set (show_nat n) \<Longrightarrow> digit_val c \<noteq> None"
proof (induction n arbitrary: c rule: less_induct)
  case (less n)
  show ?case
  proof (cases "n < 10")
    case True
    with less.prems show ?thesis by (auto simp: show_nat.simps [of n])
  next
    case False
    with less.prems less.IH [of "n div 10" c] show ?thesis by (auto simp: show_nat.simps [of n])
  qed
qed

lemma digit_plain: "digit_val c \<noteq> None \<Longrightarrow> c \<noteq> CHR ''-'' \<and> c \<noteq> CHR ''+'' \<and> \<not> is_space c"
  by (auto simp: digit_val_def is_space_def)

lemma dropWhile_none: "\<forall>x\<in>set xs. \<not> P x \<Longrightarrow> dropWhile P xs = xs"
  by (cases xs) auto

lemma atoi_show_nat:
  assumes "n < 2 ^ 63"
  shows "atoi (trim_space (show_nat n)) = Inr (int n)"
proof -
  have p: "\<forall>c\<in>set (show_nat n). c \<noteq> CHR ''-'' \<and> c \<noteq> CHR ''+'' \<and> \<not> is_space c"
    using show_nat_digits digit_plain by metis
  then have "trim_space (show_nat n) = show_nat n" by (simp add: trim_space_def dropWhile_none)
  moreover have "hd (show_nat n) \<noteq> CHR ''-''" "hd (show_nat n) \<noteq> CHR ''+''" using p by simp_all
  ultimately show ?thesis using parse_show_nat [OF assms] by (simp add: atoi_def)
qed

definition stop_works :: "stop_env \<Rightarrow> bool" where
  "stop_works senv \<longleftrightarrow> se_open senv = None \<and> se_read senv = None \<and> se_try senv = None \<and> se_kill senv = None \<and> se_wait senv = None"

text \<open>A container that joins the shim of its group gets no pid file, so its stop fails.\<close>

lemma grouped_stop_fails:
  assumes "manager_Start env bp st = (Inr b, st)" and "ms_pidfile st = None" and "se_open senv = None"
  shows "manager_Stop senv st = (Some (Inl enoent), st)"
  using assms by (simp add: manager_Stop_def waitForShimPidLock_def)

text \<open>
  C25. A successful start either joined a shim that already serves the group and answers on its socket,
  and then changed nothing and wrote no pid file, so that a stop fails for want of one; or it started a
  process, and then a stop, where its system calls do not fail, returns, reports that process, and returns
  only when it is gone and the lock of the pid file is free, whether it had died before or had to be
  killed.
\<close>

theorem stop_ends_the_shim:
  assumes "manager_Start env bp st = (Inr b, st')" and "quiet env st" and "ms_holders st = []" and "ms_pidfile st = None"
    and "\<forall>a. me_unlink env a = None" and "\<forall>a. me_bind env a \<noteq> Some eaddrinuse"
    and "\<forall>u p. me_start env u = Inr p \<longrightarrow> p < 2 ^ 63" and "stop_works senv"
  shows "br_Address b \<in> set (ms_sockets st) \<and> me_canConnect env (br_Address b) \<and> st' = st
      \<and> manager_Stop senv st' = (Some (Inl enoent), st')
    \<or> (\<exists>pid u. me_start env u = Inr pid \<and> ms_live st' = pid # ms_live st \<and>
    (let gone = process_Kill pid st'
     in manager_Stop senv st' = (Some (Inr \<lparr>ss_Pid = int pid, ss_ExitStatus = 137\<rparr>), gone)
      \<and> manager_Stop senv gone = (Some (Inr \<lparr>ss_Pid = int pid, ss_ExitStatus = 137\<rparr>), gone)
      \<and> ms_live gone = ms_live st \<and> ms_holders gone = []))"
proof (cases "br_Address b \<in> set (ms_sockets st) \<and> me_canConnect env (br_Address b) \<and> st' = st")
  case True
  with grouped_stop_fails [OF _ assms(4), of env bp b senv] assms(1,8) show ?thesis by (simp add: stop_works_def)
next
  case False
  with manager_Start_cases [OF assms(1,2,5,6)] obtain pid u st1 where
    p: "me_start env u = Inr pid" "same_rest st st1" "st' = started pid st1"
    by auto
  have q: "pid \<noteq> 0" "pid \<notin> set (ms_live st)" "pid < 2 ^ 63" using assms(2,7) p(1) by (auto simp: quiet_def)
  have st': "ms_live st' = pid # ms_live st" "ms_holders st' = [pid]" "ms_pidfile st' = Some (show_nat pid)"
    using p(2,3) assms(3) by (simp_all add: started_def same_rest_def)
  have kill: "sys_kill (int pid) st' = process_Kill pid st'" using q(1) by (simp add: sys_kill_def)
  have "manager_Stop senv st' = (Some (Inr \<lparr>ss_Pid = int pid, ss_ExitStatus = 137\<rparr>), process_Kill pid st')"
    using assms(8) atoi_show_nat [OF q(3)] st' kill
    by (simp add: manager_Stop_def waitForShimPidLock_def stop_works_def process_Kill_def)
  moreover have "manager_Stop senv (process_Kill pid st') = (Some (Inr \<lparr>ss_Pid = int pid, ss_ExitStatus = 137\<rparr>), process_Kill pid st')"
    using assms(8) atoi_show_nat [OF q(3)] st'
    by (simp add: manager_Stop_def waitForShimPidLock_def stop_works_def process_Kill_def)
  ultimately show ?thesis
    using p(1) st' q(2) by (intro disjI2 exI [of _ pid] exI [of _ u]) (simp add: Let_def process_Kill_def)
qed

section \<open>Examples\<close>

definition demo_mg :: mg_env where
  "demo_mg = \<lparr>me_namespace = Inr ''default'', me_self = Inr ''/bin/shim'', me_cwd = Inr ''/b'', me_environ = [], me_spec = Inr [],
     me_address = (\<lambda>root path i debug. Inr (''unix:///s/'' @ i @ (if debug then ''-debug'' else []))), me_mkdir = (\<lambda>_. None),
     me_bind = (\<lambda>_. None), me_canConnect = (\<lambda>_. False), me_unlink = (\<lambda>_. None), me_file = (\<lambda>_. None), me_abs = None,
     me_createTemp = None, me_flock = None, me_restrict = Inl enoent, me_profile = Inl enoent, me_arg0 = ''shim'',
     me_start = (\<lambda>userns. if userns then Inl (Sentinel ''operation not permitted'') else Inr 42), me_again = None, me_oom = None, me_write = None, me_sync = None,
     me_close = None, me_rename = None\<rparr>"

definition demo_boot :: bootstrap where
  "demo_boot = \<lparr>bp_InstanceID = ''c'', bp_LogLevel = -4, bp_ContainerdGrpcAddress = ''/c.sock'', bp_SocketDir = []\<rparr>"

definition demo_mg_state :: mg_state where
  "demo_mg_state = \<lparr>ms_sockets = [''unix:///s/c''], ms_temp = False, ms_pidfile = None, ms_live = [], ms_holders = []\<rparr>"

lemma demo_quiet: "quiet demo_mg demo_mg_state" "quiet (demo_mg\<lparr>me_rename := Some enoent\<rparr>) demo_mg_state"
  by (auto simp: quiet_def demo_mg_def demo_mg_state_def split: if_splits)

lemma demo_mg_simps: "me_unlink demo_mg a = None" "me_bind demo_mg a = None"
  by (simp_all add: demo_mg_def)

theorem failed_start_leaves_nothing_witness:
  "\<exists>e st'. manager_Start (demo_mg\<lparr>me_rename := Some enoent\<rparr>) demo_boot demo_mg_state = (Inl e, st')
     \<and> ms_live st' = [] \<and> ms_holders st' = [] \<and> ms_pidfile st' = None \<and> \<not> ms_temp st'"
proof -
  let ?env = "demo_mg\<lparr>me_rename := Some enoent\<rparr>"
  have "isl (fst (manager_Start ?env demo_boot demo_mg_state))" by code_simp
  then obtain e st' where s: "manager_Start ?env demo_boot demo_mg_state = (Inl e, st')"
    by (cases "manager_Start ?env demo_boot demo_mg_state") (auto simp: isl_def)
  from failed_start_leaves_nothing [OF s demo_quiet(2)] s show ?thesis
    by (auto simp: demo_mg_simps demo_mg_state_def)
qed

theorem stop_ends_the_shim_witness:
  "\<exists>b st' pid. manager_Start demo_mg demo_boot demo_mg_state = (Inr b, st') \<and> pid \<in> set (ms_live st') \<and>
     (\<exists>gone. manager_Stop \<lparr>se_open = None, se_read = None, se_try = None, se_kill = None, se_wait = None\<rparr> st' =
        (Some (Inr \<lparr>ss_Pid = int pid, ss_ExitStatus = 137\<rparr>), gone) \<and> ms_live gone = [] \<and> ms_holders gone = [])"
proof -
  let ?senv = "\<lparr>se_open = None, se_read = None, se_try = None, se_kill = None, se_wait = None\<rparr>"
  have "\<not> isl (fst (manager_Start demo_mg demo_boot demo_mg_state))" "ms_live (snd (manager_Start demo_mg demo_boot demo_mg_state)) \<noteq> []"
    by code_simp+
  then obtain b st' where s: "manager_Start demo_mg demo_boot demo_mg_state = (Inr b, st')" "ms_live st' \<noteq> []"
    by (cases "manager_Start demo_mg demo_boot demo_mg_state"; cases "fst (manager_Start demo_mg demo_boot demo_mg_state)") auto
  have ne: "st' \<noteq> demo_mg_state" using s(2) by (auto simp: demo_mg_state_def)
  have pids: "\<forall>u p. me_start demo_mg u = Inr p \<longrightarrow> p < 2 ^ 63" by (simp add: demo_mg_def)
  have h: "ms_holders demo_mg_state = []" "stop_works ?senv" "ms_live demo_mg_state = []"
    by (simp_all add: demo_mg_state_def stop_works_def)
  have "ms_pidfile demo_mg_state = None" by (simp add: demo_mg_state_def)
  from stop_ends_the_shim [OF s(1) demo_quiet(1) h(1) this _ _ pids h(2)] s(1) h(3) ne show ?thesis
    by (auto simp: demo_mg_simps Let_def)
qed

end
