(* ===== verification/Shim_Windows.thy ===== *)
theory Shim_Windows
  imports Shim_IO Shim_Manager
begin

text \<open>
  The Windows variants of the host side: the copies of a container's I/O
  (\<open>internal/shim/task/io_copystreams_windows.go\<close>, \<open>io_windows.go\<close>) with named pipes for FIFOs, and the
  manager of the shim process (\<open>pkg/shim/manager/manager_windows.go\<close>), which has neither inherited
  sockets nor a lock on the pid file.
\<close>

section \<open>Container I/O\<close>

definition defaultScheme_windows :: string where
  "defaultScheme_windows = ''pipe''"

definition pipe_prefix :: string where
  "pipe_prefix = [CHR 0x5C, CHR 0x5C, CHR ''.'', CHR 0x5C] @ ''pipe'' @ [CHR 0x5C]"

definition isNamedPipe :: "string \<Rightarrow> bool" where
  "isNamedPipe path \<longleftrightarrow> length path > 9 \<and> take 9 path = pipe_prefix"

record win_io =
  wi_dial :: "string \<Rightarrow> go_error option"
  wi_append :: "string \<Rightarrow> go_error option"
  wi_open :: "string \<Rightarrow> go_error option"

text \<open>One turn of the loop over the outputs; a connected pipe takes the place of a FIFO.\<close>

definition copy_one_windows :: "win_io \<Rightarrow> string \<Rightarrow> string \<Rightarrow> nat \<Rightarrow> string \<Rightarrow> copy_plan \<Rightarrow> go_error option \<times> copy_plan" where
  "copy_one_windows env stdout stderr i name p =
     (if name = [] then (None, count_down p)
      else if isNamedPipe name then
        (case wi_dial env name of
           Some e \<Rightarrow> (Some (ErrWrap (''containerd-shim: connecting to named pipe '' @ quote name @ '' failed'') e), p)
         | None \<Rightarrow> (None, p\<lparr>cp_copies := cp_copies p @ [(i, ToFifo name)]\<rparr>))
      else case cp_shared p of
        Some c \<Rightarrow> (None, p\<lparr>cp_shared := Some (bumpCount 1 c), cp_copies := cp_copies p @ [(i, ToShared name)]\<rparr>)
      | None \<Rightarrow>
          (case wi_append env name of
             Some e \<Rightarrow> (Some (ErrWrap (''containerd-shim: opening file '' @ quote name @ '' failed'') e), p)
           | None \<Rightarrow>
               (None, p\<lparr>cp_shared := (if stdout = stderr then Some (newCountingWriteCloser 1) else None),
                        cp_copies := cp_copies p @ [(i, ToFile name)]\<rparr>)))"

definition copyStreams_windows :: "win_io \<Rightarrow> string \<Rightarrow> string \<Rightarrow> string \<Rightarrow> go_error option \<times> copy_plan" where
  "copyStreams_windows env stdin stdout stderr =
     (case copy_one_windows env stdout stderr 1 stdout new_plan of
        (Some e, p) \<Rightarrow> (Some e, p)
      | (None, p1) \<Rightarrow>
          (case copy_one_windows env stdout stderr 2 stderr p1 of
             (Some e, p) \<Rightarrow> (Some e, p)
           | (None, p2) \<Rightarrow>
               if stdin = [] then (None, p2)
               else if isNamedPipe stdin then
                 (case wi_dial env stdin of
                    Some e \<Rightarrow> (Some (ErrWrap (''containerd-shim: connecting to named pipe '' @ quote stdin @ '' for stdin failed'') e), p2)
                  | None \<Rightarrow> (None, p2\<lparr>cp_stdin := True\<rparr>))
               else (case wi_open env stdin of
                       Some e \<Rightarrow> (Some (ErrNew (''containerd-shim: opening '' @ stdin @ '' failed: '' @ err_msg e)), p2)
                     | None \<Rightarrow> (None, p2\<lparr>cp_stdin := True\<rparr>))))"

definition forwardIO_windows ::
  "win_io \<Rightarrow> io_env \<Rightarrow> ss_env \<Rightarrow> string \<Rightarrow> stdio \<Rightarrow> string list \<Rightarrow> (stdio \<times> io_shutdown option) result \<times> string list" where
  "forwardIO_windows wenv env = forwardIO_on defaultScheme_windows (copyStreams_windows wenv) env"

interpretation windows_copies: output_copier "copy_one_windows env o1 e1" for env o1 e1
  by unfold_locales
     (auto simp: copy_one_windows_def count_down_def plan_mid_def Let_def split: if_splits option.splits)

lemma copyStreams_windows_plan:
  assumes "copyStreams_windows env i o1 e1 = (None, p)"
  shows "plan_inv p"
proof -
  obtain p1 p2 where "copy_one_windows env o1 e1 1 o1 new_plan = (None, p1)" "copy_one_windows env o1 e1 2 e1 p1 = (None, p2)"
    and p: "p = p2 \<or> p = p2\<lparr>cp_stdin := True\<rparr>"
    using assms by (auto simp: copyStreams_windows_def split: if_splits prod.splits option.splits)
  from windows_copies.both_started [OF this(1,2)] p show ?thesis by auto
qed

lemma forward_copy_plan:
  assumes "forward_copy copy ss pre sio pio opened = (Inr (io', Some sh), op)"
  shows "copy (Stdin sio) (Stdout sio) (Stderr sio) = (None, sh_plan sh)"
  using assms by (auto simp: forward_copy_def split: prod.splits sum.splits option.splits)

lemma forwardIO_on_plan:
  assumes "forwardIO_on dflt copy env ss pre sio opened = (Inr (io', Some sh), op)"
  shows "copy (Stdin sio) (Stdout sio) (Stderr sio) = (None, sh_plan sh)"
  using assms forward_copy_plan [of copy ss pre sio]
  by (auto simp: forwardIO_on_def Let_def split: if_splits sum.splits prod.splits option.splits)

text \<open>
  Also on Windows the I/O of a container ends and leaks no stream: when its output copies have ended, in
  any order, the channel the shutdown waits for has been closed exactly once, so the shutdown returns,
  and it closes exactly the streams that were opened.
\<close>

theorem windows_io_ends:
  assumes "forwardIO_windows wenv env ss pre sio opened = (Inr (io', Some sh), op)"
    and "\<forall>p. se_gen ss p \<notin> set opened" and "mset xs = mset (cp_copies (sh_plan sh))"
  shows "cp_closes (fold copy_end xs (sh_plan sh)) = 1
    \<and> io_shutdown_run b (sh\<lparr>sh_plan := fold copy_end xs (sh_plan sh)\<rparr>) op = (None, opened)"
proof -
  have "copyStreams_windows wenv (Stdin sio) (Stdout sio) (Stderr sio) = (None, sh_plan sh)"
    using assms(1) forwardIO_on_plan by (auto simp: forwardIO_windows_def)
  from copy_ends_plan [OF copyStreams_windows_plan [OF this], of xs "[]"] assms(3)
  have one: "cp_closes (fold copy_end xs (sh_plan sh)) = 1" by (simp add: plan_inv_def)
  have "close_conns_of (sh_conns sh) op = opened"
    using forwardIO_on_closed [OF assms(2), where dflt = defaultScheme_windows and copy = "copyStreams_windows wenv"
        and env = env and pre = pre and sio = sio and b = b] assms(1)
    by (simp add: forwardIO_windows_def io_shutdown_run_def)
  with one show ?thesis by (simp add: io_shutdown_run_def)
qed

section \<open>The manager\<close>

text \<open>What a start and a stop work on: the processes, the pid file and the rootfs directory of the bundle.\<close>

record wm_state =
  wm_live :: "nat list"
  wm_pidfile :: "string option"
  wm_rootfs :: bool

text \<open>
  The outcomes of the calls; \<open>ww_digest\<close> is the first half of the SHA-256 of a path, in hexadecimal, and
  \<open>ww_dials\<close> are the attempts to connect that fit before the deadline.
\<close>

record wm_env =
  ww_bundle :: "string option"
  ww_digest :: "string \<Rightarrow> string \<Rightarrow> string \<Rightarrow> string"
  ww_start :: "nat result"
  ww_writePid :: "go_error option"
  ww_dials :: "go_error option list"

definition shimPipeAddress :: "mg_env \<Rightarrow> wm_env \<Rightarrow> string \<Rightarrow> string \<Rightarrow> string result" where
  "shimPipeAddress env w containerdAddress grp =
     (case me_namespace env of
        Inl e \<Rightarrow> Inl e
      | Inr ns \<Rightarrow> Inr (pipe_prefix @ ''containerd-shim-'' @ ww_digest w containerdAddress ns grp))"

definition bundlePath :: "wm_env \<Rightarrow> string" where
  "bundlePath w = (case ww_bundle w of Some b \<Rightarrow> b | None \<Rightarrow> [])"

text \<open>The loop that waits for the pipe.\<close>

fun wait_pipe :: "string \<Rightarrow> go_error option list \<Rightarrow> go_error option" where
  "wait_pipe address [] = Some (ErrNew (''timed out waiting for shim pipe '' @ address))"
| "wait_pipe address (None # ds) = None"
| "wait_pipe address (Some e # ds) =
     (if e = enoent then wait_pipe address ds else Some (ErrWrap (''waiting for shim pipe '' @ address) e))"

definition kill_windows :: "nat \<Rightarrow> wm_state \<Rightarrow> wm_state" where
  "kill_windows pid st = st\<lparr>wm_live := removeAll pid (wm_live st)\<rparr>"

definition manager_Start_windows :: "mg_env \<Rightarrow> wm_env \<Rightarrow> bootstrap \<Rightarrow> wm_state \<Rightarrow> boot_result result \<times> wm_state" where
  "manager_Start_windows env w bp st =
     (let debug = (bp_LogLevel bp \<le> -4)
      in case newCommand env (bp_InstanceID bp) (bp_ContainerdGrpcAddress bp) debug of
        Inl e \<Rightarrow> (Inl e, st)
      | Inr cmd \<Rightarrow>
     (case me_spec env of
        Inl e \<Rightarrow> (Inl e, st)
      | Inr ann \<Rightarrow>
     (case shimPipeAddress env w (bp_ContainerdGrpcAddress bp) (grouping_of groupLabels ann (bp_InstanceID bp)) of
        Inl e \<Rightarrow> (Inl e, st)
      | Inr address \<Rightarrow>
     (case ww_start w of
        Inl e \<Rightarrow> (Inl e, st)
      | Inr pid \<Rightarrow>
          let st1 = st\<lparr>wm_live := pid # wm_live st\<rparr>
          in (case ww_writePid w of
                Some e \<Rightarrow> (Inl e, kill_windows pid st1)
              | None \<Rightarrow>
                  let st2 = st1\<lparr>wm_pidfile := Some (show_nat pid)\<rparr>
                  in (case wait_pipe address (ww_dials w) of
                        Some e \<Rightarrow> (Inl e, kill_windows pid st2)
                      | None \<Rightarrow> (Inr (boot_ok address), st2)))))))"

definition removeRootfs :: "wm_env \<Rightarrow> wm_state \<Rightarrow> wm_state" where
  "removeRootfs w st = (if bundlePath w \<noteq> [] then st\<lparr>wm_rootfs := False\<rparr> else st)"

record wstop_env =
  wx_read :: "go_error option"
  wx_open :: "go_error option"
  wx_term :: "go_error option"
  wx_wait :: "go_error option"

definition invalid_parameter :: go_error where
  "invalid_parameter = Sentinel ''ERROR_INVALID_PARAMETER''"

definition access_denied :: go_error where
  "access_denied = Sentinel ''ERROR_ACCESS_DENIED''"

text \<open>Opening a process that does not exist fails with an invalid parameter; the number is cut to 32 bits.\<close>

definition OpenProcess :: "wstop_env \<Rightarrow> int \<Rightarrow> wm_state \<Rightarrow> nat result" where
  "OpenProcess x pid st =
     (let n = unat (word_of_int pid :: 32 word)
      in case wx_open x of
           Some e \<Rightarrow> Inl e
         | None \<Rightarrow> if n \<in> set (wm_live st) then Inr n else Inl invalid_parameter)"

definition manager_Stop_windows :: "wm_env \<Rightarrow> wstop_env \<Rightarrow> wm_state \<Rightarrow> stop_status result \<times> wm_state" where
  "manager_Stop_windows w x st =
     (case (wx_read x, wm_pidfile st) of
        (None, Some content) \<Rightarrow>
          (case atoi (trim_space content) of
             Inl e \<Rightarrow> (Inl e, st)
           | Inr pid \<Rightarrow>
          (case OpenProcess x pid st of
             Inl e \<Rightarrow>
               if e = invalid_parameter then (Inr \<lparr>ss_Pid = pid, ss_ExitStatus = 128 + 9\<rparr>, st)
               else (Inl (ErrWrap ''open shim process'' e), st)
           | Inr h \<Rightarrow>
               if wx_term x \<noteq> None \<and> wx_term x \<noteq> Some access_denied then
                 (Inl (ErrWrap ''terminate shim process'' (the (wx_term x))), st)
               else let st1 = kill_windows h st
                    in (case wx_wait x of
                          Some e \<Rightarrow> (Inl (ErrWrap ''wait for shim process'' e), st1)
                        | None \<Rightarrow> (Inr \<lparr>ss_Pid = pid, ss_ExitStatus = 128 + 9\<rparr>, removeRootfs w st1))))
      | (r, _) \<Rightarrow>
          let e = (case r of Some e \<Rightarrow> e | None \<Rightarrow> enoent)
          in if e = enoent then (Inr \<lparr>ss_Pid = 0, ss_ExitStatus = 128 + 9\<rparr>, removeRootfs w st) else (Inl e, st))"

section \<open>Starting and stopping\<close>

lemma pid_word: "n < 2 ^ 32 \<Longrightarrow> unat (word_of_int (int n) :: 32 word) = n"
  by (simp add: unsigned_of_nat take_bit_nat_eq_self)

lemma manager_Start_windows_cases:
  assumes "manager_Start_windows env w bp st = (r, st')" and "\<forall>p. ww_start w = Inr p \<longrightarrow> p \<notin> set (wm_live st)"
  shows "case r of
      Inl e \<Rightarrow> wm_live st' = wm_live st \<and> wm_rootfs st' = wm_rootfs st
    | Inr b \<Rightarrow> \<exists>pid. ww_start w = Inr pid \<and> st' = st\<lparr>wm_live := pid # wm_live st, wm_pidfile := Some (show_nat pid)\<rparr>
        \<and> None \<in> set (ww_dials w)"
proof -
  have dials: "wait_pipe a ds = None \<Longrightarrow> None \<in> set ds" for a ds
    by (induction a ds rule: wait_pipe.induct) (auto split: if_splits)
  show ?thesis
    using assms dials
    by (auto simp: manager_Start_windows_def kill_windows_def Let_def removeAll_id split: sum.splits option.splits)
qed

text \<open>
  When the shim has died on its own, its pid file still there, a stop succeeds but leaves the rootfs
  directory, which it removes in its other two successful cases.
\<close>

lemma windows_dead_shim_keeps_rootfs:
  assumes "wm_pidfile st = Some (show_nat pid)" and "pid < 2 ^ 32" and "pid \<notin> set (wm_live st)"
    and "wx_read x = None" and "wx_open x = None"
  shows "manager_Stop_windows w x st = (Inr \<lparr>ss_Pid = int pid, ss_ExitStatus = 137\<rparr>, st)"
proof -
  have "unat (word_of_int (int pid) :: 32 word) = pid" using assms(2) by (rule pid_word)
  moreover have "atoi (trim_space (show_nat pid)) = Inr (int pid)" using assms(2) by (intro atoi_show_nat) simp
  ultimately show ?thesis using assms by (simp add: manager_Stop_windows_def OpenProcess_def)
qed

text \<open>
  C26. On Windows too a failed start leaves no shim process. A stop after a successful one, where the
  Windows calls do not fail, returns with the process number the start got: while the shim is alive it ends
  the process and removes the rootfs directory; when the shim has died it changes nothing, so the rootfs
  directory stays.
\<close>

theorem windows_start_stop:
  assumes "manager_Start_windows env w bp st = (r, st')" and "\<forall>p. ww_start w = Inr p \<longrightarrow> p \<notin> set (wm_live st) \<and> p < 2 ^ 32"
    and "wx_read x = None" and "wx_open x = None" and "wx_term x = None" and "wx_wait x = None" and "bundlePath w \<noteq> []"
  shows "case r of
      Inl e \<Rightarrow> wm_live st' = wm_live st
    | Inr b \<Rightarrow> \<exists>pid. ww_start w = Inr pid \<and> pid \<in> set (wm_live st') \<and> wm_rootfs st' = wm_rootfs st
        \<and> manager_Stop_windows w x st' =
            (Inr \<lparr>ss_Pid = int pid, ss_ExitStatus = 137\<rparr>, st'\<lparr>wm_live := wm_live st, wm_rootfs := False\<rparr>)
        \<and> (let dead = st'\<lparr>wm_live := wm_live st\<rparr>
           in manager_Stop_windows w x dead = (Inr \<lparr>ss_Pid = int pid, ss_ExitStatus = 137\<rparr>, dead))"
proof (cases r)
  case (Inl e)
  with manager_Start_windows_cases [OF assms(1)] assms(2) show ?thesis by simp
next
  case (Inr b)
  with manager_Start_windows_cases [OF assms(1)] assms(2) obtain pid where
    p: "ww_start w = Inr pid" "st' = st\<lparr>wm_live := pid # wm_live st, wm_pidfile := Some (show_nat pid)\<rparr>"
    by auto
  have q: "pid \<notin> set (wm_live st)" "pid < 2 ^ 32" using assms(2) p(1) by auto
  have "unat (word_of_int (int pid) :: 32 word) = pid" using q(2) by (rule pid_word)
  moreover have "atoi (trim_space (show_nat pid)) = Inr (int pid)" using q(2) by (intro atoi_show_nat) simp
  ultimately have "manager_Stop_windows w x st' =
      (Inr \<lparr>ss_Pid = int pid, ss_ExitStatus = 137\<rparr>, st'\<lparr>wm_live := wm_live st, wm_rootfs := False\<rparr>)"
    using assms(3-) p(2) q(1) by (simp add: manager_Stop_windows_def OpenProcess_def kill_windows_def removeRootfs_def removeAll_id)
  moreover have "manager_Stop_windows w x (st'\<lparr>wm_live := wm_live st\<rparr>) =
      (Inr \<lparr>ss_Pid = int pid, ss_ExitStatus = 137\<rparr>, st'\<lparr>wm_live := wm_live st\<rparr>)"
    using p(2) q assms(3,4) by (intro windows_dead_shim_keeps_rootfs) simp_all
  ultimately show ?thesis using p Inr by (simp add: Let_def)
qed

definition demo_win :: wm_env where
  "demo_win = \<lparr>ww_bundle = Some ''b'', ww_digest = (\<lambda>_ _ _. ''0123''), ww_start = Inr 7, ww_writePid = None,
     ww_dials = [Some enoent, None]\<rparr>"

definition calm_wstop :: wstop_env where
  "calm_wstop = \<lparr>wx_read = None, wx_open = None, wx_term = None, wx_wait = None\<rparr>"

theorem windows_start_stop_witness:
  "\<exists>b st'. manager_Start_windows demo_mg demo_win demo_boot \<lparr>wm_live = [], wm_pidfile = None, wm_rootfs = True\<rparr> = (Inr b, st')
     \<and> manager_Stop_windows demo_win calm_wstop st' = (Inr \<lparr>ss_Pid = 7, ss_ExitStatus = 137\<rparr>, st'\<lparr>wm_live := [], wm_rootfs := False\<rparr>)"
proof -
  let ?st = "\<lparr>wm_live = [], wm_pidfile = None, wm_rootfs = True\<rparr>"
  have "\<not> isl (fst (manager_Start_windows demo_mg demo_win demo_boot ?st))" by code_simp
  then obtain b st' where s: "manager_Start_windows demo_mg demo_win demo_boot ?st = (Inr b, st')"
    by (cases "manager_Start_windows demo_mg demo_win demo_boot ?st"; cases "fst (manager_Start_windows demo_mg demo_win demo_boot ?st)") auto
  have "\<forall>p. ww_start demo_win = Inr p \<longrightarrow> p \<notin> set (wm_live ?st) \<and> p < 2 ^ 32" "ww_start demo_win = Inr 7"
    "bundlePath demo_win \<noteq> []" by (simp_all add: demo_win_def bundlePath_def)
  with windows_start_stop [OF s, of calm_wstop] s show ?thesis by (simp add: calm_wstop_def)
qed

end
