(* ===== verification/Shim_Logging.thy ===== *)
theory Shim_Logging
  imports Shim_Manager
begin

text \<open>
  Logging of the shim (\<open>pkg/logging/logging.go\<close>): the options the shim process reads from its own command
  line, and the lines of the VM's console, which are turned into log records. JSON decoding is a
  parameter; records go to a handler that has a level and attributes, as those of \<open>log/slog\<close>.
\<close>

section \<open>Levels and handlers\<close>

definition upper_char :: "char \<Rightarrow> char" where
  "upper_char c = (let n = of_char c :: nat in if 97 \<le> n \<and> n \<le> 122 then char_of (n - 32) else c)"

text \<open>\<open>Level.UnmarshalText\<close> of \<open>log/slog\<close>: a name with an offset.\<close>

definition level_name :: "string \<Rightarrow> int option" where
  "level_name s =
     (if map upper_char s = ''DEBUG'' then Some (- 4)
      else if map upper_char s = ''INFO'' then Some 0
      else if map upper_char s = ''WARN'' then Some 4
      else if map upper_char s = ''ERROR'' then Some 8 else None)"

definition parse_level :: "string \<Rightarrow> int option" where
  "parse_level s =
     (case index_func (\<lambda>c. c = CHR ''+'' \<or> c = CHR ''-'') s of
        None \<Rightarrow> level_name s
      | Some i \<Rightarrow>
          (case atoi (drop i s) of
             Inl e \<Rightarrow> None
           | Inr offset \<Rightarrow> map_option (\<lambda>l. l + offset) (level_name (take i s))))"

record log_handler =
  lh_level :: int
  lh_attrs :: "(string \<times> string) list"

definition handler_Enabled :: "log_handler \<Rightarrow> int \<Rightarrow> bool" where
  "handler_Enabled h l \<longleftrightarrow> lh_level h \<le> l"

record log_record =
  lr_level :: int
  lr_msg :: string
  lr_attrs :: "(string \<times> string) list"

section \<open>The shim's own logger\<close>

record log_setup =
  ls_debug :: bool
  ls_ns :: string
  ls_id :: string
  ls_attrs :: "(string \<times> string) list"

text \<open>The loop over the arguments; \<open>None\<close> when it returns at an action of the manager.\<close>

fun shim_log_args :: "string list \<Rightarrow> log_setup \<Rightarrow> log_setup option" where
  "shim_log_args [] s = Some s"
| "shim_log_args (a # as) s =
     (if a = ''start'' \<or> a = ''delete'' then None
      else if a = ''-debug'' then shim_log_args as (s\<lparr>ls_debug := True\<rparr>)
      else if a = ''-namespace'' then
        (case as of
           [] \<Rightarrow> Some s
         | v # vs \<Rightarrow> shim_log_args vs (s\<lparr>ls_ns := v, ls_attrs := ls_attrs s @ [(''ns'', v)]\<rparr>))
      else if a = ''-id'' then
        (case as of
           [] \<Rightarrow> Some s
         | v # vs \<Rightarrow> shim_log_args vs (s\<lparr>ls_id := v, ls_attrs := ls_attrs s @ [(''id'', v)]\<rparr>))
      else shim_log_args as s)"

text \<open>The base handler and the default one, which has the component too.\<close>

definition SetupShimLog :: "string list \<Rightarrow> (log_handler \<times> log_handler) option" where
  "SetupShimLog args =
     map_option (\<lambda>s. let h = \<lparr>lh_level = (if ls_debug s then - 4 else 0), lh_attrs = ls_attrs s\<rparr>
                     in (h, h\<lparr>lh_attrs := lh_attrs h @ [(''component'', ''shim'')]\<rparr>))
       (shim_log_args args \<lparr>ls_debug = False, ls_ns = [], ls_id = [], ls_attrs = []\<rparr>)"

text \<open>Where the log goes, with the listeners closed on the way; on Unix the result of opening the FIFO decides.\<close>

datatype log_sink = LogStderr | LogFifo | LogPipe string

definition openShimLog :: "go_error option \<Rightarrow> log_sink" where
  "openShimLog fifo = (case fifo of Some e \<Rightarrow> LogStderr | None \<Rightarrow> LogFifo)"

definition openShimLog_windows :: "go_error option \<Rightarrow> go_error option \<Rightarrow> string \<Rightarrow> string \<Rightarrow> log_sink \<times> string list" where
  "openShimLog_windows listen pipe ns iid =
     (if ns = [] \<or> iid = [] then (LogStderr, [])
      else let name = [CHR 0x5C, CHR 0x5C, CHR ''.'', CHR 0x5C] @ ''pipe'' @ [CHR 0x5C]
                        @ ''containerd-shim-'' @ ns @ ''-'' @ iid @ ''-log''
           in case listen of
                Some e \<Rightarrow> (LogStderr, [])
              | None \<Rightarrow> (case pipe of Some e \<Rightarrow> (LogStderr, [name]) | None \<Rightarrow> (LogPipe name, [])))"

lemma openShimLog_windows_pipe:
  "fst (openShimLog_windows listen pipe ns iid) \<noteq> LogStderr \<longleftrightarrow> ns \<noteq> [] \<and> iid \<noteq> [] \<and> listen = None \<and> pipe = None"
  by (auto simp: openShimLog_windows_def Let_def split: option.splits)

definition consoleHandler :: "log_handler option \<Rightarrow> log_handler \<Rightarrow> log_handler" where
  "consoleHandler base dflt = (case base of Some h \<Rightarrow> h | None \<Rightarrow> dflt)"

section \<open>The console of the VM\<close>

text \<open>\<open>bufio.Scanner\<close> with \<open>ScanLines\<close>: a line and its end must fit into the buffer; a carriage return at its end is dropped.\<close>

definition max_line :: nat where
  "max_line = 2 ^ 20"

definition drop_cr :: "string \<Rightarrow> string" where
  "drop_cr l = (if l \<noteq> [] \<and> last l = CHR 0x0D then butlast l else l)"

definition newline :: char where
  "newline = CHR 0x0A"

definition err_too_long :: go_error where
  "err_too_long = Sentinel ''bufio.Scanner: token too long''"

function scan_lines :: "nat \<Rightarrow> string \<Rightarrow> string list \<times> go_error option" where
  "scan_lines m inp =
     (if inp = [] then ([], None)
      else case index_func (\<lambda>c. c = newline) (take m inp) of
        Some i \<Rightarrow> (case scan_lines m (drop (Suc i) inp) of (ls, e) \<Rightarrow> (drop_cr (take i inp) # ls, e))
      | None \<Rightarrow> if m \<le> length inp then ([], Some err_too_long) else ([drop_cr inp], None))"
  by pat_completeness auto
termination by (relation "measure (\<lambda>(m, inp). length inp)") auto

declare scan_lines.simps [simp del]

record json_lib =
  js_fields :: "string \<Rightarrow> (string, string) gomap option"
  js_string :: "string \<Rightarrow> string option"
  js_value :: "string \<Rightarrow> string option"

definition forwardJSONLog :: "json_lib \<Rightarrow> log_handler \<Rightarrow> string \<Rightarrow> bool \<times> log_record list" where
  "forwardJSONLog js h line =
     (case js_fields js line of
        None \<Rightarrow> (False, [])
      | Some flds \<Rightarrow>
     (case gm_get flds ''msg'' of
        None \<Rightarrow> (False, [])
      | Some rawMsg \<Rightarrow>
     (case js_string js rawMsg of
        None \<Rightarrow> (False, [])
      | Some msg \<Rightarrow>
          let level = (case Option.bind (Option.bind (gm_get flds ''level'') (js_string js)) parse_level of Some l \<Rightarrow> l | None \<Rightarrow> 0);
              rest = gm_del ''time'' (gm_del ''level'' (gm_del ''msg'' flds))
          in if \<not> handler_Enabled h level then (True, [])
             else (True, [\<lparr>lr_level = level, lr_msg = msg,
                     lr_attrs = List.map_filter (\<lambda>(k, v). map_option (\<lambda>x. (k, x)) (js_value js v)) rest\<rparr>]))))"

definition parseKernelTimestamp :: "string \<Rightarrow> (string \<times> string) option" where
  "parseKernelTimestamp line =
     (if length line < 3 \<or> hd line \<noteq> CHR ''['' then None
      else case index_func (\<lambda>c. c = CHR '']'') line of
        None \<Rightarrow> None
      | Some i \<Rightarrow>
          let msg = drop (Suc i) line
          in Some (if msg \<noteq> [] \<and> hd msg = CHR '' '' then tl msg else msg, trim_space (drop 1 (take i line))))"

definition kmsg_record :: "log_handler \<Rightarrow> string \<Rightarrow> log_record list" where
  "kmsg_record h line =
     (if handler_Enabled h 0 then
        [case parseKernelTimestamp line of
           None \<Rightarrow> \<lparr>lr_level = 0, lr_msg = line, lr_attrs = [(''component'', ''kmsg'')]\<rparr>
         | Some (msg, ktime) \<Rightarrow> \<lparr>lr_level = 0, lr_msg = msg, lr_attrs = [(''component'', ''kmsg''), (''ktime'', ktime)]\<rparr>]
      else [])"

definition line_records :: "json_lib \<Rightarrow> log_handler \<Rightarrow> string \<Rightarrow> log_record list" where
  "line_records js h line =
     (if line = [] then []
      else if has_prefix line ''{'' \<and> fst (forwardJSONLog js h line) then snd (forwardJSONLog js h line)
      else kmsg_record h line)"

text \<open>The bytes written to \<open>raw\<close> and the records; \<open>rerr\<close> is the error that ends the input, if it does not just end.\<close>

definition ForwardConsoleLogs :: "json_lib \<Rightarrow> log_handler \<Rightarrow> string \<Rightarrow> go_error option \<Rightarrow> string \<times> log_record list" where
  "ForwardConsoleLogs js h inp rerr =
     (case scan_lines max_line inp of (ls, serr) \<Rightarrow>
        (concat (map (\<lambda>l. l @ [newline]) ls),
         concat (map (line_records js h) ls) @
         (case (case serr of Some e \<Rightarrow> Some e | None \<Rightarrow> rerr) of
            Some e \<Rightarrow>
              if handler_Enabled h 4 then
                [\<lparr>lr_level = 4, lr_msg = ''console log reader stopped'', lr_attrs = [(''component'', ''kmsg''), (''error'', err_msg e)]\<rparr>]
              else []
          | None \<Rightarrow> [])))"

section \<open>Lines\<close>

lemma index_func_take:
  assumes "x \<notin> set w" and "length w < m"
  shows "index_func (\<lambda>c. c = x) (take m (w @ x # rest)) = Some (length w)"
  using assms
proof (induction w arbitrary: m)
  case Nil
  then show ?case by (cases m) auto
next
  case (Cons a w)
  then show ?case by (cases m) auto
qed

lemma scan_found:
  "inp \<noteq> [] \<Longrightarrow> index_func (\<lambda>c. c = newline) (take m inp) = Some i \<Longrightarrow>
     scan_lines m inp = (case scan_lines m (drop (Suc i) inp) of (ls, e) \<Rightarrow> (drop_cr (take i inp) # ls, e))"
  by (subst scan_lines.simps) simp

lemma scan_absent:
  assumes "inp \<noteq> []" and "newline \<notin> set (take m inp)"
  shows "scan_lines m inp = (if m \<le> length inp then ([], Some err_too_long) else ([drop_cr inp], None))"
proof -
  have idx: "index_func (\<lambda>c. c = newline) (take m inp) = None" using assms(2) by auto
  show ?thesis by (subst scan_lines.simps) (simp only: idx assms(1) option.case if_False)
qed

lemma scan_line:
  assumes "newline \<notin> set w" and "length w < m"
  shows "scan_lines m (w @ newline # rest) = (case scan_lines m rest of (ls, e) \<Rightarrow> (drop_cr w # ls, e))"
  using scan_found [OF _ index_func_take [OF assms, of rest]] by simp

lemma scan_last:
  assumes "newline \<notin> set w" and "length w < m"
  shows "scan_lines m w = (if w = [] then [] else [drop_cr w], None)"
  using assms scan_absent [of w m] by (cases "w = []") (auto simp: scan_lines.simps [of m "[]"])

text \<open>Lines that are ended, and what is left after the last end.\<close>

definition ended :: "string list \<Rightarrow> string" where
  "ended ws = concat (map (\<lambda>w. w @ [newline]) ws)"

lemma ended_simps [simp]:
  "ended [] = []" "ended (w # ws) = w @ newline # ended ws" "ended (ws @ vs) = ended ws @ ended vs"
  by (simp_all add: ended_def)

lemma scan_ended_lines:
  assumes "\<forall>w\<in>set ws. newline \<notin> set w \<and> length w < m"
  shows "scan_lines m (ended ws @ rest) = (case scan_lines m rest of (ls, e) \<Rightarrow> (map drop_cr ws @ ls, e))"
  using assms by (induction ws) (auto simp: scan_line split: prod.splits)

lemma length_drop_cr: "length (drop_cr w) \<le> length w"
  by (simp add: drop_cr_def)

lemma drop_cr_shorter: "drop_cr w \<noteq> w \<Longrightarrow> length (drop_cr w) < length w"
  by (cases "w \<noteq> [] \<and> last w = CHR 0x0D") (auto simp: drop_cr_def)

lemma newlines_ended:
  "\<forall>w\<in>set ws. newline \<notin> set w \<Longrightarrow> count_list (ended ws) newline = length ws"
  by (induction ws) (auto simp: count_list_0_iff)

lemma drop_cr_newline: "newline \<notin> set w \<Longrightarrow> newline \<notin> set (drop_cr w)"
  by (auto simp: drop_cr_def dest: in_set_butlastD)

lemma ended_drop_cr: "ended (map drop_cr ws) = ended ws \<longleftrightarrow> (\<forall>w\<in>set ws. drop_cr w = w)"
proof
  have short: "length (ended (map drop_cr vs)) \<le> length (ended vs)" for vs
    using length_drop_cr by (induction vs) (auto intro: add_mono)
  assume "ended (map drop_cr ws) = ended ws"
  then show "\<forall>w\<in>set ws. drop_cr w = w"
  proof (induction ws)
    case (Cons w ws)
    have "length (drop_cr w) = length w"
      using arg_cong [OF Cons.prems, of length] short [of ws] length_drop_cr [of w] by simp
    then have "drop_cr w = w" using drop_cr_shorter by fastforce
    with Cons show ?case by simp
  qed simp
qed (simp add: map_idI)

text \<open>
  C28. For a console output in which every line, the unfinished last one too, is shorter than a mebibyte:
  the raw copy is what the VM wrote exactly when the output ends with a line end and no line ends with a
  carriage return, so a line that does is not copied verbatim; and each line gives its records, in order.
\<close>

theorem console_raw_verbatim:
  assumes "\<forall>w\<in>set ws. newline \<notin> set w \<and> length w < max_line" and "newline \<notin> set rest" and "length rest < max_line"
  shows "(fst (ForwardConsoleLogs js h (ended ws @ rest) None) = ended ws @ rest
        \<longleftrightarrow> rest = [] \<and> (\<forall>w\<in>set ws. drop_cr w = w))
    \<and> snd (ForwardConsoleLogs js h (ended ws @ rest) None)
        = concat (map (line_records js h \<circ> drop_cr) ws) @ line_records js h (drop_cr rest)"
proof -
  let ?tail = "if rest = [] then [] else [drop_cr rest]"
  have scan: "scan_lines max_line (ended ws @ rest) = (map drop_cr ws @ ?tail, None)"
    using scan_ended_lines [OF assms(1), of rest] scan_last [OF assms(2,3)] by (cases "rest = []") simp_all
  then have raw: "fst (ForwardConsoleLogs js h (ended ws @ rest) None) = ended (map drop_cr ws @ ?tail)"
    by (simp add: ForwardConsoleLogs_def ended_def)
  have "rest = []" if "ended (map drop_cr ws @ ?tail) = ended ws @ rest"
  proof (rule ccontr)
    assume "rest \<noteq> []"
    have "count_list (ended (map drop_cr ws @ ?tail)) newline = Suc (length ws)"
      using assms(1,2) \<open>rest \<noteq> []\<close> by (subst newlines_ended) (auto simp: drop_cr_newline)
    moreover have "count_list (ended ws @ rest) newline = length ws"
      using assms(1,2) by (simp add: newlines_ended count_list_0_iff)
    ultimately show False by (metis that n_not_Suc_n)
  qed
  moreover have "ended (map drop_cr ws @ ?tail) = ended ws @ rest \<longleftrightarrow> (\<forall>w\<in>set ws. drop_cr w = w)" if "rest = []"
    using that by (simp add: ended_drop_cr)
  ultimately have "fst (ForwardConsoleLogs js h (ended ws @ rest) None) = ended ws @ rest
      \<longleftrightarrow> rest = [] \<and> (\<forall>w\<in>set ws. drop_cr w = w)"
    unfolding raw by blast
  moreover have "snd (ForwardConsoleLogs js h (ended ws @ rest) None)
      = concat (map (line_records js h \<circ> drop_cr) ws) @ line_records js h (drop_cr rest)"
  proof -
    have "snd (ForwardConsoleLogs js h (ended ws @ rest) None) = concat (map (line_records js h) (map drop_cr ws @ ?tail))"
      unfolding ForwardConsoleLogs_def scan by simp
    moreover have "line_records js h (drop_cr []) = []" by (simp add: drop_cr_def line_records_def)
    ultimately show ?thesis by (cases "rest = []") simp_all
  qed
  ultimately show ?thesis by blast
qed

text \<open>
  A line of a mebibyte stops the reader of the console for good: whatever the VM writes after it is
  neither logged nor copied.
\<close>

theorem long_line_stops_console:
  assumes "\<forall>w\<in>set ws. newline \<notin> set w \<and> length w < max_line" and "newline \<notin> set long" and "max_line \<le> length long"
  shows "ForwardConsoleLogs js h (ended ws @ long @ later) rerr = ForwardConsoleLogs js h (ended ws) (Some err_too_long)"
proof -
  have "newline \<notin> set (take max_line (long @ later))" using assms(2,3) by (auto dest: in_set_takeD)
  moreover have "long \<noteq> []" using assms(3) by (auto simp: max_line_def)
  ultimately have "scan_lines max_line (long @ later) = ([], Some err_too_long)"
    using scan_absent [of "long @ later" max_line] assms(3) by simp
  moreover have "scan_lines max_line [] = ([], None)" by (simp add: scan_lines.simps)
  ultimately show ?thesis
    using scan_ended_lines [OF assms(1), of "long @ later"] scan_ended_lines [OF assms(1), of "[]"]
    by (simp add: ForwardConsoleLogs_def)
qed

section \<open>Kernel messages\<close>

text \<open>The time stamp of the kernel is taken off a message and kept apart.\<close>

lemma kernel_timestamp:
  assumes "CHR '']'' \<notin> set ts" and "ts \<noteq> []"
  shows "parseKernelTimestamp (''['' @ ts @ ''] '' @ msg) = Some (msg, trim_space ts)"
proof -
  have "index_func (\<lambda>c. c = CHR '']'') (take (Suc (length (''['' @ ts))) ((''['' @ ts) @ CHR '']'' # CHR '' '' # msg)) = Some (length (''['' @ ts))"
    using assms(1) by (intro index_func_take) auto
  moreover have "index_func (\<lambda>c. c = CHR '']'') (xs @ ys) = Some i" if "index_func (\<lambda>c. c = CHR '']'') xs = Some i" for xs ys i
    using that by (induction xs arbitrary: i) (auto split: if_splits)
  ultimately have "index_func (\<lambda>c. c = CHR '']'') ((''['' @ ts) @ CHR '']'' # CHR '' '' # msg) = Some (length (''['' @ ts))"
    by (metis append_take_drop_id)
  then show ?thesis by (simp add: parseKernelTimestamp_def)
qed

section \<open>The command line of the shim\<close>

definition log_word :: "string \<Rightarrow> bool" where
  "log_word s \<longleftrightarrow> s \<in> {''start'', ''delete'', ''-debug'', ''-namespace'', ''-id''}"

text \<open>
  The logger of the shim reads from its command line what the manager that started it put there: the
  namespace and the id of the container as attributes, whatever they are, and the level, provided the
  address of containerd is none of the words the logger looks for.
\<close>

theorem shim_log_reads_command:
  assumes "newCommand env iid address debug = Inr cmd" and "me_namespace env = Inr ns" and "\<not> log_word address"
  shows "SetupShimLog (mc_args cmd) =
    Some (\<lparr>lh_level = (if debug then - 4 else 0), lh_attrs = [(''ns'', ns), (''id'', iid)]\<rparr>,
          \<lparr>lh_level = (if debug then - 4 else 0), lh_attrs = [(''ns'', ns), (''id'', iid), (''component'', ''shim'')]\<rparr>)"
proof -
  have "mc_args cmd = [''-namespace'', ns, ''-id'', iid, ''-address'', address] @ (if debug then [''-debug''] else [])"
    using assms(1,2) by (auto simp: newCommand_def split: sum.splits)
  then show ?thesis using assms(3) by (simp add: SetupShimLog_def log_word_def)
qed

theorem shim_log_reads_command_witness:
  "SetupShimLog [''-namespace'', ''default'', ''-id'', ''start'', ''-address'', ''/run/c.sock'', ''-debug''] =
    Some (\<lparr>lh_level = - 4, lh_attrs = [(''ns'', ''default''), (''id'', ''start'')]\<rparr>,
          \<lparr>lh_level = - 4, lh_attrs = [(''ns'', ''default''), (''id'', ''start''), (''component'', ''shim'')]\<rparr>)"
proof -
  obtain cmd where c: "newCommand demo_mg ''start'' ''/run/c.sock'' True = Inr cmd"
    "mc_args cmd = [''-namespace'', ''default'', ''-id'', ''start'', ''-address'', ''/run/c.sock'', ''-debug'']"
    by (simp add: newCommand_def demo_mg_def)
  have "me_namespace demo_mg = Inr ''default''" "\<not> log_word ''/run/c.sock''"
    by (simp_all add: demo_mg_def log_word_def)
  from shim_log_reads_command [OF c(1) this] c(2) show ?thesis by simp
qed

definition no_json :: json_lib where
  "no_json = \<lparr>js_fields = (\<lambda>_. None), js_string = (\<lambda>_. None), js_value = (\<lambda>_. None)\<rparr>"

definition info_handler :: log_handler where
  "info_handler = \<lparr>lh_level = 0, lh_attrs = []\<rparr>"

theorem console_raw_verbatim_witness:
  "fst (ForwardConsoleLogs no_json info_handler (ended [''a'', ''[ 1.5] b'']) None) = ended [''a'', ''[ 1.5] b'']
   \<and> fst (ForwardConsoleLogs no_json info_handler (ended [''a'' @ [CHR 0x0D]]) None) \<noteq> ended [''a'' @ [CHR 0x0D]]"
proof -
  have 1: "\<forall>w\<in>set [''a'', ''[ 1.5] b'']. newline \<notin> set w \<and> length w < max_line"
    "\<forall>w\<in>set [''a'' @ [CHR 0x0D]]. newline \<notin> set w \<and> length w < max_line"
    by (simp_all add: newline_def max_line_def)
  have 2: "newline \<notin> set []" "length [] < max_line" by (simp_all add: max_line_def)
  show ?thesis
    using console_raw_verbatim [OF 1(1) 2, of no_json info_handler] console_raw_verbatim [OF 1(2) 2, of no_json info_handler]
    by (simp add: drop_cr_def)
qed

theorem long_line_stops_console_witness:
  "snd (ForwardConsoleLogs no_json info_handler (ended [] @ replicate max_line (CHR ''x'') @ [newline] @ ''lost'') None)
     = [\<lparr>lr_level = 4, lr_msg = ''console log reader stopped'',
         lr_attrs = [(''component'', ''kmsg''), (''error'', err_msg err_too_long)]\<rparr>]"
proof -
  have "newline \<notin> set (replicate max_line (CHR ''x''))" by (auto simp: newline_def)
  from long_line_stops_console [of "[]", OF _ this, of no_json info_handler "[newline] @ ''lost''" None] show ?thesis
    by (simp add: ForwardConsoleLogs_def scan_lines.simps [of _ "[]"] handler_Enabled_def info_handler_def)
qed

end
