(* ===== verification/System_Tools.thy ===== *)
theory System_Tools
  imports Shim_Logging Streaming
begin

text \<open>
  Probes and diagnostics: the ping of a TTRPC server (\<open>internal/ttrpcutil/ping.go\<close>), the system service
  of the VM (\<open>plugins/services/system/service.go\<close>), and the dump of the processes
  (\<open>internal/systools/proc.go\<close>). Files are functions from a path to what reading it gives.
\<close>

section \<open>Ping\<close>

definition ping_request :: string where
  "ping_request = replicate 10 (CHR 0x00)"

text \<open>\<open>io.Copy\<close> to nowhere of at most \<open>n\<close> bytes: the end of the input is not an error.\<close>

definition discard :: "conn \<Rightarrow> nat \<Rightarrow> go_error option \<times> conn" where
  "discard c n =
     (if n = 0 then (None, c)
      else if \<not> c_open c then (Some err_closed, c)
      else (None, c\<lparr>c_in := drop n (c_in c)\<rparr>))"

text \<open>A write that takes fewer bytes fails, so the test for a short write never succeeds here.\<close>

definition PingTTRPC :: "conn \<Rightarrow> go_error option \<times> conn" where
  "PingTTRPC rw =
     (case conn_write rw ping_request of
        (Some e, c) \<Rightarrow> (Some (ErrWrap ''failed to write to TTRPC server'' e), c)
      | (None, c) \<Rightarrow>
          (case conn_read_full c 10 of
             (Inl e, c') \<Rightarrow> (Some e, c')
           | (Inr p, c') \<Rightarrow>
               let len = unbe32 (take 4 p); sid = unbe32 (take 4 (drop 4 p))
               in if sid \<noteq> 0 then
                    (Some (ErrNew (''unexpected stream ID '' @ show_nat (unat sid) @ '', expected 0'')), c')
                  else if len = 0 then (Some (ErrNew ''expected error response, but got length 0''), c')
                  else discard c' (unat len)))"

definition ttrpc_header :: "32 word \<Rightarrow> 32 word \<Rightarrow> char \<Rightarrow> char \<Rightarrow> string" where
  "ttrpc_header len sid t f = be32 len @ be32 sid @ [t, f]"

lemma ttrpc_header_length [simp]: "length (ttrpc_header len sid t f) = 10"
  by (simp add: ttrpc_header_def)

lemma header_fields:
  "unbe32 (take 4 (ttrpc_header len sid t f)) = len"
  "unbe32 (take 4 (drop 4 (ttrpc_header len sid t f))) = sid"
  by (simp_all add: ttrpc_header_def)

text \<open>
  Against a server that answers the invalid request with one message, the ping succeeds exactly when
  the answer is on stream zero and not empty; it then has taken the whole message and nothing after it.
\<close>

theorem ping_reads_one_answer:
  assumes "c_open rw" and "c_wcap rw = None" and "c_in rw = ttrpc_header len sid t f @ body @ rest"
    and "length body = unat len"
  shows "fst (PingTTRPC rw) = None \<longleftrightarrow> sid = 0 \<and> len \<noteq> 0"
    and "sid = 0 \<Longrightarrow> len \<noteq> 0 \<Longrightarrow> snd (PingTTRPC rw) = rw\<lparr>c_in := rest, c_out := c_out rw @ ping_request\<rparr>"
proof -
  let ?c = "rw\<lparr>c_out := c_out rw @ ping_request\<rparr>"
  have w: "conn_write rw ping_request = (None, ?c)" using assms by (simp add: conn_write_def)
  have r: "conn_read_full ?c 10 = (Inr (ttrpc_header len sid t f), ?c\<lparr>c_in := body @ rest\<rparr>)"
    by (rule read_full_append) (simp_all add: assms)
  have d: "discard (?c\<lparr>c_in := body @ rest\<rparr>) (unat len) = (None, rw\<lparr>c_in := rest, c_out := c_out rw @ ping_request\<rparr>)"
    if "len \<noteq> 0" using that assms by (simp add: discard_def unat_eq_zero)
  show "fst (PingTTRPC rw) = None \<longleftrightarrow> sid = 0 \<and> len \<noteq> 0"
    by (cases "len = 0") (simp_all add: PingTTRPC_def w r header_fields Let_def d)
  show "snd (PingTTRPC rw) = rw\<lparr>c_in := rest, c_out := c_out rw @ ping_request\<rparr>" if "sid = 0" "len \<noteq> 0"
    using that by (simp add: PingTTRPC_def w r header_fields Let_def d)
qed

text \<open>A server that hangs up, or whose answer is cut short inside the header, is not alive.\<close>

lemma ping_needs_header:
  "length (c_in rw) < 10 \<Longrightarrow> fst (PingTTRPC rw) \<noteq> None"
  by (auto simp: PingTTRPC_def conn_write_def conn_read_full_def split: option.splits if_splits)

section \<open>The system service\<close>

record InfoResponse =
  ir_Version :: string
  ir_KernelVersion :: string

type_synonym files_read = "string \<Rightarrow> string result"

definition system_Info :: "files_read \<Rightarrow> InfoResponse result" where
  "system_Info files =
     (case files ''/proc/version'' of
        Inl e \<Rightarrow> if e \<noteq> enoent then Inl e else Inr \<lparr>ir_Version = ''dev'', ir_KernelVersion = []\<rparr>
      | Inr v \<Rightarrow> Inr \<lparr>ir_Version = ''dev'', ir_KernelVersion = v\<rparr>)"

section \<open>Processes\<close>

fun status_values :: "string list \<Rightarrow> (string, string) gomap \<Rightarrow> (string, string) gomap" where
  "status_values [] vs = vs"
| "status_values (l # ls) vs =
     (case cut_at (CHR '':'') l of (key, val, found) \<Rightarrow>
        status_values ls (if found then gm_put (to_lower (trim_space key)) (trim_space val) vs else vs))"

definition get_value :: "(string, string) gomap \<Rightarrow> string \<Rightarrow> string" where
  "get_value vs k = (case gm_get vs k of None \<Rightarrow> [] | Some v \<Rightarrow> v)"

text \<open>The message and the fields logged for a process, or none when its status cannot be opened.\<close>

definition dumpProcPid :: "files_read \<Rightarrow> string \<Rightarrow> (string \<times> (string, string) gomap) option" where
  "dumpProcPid files pid =
     (case files (path_join [''/proc'', pid, ''status'']) of
        Inl e \<Rightarrow> None
      | Inr status \<Rightarrow>
          let vs = status_values (fst (scan_lines 65536 status)) [];
              fs1 = gm_put ''ppid'' (get_value vs ''ppid'') (gm_put ''pid'' pid []);
              fs2 = (if get_value vs ''vmrss'' \<noteq> [] then gm_put ''vmrss'' (get_value vs ''vmrss'') fs1 else fs1);
              fs3 = (case files (path_join [''/proc'', pid, ''cmdline'']) of
                       Inl e \<Rightarrow> fs2
                     | Inr b \<Rightarrow>
                         if b \<noteq> [] then
                           gm_put ''cmdline'' (map (\<lambda>c. if c = CHR 0x00 then CHR '' '' else c) (trim_space b)) fs2
                         else fs2)
          in Some (get_value vs ''name'', fs3))"

definition DumpPids :: "files_read \<Rightarrow> string list result \<Rightarrow> (string \<times> (string, string) gomap) list" where
  "DumpPids files entries =
     (case entries of
        Inl e \<Rightarrow> []
      | Inr es \<Rightarrow> concat (map (\<lambda>e. case dumpProcPid files e of None \<Rightarrow> [] | Some x \<Rightarrow> [x])
                          (filter (\<lambda>e. case atoi e of Inr _ \<Rightarrow> True | Inl _ \<Rightarrow> False) es)))"

text \<open>A later line with the same key replaces an earlier one; other keys are kept.\<close>

lemma status_values_append: "status_values (xs @ ys) vs = status_values ys (status_values xs vs)"
  by (induction xs arbitrary: vs) (auto split: prod.splits)

lemma cut_at_first: "c \<notin> set k \<Longrightarrow> cut_at c (k @ c # v) = (k, v, True)"
  by (induction k) auto

lemma status_value_read:
  assumes "CHR '':'' \<notin> set key"
  shows "get_value (status_values (ls @ [key @ CHR '':'' # val]) []) (to_lower (trim_space key)) = trim_space val"
  by (simp add: status_values_append cut_at_first [OF assms] get_value_def)

text \<open>Every entry that is logged has its process number and its parent's field.\<close>

lemma dump_has_pid:
  assumes "dumpProcPid files pid = Some (name, fs)"
  shows "gm_get fs ''pid'' = Some pid \<and> gm_get fs ''ppid'' \<noteq> None"
  using assms by (auto simp: dumpProcPid_def Let_def split: sum.splits if_splits)

end
