(* ===== verification/Spec2Isabelle.thy ===== *)
theory Spec2Isabelle
  imports Exit_Protocol Shim_Service Initd Transfer_Copy Events Console_Platform VM_Library Shim_Windows System_Tools
begin

text \<open>
  Verification of nerdbox, a containerd shim that runs each container in a virtual machine.

  \<^bold>\<open>The program.\<close> On the host, the shim's task service (\<open>internal/shim/task\<close>) answers containerd. To create
  a container it loads the OCI bundle, rewrites it for the VM, turns mounts into disks and shared
  directories, boots a VM through the sandbox (\<open>internal/shim/sandbox\<close>), copies the bundle into it and
  hands the request over. In the VM an init daemon (\<open>pkg/vminit/initd\<close>) sets up the network and serves
  the task service (\<open>internal/vminit/task\<close>), which runs the container with a runtime
  (\<open>internal/vminit/runc\<close>, \<open>internal/vminit/process\<close>) and reports exits. Standard I/O, messages and
  forwarded sockets cross the VM's border as streams over vsock (\<open>plugins/vminit/streaming\<close>,
  \<open>internal/vminit/socketforward\<close>); volumes are mounted by the mount service
  (\<open>plugins/services/mount\<close>), files are copied in and out by the transfer service
  (\<open>internal/transfer\<close>), and events reach the host through an exchange (\<open>internal/events\<close>). The shim
  process itself is started and stopped by a manager (\<open>pkg/shim/manager\<close>), the VM by an instance of
  libkrun (\<open>internal/vm/libkrun\<close>).

  \<^bold>\<open>Conventions.\<close> Operations are functions from a state, and the outcomes of the calls they make into
  code outside the repository, to a result and a new state. Errors are values of \<open>go_error\<close>, which keeps
  the class that \<open>errors.Is\<close> looks for; \<open>'a result\<close> is \<open>go_error + 'a\<close>. Panics and handlers that block
  are values too: \<open>None\<close> in the process machine, \<open>Panics\<close> and \<open>Blocks\<close> of type \<open>go\<close> in the shim. Go maps
  are association lists (\<open>gomap\<close>), so the order of a range loop is the list's and a statement about all
  lists is about all orders. Machine integers that can wrap are words: the disk letter (8 bits), frame
  lengths and feature bits (32), sectors (64). Locks are sections that run as one step; where the order
  of goroutines matters the steps are those sections and the theorems are about all interleavings.

  \<^bold>\<open>Theories and sources.\<close>
  \<^item> \<open>Prelude\<close>, \<open>Go_Strings\<close>: errors, maps, lists; \<open>strings\<close>, \<open>path\<close>, \<open>strconv\<close> and formatting of Go.
  \<^item> \<open>Streaming\<close>: \<open>plugins/vminit/streaming/plugin.go\<close>, \<open>plugins/shim/streaming/plugin.go\<close>,
    \<open>StartStream\<close> of \<open>internal/vm/libkrun/instance.go\<close>. Locales \<open>frame_reader\<close>, \<open>stream_manager\<close> and
    \<open>closing_manager\<close> state what readers of frames and users of streams rely on; they are interpreted on
    the framed connection and on the registry.
  \<^item> \<open>Process_IO\<close>, \<open>Process\<close>: \<open>internal/vminit/process\<close>, the I/O of a process and the state machines of
    init and exec processes. Locale \<open>exit_record\<close> gives what is common to both: an exit is recorded
    once.
  \<^item> \<open>Console_Platform\<close>: \<open>internal/vminit/runc/platform.go\<close>, composed with the consoles of both kinds.
  \<^item> \<open>VM_Mounts\<close>: \<open>internal/mountutil/mount.go\<close> and \<open>plugins/services/mount/service.go\<close>.
  \<^item> \<open>Container\<close>, \<open>Task_Service\<close>: \<open>internal/vminit/runc\<close> and \<open>internal/vminit/task/service.go\<close>.
  \<^item> \<open>Exit_Protocol\<close>: the interleavings of starts, exits and the goroutine that holds back an init exit.
  \<^item> \<open>Sandbox\<close>: \<open>internal/shim/sandbox\<close>; locale \<open>sandbox_contract\<close> is the documented contract of
    \<open>sandbox.Sandbox\<close>, interpreted on the VM sandbox and used by the shim service.
  \<^item> \<open>Bundle\<close>: \<open>internal/shim/task/bundle\<close>, \<open>transformers.go\<close>, \<open>plugins/services/bundle\<close>.
  \<^item> \<open>Vmdk\<close>, \<open>Disks\<close>: \<open>internal/erofs/vmdk.go\<close>, \<open>internal/shim/task/mount.go\<close> and \<open>mount_linux.go\<close>.
  \<^item> \<open>Networking\<close>: \<open>internal/shim/task/networking.go\<close>, \<open>ctrnetworking.go\<close>, \<open>internal/virtionet\<close>, and the
    command line of \<open>pkg/vminit/initd\<close>.
  \<^item> \<open>VM_Networking\<close>: \<open>internal/vminit/vmnetworking\<close>, \<open>internal/vminit/ctrnetworking\<close>.
  \<^item> \<open>Socket_Forward\<close>: \<open>internal/shim/task/socketforward.go\<close>, \<open>internal/vminit/socketforward\<close>.
  \<^item> \<open>Shim_IO\<close>, \<open>Shim_Service\<close>: \<open>internal/shim/task/io.go\<close>, \<open>io_copystreams_unix.go\<close>, \<open>service.go\<close>.
  \<^item> \<open>VM_Instance\<close>: \<open>internal/vm/libkrun/instance.go\<close> and the calls of \<open>krun.go\<close>.
  \<^item> \<open>VM_Library\<close>: the loading of libkrun, \<open>internal/kvm\<close>, the options of \<open>pkg/vm/vm.go\<close>, the console on
    Windows, and the calls of the sandbox replayed on an instance.
  \<^item> \<open>Initd\<close>: \<open>pkg/vminit/initd\<close>, from the boot of the guest to its shutdown.
  \<^item> \<open>Root_FS\<close>, \<open>Container_Transfer\<close>, \<open>Transfer_Copy\<close>: a tree of files with the methods of Go's
    \<open>os.Root\<close>; \<open>internal/transfer\<close> and \<open>plugins/services/transfer\<close> on it. Locale \<open>root_method\<close> states what a
    method of a root may change; it is interpreted on every method and on extraction.
  \<^item> \<open>Shim_Manager\<close>: \<open>pkg/shim/manager\<close> on Unix.
  \<^item> \<open>Shim_Windows\<close>: \<open>manager_windows.go\<close>, \<open>io_windows.go\<close> and \<open>io_copystreams_windows.go\<close>. Locale
    \<open>output_copier\<close> of \<open>Shim_IO\<close> is what the forwarding of I/O relies on; it is interpreted on the copies
    of both systems.
  \<^item> \<open>Shim_Logging\<close>: \<open>pkg/logging\<close>, the shim's logger and the forwarding of the VM's console.
  \<^item> \<open>System_Tools\<close>: \<open>internal/ttrpcutil/ping.go\<close>, \<open>plugins/services/system\<close>, \<open>internal/systools/proc.go\<close>.
  \<^item> \<open>Events\<close>: \<open>internal/events/exchange.go\<close>, \<open>internal/vminit/events/service.go\<close>, on the broadcaster of the
    vendored \<open>go-events\<close>.

  \<^bold>\<open>What is shown.\<close>
  \<^item> Exits: \<open>proto_step\<close> has every interleaving of requests, exits and goroutines of the task service, also
    second starts and deletes. In the runs that are \<open>regular\<close> (no exec is started a second time, no pid
    is reused while its process starts, no Start of an exec is overtaken by a Delete of its container)
    the counter of running execs is exact, the channel that counts them down never blocks and is never
    missed, and an init exit that goes through \<open>handleInitExit\<close> is published after every exec of its
    container; what a second start and an init exit noted during its start do instead.
  \<^item> Processes: init processes panic only for an update or exec request without its payload; both kinds
    follow their life cycle and record their exit once; deletion always cleans up; where a failed exec
    panics and a deleted container is never woken.
    The copies of a console end and release what they hold.
  \<^item> Streams: messages of one byte to ten MiB cross the border complete, in order and with their end; the
    handshake agrees on the stream; a stream is handed out once; I/O set up by either side leaks no stream.
  \<^item> Mounts: placement and idempotence, refinement of a table of targets, what a failed unmount keeps.
  \<^item> Creating a container with its rootfs on disks: the device names of the guest name the files the VM gets,
    rootfs and volumes, down to the calls on the instance; VMDK descriptors cover all sectors; the bundle arrives; resources come from annotations; the
    transformers of networks take exactly their annotations off the spec, and the guest reads back the networks the host asked for.
  \<^item> Socket forwarding: in every interleaving, with failing sends and forwarders that are shut down, a success
    answer finds its stream registered, and every waiting connection has one message, under way or lost,
    and waits for ever if it was lost; the host dials only its own paths.
  \<^item> Shutdown of the shim: it returns when its context ends, asks the guest to unmount first, stops the VM
    once. The manager: a failed start of the shim leaves nothing behind, and a stop returns once a shim
    that was started is dead, and fails for one that was joined.
  \<^item> The VM: its context is freed at most once, the guest's init dials the port that leads to the socket the
    host listens on, and its streaming plugin gets the port of the host's stream socket; libkrun is loaded completely or closed again. The last section of this theory composes the shim, the
    sandbox and the instance: what libkrun is told for a container that was created.
  \<^item> Logs: the console reaches its raw copy line by line, what a line too long does to it, and the logger
    reads the namespace and id that the manager put on the command line.
  \<^item> Copies: extraction never changes anything outside its destination; a tree of plain files, directories
    and links that is copied out and in again is the same tree; which trees cannot be copied.
  \<^item> Events: accepted topics are a grammar; the exchange refines a table of subscribers with the events
    that are for them as long as nothing is published while a subscription is between its cancellation and
    its removal, and what a broadcast then does.

  \<^bold>\<open>Assumptions.\<close> Hypotheses of theorems name what is relied on: stream ids are fresh (they are made of
  the time and random bytes), \<open>netip_law\<close> (printing an address and parsing it gives it back, without a
  comma or an equals sign), errors have a text, protobuf encodings are read back. Each has a witness with
  a concrete instance. The shim's channel of events is taken to have room for the nil that ends it.

  \<^bold>\<open>Bounds.\<close> The recursion of code that ends by itself is on the data. Only the walk over a directory has
  fuel, \<open>walk_depth\<close>, the length of the longest path plus one, and \<open>walk_all\<close> shows that it reaches every
  file; the resolution of links stops after 40 as in Go. Loops that end by an outside event take the
  list of these events: \<open>StartStream\<close> the outcomes of its dials, \<open>unmountAllWithRetry\<close> its attempts,
  \<open>RenewLoop\<close> its timers; a result \<open>None\<close> means that the loop still runs, and the theorems show from
  which event on it does not.

  \<^bold>\<open>Not modelled.\<close> The C code of libkrun, which is outside the repository; the copying of bytes by
  goroutines, which is represented by the ends it connects; the walk over all files that
  \<open>systools.DumpInfo\<close> logs; plugin registration, main functions, generated code and the script that
  checks user namespaces: they keep no state that the modelled parts depend on.
\<close>

section \<open>From a request to the calls of libkrun\<close>

lemma create_prepare_vmm [simp]: "create_prepare (env\<lparr>x_vmm := w\<rparr>) debug r fs = create_prepare env debug r fs"
  unfolding create_prepare_def create_transformers_def
  by (cases env) (simp only: shim_env.update_convs shim_env.select_convs)

lemma config_krun_disks:
  "\<exists>ks. config_krun ctx (apply_opts opts) = map (disk_krun ctx) (opt_disks opts) @ ks
    \<and> (\<forall>b p fmt ro. KAddDisk2 ctx b p fmt ro \<notin> set ks)"
  by (auto simp: config_krun_def apply_opts_disks fs_krun_def nic_krun_def resources_krun_def split: if_splits)

text \<open>
  C4. From a request to the calls of libkrun. When the sandbox runs on an instance of libkrun and a
  container was created with its rootfs on disks, that is when the rootfs is not a single overlay or bind
  mount and all its mounts could be translated for the VM, the instance was started; the library was told
  first the host files of the rootfs disks, then the source files of the ext4 mounts of \<open>config.json\<close>, in
  the order of the device names that the guest's mounts use, and no disk after them; then, once for each
  and in order, shared directories, network interfaces and resources, and the guest's init was given the
  arguments of the networks. The container's task in the VM got those mounts.
\<close>

theorem container_disks_in_libkrun:
  assumes "shim_Create env late r (s, fs) = Done (Inr pid, s', fs')"
    and "transformMounts (x_host env) (rq_ID r) (rq_Rootfs r) (newDiskAllocator, fs) = (Inr (am, opts), (da, fs''))"
    and "on_disks (rq_Rootfs r)"
    and "create_prepare env (sv_debug s) r fs = (Inr plan, fs')"
    and "x_vmm env = krun_vmm lib senv v (apply_opts (cp_opts plan))"
  shows "\<exists>v' ds ks p rest cio br sp.
      run_steps (map (instance_call lib senv) (drop (Suc (length (sb_calls (sv_sb s)))) (sb_calls (sv_sb s')))) v = (None, v')
    \<and> vi_client v' \<and> \<not> vi_client v
    \<and> vi_calls v' = vi_calls v @ map (\<lambda>k. (k, 0)) (map (disk_krun (vi_ctxID v)) ds @ ks) @
      [(KSetKernel (vi_ctxID v) (vi_kernelPath v) (if sn_goarch senv = ''arm64'' then 0 else 1) (vi_initrdPath v) ''console=hvc0'', 0),
       (KSetExec (vi_ctxID v) ''/sbin/vminitd'' (cStringArray (vsock_args @ o_InitArgs (apply_opts (cp_opts plan))))
          (cStringArray guest_environ), 0),
       (KSetConsole (vi_ctxID v) ''./krun.fifo'', 0),
       (KAddVsockPort (vi_ctxID v) 1025 p False, 0), (KAddVsockPort (vi_ctxID v) 1026 (vi_streamPath v') True, 0)] @ rest
    \<and> map (disk_krun (vi_ctxID v)) ds @ ks = config_krun (vi_ctxID v) (apply_opts (cp_opts plan))
    \<and> (\<forall>b q fmt ro. KAddDisk2 (vi_ctxID v) b q fmt ro \<notin> set ks)
    \<and> config_spec (x_bundle env) (rq_Bundle r) = Inr sp
    \<and> map d_MountPath ds = map host_source (filter is_disk (rq_Rootfs r)) @ map sm_Source (volumes (sp_Mounts sp))
    \<and> map m_Source (filter is_disk am @ bk_vmMounts (cp_block plan)) = guest_devices 97 (length ds)
    \<and> x_taskCreate env \<lparr>vc_ID = rq_ID r, vc_Bundle = br, vc_Rootfs = am, vc_Stdio = cio, vc_Options = rq_Options r\<rparr> = Inr pid"
proof -
  obtain plan' cio br sp where pl: "create_prepare env (sv_debug s) r fs = (Inr plan', fs')"
    and st': "sandbox_Start (x_vmm env) (cp_opts plan') (sv_sb s) = (None, sv_sb s')"
    and sp: "config_spec (x_bundle env) (rq_Bundle r) = Inr sp"
    and names': "map d_MountPath (opt_disks (cp_opts plan')) =
       map host_source (filter is_disk (rq_Rootfs r)) @ map sm_Source (volumes (sp_Mounts sp))"
      "map m_Source (filter is_disk am @ bk_vmMounts (cp_block plan')) = guest_devices 97 (length (opt_disks (cp_opts plan')))"
    and task: "x_taskCreate env \<lparr>vc_ID = rq_ID r, vc_Bundle = br, vc_Rootfs = am, vc_Stdio = cio,
                 vc_Options = rq_Options r\<rparr> = Inr pid"
    by (rule create_plan_disks [OF assms(1-3)])
  have "plan' = plan" using pl assms(4) by simp
  note names = names' [unfolded this] and st = st' [unfolded this assms(5)]
  let ?o = "apply_opts (cp_opts plan)" and ?c = "vi_ctxID v"
  obtain ks0 v1 v' where calls: "sb_calls (sv_sb s') = sb_calls (sv_sb s) @ VNewInstance (o_StateDir ?o)
        # config_calls ?o @ [VStart (o_InitArgs ?o)]"
    and k0: "map (krun_of ?c) (config_calls ?o) = map Some ks0"
    and v1: "v1 = v\<lparr>vi_calls := vi_calls v @ map (\<lambda>k. (k, 0)) ks0\<rparr>"
    and start: "instance_Start lib senv (o_InitArgs ?o) v1 = (None, v')"
    and run: "run_steps (map (instance_call lib senv) (config_calls ?o @ [VStart (o_InitArgs ?o)])) v = (None, v')"
    using sandbox_replay [OF st] by blast
  have tail: "drop (Suc (length (sb_calls (sv_sb s)))) (sb_calls (sv_sb s')) = config_calls ?o @ [VStart (o_InitArgs ?o)]"
    by (simp add: calls)
  obtain ks where ks: "config_krun ?c ?o = map (disk_krun ?c) (opt_disks (cp_opts plan)) @ ks"
    and others: "\<forall>b q fmt ro. KAddDisk2 ?c b q fmt ro \<notin> set ks"
    using config_krun_disks by blast
  have "vi_calls v1 = vi_calls v @ map (\<lambda>k. (k, 0)) (map (disk_krun ?c) (opt_disks (cp_opts plan)) @ ks)"
    and same: "vi_ctxID v1 = ?c" "vi_kernelPath v1 = vi_kernelPath v" "vi_initrdPath v1 = vi_initrdPath v"
      "vi_client v1 = vi_client v"
    using config_krun_calls [OF k0] ks by (simp_all add: v1)
  with instance_Start_calls [OF start] obtain cwd p rest where
    "vi_calls v' = vi_calls v @ map (\<lambda>k. (k, 0)) (map (disk_krun ?c) (opt_disks (cp_opts plan)) @ ks) @
      [(KSetKernel ?c (vi_kernelPath v) (if sn_goarch senv = ''arm64'' then 0 else 1) (vi_initrdPath v) ''console=hvc0'', 0),
       (KSetExec ?c ''/sbin/vminitd'' (cStringArray (vsock_args @ o_InitArgs ?o)) (cStringArray guest_environ), 0),
       (KSetConsole ?c ''./krun.fifo'', 0),
       (KAddVsockPort ?c 1025 p False, 0), (KAddVsockPort ?c 1026 (vi_streamPath v') True, 0)] @ rest"
    "vi_client v'" "\<not> vi_client v" by (auto simp only: same append_assoc)
  with run [folded tail] ks [symmetric] others sp names task show ?thesis by blast
qed

definition demo_plan :: create_plan where
  "demo_plan = projr (fst (create_prepare demo_shim False demo_request []))"

definition krun_shim :: shim_env where
  "krun_shim = demo_shim\<lparr>x_vmm := krun_vmm calm_lib calm_start demo_instance (apply_opts (cp_opts demo_plan))\<rparr>"

lemma krun_create:
  "created_pid (shim_Create krun_shim False demo_request (NewTaskService NewVMSandbox False, [])) = Some 42"
  by code_simp

theorem container_disks_in_libkrun_witness:
  "\<exists>s' fs' (v' :: vmInstance) ds rest. shim_Create krun_shim False demo_request (NewTaskService NewVMSandbox False, []) = Done (Inr 42, s', fs')
    \<and> vi_client v' \<and> vi_calls v' = map (\<lambda>d. (disk_krun 0 d, 0)) ds @ rest
    \<and> map d_MountPath ds = [''/root.img'', ''/vol.img'']"
proof -
  let ?s = "NewTaskService NewVMSandbox False"
  obtain s' fs' where c: "shim_Create krun_shim False demo_request (?s, []) = Done (Inr 42, s', fs')"
    using krun_create by (auto elim: created_pid.elims)
  obtain am opts da fs'' where t: "transformMounts (x_host krun_shim) (rq_ID demo_request) (rq_Rootfs demo_request)
      (newDiskAllocator, []) = (Inr (am, opts), (da, fs''))"
    by (simp add: transformMounts_def transform_mount_def transform_ext4_def ext4_mount_def da_Next_def demo_request_def)
  have d: "on_disks (rq_Rootfs demo_request)" by (simp add: on_disks_def demo_request_def ext4_mount_def)
  obtain plan where pl: "create_prepare krun_shim (sv_debug ?s) demo_request [] = (Inr plan, fs')"
    by (rule create_started [OF c])
  then have "plan = demo_plan" by (simp add: krun_shim_def demo_plan_def NewTaskService_def)
  then have vmm: "x_vmm krun_shim = krun_vmm calm_lib calm_start demo_instance (apply_opts (cp_opts plan))"
    by (simp add: krun_shim_def)
  have one: "map host_source (filter is_disk (rq_Rootfs demo_request)) = [''/root.img'']"
    by (simp add: demo_request_def ext4_mount_def is_disk_def host_source_def)
  have vols: "map sm_Source (volumes (sp_Mounts sp)) = [''/vol.img'']"
    if "config_spec (x_bundle krun_shim) (rq_Bundle demo_request) = Inr sp" for sp
    using that by (auto simp: config_spec_def krun_shim_def demo_shim_def)
  have i: "vi_ctxID demo_instance = 0" "vi_calls demo_instance = []" by (simp_all add: demo_instance_def)
  obtain v' :: vmInstance and ds ks rest sp where "vi_client v'" "vi_calls v' = [] @ map (\<lambda>k. (k, 0)) (map (disk_krun 0) ds @ ks) @ rest"
    "config_spec (x_bundle krun_shim) (rq_Bundle demo_request) = Inr sp"
    "map d_MountPath ds = [''/root.img''] @ map sm_Source (volumes (sp_Mounts sp))"
    using container_disks_in_libkrun [OF c t d pl vmm] unfolding one i by (elim exE conjE) (rule that, assumption+)
  then have "vi_client v'" "vi_calls v' = map (\<lambda>d. (disk_krun 0 d, 0)) ds @ map (\<lambda>k. (k, 0)) ks @ rest"
    "map d_MountPath ds = [''/root.img'', ''/vol.img'']" using vols by simp_all
  with c show ?thesis by (intro exI conjI)
qed

end
